(* ===== verification/Iax_Prelude.thy ===== *)
theory Iax_Prelude
  imports Main "HOL-Library.Word"
begin

text \<open>
  Shared vocabulary of the development: the machine-integer types of the C code, the C truth
  test of a masked word, the little- and big-endian byte layouts that the firmware interface and
  the netlink tools use, the kernel error codes that the modelled functions return, and the
  generic lemmas (bit blasting of 32-bit words, lists updated by index) that the components use.
\<close>

unbundle bit_operations_syntax

section \<open>Machine integers\<close>

type_synonym u8 = "8 word"
type_synonym u16 = "16 word"
type_synonym u32 = "32 word"
type_synonym u64 = "64 word"

text \<open>The truth value of the C expression \<open>x & m\<close>.\<close>

definition tst :: "'a::len word \<Rightarrow> 'a word \<Rightarrow> bool" where
  "tst x m \<longleftrightarrow> x AND m \<noteq> 0"

text \<open>The error codes returned (negated) by the modelled kernel functions.\<close>

datatype errno = EINVAL | ERANGE | ENOMEM | EIO | ENOBUFS | ENOENT | EMSGSIZE | ENOSPC | EPERM

section \<open>Collections\<close>

named_theorems rate_simps \<open>definitions of the rate_n_flags accessors\<close>
named_theorems csi_defs \<open>operations of the CSI collector\<close>
named_theorems hdr_simps \<open>definitions of the 802.11 frame-control predicates\<close>

section \<open>Bit blasting of 32-bit words\<close>

text \<open>
  Two 32-bit words are equal when their 32 bits are. With the quantifier written out, an equation
  between words built from masks and shifts becomes propositional and the simplifier decides it.
\<close>

lemma all_less_32:
  "(\<forall>n<32. P n) \<longleftrightarrow>
     P 0 \<and> P 1 \<and> P 2 \<and> P 3 \<and> P 4 \<and> P 5 \<and> P 6 \<and> P 7 \<and> P 8 \<and> P 9 \<and> P 10 \<and> P 11 \<and>
     P 12 \<and> P 13 \<and> P 14 \<and> P 15 \<and> P 16 \<and> P 17 \<and> P 18 \<and> P 19 \<and> P 20 \<and> P 21 \<and> P 22 \<and>
     P 23 \<and> P 24 \<and> P 25 \<and> P 26 \<and> P 27 \<and> P 28 \<and> P 29 \<and> P 30 \<and> P (31::nat)"
  (is "_ \<longleftrightarrow> ?all")
proof -
  have "(\<forall>n<32. P n) \<longleftrightarrow> list_all P [0..<32]" by (auto simp: list_all_iff)
  also have "\<dots> \<longleftrightarrow> ?all" by (simp add: upt_conv_Cons numeral_eq_Suc)
  finally show ?thesis .
qed

lemma u32_eq_bits: "x = y \<longleftrightarrow> (\<forall>n<32. bit x n = bit (y :: u32) n)"
  by (auto intro: bit_word_eqI)

lemmas u32_blast = u32_eq_bits all_less_32 bit_simps

text \<open>Testing a single-bit mask is reading the bit.\<close>

lemma and_eq_0_iff_no_common_bit:
  "(x :: 'a::len word) AND m = 0 \<longleftrightarrow> (\<forall>n. bit m n \<longrightarrow> \<not> bit x n)"
  by (auto simp: bit_eq_iff bit_simps dest: bit_imp_le_length)

lemma tst_or: "tst (v OR w) m \<longleftrightarrow> tst v m \<or> tst w m" for v w :: "'a::len word"
  by (auto simp: tst_def and_eq_0_iff_no_common_bit bit_simps)

lemma tst_push_bit_1 [simp]:
  "n < LENGTH('a) \<Longrightarrow> tst (x :: 'a::len word) (push_bit n 1) \<longleftrightarrow> bit x n"
  by (auto simp: tst_def and_eq_0_iff_no_common_bit bit_simps)

text \<open>The range of the machine integers.\<close>

lemma u8_less: "unat (x :: u8) < 256"
  using unsigned_less [of x, where ?'a = nat] by simp

lemma u16_less: "unat (x :: u16) < 65536"
  using unsigned_less [of x, where ?'a = nat] by simp

lemma u32_less: "unat (x :: u32) < 4294967296"
  using unsigned_less [of x, where ?'a = nat] by simp

lemma unat_minus_of_nat: "n \<le> unat x \<Longrightarrow> unat (x - of_nat n :: 'a::len word) = unat x - n"
proof -
  assume n: "n \<le> unat x"
  then have "x - of_nat n = of_nat (unat x - n)" by (simp add: of_nat_diff)
  moreover have "unat x < 2 ^ LENGTH('a)" by (rule unsigned_less)
  then have "take_bit LENGTH('a) (unat x - n) = unat x - n"
    by (intro take_bit_nat_eq_self) linarith
  ultimately show ?thesis by (simp add: unsigned_of_nat)
qed

section \<open>Byte layouts\<close>

text \<open>
  \<open>cpu_to_le32\<close>, \<open>cpu_to_le64\<close> followed by a copy into a packed structure write the bytes least
  significant first; \<open>htonl\<close> followed by a copy writes them most significant first.
\<close>

definition le_bytes :: "nat \<Rightarrow> 'a::len word \<Rightarrow> u8 list" where
  "le_bytes n w = map (\<lambda>i. ucast (drop_bit (8 * i) w)) [0..<n]"

definition be_bytes :: "nat \<Rightarrow> 'a::len word \<Rightarrow> u8 list" where
  "be_bytes n w = rev (le_bytes n w)"

fun of_le_bytes :: "u8 list \<Rightarrow> 'a::len word" where
  "of_le_bytes [] = 0"
| "of_le_bytes (b # bs) = ucast b OR push_bit 8 (of_le_bytes bs)"

lemma length_le_bytes [simp]: "length (le_bytes n w) = n"
  by (simp add: le_bytes_def)

lemma length_be_bytes [simp]: "length (be_bytes n w) = n"
  by (simp add: be_bytes_def)

lemma le_bytes_Suc: "le_bytes (Suc n) w = ucast w # le_bytes n (drop_bit 8 w)"
proof -
  have "le_bytes (Suc n) w = ucast w # map (\<lambda>i. ucast (drop_bit (8 * i) w)) [Suc 0..<Suc n]"
    by (simp add: le_bytes_def upt_conv_Cons del: upt_Suc)
  also have "[Suc 0..<Suc n] = map Suc [0..<n]"
    by (simp only: map_Suc_upt)
  finally show ?thesis
    by (simp add: le_bytes_def comp_def drop_bit_drop_bit add.commute)
qed

text \<open>Reading back what was written: the low \<open>8 * n\<close> bits of the word.\<close>

lemma of_le_bytes_le_bytes:
  "(of_le_bytes (le_bytes n w) :: 'a::len word) = take_bit (8 * n) w"
proof (induction n arbitrary: w)
  case 0
  then show ?case by (simp add: le_bytes_def)
next
  case (Suc n)
  show ?case
  proof (rule bit_word_eqI)
    fix k assume "k < LENGTH('a)"
    then show "bit (of_le_bytes (le_bytes (Suc n) w) :: 'a word) k = bit (take_bit (8 * Suc n) w) k"
      by (auto simp: le_bytes_Suc Suc.IH bit_simps)
  qed
qed

lemma of_le_bytes_word:
  "LENGTH('a) = 8 * n \<Longrightarrow> (of_le_bytes (le_bytes n w) :: 'a::len word) = w"
  by (simp add: of_le_bytes_le_bytes take_bit_word_eq_self)

section \<open>Find first set, and the number formats of printf\<close>

text \<open>\<open>ffs(x)\<close>: one plus the position of the lowest set bit, 0 for 0.\<close>

definition ffs :: "'a::len word \<Rightarrow> nat" where
  "ffs x = (case find (bit x) [0..<LENGTH('a)] of None \<Rightarrow> 0 | Some n \<Rightarrow> Suc n)"

lemma ffs_bit: "ffs (x :: 'a::len word) = Suc n \<Longrightarrow> bit x n \<and> n < LENGTH('a)"
  by (auto simp: ffs_def find_Some_iff split: option.splits)

lemma ffs_eq_0 [simp]: "ffs (x :: 'a::len word) = 0 \<longleftrightarrow> x = 0"
proof -
  have "x = 0 \<longleftrightarrow> (\<forall>n<LENGTH('a). \<not> bit x n)"
    by (auto intro: bit_word_eqI)
  then show ?thesis by (auto simp: ffs_def find_None_iff find_Some_iff split: option.splits)
qed

definition digit_char :: "nat \<Rightarrow> char" where
  "digit_char d = (''0123456789abcdef'' ! d)"

fun print_base :: "nat \<Rightarrow> nat \<Rightarrow> nat \<Rightarrow> string" where
  "print_base 0 b n = []"
| "print_base (Suc fuel) b n =
     (if n < b then [digit_char n] else print_base fuel b (n div b) @ [digit_char (n mod b)])"

text \<open>\<open>%u\<close> and \<open>%x\<close>: a number below \<open>2 ^ 64\<close> has at most 64 digits in any base.\<close>

definition print_dec :: "nat \<Rightarrow> string" where
  "print_dec n = print_base 64 10 n"

definition print_hex :: "nat \<Rightarrow> string" where
  "print_hex n = print_base 64 16 n"

text \<open>
  \<open>scnprintf(buf, bufsz, ...)\<close> stores at most \<open>bufsz - 1\<close> characters and a terminator; its value
  is the number of characters stored, the length of the string modelled here.
\<close>

definition scnprintf :: "nat \<Rightarrow> string \<Rightarrow> string" where
  "scnprintf bufsz out = take (bufsz - 1) out"

lemma ex_bool_simps [simp]: "Ex Not" "\<exists>b. b"
  by blast+

section \<open>Buffers updated in place\<close>

text \<open>\<open>memcpy(buf + pos, bytes, n)\<close> on a buffer that is long enough.\<close>

definition put_bytes :: "nat \<Rightarrow> u8 list \<Rightarrow> u8 list \<Rightarrow> u8 list" where
  "put_bytes pos bs buf = take pos buf @ bs @ drop (pos + length bs) buf"

definition get_bytes :: "nat \<Rightarrow> nat \<Rightarrow> u8 list \<Rightarrow> u8 list" where
  "get_bytes pos n buf = take n (drop pos buf)"

lemma length_put_bytes [simp]:
  "pos + length bs \<le> length buf \<Longrightarrow> length (put_bytes pos bs buf) = length buf"
  by (simp add: put_bytes_def)

lemma get_put_bytes_same [simp]:
  "pos + length bs \<le> length buf \<Longrightarrow> n = length bs \<Longrightarrow> get_bytes pos n (put_bytes pos bs buf) = bs"
  by (simp add: get_bytes_def put_bytes_def)

lemma nth_put_bytes_below [simp]:
  "i < pos \<Longrightarrow> pos \<le> length buf \<Longrightarrow> put_bytes pos bs buf ! i = buf ! i"
  by (simp add: put_bytes_def nth_append)

lemma nth_put_bytes_above [simp]:
  "pos + length bs \<le> i \<Longrightarrow> i < length buf \<Longrightarrow> put_bytes pos bs buf ! i = buf ! i"
  by (auto simp: put_bytes_def nth_append)

lemma length_concat_slots:
  "(\<And>i. i \<in> set xs \<Longrightarrow> length (f i) = k) \<Longrightarrow> length (concat (map f xs)) = k * length xs"
  by (induction xs) auto

lemma put_bytes_put_bytes_above:
  "put_bytes (pos + length bs) cs (put_bytes pos bs buf) = put_bytes pos (bs @ cs) buf"
  if "pos + length bs + length cs \<le> length buf"
  using that by (simp add: put_bytes_def ac_simps)

section \<open>Runs of a step relation\<close>

text \<open>
  The contract of a step relation with an invariant, and of one that conserves a quantity. The
  state machines of the development interpret these on their own steps.
\<close>

locale invariant_system =
  fixes step :: "'s \<Rightarrow> 's \<Rightarrow> bool" and inv :: "'s \<Rightarrow> bool"
  assumes inv_step: "step s s' \<Longrightarrow> inv s \<Longrightarrow> inv s'"
begin

lemma inv_run: "step\<^sup>*\<^sup>* s s' \<Longrightarrow> inv s \<Longrightarrow> inv s'"
  by (induction rule: rtranclp_induct) (auto intro: inv_step)

end

locale conserving_system =
  fixes step :: "'s \<Rightarrow> 's \<Rightarrow> bool" and quantity :: "'s \<Rightarrow> 'q"
  assumes quantity_step: "step s s' \<Longrightarrow> quantity s' = quantity s"

sublocale conserving_system \<subseteq> kept: invariant_system step "\<lambda>s. quantity s = q" for q
  by unfold_locales (simp add: quantity_step)

context conserving_system
begin

lemma quantity_run: "step\<^sup>*\<^sup>* s s' \<Longrightarrow> quantity s' = quantity s"
  by (rule kept.inv_run) simp_all

end

text \<open>Occurrences in a list updated at one place.\<close>

definition occs :: "('a \<Rightarrow> bool) \<Rightarrow> 'a list \<Rightarrow> int" where
  "occs P xs = int (length (filter P xs))"

lemma occs_simps [simp]:
  "occs P [] = 0" "occs P (x # xs) = of_bool (P x) + occs P xs" "occs P (xs @ ys) = occs P xs + occs P ys"
  by (simp_all add: occs_def)

lemma occs_list_update:
  "i < length xs \<Longrightarrow> occs P (xs[i := x]) = occs P xs - of_bool (P (xs ! i)) + of_bool (P x)"
proof (induction xs arbitrary: i)
  case (Cons y ys)
  then show ?case by (cases i) auto
qed simp

lemma occs_nonneg [simp]: "0 \<le> occs P xs"
  by (simp add: occs_def)

end
