(* ===== verification/Rx_Frame.thy ===== *)
theory Rx_Frame
  imports Iax_Prelude
begin

text \<open>
  What the receive path reads from a frame: the 802.11 frame-control and sequence-number helpers
  of include/linux/ieee80211.h, the parts of the 802.11 header, and the receive descriptor of the
  firmware (fw/api/rx.h). Multi-byte fields are held in host order.
\<close>

unbundle bit_operations_syntax

section \<open>Sequence numbers\<close>

definition IEEE80211_SN_MASK :: u16 where "IEEE80211_SN_MASK = 0xFFF"

definition ieee80211_sn_less :: "u16 \<Rightarrow> u16 \<Rightarrow> bool" where
  "ieee80211_sn_less sn1 sn2 \<longleftrightarrow> 2048 < unat ((sn1 - sn2) AND IEEE80211_SN_MASK)"

definition ieee80211_sn_add :: "u16 \<Rightarrow> u16 \<Rightarrow> u16" where
  "ieee80211_sn_add sn1 sn2 = (sn1 + sn2) AND IEEE80211_SN_MASK"

definition ieee80211_sn_inc :: "u16 \<Rightarrow> u16" where
  "ieee80211_sn_inc sn = ieee80211_sn_add sn 1"

definition ieee80211_sn_sub :: "u16 \<Rightarrow> u16 \<Rightarrow> u16" where
  "ieee80211_sn_sub sn1 sn2 = (sn1 - sn2) AND IEEE80211_SN_MASK"

section \<open>The 802.11 header\<close>

record ieee80211_hdr =
  frame_control :: u16
  addr1 :: "u8 list"
  addr2 :: "u8 list"
  addr3 :: "u8 list"
  seq_ctrl :: u16
  qos_ctl :: u8

definition IEEE80211_FCTL_FTYPE :: u16 where [hdr_simps]: "IEEE80211_FCTL_FTYPE = 0x000c"
definition IEEE80211_FCTL_STYPE :: u16 where [hdr_simps]: "IEEE80211_FCTL_STYPE = 0x00f0"
definition IEEE80211_FCTL_MOREFRAGS :: u16 where [hdr_simps]: "IEEE80211_FCTL_MOREFRAGS = 0x0400"
definition IEEE80211_FCTL_RETRY :: u16 where [hdr_simps]: "IEEE80211_FCTL_RETRY = 0x0800"
definition IEEE80211_FCTL_PROTECTED :: u16 where [hdr_simps]: "IEEE80211_FCTL_PROTECTED = 0x4000"
definition IEEE80211_FTYPE_MGMT :: u16 where [hdr_simps]: "IEEE80211_FTYPE_MGMT = 0x0000"
definition IEEE80211_FTYPE_CTL :: u16 where [hdr_simps]: "IEEE80211_FTYPE_CTL = 0x0004"
definition IEEE80211_FTYPE_DATA :: u16 where [hdr_simps]: "IEEE80211_FTYPE_DATA = 0x0008"
definition IEEE80211_STYPE_BEACON :: u16 where [hdr_simps]: "IEEE80211_STYPE_BEACON = 0x0080"
definition IEEE80211_STYPE_BACK_REQ :: u16 where [hdr_simps]: "IEEE80211_STYPE_BACK_REQ = 0x0080"
definition IEEE80211_STYPE_QOS_DATA :: u16 where [hdr_simps]: "IEEE80211_STYPE_QOS_DATA = 0x0080"
definition IEEE80211_STYPE_QOS_NULLFUNC :: u16 where [hdr_simps]: "IEEE80211_STYPE_QOS_NULLFUNC = 0x00C0"
definition IEEE80211_QOS_CTL_TID_MASK :: u8 where [hdr_simps]: "IEEE80211_QOS_CTL_TID_MASK = 0x0f"

definition ieee80211_has_retry :: "u16 \<Rightarrow> bool" where
  [hdr_simps]: "ieee80211_has_retry fc \<longleftrightarrow> fc AND IEEE80211_FCTL_RETRY \<noteq> 0"

definition ieee80211_has_protected :: "u16 \<Rightarrow> bool" where
  [hdr_simps]: "ieee80211_has_protected fc \<longleftrightarrow> fc AND IEEE80211_FCTL_PROTECTED \<noteq> 0"

definition ieee80211_is_mgmt :: "u16 \<Rightarrow> bool" where
  [hdr_simps]: "ieee80211_is_mgmt fc \<longleftrightarrow> fc AND IEEE80211_FCTL_FTYPE = IEEE80211_FTYPE_MGMT"

definition ieee80211_is_ctl :: "u16 \<Rightarrow> bool" where
  [hdr_simps]: "ieee80211_is_ctl fc \<longleftrightarrow> fc AND IEEE80211_FCTL_FTYPE = IEEE80211_FTYPE_CTL"

definition ieee80211_is_data :: "u16 \<Rightarrow> bool" where
  [hdr_simps]: "ieee80211_is_data fc \<longleftrightarrow> fc AND IEEE80211_FCTL_FTYPE = IEEE80211_FTYPE_DATA"

definition ieee80211_is_data_qos :: "u16 \<Rightarrow> bool" where
  [hdr_simps]: "ieee80211_is_data_qos fc \<longleftrightarrow>
     fc AND (IEEE80211_FCTL_FTYPE OR IEEE80211_STYPE_QOS_DATA) =
     IEEE80211_FTYPE_DATA OR IEEE80211_STYPE_QOS_DATA"

definition ieee80211_is_data_present :: "u16 \<Rightarrow> bool" where
  [hdr_simps]: "ieee80211_is_data_present fc \<longleftrightarrow>
     fc AND (IEEE80211_FCTL_FTYPE OR 0x40) = IEEE80211_FTYPE_DATA"

definition ieee80211_is_beacon :: "u16 \<Rightarrow> bool" where
  [hdr_simps]: "ieee80211_is_beacon fc \<longleftrightarrow>
     fc AND (IEEE80211_FCTL_FTYPE OR IEEE80211_FCTL_STYPE) = IEEE80211_FTYPE_MGMT OR IEEE80211_STYPE_BEACON"

definition ieee80211_is_back_req :: "u16 \<Rightarrow> bool" where
  [hdr_simps]: "ieee80211_is_back_req fc \<longleftrightarrow>
     fc AND (IEEE80211_FCTL_FTYPE OR IEEE80211_FCTL_STYPE) = IEEE80211_FTYPE_CTL OR IEEE80211_STYPE_BACK_REQ"

definition ieee80211_is_qos_nullfunc :: "u16 \<Rightarrow> bool" where
  [hdr_simps]: "ieee80211_is_qos_nullfunc fc \<longleftrightarrow>
     fc AND (IEEE80211_FCTL_FTYPE OR IEEE80211_FCTL_STYPE) =
     IEEE80211_FTYPE_DATA OR IEEE80211_STYPE_QOS_NULLFUNC"

definition ieee80211_get_tid :: "ieee80211_hdr \<Rightarrow> u8" where
  "ieee80211_get_tid hdr = qos_ctl hdr AND IEEE80211_QOS_CTL_TID_MASK"

text \<open>\<open>is_multicast_ether_addr\<close>: the group bit of the first byte.\<close>

definition is_multicast_ether_addr :: "u8 list \<Rightarrow> bool" where
  "is_multicast_ether_addr a \<longleftrightarrow> bit (a ! 0) 0"

definition IEEE80211_FCTL_TODS :: u16 where [hdr_simps]: "IEEE80211_FCTL_TODS = 0x0100"
definition IEEE80211_FCTL_FROMDS :: u16 where [hdr_simps]: "IEEE80211_FCTL_FROMDS = 0x0200"
definition IEEE80211_FCTL_ORDER :: u16 where [hdr_simps]: "IEEE80211_FCTL_ORDER = 0x8000"
definition IEEE80211_FTYPE_EXT :: u16 where [hdr_simps]: "IEEE80211_FTYPE_EXT = 0x000c"
definition IEEE80211_STYPE_PROBE_RESP :: u16 where [hdr_simps]: "IEEE80211_STYPE_PROBE_RESP = 0x0050"
definition IEEE80211_QOS_CTL_LEN :: nat where [hdr_simps]: "IEEE80211_QOS_CTL_LEN = 2"
definition IEEE80211_HT_CTL_LEN :: nat where [hdr_simps]: "IEEE80211_HT_CTL_LEN = 4"

definition ieee80211_has_a4 :: "u16 \<Rightarrow> bool" where
  [hdr_simps]: "ieee80211_has_a4 fc \<longleftrightarrow>
     fc AND (IEEE80211_FCTL_TODS OR IEEE80211_FCTL_FROMDS) = IEEE80211_FCTL_TODS OR IEEE80211_FCTL_FROMDS"

definition ieee80211_has_order :: "u16 \<Rightarrow> bool" where
  [hdr_simps]: "ieee80211_has_order fc \<longleftrightarrow> fc AND IEEE80211_FCTL_ORDER \<noteq> 0"

definition ieee80211_is_ext :: "u16 \<Rightarrow> bool" where
  [hdr_simps]: "ieee80211_is_ext fc \<longleftrightarrow> fc AND IEEE80211_FCTL_FTYPE = IEEE80211_FTYPE_EXT"

definition ieee80211_is_probe_resp :: "u16 \<Rightarrow> bool" where
  [hdr_simps]: "ieee80211_is_probe_resp fc \<longleftrightarrow>
     fc AND (IEEE80211_FCTL_FTYPE OR IEEE80211_FCTL_STYPE) = IEEE80211_FTYPE_MGMT OR IEEE80211_STYPE_PROBE_RESP"

definition ieee80211_hdrlen :: "u16 \<Rightarrow> nat" where
  "ieee80211_hdrlen fc =
     (if ieee80211_is_ext fc then 4
      else if ieee80211_is_data fc then
        (if ieee80211_has_a4 fc then 30 else 24) +
        (if ieee80211_is_data_qos fc
         then IEEE80211_QOS_CTL_LEN + (if ieee80211_has_order fc then IEEE80211_HT_CTL_LEN else 0) else 0)
      else if ieee80211_is_mgmt fc then 24 + (if ieee80211_has_order fc then IEEE80211_HT_CTL_LEN else 0)
      else if ieee80211_is_ctl fc then (if fc AND 0x00E0 = 0x00C0 then 10 else 16)
      else 24)"

text \<open>
  The header as it lies in memory; the byte of the QoS control field comes after the fourth address,
  if there is one (\<open>ieee80211_get_qos_ctl\<close>).
\<close>

definition ieee80211_get_qos_ctl :: "u16 \<Rightarrow> nat" where
  "ieee80211_get_qos_ctl fc = (if ieee80211_has_a4 fc then 30 else 24)"

definition hdr_of_bytes :: "u8 list \<Rightarrow> ieee80211_hdr" where
  "hdr_of_bytes d =
     (let fc = of_le_bytes (get_bytes 0 2 d) in
      \<lparr>frame_control = fc, addr1 = get_bytes 4 6 d, addr2 = get_bytes 10 6 d, addr3 = get_bytes 16 6 d,
       seq_ctrl = of_le_bytes (get_bytes 22 2 d), qos_ctl = d ! ieee80211_get_qos_ctl fc\<rparr>)"

section \<open>Bands and channels\<close>

datatype nl80211_band =
    NL80211_BAND_2GHZ | NL80211_BAND_5GHZ | NL80211_BAND_60GHZ | NL80211_BAND_6GHZ | NL80211_BAND_S1GHZ
  | NL80211_BAND_LC

text \<open>Channel numbers to kHz and to MHz.\<close>

definition ieee80211_channel_to_freq_khz :: "int \<Rightarrow> nl80211_band \<Rightarrow> int" where
  "ieee80211_channel_to_freq_khz chan band =
     (if chan \<le> 0 then 0
      else case band of
        NL80211_BAND_5GHZ \<Rightarrow>
          (if 182 \<le> chan \<and> chan \<le> 196 then (4000 + chan * 5) * 1000 else (5000 + chan * 5) * 1000)
      | NL80211_BAND_6GHZ \<Rightarrow>
          (if chan = 2 then 5935 * 1000 else if chan \<le> 233 then (5950 + chan * 5) * 1000 else 0)
      | NL80211_BAND_60GHZ \<Rightarrow> (if chan < 7 then (56160 + chan * 2160) * 1000 else 0)
      | NL80211_BAND_S1GHZ \<Rightarrow> 902000 + chan * 500
      | _ \<Rightarrow> (if chan = 14 then 2484 * 1000 else if chan < 14 then (2407 + chan * 5) * 1000 else 0))"

definition ieee80211_channel_to_frequency :: "int \<Rightarrow> nl80211_band \<Rightarrow> int" where
  "ieee80211_channel_to_frequency chan band = ieee80211_channel_to_freq_khz chan band div 1000"

section \<open>What is reported to mac80211 about a frame\<close>

definition RX_FLAG_MMIC_ERROR :: u32 where "RX_FLAG_MMIC_ERROR = 0x1"
definition RX_FLAG_DECRYPTED :: u32 where "RX_FLAG_DECRYPTED = 0x2"
definition RX_FLAG_MACTIME_PLCP_START :: u32 where "RX_FLAG_MACTIME_PLCP_START = 0x4"
definition RX_FLAG_MMIC_STRIPPED :: u32 where "RX_FLAG_MMIC_STRIPPED = 0x8"
definition RX_FLAG_FAILED_FCS_CRC :: u32 where "RX_FLAG_FAILED_FCS_CRC = 0x20"
definition RX_FLAG_AMPDU_DETAILS :: u32 where "RX_FLAG_AMPDU_DETAILS = 0x200"
definition RX_FLAG_PN_VALIDATED :: u32 where "RX_FLAG_PN_VALIDATED = 0x400"
definition RX_FLAG_DUP_VALIDATED :: u32 where "RX_FLAG_DUP_VALIDATED = 0x800"
definition RX_FLAG_MIC_STRIPPED :: u32 where "RX_FLAG_MIC_STRIPPED = 0x200000"
definition RX_FLAG_ALLOW_SAME_PN :: u32 where "RX_FLAG_ALLOW_SAME_PN = 0x400000"
definition RX_FLAG_ICV_STRIPPED :: u32 where "RX_FLAG_ICV_STRIPPED = 0x800000"
definition RX_FLAG_FAILED_PLCP_CRC :: u32 where "RX_FLAG_FAILED_PLCP_CRC = 0x40"
definition RX_FLAG_ONLY_MONITOR :: u32 where "RX_FLAG_ONLY_MONITOR = 0x20000"
definition RX_FLAG_RADIOTAP_TLV_AT_END :: u32 where "RX_FLAG_RADIOTAP_TLV_AT_END = 0x100000"
definition RX_FLAG_AMPDU_EOF_BIT :: u32 where "RX_FLAG_AMPDU_EOF_BIT = 0x1000000"
definition RX_FLAG_AMPDU_EOF_BIT_KNOWN :: u32 where "RX_FLAG_AMPDU_EOF_BIT_KNOWN = 0x2000000"
definition RX_FLAG_RADIOTAP_HE :: u32 where "RX_FLAG_RADIOTAP_HE = 0x4000000"
definition RX_FLAG_RADIOTAP_HE_MU :: u32 where "RX_FLAG_RADIOTAP_HE_MU = 0x8000000"
definition RX_FLAG_RADIOTAP_LSIG :: u32 where "RX_FLAG_RADIOTAP_LSIG = 0x10000000"
definition RX_FLAG_NO_PSDU :: u32 where "RX_FLAG_NO_PSDU = 0x20000000"

text \<open>The flags of the descriptor's \<open>phy_info\<close>.\<close>

definition IWL_RX_MPDU_PHY_AMPDU :: u16 where [hdr_simps]: "IWL_RX_MPDU_PHY_AMPDU = 0x20"
definition IWL_RX_MPDU_PHY_AMPDU_TOGGLE :: u16 where [hdr_simps]: "IWL_RX_MPDU_PHY_AMPDU_TOGGLE = 0x40"
definition IWL_RX_MPDU_PHY_SHORT_PREAMBLE :: u16 where [hdr_simps]: "IWL_RX_MPDU_PHY_SHORT_PREAMBLE = 0x80"
definition IWL_RX_MPDU_PHY_TSF_OVERLOAD :: u16 where [hdr_simps]: "IWL_RX_MPDU_PHY_TSF_OVERLOAD = 0x100"

section \<open>The receive descriptor\<close>

definition IWL_RX_MPDU_MFLG2_AMSDU :: u8 where "IWL_RX_MPDU_MFLG2_AMSDU = 0x40"
definition IWL_RX_MPDU_AMSDU_SUBFRAME_IDX_MASK :: u8 where "IWL_RX_MPDU_AMSDU_SUBFRAME_IDX_MASK = 0x7f"
definition IWL_RX_MPDU_AMSDU_LAST_SUBFRAME :: u8 where "IWL_RX_MPDU_AMSDU_LAST_SUBFRAME = 0x80"

definition IWL_RX_REORDER_DATA_INVALID_BAID :: nat where "IWL_RX_REORDER_DATA_INVALID_BAID = 0x7f"
definition IWL_RX_MPDU_REORDER_NSSN_MASK :: u32 where "IWL_RX_MPDU_REORDER_NSSN_MASK = 0x00000fff"
definition IWL_RX_MPDU_REORDER_SN_MASK :: u32 where "IWL_RX_MPDU_REORDER_SN_MASK = 0x00fff000"
definition IWL_RX_MPDU_REORDER_SN_SHIFT :: nat where "IWL_RX_MPDU_REORDER_SN_SHIFT = 12"
definition IWL_RX_MPDU_REORDER_BAID_MASK :: u32 where "IWL_RX_MPDU_REORDER_BAID_MASK = 0x7f000000"
definition IWL_RX_MPDU_REORDER_BAID_SHIFT :: nat where "IWL_RX_MPDU_REORDER_BAID_SHIFT = 24"
definition IWL_RX_MPDU_REORDER_BA_OLD_SN :: u32 where "IWL_RX_MPDU_REORDER_BA_OLD_SN = 0x80000000"

record iwl_rx_mpdu_desc =
  mpdu_len :: u16
  mac_flags1 :: u8
  mac_flags2 :: u8
  amsdu_info :: u8
  phy_info :: u16
  l3l4_flags :: u16
  rx_status_word :: u32
  reorder_data :: u32
  raw_xsum :: u16

section \<open>Arithmetic of sequence numbers\<close>

text \<open>The distance from one sequence number forward to another, modulo 4096.\<close>

definition sn_dist :: "u16 \<Rightarrow> u16 \<Rightarrow> nat" where
  "sn_dist a b = unat ((b - a) AND IEEE80211_SN_MASK)"

lemma unat_sn_mask: "unat (x AND IEEE80211_SN_MASK) = unat x mod 4096"
proof -
  have "IEEE80211_SN_MASK = mask 12" by (simp add: IEEE80211_SN_MASK_def mask_eq_exp_minus_1)
  then have "unat (x AND IEEE80211_SN_MASK) = unat (take_bit 12 x)" by (simp add: take_bit_eq_mask)
  then show ?thesis by (simp add: take_bit_eq_mod unat_mod_distrib)
qed

lemma uint_sub_mod: "uint (b - a :: u16) mod 4096 = (uint b - uint a) mod 4096"
proof -
  have "uint (b - a) = (uint b - uint a) mod 65536" by (simp add: uint_word_ariths)
  then show ?thesis by (simp add: mod_mod_cancel)
qed

lemma sn_dist_int: "int (sn_dist a b) = (uint b - uint a) mod 4096"
  by (simp add: sn_dist_def unat_sn_mask zmod_int uint_sub_mod)

lemma sn_dist_less: "sn_dist a b < 4096"
  by (simp add: sn_dist_def unat_sn_mask)

lemma sn_dist_self [simp]: "sn_dist a a = 0"
  by (simp add: sn_dist_def)

lemma int_mod_4096_minus:
  "(- x) mod (4096 :: int) = (if x mod 4096 = 0 then 0 else 4096 - x mod 4096)"
  by (simp add: zmod_zminus1_eq_if)

lemma sn_dist_rev: "sn_dist b a = (if sn_dist a b = 0 then 0 else 4096 - sn_dist a b)"
proof -
  have "int (sn_dist b a) = (- (uint b - uint a)) mod 4096" by (simp add: sn_dist_int)
  also have "\<dots> = (if int (sn_dist a b) = 0 then 0 else 4096 - int (sn_dist a b))"
    by (simp only: int_mod_4096_minus sn_dist_int)
  finally show ?thesis using sn_dist_less [of a b] by (auto split: if_splits)
qed

lemma ieee80211_sn_less_iff: "ieee80211_sn_less a b \<longleftrightarrow> 0 < sn_dist a b \<and> sn_dist a b < 2048"
proof -
  have "ieee80211_sn_less a b \<longleftrightarrow> 2048 < sn_dist b a" by (simp add: ieee80211_sn_less_def sn_dist_def)
  then show ?thesis using sn_dist_rev [of b a] sn_dist_less [of a b] by auto
qed

lemma sn_dist_add:
  "sn_dist (ieee80211_sn_add a (of_nat k)) b = sn_dist a b - k" if "k \<le> sn_dist a b" "k < 65536"
proof -
  have "uint (ieee80211_sn_add a (of_nat k)) mod 4096 = (uint a + int k) mod 4096"
  proof -
    have "uint (ieee80211_sn_add a (of_nat k)) = int (unat (a + of_nat k) mod 4096)"
      by (metis ieee80211_sn_add_def of_nat_unat unat_sn_mask)
    also have "\<dots> = (uint a + int k) mod 65536 mod 4096"
      using that(2) by (simp add: zmod_int uint_word_ariths unsigned_of_nat take_bit_eq_mod)
    finally show ?thesis by (simp add: mod_mod_cancel)
  qed
  then have "int (sn_dist (ieee80211_sn_add a (of_nat k)) b) = (uint b - (uint a + int k)) mod 4096"
    unfolding sn_dist_int by (rule mod_diff_cong [OF refl])
  also have "\<dots> = ((uint b - uint a) mod 4096 - int k) mod 4096" by (simp add: mod_diff_left_eq diff_diff_add)
  also have "\<dots> = (int (sn_dist a b) - int k) mod 4096" by (simp only: sn_dist_int)
  also have "\<dots> = int (sn_dist a b - k)"
    using that sn_dist_less [of a b] by (simp add: of_nat_diff)
  finally show ?thesis by simp
qed

lemma sn_dist_inc: "0 < sn_dist a b \<Longrightarrow> sn_dist (ieee80211_sn_inc a) b = sn_dist a b - 1"
  using sn_dist_add [of 1 a b] by (simp add: ieee80211_sn_inc_def)

lemma unat_sn_add:
  "k < 65536 \<Longrightarrow> unat (ieee80211_sn_add a (of_nat k)) = (unat a + k) mod 4096"
proof -
  assume k: "k < 65536"
  have "unat (a + of_nat k :: u16) = (unat a + k) mod 65536"
    using k by (simp add: unat_word_ariths unsigned_of_nat take_bit_eq_mod)
  then show ?thesis by (simp add: ieee80211_sn_add_def unat_sn_mask mod_mod_cancel)
qed

lemma unat_sn_inc: "unat (ieee80211_sn_inc a) = (unat a + 1) mod 4096"
  using unat_sn_add [of 1 a] by (simp add: ieee80211_sn_inc_def)

lemma sn_dist_zero_iff:
  "unat a < 4096 \<Longrightarrow> unat b < 4096 \<Longrightarrow> sn_dist a b = 0 \<longleftrightarrow> a = b"
proof
  assume r: "unat a < 4096" "unat b < 4096" and z: "sn_dist a b = 0"
  have "(uint b - uint a) mod 4096 = 0" using z sn_dist_int [of a b] by simp
  then have "uint b mod 4096 = uint a mod 4096" by (simp add: mod_eq_dvd_iff dvd_eq_mod_eq_0)
  moreover have "uint a < 4096" "uint b < 4096" using r by (metis of_nat_less_iff of_nat_numeral of_nat_unat)+
  ultimately show "a = b" by (simp add: word_uint_eq_iff)
qed simp

end
