(* ===== verification/Rate_N_Flags.thy ===== *)
theory Rate_N_Flags
  imports Rx_Frame
begin

text \<open>
  The rate word \<open>rate_n_flags\<close> that the firmware attaches to every received frame and to every
  channel measurement: its two layouts (fw/api/rs.h), the conversion from the first layout to the
  second, the legacy rate tables and the printing of a rate (fw/rs.c), and the index conversions
  of mvm/utils.c. The views \<open>rate_view_v1\<close> and \<open>rate_view_v2\<close> read a rate word the way the
  comments of fw/api/rs.h document its two layouts; the conversion refines one into the other.
\<close>

unbundle bit_operations_syntax

named_theorems rate_consts \<open>the masks and positions of fw/api/rs.h\<close>

section \<open>The constants of fw/api/rs.h\<close>

definition IWL_RATE_COUNT_LEGACY :: nat where [rate_consts]: "IWL_RATE_COUNT_LEGACY = 12"
definition IWL_FIRST_CCK_RATE :: nat where [rate_consts]: "IWL_FIRST_CCK_RATE = 0"
definition IWL_FIRST_OFDM_RATE :: nat where [rate_consts]: "IWL_FIRST_OFDM_RATE = 4"
definition IWL_RATE_INVALID :: nat where [rate_consts]: "IWL_RATE_INVALID = 17"
definition RATE_MCS_HT_MSK_V1 :: u32 where [rate_consts]: "RATE_MCS_HT_MSK_V1 = push_bit 8 1"
definition RATE_MCS_CCK_MSK_V1 :: u32 where [rate_consts]: "RATE_MCS_CCK_MSK_V1 = push_bit 9 1"
definition RATE_MCS_VHT_MSK_V1 :: u32 where [rate_consts]: "RATE_MCS_VHT_MSK_V1 = push_bit 26 1"
definition RATE_HT_MCS_RATE_CODE_MSK_V1 :: u32 where [rate_consts]: "RATE_HT_MCS_RATE_CODE_MSK_V1 = 0x7"
definition RATE_HT_MCS_NSS_POS_V1 :: nat where [rate_consts]: "RATE_HT_MCS_NSS_POS_V1 = 3"
definition RATE_HT_MCS_MIMO2_MSK :: u32 where [rate_consts]: "RATE_HT_MCS_MIMO2_MSK = push_bit 3 1"
definition RATE_VHT_MCS_RATE_CODE_MSK :: u32 where [rate_consts]: "RATE_VHT_MCS_RATE_CODE_MSK = 0xf"
definition RATE_LEGACY_RATE_MSK_V1 :: u32 where [rate_consts]: "RATE_LEGACY_RATE_MSK_V1 = 0xff"
definition RATE_MCS_HE_MSK_V1 :: u32 where [rate_consts]: "RATE_MCS_HE_MSK_V1 = push_bit 10 1"
definition RATE_MCS_CHAN_WIDTH_POS :: nat where [rate_consts]: "RATE_MCS_CHAN_WIDTH_POS = 11"
definition RATE_MCS_CHAN_WIDTH_MSK_V1 :: u32 where [rate_consts]: "RATE_MCS_CHAN_WIDTH_MSK_V1 = push_bit 11 3"
definition RATE_MCS_SGI_POS_V1 :: nat where [rate_consts]: "RATE_MCS_SGI_POS_V1 = 13"
definition RATE_MCS_SGI_MSK_V1 :: u32 where [rate_consts]: "RATE_MCS_SGI_MSK_V1 = push_bit 13 1"
definition RATE_MCS_ANT_POS :: nat where [rate_consts]: "RATE_MCS_ANT_POS = 14"
definition RATE_MCS_ANT_AB_MSK :: u32 where [rate_consts]: "RATE_MCS_ANT_AB_MSK = push_bit 14 3"
definition RATE_MCS_STBC_MSK :: u32 where [rate_consts]: "RATE_MCS_STBC_MSK = push_bit 17 1"
definition RATE_HE_DUAL_CARRIER_MODE_MSK :: u32 where [rate_consts]: "RATE_HE_DUAL_CARRIER_MODE_MSK = push_bit 18 1"
definition RATE_MCS_BF_MSK :: u32 where [rate_consts]: "RATE_MCS_BF_MSK = push_bit 19 1"
definition RATE_MCS_HE_GI_LTF_POS :: nat where [rate_consts]: "RATE_MCS_HE_GI_LTF_POS = 20"
definition RATE_MCS_HE_GI_LTF_MSK_V1 :: u32 where [rate_consts]: "RATE_MCS_HE_GI_LTF_MSK_V1 = push_bit 20 3"
definition RATE_MCS_HE_TYPE_POS_V1 :: nat where [rate_consts]: "RATE_MCS_HE_TYPE_POS_V1 = 22"
definition RATE_MCS_HE_TYPE_MSK_V1 :: u32 where [rate_consts]: "RATE_MCS_HE_TYPE_MSK_V1 = push_bit 22 3"
definition RATE_MCS_DUP_POS_V1 :: nat where [rate_consts]: "RATE_MCS_DUP_POS_V1 = 24"
definition RATE_MCS_DUP_MSK_V1 :: u32 where [rate_consts]: "RATE_MCS_DUP_MSK_V1 = push_bit 24 3"
definition RATE_MCS_LDPC_MSK_V1 :: u32 where [rate_consts]: "RATE_MCS_LDPC_MSK_V1 = push_bit 27 1"
definition RATE_MCS_HE_106T_POS_V1 :: nat where [rate_consts]: "RATE_MCS_HE_106T_POS_V1 = 28"
definition RATE_MCS_HE_106T_MSK_V1 :: u32 where [rate_consts]: "RATE_MCS_HE_106T_MSK_V1 = push_bit 28 1"
definition RATE_MCS_MOD_TYPE_POS :: nat where [rate_consts]: "RATE_MCS_MOD_TYPE_POS = 8"
definition RATE_MCS_MOD_TYPE_MSK :: u32 where [rate_consts]: "RATE_MCS_MOD_TYPE_MSK = push_bit 8 7"
definition RATE_MCS_CCK_MSK :: u32 where [rate_consts]: "RATE_MCS_CCK_MSK = push_bit 8 0"
definition RATE_MCS_LEGACY_OFDM_MSK :: u32 where [rate_consts]: "RATE_MCS_LEGACY_OFDM_MSK = push_bit 8 1"
definition RATE_MCS_HT_MSK :: u32 where [rate_consts]: "RATE_MCS_HT_MSK = push_bit 8 2"
definition RATE_MCS_VHT_MSK :: u32 where [rate_consts]: "RATE_MCS_VHT_MSK = push_bit 8 3"
definition RATE_MCS_HE_MSK :: u32 where [rate_consts]: "RATE_MCS_HE_MSK = push_bit 8 4"
definition RATE_MCS_EHT_MSK :: u32 where [rate_consts]: "RATE_MCS_EHT_MSK = push_bit 8 5"
definition RATE_LEGACY_RATE_MSK :: u32 where [rate_consts]: "RATE_LEGACY_RATE_MSK = 0x7"
definition RATE_HT_MCS_CODE_MSK :: u32 where [rate_consts]: "RATE_HT_MCS_CODE_MSK = 0x7"
definition RATE_MCS_NSS_POS :: nat where [rate_consts]: "RATE_MCS_NSS_POS = 4"
definition RATE_MCS_NSS_MSK :: u32 where [rate_consts]: "RATE_MCS_NSS_MSK = push_bit 4 1"
definition RATE_MCS_CODE_MSK :: u32 where [rate_consts]: "RATE_MCS_CODE_MSK = 0xf"
definition RATE_MCS_CHAN_WIDTH_MSK :: u32 where [rate_consts]: "RATE_MCS_CHAN_WIDTH_MSK = push_bit 11 7"
definition RATE_MCS_CHAN_WIDTH_20 :: u32 where [rate_consts]: "RATE_MCS_CHAN_WIDTH_20 = push_bit 11 0"
definition RATE_MCS_CHAN_WIDTH_40 :: u32 where [rate_consts]: "RATE_MCS_CHAN_WIDTH_40 = push_bit 11 1"
definition RATE_MCS_CHAN_WIDTH_80 :: u32 where [rate_consts]: "RATE_MCS_CHAN_WIDTH_80 = push_bit 11 2"
definition RATE_MCS_CHAN_WIDTH_160 :: u32 where [rate_consts]: "RATE_MCS_CHAN_WIDTH_160 = push_bit 11 3"
definition RATE_MCS_CHAN_WIDTH_320 :: u32 where [rate_consts]: "RATE_MCS_CHAN_WIDTH_320 = push_bit 11 4"
definition RATE_MCS_LDPC_POS :: nat where [rate_consts]: "RATE_MCS_LDPC_POS = 16"
definition RATE_MCS_LDPC_MSK :: u32 where [rate_consts]: "RATE_MCS_LDPC_MSK = push_bit 16 1"
definition RATE_MCS_HE_GI_LTF_MSK :: u32 where [rate_consts]: "RATE_MCS_HE_GI_LTF_MSK = push_bit 20 7"
definition RATE_MCS_SGI_MSK :: u32 where [rate_consts]: "RATE_MCS_SGI_MSK = push_bit 20 1"
definition RATE_MCS_HE_SU_4_LTF :: u32 where [rate_consts]: "RATE_MCS_HE_SU_4_LTF = 3"
definition RATE_MCS_HE_SU_4_LTF_08_GI :: u32 where [rate_consts]: "RATE_MCS_HE_SU_4_LTF_08_GI = 4"
definition RATE_MCS_HE_TYPE_POS :: nat where [rate_consts]: "RATE_MCS_HE_TYPE_POS = 23"
definition RATE_MCS_HE_TYPE_SU :: u32 where [rate_consts]: "RATE_MCS_HE_TYPE_SU = push_bit 23 0"
definition RATE_MCS_HE_TYPE_EXT_SU :: u32 where [rate_consts]: "RATE_MCS_HE_TYPE_EXT_SU = push_bit 23 1"
definition RATE_MCS_HE_TYPE_MU :: u32 where [rate_consts]: "RATE_MCS_HE_TYPE_MU = push_bit 23 2"
definition RATE_MCS_HE_TYPE_TRIG :: u32 where [rate_consts]: "RATE_MCS_HE_TYPE_TRIG = push_bit 23 3"
definition RATE_MCS_HE_TYPE_MSK :: u32 where [rate_consts]: "RATE_MCS_HE_TYPE_MSK = push_bit 23 3"
definition RATE_MCS_DUP_MSK :: u32 where [rate_consts]: "RATE_MCS_DUP_MSK = push_bit 25 1"
definition RATE_MCS_HE_106T_POS :: nat where [rate_consts]: "RATE_MCS_HE_106T_POS = 26"
definition RATE_MCS_HE_106T_MSK :: u32 where [rate_consts]: "RATE_MCS_HE_106T_MSK = push_bit 26 1"

text \<open>Testing a one-bit mask reads that bit.\<close>

lemma tst_rate_bits [simp]:
  "tst r RATE_MCS_HT_MSK_V1 \<longleftrightarrow> bit r 8"
  "tst r RATE_MCS_CCK_MSK_V1 \<longleftrightarrow> bit r 9"
  "tst r RATE_MCS_VHT_MSK_V1 \<longleftrightarrow> bit r 26"
  "tst r RATE_HT_MCS_MIMO2_MSK \<longleftrightarrow> bit r 3"
  "tst r RATE_MCS_HE_MSK_V1 \<longleftrightarrow> bit r 10"
  "tst r RATE_MCS_SGI_MSK_V1 \<longleftrightarrow> bit r 13"
  "tst r RATE_MCS_STBC_MSK \<longleftrightarrow> bit r 17"
  "tst r RATE_HE_DUAL_CARRIER_MODE_MSK \<longleftrightarrow> bit r 18"
  "tst r RATE_MCS_BF_MSK \<longleftrightarrow> bit r 19"
  "tst r RATE_MCS_LDPC_MSK_V1 \<longleftrightarrow> bit r 27"
  "tst r RATE_MCS_HE_106T_MSK_V1 \<longleftrightarrow> bit r 28"
  "tst r RATE_MCS_NSS_MSK \<longleftrightarrow> bit r 4"
  "tst r RATE_MCS_LDPC_MSK \<longleftrightarrow> bit r 16"
  "tst r RATE_MCS_SGI_MSK \<longleftrightarrow> bit r 20"
  "tst r RATE_MCS_DUP_MSK \<longleftrightarrow> bit r 25"
  "tst r RATE_MCS_HE_106T_MSK \<longleftrightarrow> bit r 26"
  by (simp_all add: rate_consts tst_def u32_blast)

section \<open>Legacy rates (fw/rs.c)\<close>

text \<open>
  The table maps a rate index to its PLCP code; the entries the initialiser does not name are 0.
  C does not check the index: an index outside the table has no value.
\<close>

definition fw_rate_idx_to_plcp :: "u8 list" where
  "fw_rate_idx_to_plcp = [10, 20, 55, 110, 13, 15, 5, 7, 9, 11, 1, 3, 0, 0, 0, 0, 0]"

definition iwl_fw_rate_idx_to_plcp :: "int \<Rightarrow> u8 option" where
  "iwl_fw_rate_idx_to_plcp idx =
     (if 0 \<le> idx \<and> idx < int (length fw_rate_idx_to_plcp)
      then Some (fw_rate_idx_to_plcp ! nat idx) else None)"

definition rate_mcs :: "(string \<times> string) list" where
  "rate_mcs =
     [(''1'', ''BPSK DSSS''), (''2'', ''QPSK DSSS''), (''5.5'', ''BPSK CCK''), (''11'', ''QPSK CCK''),
      (''6'', ''BPSK 1/2''), (''9'', ''BPSK 1/2''), (''12'', ''QPSK 1/2''), (''18'', ''QPSK 3/4''),
      (''24'', ''16QAM 1/2''), (''36'', ''16QAM 3/4''), (''48'', ''64QAM 2/3''), (''54'', ''64QAM 3/4''),
      (''60'', ''64QAM 5/6''), ([], []), ([], []), ([], []), ([], [])]"

definition iwl_rate_mcs :: "int \<Rightarrow> (string \<times> string) option" where
  "iwl_rate_mcs idx =
     (if 0 \<le> idx \<and> idx < int (length rate_mcs) then Some (rate_mcs ! nat idx) else None)"

definition ant_name :: "string list" where
  "ant_name = [''None'', ''A'', ''B'', ''AB'']"

definition iwl_rs_pretty_ant :: "u8 \<Rightarrow> string" where
  "iwl_rs_pretty_ant ant =
     (if length ant_name \<le> unat ant then ''UNKNOWN'' else ant_name ! unat ant)"

definition pretty_bw :: "string list" where
  "pretty_bw = [''20Mhz'', ''40Mhz'', ''80Mhz'', ''160 Mhz'', ''320Mhz'']"

definition iwl_rs_pretty_bw :: "u32 \<Rightarrow> string" where
  "iwl_rs_pretty_bw bw =
     (if length pretty_bw \<le> unat bw then ''unknown bw'' else pretty_bw ! unat bw)"

text \<open>
  The search loop stops at the first index of the scanned range with the given PLCP code;
  \<open>find\<close> over the range is that loop.
\<close>

definition plcp_search :: "u32 \<Rightarrow> nat \<Rightarrow> nat \<Rightarrow> nat option" where
  "plcp_search rate lo hi =
     find (\<lambda>idx. map_option ucast (iwl_fw_rate_idx_to_plcp (int idx)) = Some rate) [lo..<hi]"

definition iwl_legacy_rate_to_fw_idx :: "u32 \<Rightarrow> u32" where
  "iwl_legacy_rate_to_fw_idx rate_n_flags =
     (let rate = rate_n_flags AND RATE_LEGACY_RATE_MSK_V1;
          ofdm = (\<not> tst rate_n_flags RATE_MCS_CCK_MSK_V1);
          offset = (if ofdm then IWL_FIRST_OFDM_RATE else 0);
          lst = (if ofdm then IWL_RATE_COUNT_LEGACY else IWL_FIRST_OFDM_RATE)
      in case plcp_search rate offset lst of
           Some idx \<Rightarrow> of_nat (idx - offset)
         | None \<Rightarrow> of_nat IWL_RATE_INVALID)"

section \<open>From the first layout to the second (fw/rs.c)\<close>

definition rate_v1_he_gi_ltf :: "u32 \<Rightarrow> u32" where
  "rate_v1_he_gi_ltf rate_v1 =
     (let he_type_bits = rate_v1 AND RATE_MCS_HE_TYPE_MSK_V1;
          he_gi_ltf = drop_bit RATE_MCS_HE_GI_LTF_POS (rate_v1 AND RATE_MCS_HE_GI_LTF_MSK_V1)
      in if (he_type_bits = RATE_MCS_HE_TYPE_SU \<or> he_type_bits = RATE_MCS_HE_TYPE_EXT_SU)
            \<and> he_gi_ltf = RATE_MCS_HE_SU_4_LTF
         then he_gi_ltf + drop_bit RATE_MCS_SGI_POS_V1 (rate_v1 AND RATE_MCS_SGI_MSK_V1)
         else he_gi_ltf)"

definition rate_v1_rate_bits :: "u32 \<Rightarrow> u32" where
  "rate_v1_rate_bits rate_v1 =
     (if tst rate_v1 RATE_MCS_HT_MSK_V1 then
        RATE_MCS_HT_MSK
        OR (rate_v1 AND RATE_HT_MCS_RATE_CODE_MSK_V1)
        OR push_bit RATE_MCS_NSS_POS
             (drop_bit RATE_HT_MCS_NSS_POS_V1 (rate_v1 AND RATE_HT_MCS_MIMO2_MSK))
      else if tst rate_v1 RATE_MCS_VHT_MSK_V1 \<or> tst rate_v1 RATE_MCS_HE_MSK_V1 then
        (rate_v1 AND RATE_VHT_MCS_RATE_CODE_MSK)
        OR (rate_v1 AND RATE_MCS_NSS_MSK)
        OR (if tst rate_v1 RATE_MCS_HE_MSK_V1 then
              push_bit RATE_MCS_HE_GI_LTF_POS (rate_v1_he_gi_ltf rate_v1)
              OR push_bit RATE_MCS_HE_TYPE_POS
                   (drop_bit RATE_MCS_HE_TYPE_POS_V1 (rate_v1 AND RATE_MCS_HE_TYPE_MSK_V1))
              OR push_bit RATE_MCS_HE_106T_POS
                   (drop_bit RATE_MCS_HE_106T_POS_V1 (rate_v1 AND RATE_MCS_HE_106T_MSK_V1))
              OR (rate_v1 AND RATE_HE_DUAL_CARRIER_MODE_MSK)
              OR RATE_MCS_HE_MSK
            else RATE_MCS_VHT_MSK)
      else
        (let legacy_rate = iwl_legacy_rate_to_fw_idx rate_v1;
             legacy_rate =
               (if legacy_rate = of_nat IWL_RATE_INVALID
                then if tst rate_v1 RATE_MCS_CCK_MSK_V1
                     then of_nat IWL_FIRST_CCK_RATE else of_nat IWL_FIRST_OFDM_RATE
                else legacy_rate)
         in legacy_rate
            OR (if \<not> tst rate_v1 RATE_MCS_CCK_MSK_V1 then RATE_MCS_LEGACY_OFDM_MSK else 0)))"

definition rate_v1_flag_bits :: "u32 \<Rightarrow> u32" where
  "rate_v1_flag_bits rate_v1 =
     (let dup = drop_bit RATE_MCS_DUP_POS_V1 (rate_v1 AND RATE_MCS_DUP_MSK_V1)
      in (if tst rate_v1 RATE_MCS_LDPC_MSK_V1 then RATE_MCS_LDPC_MSK else 0)
         OR (rate_v1 AND RATE_MCS_CHAN_WIDTH_MSK_V1)
         OR (rate_v1 AND RATE_MCS_ANT_AB_MSK)
         OR (rate_v1 AND RATE_MCS_STBC_MSK)
         OR (rate_v1 AND RATE_MCS_BF_MSK)
         OR (if dup \<noteq> 0
             then RATE_MCS_DUP_MSK OR push_bit RATE_MCS_CHAN_WIDTH_POS dup else 0)
         OR (if \<not> tst rate_v1 RATE_MCS_HE_MSK_V1 \<and> tst rate_v1 RATE_MCS_SGI_MSK_V1
             then RATE_MCS_SGI_MSK else 0))"

definition iwl_new_rate_from_v1 :: "u32 \<Rightarrow> u32" where
  "iwl_new_rate_from_v1 rate_v1 =
     (if rate_v1 = 0 then rate_v1
      else rate_v1_rate_bits rate_v1 OR rate_v1_flag_bits rate_v1)"

definition iwl_he_is_sgi :: "u32 \<Rightarrow> bool" where
  "iwl_he_is_sgi rate_n_flags =
     (let type = rate_n_flags AND RATE_MCS_HE_TYPE_MSK;
          ltf_gi = rate_n_flags AND RATE_MCS_HE_GI_LTF_MSK
      in if type = RATE_MCS_HE_TYPE_SU \<or> type = RATE_MCS_HE_TYPE_EXT_SU
         then ltf_gi = RATE_MCS_HE_SU_4_LTF_08_GI
         else False)"


definition RATE_HT_MCS_INDEX :: "u32 \<Rightarrow> u32" where
  "RATE_HT_MCS_INDEX r = drop_bit 1 (r AND RATE_MCS_NSS_MSK) OR (r AND RATE_HT_MCS_CODE_MSK)"

text \<open>
  The printed form of a rate. In the legacy branch the rate index is at most 11, so that the
  table access is in range; the code's comparison with the invalid index is kept.
\<close>

definition rs_pretty_print_rate :: "nat \<Rightarrow> u32 \<Rightarrow> string" where
  "rs_pretty_print_rate bufsz rate =
     (let ant = ucast (drop_bit RATE_MCS_ANT_POS (rate AND RATE_MCS_ANT_AB_MSK)) :: u8;
          bw = drop_bit RATE_MCS_CHAN_WIDTH_POS (rate AND RATE_MCS_CHAN_WIDTH_MSK);
          format = rate AND RATE_MCS_MOD_TYPE_MSK
      in if format = RATE_MCS_CCK_MSK \<or> format = RATE_MCS_LEGACY_OFDM_MSK then
           (let legacy_rate = int (unat (rate AND RATE_LEGACY_RATE_MSK));
                index = (if format = RATE_MCS_CCK_MSK then legacy_rate
                         else legacy_rate + int IWL_FIRST_OFDM_RATE)
            in scnprintf bufsz
                 (''Legacy | ANT: '' @ iwl_rs_pretty_ant ant @ '' Rate: ''
                  @ (if index = int IWL_RATE_INVALID then ''BAD''
                     else case iwl_rate_mcs index of Some (mbps, _) \<Rightarrow> mbps | None \<Rightarrow> [])
                  @ '' Mbps''))
         else
           (let type = (if format = RATE_MCS_VHT_MSK then ''VHT''
                        else if format = RATE_MCS_HT_MSK then ''HT''
                        else if format = RATE_MCS_HE_MSK then ''HE''
                        else if format = RATE_MCS_EHT_MSK then ''EHT'' else ''Unknown'');
                mcs = ucast (if format = RATE_MCS_HT_MSK then RATE_HT_MCS_INDEX rate
                             else rate AND RATE_MCS_CODE_MSK) :: u8;
                nss = ucast (drop_bit RATE_MCS_NSS_POS (rate AND RATE_MCS_NSS_MSK) + 1) :: u8;
                sgi = (if format = RATE_MCS_HE_MSK then iwl_he_is_sgi rate
                       else tst rate RATE_MCS_SGI_MSK)
            in scnprintf bufsz
                 (''0x'' @ print_hex (unat rate) @ '': '' @ type
                  @ '' | ANT: '' @ iwl_rs_pretty_ant ant
                  @ '' BW: '' @ iwl_rs_pretty_bw bw
                  @ '' MCS: '' @ print_dec (unat mcs) @ '' NSS: '' @ print_dec (unat nss) @ '' ''
                  @ (if sgi then ''SGI '' else ''NGI '')
                  @ (if tst rate RATE_MCS_STBC_MSK then ''STBC '' else [])
                  @ (if tst rate RATE_MCS_LDPC_MSK then ''LDPC '' else [])
                  @ (if tst rate RATE_HE_DUAL_CARRIER_MODE_MSK then ''DCM '' else [])
                  @ (if tst rate RATE_MCS_BF_MSK then ''BF '' else []))))"

section \<open>Index conversions (mvm/utils.c)\<close>

definition iwl_mvm_legacy_hw_idx_to_mac80211_idx :: "u32 \<Rightarrow> nl80211_band \<Rightarrow> int" where
  "iwl_mvm_legacy_hw_idx_to_mac80211_idx rate_n_flags band =
     (let format = rate_n_flags AND RATE_MCS_MOD_TYPE_MSK;
          rate = int (unat (rate_n_flags AND RATE_LEGACY_RATE_MSK));
          is_LB = (band = NL80211_BAND_2GHZ)
      in if format = RATE_MCS_LEGACY_OFDM_MSK
         then if is_LB then rate + int IWL_FIRST_OFDM_RATE else rate
         else if is_LB then rate else - 1)"

definition iwl_mvm_legacy_rate_to_mac80211_idx :: "u32 \<Rightarrow> nl80211_band \<Rightarrow> int" where
  "iwl_mvm_legacy_rate_to_mac80211_idx rate_n_flags band =
     (let rate = rate_n_flags AND RATE_LEGACY_RATE_MSK_V1;
          band_offset = (if band \<noteq> NL80211_BAND_2GHZ then IWL_FIRST_OFDM_RATE else 0)
      in case plcp_search rate band_offset IWL_RATE_COUNT_LEGACY of
           Some idx \<Rightarrow> int idx - int band_offset
         | None \<Rightarrow> - 1)"

text \<open>The version of the TX command is read from the firmware image; it is an argument here.\<close>

definition iwl_mvm_mac80211_idx_to_hwrate :: "u8 \<Rightarrow> int \<Rightarrow> u8 option" where
  "iwl_mvm_mac80211_idx_to_hwrate tx_cmd_ver rate_idx =
     (if unat tx_cmd_ver > 8
      then Some (if rate_idx \<ge> int IWL_FIRST_OFDM_RATE
                 then word_of_int (rate_idx - int IWL_FIRST_OFDM_RATE) else word_of_int rate_idx)
      else iwl_fw_rate_idx_to_plcp rate_idx)"

definition first_antenna :: "u8 \<Rightarrow> u8" where
  "first_antenna msk = (if msk = 0 then push_bit 0 1 else push_bit (ffs msk - 1) 1)"

definition MAX_ANT_NUM :: nat where
  "MAX_ANT_NUM = 2"

fun next_antenna_loop :: "nat \<Rightarrow> u8 \<Rightarrow> nat \<Rightarrow> nat option" where
  "next_antenna_loop 0 valid ind = None"
| "next_antenna_loop (Suc n) valid ind =
     (let ind = (ind + 1) mod MAX_ANT_NUM
      in if tst valid (push_bit ind 1) then Some ind else next_antenna_loop n valid ind)"

definition iwl_mvm_next_antenna :: "u8 \<Rightarrow> u8 \<Rightarrow> u8" where
  "iwl_mvm_next_antenna valid last_idx =
     (case next_antenna_loop MAX_ANT_NUM valid (unat last_idx) of
        Some ind \<Rightarrow> of_nat ind
      | None \<Rightarrow> last_idx)"

section \<open>The documented reading of the two layouts\<close>

datatype rate_fmt = Fmt_CCK | Fmt_OFDM | Fmt_HT | Fmt_VHT | Fmt_HE | Fmt_EHT | Fmt_Unknown

record he_view =
  hv_type :: u32
  hv_gi_ltf :: u32
  hv_106t :: bool
  hv_dcm :: bool

record rate_view =
  rv_fmt :: rate_fmt
  rv_mcs :: u32
  rv_nss :: u32
  rv_width :: u32
  rv_ant :: u32
  rv_ldpc :: bool
  rv_stbc :: bool
  rv_bf :: bool
  rv_sgi :: bool
  rv_he :: "he_view option"

text \<open>
  Version 1 of the layout: bits 8, 9, 10 and 26 select the format, the low bits depend on it, and
  for HE single-user frames the guard interval value 3 is refined by the short-GI bit 13.
\<close>

definition rate_fmt_v1 :: "u32 \<Rightarrow> rate_fmt" where
  "rate_fmt_v1 r =
     (if bit r 8 then Fmt_HT else if bit r 10 then Fmt_HE else if bit r 26 then Fmt_VHT
      else if bit r 9 then Fmt_CCK else Fmt_OFDM)"

definition rate_he_view_v1 :: "u32 \<Rightarrow> he_view" where
  "rate_he_view_v1 r =
     (let typ = take_bit 2 (drop_bit 22 r); gi = take_bit 2 (drop_bit 20 r)
      in \<lparr>hv_type = typ,
          hv_gi_ltf = (if typ < 2 \<and> gi = 3 \<and> bit r 13 then 4 else gi),
          hv_106t = bit r 28, hv_dcm = bit r 18\<rparr>)"

definition rate_view_v1 :: "u32 \<Rightarrow> rate_view" where
  "rate_view_v1 r =
     (let f = rate_fmt_v1 r; legacy = f \<in> {Fmt_CCK, Fmt_OFDM}
      in \<lparr>rv_fmt = f,
          rv_mcs = (if f = Fmt_HT then take_bit 3 r
                    else if legacy then iwl_legacy_rate_to_fw_idx r else take_bit 4 r),
          rv_nss = (if f = Fmt_HT then take_bit 2 (drop_bit 3 r)
                    else if legacy then 0 else take_bit 2 (drop_bit 4 r)),
          rv_width = take_bit 2 (drop_bit 11 r),
          rv_ant = take_bit 2 (drop_bit 14 r),
          rv_ldpc = bit r 27, rv_stbc = bit r 17, rv_bf = bit r 19,
          rv_sgi = (f \<noteq> Fmt_HE \<and> bit r 13),
          rv_he = (if f = Fmt_HE then Some (rate_he_view_v1 r) else None)\<rparr>)"

text \<open>Version 2: the format is the three-bit field at bit 8.\<close>

definition rate_fmt_v2 :: "u32 \<Rightarrow> rate_fmt" where
  "rate_fmt_v2 r =
     (let t = take_bit 3 (drop_bit 8 r)
      in if t = 0 then Fmt_CCK else if t = 1 then Fmt_OFDM else if t = 2 then Fmt_HT
         else if t = 3 then Fmt_VHT else if t = 4 then Fmt_HE else if t = 5 then Fmt_EHT
         else Fmt_Unknown)"

definition rate_view_v2 :: "u32 \<Rightarrow> rate_view" where
  "rate_view_v2 r =
     (let f = rate_fmt_v2 r; legacy = f \<in> {Fmt_CCK, Fmt_OFDM}
      in \<lparr>rv_fmt = f,
          rv_mcs = (if f = Fmt_HT \<or> legacy then take_bit 3 r else take_bit 4 r),
          rv_nss = (if legacy then 0 else take_bit 1 (drop_bit 4 r)),
          rv_width = take_bit 3 (drop_bit 11 r),
          rv_ant = take_bit 2 (drop_bit 14 r),
          rv_ldpc = bit r 16, rv_stbc = bit r 17, rv_bf = bit r 19,
          rv_sgi = (f \<noteq> Fmt_HE \<and> bit r 20),
          rv_he = (if f = Fmt_HE
                   then Some \<lparr>hv_type = take_bit 2 (drop_bit 23 r),
                              hv_gi_ltf = take_bit 3 (drop_bit 20 r),
                              hv_106t = bit r 26, hv_dcm = bit r 18\<rparr>
                   else None)\<rparr>)"

text \<open>
  The version 1 words for which the conversion is faithful: at most two spatial streams, no
  duplicate channel, a legacy rate of the table, no greenfield HT frame with short GI, and no HE
  frame of type extended-SU or MU with guard interval value 3 and the short-GI bit.
\<close>

definition rate_v1_convertible :: "u32 \<Rightarrow> bool" where
  "rate_v1_convertible r \<longleftrightarrow>
     r \<noteq> 0 \<and> take_bit 2 (drop_bit 24 r) = 0 \<and>
     (case rate_fmt_v1 r of
        Fmt_HT \<Rightarrow> \<not> bit r 4 \<and> \<not> (bit r 10 \<and> bit r 13)
      | Fmt_HE \<Rightarrow> \<not> bit r 5 \<and>
          \<not> (take_bit 2 (drop_bit 22 r) \<in> {1, 2} \<and> bit r 20 \<and> bit r 21 \<and> bit r 13)
      | Fmt_VHT \<Rightarrow> \<not> bit r 5
      | _ \<Rightarrow> iwl_legacy_rate_to_fw_idx r \<noteq> of_nat IWL_RATE_INVALID)"

section \<open>Lemmas\<close>

text \<open>A legacy rate of the table has an index below 8.\<close>

lemma legacy_idx_cases:
  "iwl_legacy_rate_to_fw_idx r \<in> {0, 1, 2, 3, 4, 5, 6, 7, of_nat IWL_RATE_INVALID}"
  by (simp add: iwl_legacy_rate_to_fw_idx_def plcp_search_def rate_consts Let_def upt_conv_Cons
      numeral_eq_Suc split: option.split)

text \<open>The flag bits of the converted word, when no duplicate channel is signalled.\<close>

lemma no_dup_bits: "take_bit 2 (drop_bit 24 r) = (0 :: u32) \<longleftrightarrow> \<not> bit r 24 \<and> \<not> bit r 25"
  by (simp add: u32_blast)

lemma flag_bits_no_dup:
  assumes "\<not> bit r 24" "\<not> bit r 25"
  shows "rate_v1_flag_bits r =
     (if bit r 27 then RATE_MCS_LDPC_MSK else 0)
     OR (r AND RATE_MCS_CHAN_WIDTH_MSK_V1) OR (r AND RATE_MCS_ANT_AB_MSK)
     OR (r AND RATE_MCS_STBC_MSK) OR (r AND RATE_MCS_BF_MSK)
     OR (if \<not> bit r 10 \<and> bit r 13 then RATE_MCS_SGI_MSK else 0)"
proof -
  have "drop_bit RATE_MCS_DUP_POS_V1 (r AND RATE_MCS_DUP_MSK_V1) = 0"
    using assms by (simp add: rate_consts u32_blast)
  then show ?thesis by (simp add: rate_v1_flag_bits_def Let_def)
qed

lemma bit_flag_bits_all:
  assumes "\<not> bit r 24" "\<not> bit r 25"
  shows "\<forall>n<32. bit (rate_v1_flag_bits r) n \<longleftrightarrow>
     n = 16 \<and> bit r 27 \<or> n \<in> {11, 12, 14, 15, 17, 19} \<and> bit r n \<or> n = 20 \<and> \<not> bit r 10 \<and> bit r 13"
  unfolding flag_bits_no_dup [OF assms] all_less_32
  by (simp add: rate_consts bit_simps)

lemma bit_rate_bits_HT:
  assumes "bit r 8"
  shows "\<forall>n<32. bit (rate_v1_rate_bits r) n \<longleftrightarrow>
     n = 9 \<or> n < 3 \<and> bit r n \<or> n = 4 \<and> bit r 3"
proof -
  have eq: "rate_v1_rate_bits r =
      RATE_MCS_HT_MSK OR (r AND RATE_HT_MCS_RATE_CODE_MSK_V1)
      OR push_bit RATE_MCS_NSS_POS (drop_bit RATE_HT_MCS_NSS_POS_V1 (r AND RATE_HT_MCS_MIMO2_MSK))"
    using assms by (simp add: rate_v1_rate_bits_def)
  show ?thesis unfolding eq all_less_32 by (simp add: rate_consts bit_simps)
qed

lemma bit_rate_bits_VHT:
  assumes "\<not> bit r 8" "bit r 26" "\<not> bit r 10"
  shows "\<forall>n<32. bit (rate_v1_rate_bits r) n \<longleftrightarrow> n = 8 \<or> n = 9 \<or> n \<le> 4 \<and> bit r n"
proof -
  have eq: "rate_v1_rate_bits r =
      (r AND RATE_VHT_MCS_RATE_CODE_MSK) OR (r AND RATE_MCS_NSS_MSK) OR RATE_MCS_VHT_MSK"
    using assms by (simp add: rate_v1_rate_bits_def or.assoc)
  show ?thesis unfolding eq all_less_32 by (simp add: rate_consts bit_simps)
qed

text \<open>The guard-interval computation in terms of the two fields and the short-GI bit.\<close>

lemma rate_v1_he_gi_ltf_eq:
  "rate_v1_he_gi_ltf r =
     (let t = take_bit 2 (drop_bit 22 r); g = take_bit 2 (drop_bit 20 r)
      in if (t = 0 \<or> t = 2) \<and> g = 3 then if bit r 13 then 4 else 3 else g)"
proof -
  let ?t = "take_bit 2 (drop_bit 22 r)" and ?g = "take_bit 2 (drop_bit 20 r)"
  have g: "drop_bit RATE_MCS_HE_GI_LTF_POS (r AND RATE_MCS_HE_GI_LTF_MSK_V1) = ?g"
    by (simp add: rate_consts u32_blast)
  have s: "drop_bit RATE_MCS_SGI_POS_V1 (r AND RATE_MCS_SGI_MSK_V1) = (if bit r 13 then 1 else 0)"
    by (simp add: rate_consts u32_blast)
  have su: "r AND RATE_MCS_HE_TYPE_MSK_V1 = RATE_MCS_HE_TYPE_SU \<longleftrightarrow> ?t = 0"
    and esu: "r AND RATE_MCS_HE_TYPE_MSK_V1 = RATE_MCS_HE_TYPE_EXT_SU \<longleftrightarrow> ?t = 2"
    by (simp_all add: rate_consts u32_blast)
  show ?thesis
    unfolding rate_v1_he_gi_ltf_def Let_def g s su esu RATE_MCS_HE_SU_4_LTF_def by simp
qed

lemma take_bit_2_cases: "take_bit 2 (x :: u32) \<in> {0, 1, 2, 3}"
  by (cases "bit x 0"; cases "bit x 1") (simp_all add: u32_blast)

text \<open>Outside the two types whose encodings the code confuses, the guard interval is kept.\<close>

lemma he_gi_ltf_view:
  assumes "\<not> (take_bit 2 (drop_bit 22 r) \<in> {1, 2} \<and> bit r 20 \<and> bit r 21 \<and> bit r 13)"
  shows "rate_v1_he_gi_ltf r = hv_gi_ltf (rate_he_view_v1 r)"
proof -
  have g3: "take_bit 2 (drop_bit 20 r) = 3 \<longleftrightarrow> bit r 20 \<and> bit r 21" by (simp add: u32_blast)
  show ?thesis
    using assms g3 take_bit_2_cases [of "drop_bit 22 r"]
    by (auto simp: rate_v1_he_gi_ltf_eq rate_he_view_v1_def Let_def)
qed

lemma he_gi_ltf_small: "rate_v1_he_gi_ltf r \<in> {0, 1, 2, 3, 4}"
  using take_bit_2_cases [of "drop_bit 20 r"] by (auto simp: rate_v1_he_gi_ltf_eq Let_def)

lemma bit_rate_bits_HE:
  assumes "\<not> bit r 8" "bit r 10"
  shows "\<forall>n<32. bit (rate_v1_rate_bits r) n \<longleftrightarrow>
     n = 10 \<or> n \<le> 4 \<and> bit r n \<or> n \<in> {20, 21, 22} \<and> bit (rate_v1_he_gi_ltf r) (n - 20)
     \<or> n \<in> {23, 24} \<and> bit r (n - 1) \<or> n = 26 \<and> bit r 28 \<or> n = 18 \<and> bit r 18"
proof -
  have eq: "rate_v1_rate_bits r =
      (r AND RATE_VHT_MCS_RATE_CODE_MSK) OR (r AND RATE_MCS_NSS_MSK)
      OR push_bit RATE_MCS_HE_GI_LTF_POS (rate_v1_he_gi_ltf r)
      OR push_bit RATE_MCS_HE_TYPE_POS
           (drop_bit RATE_MCS_HE_TYPE_POS_V1 (r AND RATE_MCS_HE_TYPE_MSK_V1))
      OR push_bit RATE_MCS_HE_106T_POS
           (drop_bit RATE_MCS_HE_106T_POS_V1 (r AND RATE_MCS_HE_106T_MSK_V1))
      OR (r AND RATE_HE_DUAL_CARRIER_MODE_MSK) OR RATE_MCS_HE_MSK"
    using assms by (simp add: rate_v1_rate_bits_def or.assoc)
  show ?thesis
    using he_gi_ltf_small [of r] unfolding eq all_less_32 
    by (elim insertE emptyE) (simp_all add: rate_consts bit_simps)
qed

lemma bit_rate_bits_legacy:
  assumes "\<not> bit r 8" "\<not> bit r 10" "\<not> bit r 26"
    and "iwl_legacy_rate_to_fw_idx r \<noteq> of_nat IWL_RATE_INVALID"
  shows "\<forall>n<32. bit (rate_v1_rate_bits r) n \<longleftrightarrow>
     n = 8 \<and> \<not> bit r 9 \<or> n < 3 \<and> bit (iwl_legacy_rate_to_fw_idx r) n"
proof -
  have eq: "rate_v1_rate_bits r =
      iwl_legacy_rate_to_fw_idx r OR (if \<not> bit r 9 then RATE_MCS_LEGACY_OFDM_MSK else 0)"
    using assms by (simp add: rate_v1_rate_bits_def)
  have "iwl_legacy_rate_to_fw_idx r \<in> {0, 1, 2, 3, 4, 5, 6, 7}"
    using legacy_idx_cases [of r] assms(4) by auto
  then show ?thesis
    unfolding eq all_less_32 by (elim insertE emptyE) (simp_all add: rate_consts bit_simps)
qed

text \<open>The format field of the second layout, bit by bit.\<close>

lemma rate_fmt_v2_bits:
  "rate_fmt_v2 w =
     (if bit w 10 then if bit w 9 then Fmt_Unknown else if bit w 8 then Fmt_EHT else Fmt_HE
      else if bit w 9 then if bit w 8 then Fmt_VHT else Fmt_HT
      else if bit w 8 then Fmt_OFDM else Fmt_CCK)"
  by (simp add: rate_fmt_v2_def Let_def u32_blast)

lemmas view_simps = rate_view_v1_def rate_view_v2_def rate_fmt_v2_bits rate_fmt_v1_def
  bit_or_iff Let_def

lemma new_rate_view_HT:
  assumes "bit r 8" "\<not> bit r 4" "\<not> (bit r 10 \<and> bit r 13)" "\<not> bit r 24" "\<not> bit r 25"
  shows "rate_view_v2 (rate_v1_rate_bits r OR rate_v1_flag_bits r) = rate_view_v1 r"
  using assms bit_flag_bits_all [OF assms(4,5)] bit_rate_bits_HT [OF assms(1)]
  by (cases "bit r 13") (simp_all add: view_simps u32_blast even_drop_bit_iff_not_bit)

lemma new_rate_view_VHT:
  assumes "\<not> bit r 8" "bit r 26" "\<not> bit r 10" "\<not> bit r 5" "\<not> bit r 24" "\<not> bit r 25"
  shows "rate_view_v2 (rate_v1_rate_bits r OR rate_v1_flag_bits r) = rate_view_v1 r"
  using assms bit_flag_bits_all [OF assms(5,6)] bit_rate_bits_VHT [OF assms(1-3)]
  by (simp add: view_simps u32_blast even_drop_bit_iff_not_bit)

lemma new_rate_view_legacy:
  assumes "\<not> bit r 8" "\<not> bit r 26" "\<not> bit r 10" "\<not> bit r 24" "\<not> bit r 25"
    and "iwl_legacy_rate_to_fw_idx r \<noteq> of_nat IWL_RATE_INVALID"
  shows "rate_view_v2 (rate_v1_rate_bits r OR rate_v1_flag_bits r) = rate_view_v1 r"
proof -
  let ?l = "iwl_legacy_rate_to_fw_idx r"
  have "?l \<in> {0, 1, 2, 3, 4, 5, 6, 7}" using legacy_idx_cases [of r] assms(6) by auto
  then have m: "\<forall>n<32. bit ?l n \<longrightarrow> n < 3"
    unfolding all_less_32 by (elim insertE emptyE) simp_all
  show ?thesis
    using assms(1-5) m bit_flag_bits_all [OF assms(4,5)] bit_rate_bits_legacy [OF assms(1,3,2,6)]
    by (cases "bit r 9") (simp_all add: view_simps u32_blast)
qed

text \<open>HE rates, the guard interval given by the lemma above.\<close>

lemma new_rate_view_HE:
  assumes "\<not> bit r 8" "bit r 10" "\<not> bit r 5" "\<not> bit r 24" "\<not> bit r 25"
    and gi: "\<not> (take_bit 2 (drop_bit 22 r) \<in> {1, 2} \<and> bit r 20 \<and> bit r 21 \<and> bit r 13)"
  shows "rate_view_v2 (rate_v1_rate_bits r OR rate_v1_flag_bits r) = rate_view_v1 r"
proof -
  let ?w = "rate_v1_rate_bits r OR rate_v1_flag_bits r"
  note bits = bit_flag_bits_all [OF assms(4,5)] bit_rate_bits_HE [OF assms(1,2)]
  have g: "take_bit 3 (drop_bit 20 ?w) = rate_v1_he_gi_ltf r"
    using assms(2) bits he_gi_ltf_small [of r] unfolding all_less_32
    by (elim insertE emptyE) (simp_all add: u32_blast)
  have "rate_he_view_v1 r = \<lparr>hv_type = take_bit 2 (drop_bit 23 ?w),
      hv_gi_ltf = take_bit 3 (drop_bit 20 ?w), hv_106t = bit ?w 26, hv_dcm = bit ?w 18\<rparr>"
    unfolding g he_gi_ltf_view [OF gi] using bits unfolding all_less_32
    by (simp add: rate_he_view_v1_def Let_def u32_blast)
  then show ?thesis
    using assms(1-5) bits
    by (simp add: view_simps u32_blast even_drop_bit_iff_not_bit)
qed

lemma no_dup_iff: "take_bit 2 (drop_bit 24 r) = (0 :: u32) \<Longrightarrow> \<not> bit r 24 \<and> \<not> bit r 25"
  by (simp add: no_dup_bits)

lemma legacy_idx_less_8:
  "iwl_legacy_rate_to_fw_idx r \<noteq> of_nat IWL_RATE_INVALID \<Longrightarrow>
   iwl_legacy_rate_to_fw_idx r \<in> {0, 1, 2, 3, 4, 5, 6, 7}"
  using legacy_idx_cases [of r] by auto

section \<open>Properties\<close>

lemma new_rate_from_v1_view:
  assumes "rate_v1_convertible r"
  shows "rate_view_v2 (iwl_new_rate_from_v1 r) = rate_view_v1 r"
proof -
  have r: "r \<noteq> 0" "\<not> bit r 24" "\<not> bit r 25"
    using assms by (auto simp: rate_v1_convertible_def dest: no_dup_iff)
  have "rate_view_v2 (rate_v1_rate_bits r OR rate_v1_flag_bits r) = rate_view_v1 r"
  proof (cases "rate_fmt_v1 r")
    case Fmt_HT
    with assms r show ?thesis
      by (intro new_rate_view_HT)
        (auto simp: rate_v1_convertible_def rate_fmt_v1_def split: if_splits)
  next
    case Fmt_HE
    with assms r show ?thesis
      by (intro new_rate_view_HE)
        (auto simp: rate_v1_convertible_def rate_fmt_v1_def split: if_splits)
  next
    case Fmt_VHT
    with assms r show ?thesis
      by (intro new_rate_view_VHT)
        (auto simp: rate_v1_convertible_def rate_fmt_v1_def split: if_splits)
  next
    case Fmt_CCK
    with assms r show ?thesis
      by (intro new_rate_view_legacy)
        (auto simp: rate_v1_convertible_def rate_fmt_v1_def split: if_splits)
  next
    case Fmt_OFDM
    with assms r show ?thesis
      by (intro new_rate_view_legacy)
        (auto simp: rate_v1_convertible_def rate_fmt_v1_def split: if_splits)
  qed (simp_all add: rate_fmt_v1_def split: if_splits)
  with r show ?thesis by (simp add: iwl_new_rate_from_v1_def)
qed



text \<open>The guard interval of an HE rate survives the conversion exactly when the frame is not
  an extended-SU or MU frame that carries guard interval value 3 together with the short-GI bit:
  the code compares the HE type of the first layout (bits 22 and 23) with the constants of the
  second layout (bits 23 and 24), so it takes MU for extended SU.\<close>

theorem he_guard_interval_conversion_exact:
  "rate_v1_he_gi_ltf r = hv_gi_ltf (rate_he_view_v1 r) \<longleftrightarrow>
     \<not> (take_bit 2 (drop_bit 22 r) \<in> {1, 2} \<and> bit r 20 \<and> bit r 21 \<and> bit r 13)"
proof -
  have g3: "take_bit 2 (drop_bit 20 r) = 3 \<longleftrightarrow> bit r 20 \<and> bit r 21" by (simp add: u32_blast)
  show ?thesis
    using g3 take_bit_2_cases [of "drop_bit 22 r"]
    by (auto simp: rate_v1_he_gi_ltf_eq rate_he_view_v1_def Let_def)
qed

text \<open>The short-guard-interval test for HE rates is constantly false: it compares the masked
  field, still at its position 20, with the unshifted value 4. No HE frame is ever reported with a
  short guard interval, and the printed form of every HE rate says NGI.\<close>

theorem iwl_he_is_sgi_never: "iwl_he_is_sgi r = False"
proof -
  have "r AND RATE_MCS_HE_GI_LTF_MSK \<noteq> RATE_MCS_HE_SU_4_LTF_08_GI"
    by (simp add: rate_consts u32_blast)
  then show ?thesis by (simp add: iwl_he_is_sgi_def Let_def)
qed

text \<open>A legacy OFDM word is found at the index of its PLCP code.\<close>

lemma legacy_rate_table:
  "idx < 8 \<Longrightarrow>
   iwl_legacy_rate_to_fw_idx (ucast (fw_rate_idx_to_plcp ! (idx + 4))) = of_nat idx"
  "idx < 4 \<Longrightarrow>
   iwl_legacy_rate_to_fw_idx (RATE_MCS_CCK_MSK_V1 OR ucast (fw_rate_idx_to_plcp ! idx)) = of_nat idx"
proof -
  assume "idx < 8"
  then have "idx \<in> {0, 1, 2, 3, 4, 5, 6, 7}" by auto
  then show "iwl_legacy_rate_to_fw_idx (ucast (fw_rate_idx_to_plcp ! (idx + 4))) = of_nat idx"
    by (elim insertE emptyE) (simp_all, code_simp+)
next
  assume "idx < 4"
  then have "idx \<in> {0, 1, 2, 3}" by auto
  then show "iwl_legacy_rate_to_fw_idx (RATE_MCS_CCK_MSK_V1 OR ucast (fw_rate_idx_to_plcp ! idx)) = of_nat idx"
    by (elim insertE emptyE) (simp_all, code_simp+)
qed

text \<open>A legacy OFDM rate whose PLCP code is not in the table is converted to rate index 4,
  that is 24 Mbit/s, not to the lowest OFDM rate: the fallback stores the table index of 6 Mbit/s
  where the second layout wants the index within the OFDM rates.\<close>

theorem unknown_ofdm_rate_becomes_24M:
  assumes "rate_fmt_v1 r = Fmt_OFDM" "r \<noteq> 0"
    and "iwl_legacy_rate_to_fw_idx r = of_nat IWL_RATE_INVALID"
  shows "iwl_new_rate_from_v1 r AND RATE_LEGACY_RATE_MSK = 4 \<and>
    map_option fst (iwl_rate_mcs (4 + int IWL_FIRST_OFDM_RATE)) = Some ''24''"
proof (intro conjI)
  have b: "\<not> bit r 8" "\<not> bit r 10" "\<not> bit r 26" "\<not> bit r 9"
    using assms(1) by (auto simp: rate_fmt_v1_def split: if_splits)
  then have "rate_v1_rate_bits r = 4 OR RATE_MCS_LEGACY_OFDM_MSK"
    using assms(3) by (simp add: rate_v1_rate_bits_def IWL_FIRST_OFDM_RATE_def)
  moreover have "rate_v1_flag_bits r AND RATE_LEGACY_RATE_MSK = 0"
    by (simp add: rate_v1_flag_bits_def Let_def rate_consts u32_blast)
  ultimately show "iwl_new_rate_from_v1 r AND RATE_LEGACY_RATE_MSK = 4"
    using assms(2)
    by (simp add: iwl_new_rate_from_v1_def bit.conj_disj_distrib2 rate_consts)
  show "map_option fst (iwl_rate_mcs (4 + int IWL_FIRST_OFDM_RATE)) = Some ''24''"
    by (simp add: iwl_rate_mcs_def rate_mcs_def rate_consts)
qed

lemma unknown_ofdm_rate_becomes_24M_witness:
  "rate_fmt_v1 0x4002 = Fmt_OFDM \<and> iwl_new_rate_from_v1 0x4002 AND RATE_LEGACY_RATE_MSK = 4"
proof -
  have "rate_fmt_v1 0x4002 = Fmt_OFDM" "iwl_legacy_rate_to_fw_idx 0x4002 = of_nat IWL_RATE_INVALID"
    by code_simp+
  then show ?thesis using unknown_ofdm_rate_becomes_24M [of "0x4002"] by simp
qed

text \<open>The PLCP codes of the twelve legacy rates are distinct, so a search returns its own index.\<close>

lemma plcp_search_Some:
  assumes "plcp_search rate lo hi = Some idx" "hi \<le> 12"
  shows "lo \<le> idx" "idx < hi" "rate = ucast (fw_rate_idx_to_plcp ! idx)"
  using assms
  by (auto simp: plcp_search_def find_Some_iff iwl_fw_rate_idx_to_plcp_def fw_rate_idx_to_plcp_def
      nth_upt split: if_splits)

lemma plcp_search_own_code:
  assumes "idx < 12"
  shows "plcp_search (ucast (fw_rate_idx_to_plcp ! idx)) 0 12 = Some idx"
    and "plcp_search (ucast (fw_rate_idx_to_plcp ! idx)) 4 12 = (if 4 \<le> idx then Some idx else None)"
proof -
  have "idx \<in> {0, 1, 2, 3, 4, 5, 6, 7, 8, 9, 10, 11}"
    unfolding insert_iff empty_iff using assms by arith
  then show "plcp_search (ucast (fw_rate_idx_to_plcp ! idx)) 0 12 = Some idx"
    and "plcp_search (ucast (fw_rate_idx_to_plcp ! idx)) 4 12 = (if 4 \<le> idx then Some idx else None)"
    by (elim insertE emptyE; simp; code_simp)+
qed

lemma legacy_fields:
  assumes "rate_fmt_v1 r \<in> {Fmt_CCK, Fmt_OFDM}" "r \<noteq> 0"
    and "iwl_legacy_rate_to_fw_idx r \<noteq> of_nat IWL_RATE_INVALID"
  shows "iwl_new_rate_from_v1 r AND RATE_MCS_MOD_TYPE_MSK =
           (if bit r 9 then RATE_MCS_CCK_MSK else RATE_MCS_LEGACY_OFDM_MSK)"
    and "iwl_new_rate_from_v1 r AND RATE_LEGACY_RATE_MSK = iwl_legacy_rate_to_fw_idx r"
proof -
  let ?l = "iwl_legacy_rate_to_fw_idx r"
  have b: "\<not> bit r 8" "\<not> bit r 10" "\<not> bit r 26"
    using assms(1) by (auto simp: rate_fmt_v1_def split: if_splits)
  have rb: "rate_v1_rate_bits r = ?l OR (if \<not> bit r 9 then RATE_MCS_LEGACY_OFDM_MSK else 0)"
    using b assms(3) by (simp add: rate_v1_rate_bits_def)
  have fl: "rate_v1_flag_bits r AND RATE_LEGACY_RATE_MSK = 0"
    "rate_v1_flag_bits r AND RATE_MCS_MOD_TYPE_MSK = 0"
    by (simp_all add: rate_v1_flag_bits_def Let_def rate_consts u32_blast)
  have nr: "iwl_new_rate_from_v1 r = rate_v1_rate_bits r OR rate_v1_flag_bits r"
    using assms(2) by (simp add: iwl_new_rate_from_v1_def)
  have l: "?l AND RATE_MCS_MOD_TYPE_MSK = 0" "?l AND RATE_LEGACY_RATE_MSK = ?l"
    using legacy_idx_less_8 [OF assms(3)] by (auto simp: rate_consts)
  show "iwl_new_rate_from_v1 r AND RATE_MCS_MOD_TYPE_MSK =
      (if bit r 9 then RATE_MCS_CCK_MSK else RATE_MCS_LEGACY_OFDM_MSK)"
    using l fl by (simp add: nr rb bit.conj_disj_distrib2 rate_consts)
  show "iwl_new_rate_from_v1 r AND RATE_LEGACY_RATE_MSK = ?l"
    using l fl by (simp add: nr rb bit.conj_disj_distrib2 rate_consts)
qed

text \<open>Computing the mac80211 rate index of a legacy rate from the second layout, after the
  conversion, gives the index that the search of the PLCP table gives from the first layout, in
  every band, for every legacy rate word of the table.\<close>

theorem mac80211_idx_conversion_agrees:
  assumes "rate_fmt_v1 r \<in> {Fmt_CCK, Fmt_OFDM}" "r \<noteq> 0"
    and "iwl_legacy_rate_to_fw_idx r \<noteq> of_nat IWL_RATE_INVALID"
  shows "iwl_mvm_legacy_hw_idx_to_mac80211_idx (iwl_new_rate_from_v1 r) band =
         iwl_mvm_legacy_rate_to_mac80211_idx r band"
proof -
  let ?rate = "r AND RATE_LEGACY_RATE_MSK_V1"
  define lo where "lo = (if bit r 9 then 0 else IWL_FIRST_OFDM_RATE)"
  define hi where "hi = (if bit r 9 then IWL_FIRST_OFDM_RATE else IWL_RATE_COUNT_LEGACY)"
  obtain idx where s: "plcp_search ?rate lo hi = Some idx"
    using assms(3) by (auto simp: iwl_legacy_rate_to_fw_idx_def Let_def lo_def hi_def
        split: if_splits option.splits)
  have hi: "hi \<le> 12" by (simp add: hi_def rate_consts)
  note idx = plcp_search_Some [OF s hi]
  have l: "iwl_legacy_rate_to_fw_idx r = of_nat (idx - lo)"
    using s by (simp add: iwl_legacy_rate_to_fw_idx_def Let_def lo_def hi_def split: if_splits)
  have u: "unat (of_nat (idx - lo) :: u32) = idx - lo"
    by (rule of_nat_inverse) (use idx(2) hi in simp_all)
  have o: "\<not> bit r 9 \<longleftrightarrow> 4 \<le> idx"
    using idx(1,2) by (auto simp: lo_def hi_def rate_consts split: if_splits)
  have 12: "idx < 12" using idx(2) hi by simp
  show ?thesis
    unfolding iwl_mvm_legacy_hw_idx_to_mac80211_idx_def iwl_mvm_legacy_rate_to_mac80211_idx_def
      Let_def legacy_fields [OF assms] l u idx(3)
    using idx(1,2) o plcp_search_own_code [OF 12]
    by (auto simp: lo_def hi_def rate_consts split: if_splits)
qed

lemma mac80211_idx_conversion_agrees_witness:
  "iwl_mvm_legacy_hw_idx_to_mac80211_idx (iwl_new_rate_from_v1 0x400D) NL80211_BAND_5GHZ =
   iwl_mvm_legacy_rate_to_mac80211_idx 0x400D NL80211_BAND_5GHZ"
proof -
  have "rate_fmt_v1 0x400D = Fmt_OFDM" "iwl_legacy_rate_to_fw_idx 0x400D \<noteq> of_nat IWL_RATE_INVALID"
    by code_simp+
  then show ?thesis by (intro mac80211_idx_conversion_agrees) simp_all
qed

text \<open>Toggling the transmit antenna returns a valid antenna index whenever one of the two
  antennas is valid, and switches antenna whenever both are.\<close>

theorem iwl_mvm_next_antenna_valid:
  assumes "bit valid 0 \<or> bit valid 1" "unat idx < 2"
  shows "bit valid (unat (iwl_mvm_next_antenna valid idx)) \<and>
    (bit valid 0 \<and> bit valid 1 \<longrightarrow> iwl_mvm_next_antenna valid idx \<noteq> idx)"
proof -
  have "unat idx = 0 \<or> unat idx = 1" using assms(2) by auto
  moreover have "tst valid 1 \<longleftrightarrow> bit valid 0" "tst valid 2 \<longleftrightarrow> bit valid 1"
    using tst_push_bit_1 [of 0 valid] tst_push_bit_1 [of 1 valid] by simp_all
  ultimately show ?thesis
    using assms(1)
    by (auto simp: iwl_mvm_next_antenna_def MAX_ANT_NUM_def numeral_2_eq_2 Let_def
        split: if_splits dest: arg_cong [where f = unat])
qed

lemma iwl_mvm_next_antenna_valid_witness:
  "bit (3 :: u8) (unat (iwl_mvm_next_antenna 3 1)) \<and> iwl_mvm_next_antenna 3 1 \<noteq> 1"
  using iwl_mvm_next_antenna_valid [of 3 1] by simp

end
