(* ===== verification/Csi_Config.thy ===== *)
theory Csi_Config
  imports Iax_Prelude
begin

text \<open>
  The configuration of channel-state-information capture: the settings kept in \<open>mvm->csi_cfg\<close>, the
  debugfs files through which user space reads and writes them (mvm/debugfs.c), and the command
  that hands them to the firmware (mvm/utils.c, fw/api/datapath.h). The number parsers
  \<open>kstrtobool\<close>, \<open>kstrtos64\<close>, \<open>kstrtou64\<close>, \<open>kstrtou32\<close> and \<open>sscanf\<close> belong to the kernel and are
  arguments of the handlers that call them, as is the result of handing a command to the transport.
\<close>

unbundle bit_operations_syntax

section \<open>State\<close>

definition ETH_ALEN :: nat where
  "ETH_ALEN = 6"

definition IWL_NUM_CHANNEL_ESTIMATION_FILTER_ADDRS :: nat where
  "IWL_NUM_CHANNEL_ESTIMATION_FILTER_ADDRS = 20"

definition IWL_CHANNEL_ESTIMATION_ENABLE :: u32 where
  "IWL_CHANNEL_ESTIMATION_ENABLE = push_bit 0 1"

definition IWL_CHANNEL_ESTIMATION_TIMER :: u32 where
  "IWL_CHANNEL_ESTIMATION_TIMER = push_bit 1 1"

definition IWL_CHANNEL_ESTIMATION_COUNTER :: u32 where
  "IWL_CHANNEL_ESTIMATION_COUNTER = push_bit 2 1"

definition IWL_CHANNEL_ESTIMATION_INTERVAL :: u32 where
  "IWL_CHANNEL_ESTIMATION_INTERVAL = push_bit 3 1"

record csi_cfg =
  cfg_flags :: u32
  cfg_timer :: u32
  cfg_count :: u32
  cfg_frame_types :: u64
  cfg_rate_n_flags_val :: u32
  cfg_rate_n_flags_mask :: u32
  cfg_interval :: u32
  cfg_filter_addrs :: "u8 list list"
  cfg_num_filter_addrs :: u8

text \<open>
  The rest of the driver state that the handlers read: whether the firmware runs, whether the
  suspend test is active, whether the firmware takes version 2 of the command; and the commands
  handed to the transport so far, each with its identifier and its payload.
\<close>

record csi_dev =
  csi_cfg :: csi_cfg
  fw_running :: bool
  d3_test_active :: bool
  capa_csi_v2 :: bool
  sent_cmds :: "(u32 \<times> u8 list) list"

text \<open>The settings after allocation: everything zero, all frame types selected (mvm/ops.c).\<close>

definition csi_cfg_init :: csi_cfg where
  "csi_cfg_init =
     \<lparr>cfg_flags = 0, cfg_timer = 0, cfg_count = 0, cfg_frame_types = NOT 0,
      cfg_rate_n_flags_val = 0, cfg_rate_n_flags_mask = 0, cfg_interval = 0,
      cfg_filter_addrs = replicate IWL_NUM_CHANNEL_ESTIMATION_FILTER_ADDRS (replicate ETH_ALEN 0),
      cfg_num_filter_addrs = 0\<rparr>"

section \<open>The command sent to the firmware\<close>

definition CHEST_COLLECTOR_CMD_ID :: u32 where
  "CHEST_COLLECTOR_CMD_ID = push_bit 8 0x5 OR 0x14"

text \<open>
  \<open>struct iwl_channel_estimation_cfg\<close> as the packed bytes the firmware receives: the addresses
  occupy eight bytes each, the last two reserved and zero. The designated initialiser zeroes the
  entries that the copy loop does not reach.
\<close>

definition encode_filter_addr :: "u8 list \<Rightarrow> u8 list" where
  "encode_filter_addr a = a @ [0, 0]"

definition iwl_channel_estimation_cfg_bytes :: "csi_cfg \<Rightarrow> u8 list" where
  "iwl_channel_estimation_cfg_bytes c =
     le_bytes 4 (cfg_flags c) @ le_bytes 4 (cfg_timer c) @ le_bytes 4 (cfg_count c)
     @ le_bytes 4 (cfg_rate_n_flags_mask c) @ le_bytes 4 (cfg_rate_n_flags_val c)
     @ le_bytes 4 (cfg_interval c) @ le_bytes 8 (cfg_frame_types c)
     @ le_bytes 4 (ucast (cfg_num_filter_addrs c) :: u32)
     @ concat (map (\<lambda>i. encode_filter_addr
                  (if i < unat (cfg_num_filter_addrs c) then cfg_filter_addrs c ! i
                   else replicate ETH_ALEN 0))
                [0..<IWL_NUM_CHANNEL_ESTIMATION_FILTER_ADDRS])"

definition sizeof_chest_cfg_v1 :: nat where
  "sizeof_chest_cfg_v1 = 32"

definition sizeof_chest_cfg :: nat where
  "sizeof_chest_cfg = 36 + 8 * IWL_NUM_CHANNEL_ESTIMATION_FILTER_ADDRS"

text \<open>
  Sending a command: refused while the suspend test is active, otherwise handed to the transport,
  whose result is the argument \<open>send\<close>; without \<open>CMD_WANT_SKB\<close> the failures of a device that is
  switched off or suspending are not reported.
\<close>

datatype trans_err = Trans_ERFKILL | Trans_EHOSTDOWN | Trans_err errno

definition CMD_WANT_SKB :: u32 where
  "CMD_WANT_SKB = push_bit 1 1"

definition iwl_mvm_send_cmd ::
  "(u32 \<Rightarrow> u8 list \<Rightarrow> trans_err option) \<Rightarrow> u32 \<Rightarrow> u32 \<Rightarrow> u8 list \<Rightarrow> csi_dev \<Rightarrow> trans_err option \<times> csi_dev"
where
  "iwl_mvm_send_cmd send cid flags payload d =
     (if d3_test_active d then (Some (Trans_err EIO), d)
      else
        (let ret = send cid payload;
             d = d\<lparr>sent_cmds := sent_cmds d @ [(cid, payload)]\<rparr>
         in if tst flags CMD_WANT_SKB then (ret, d)
            else if ret = None \<or> ret = Some Trans_ERFKILL \<or> ret = Some Trans_EHOSTDOWN
                 then (None, d)
                 else (ret, d)))"

definition iwl_mvm_send_cmd_pdu ::
  "(u32 \<Rightarrow> u8 list \<Rightarrow> trans_err option) \<Rightarrow> u32 \<Rightarrow> u32 \<Rightarrow> nat \<Rightarrow> u8 list \<Rightarrow> csi_dev \<Rightarrow> trans_err option \<times> csi_dev"
where
  "iwl_mvm_send_cmd_pdu send cid flags len payload d =
     iwl_mvm_send_cmd send cid flags (take len payload) d"

definition iwl_mvm_send_csi_cmd ::
  "(u32 \<Rightarrow> u8 list \<Rightarrow> trans_err option) \<Rightarrow> csi_dev \<Rightarrow> trans_err option \<times> csi_dev"
where
  "iwl_mvm_send_csi_cmd send d =
     (let cfg = iwl_channel_estimation_cfg_bytes (csi_cfg d);
          sz = (if capa_csi_v2 d then sizeof_chest_cfg else sizeof_chest_cfg_v1)
      in iwl_mvm_send_cmd_pdu send CHEST_COLLECTOR_CMD_ID 0 sz cfg d)"

text \<open>After a firmware restart the command is sent again when capture was enabled (mvm/mac80211.c).\<close>

definition csi_resend_after_restart ::
  "(u32 \<Rightarrow> u8 list \<Rightarrow> trans_err option) \<Rightarrow> csi_dev \<Rightarrow> csi_dev"
where
  "csi_resend_after_restart send d =
     (if tst (cfg_flags (csi_cfg d)) IWL_CHANNEL_ESTIMATION_ENABLE
      then snd (iwl_mvm_send_csi_cmd send d) else d)"

section \<open>The debugfs files\<close>

text \<open>
  The outcome of a write: the number of bytes taken, an error code, or an access outside the
  buffer. The wrapper copies at most \<open>buflen - 1\<close> bytes of what the user wrote into a zeroed
  buffer and passes their number on; a write of no bytes therefore makes the handlers read the
  byte in front of the buffer.
\<close>

datatype fs_result = FS_Done nat | FS_Err trans_err | FS_Oob

definition EOL :: char where "EOL = CHR 0x0A"

definition NUL :: char where "NUL = CHR 0x00"

definition mvm_debugfs_write_wrapper ::
  "nat \<Rightarrow> (string \<Rightarrow> 's \<Rightarrow> fs_result \<times> 's) \<Rightarrow> string \<Rightarrow> 's \<Rightarrow> fs_result \<times> 's"
where
  "mvm_debugfs_write_wrapper buflen handler user_buf st = handler (take (buflen - 1) user_buf) st"

text \<open>The common start of the handlers: the text must end in a newline, which is cut off.\<close>

definition debugfs_text :: "string \<Rightarrow> fs_result + string" where
  "debugfs_text buf =
     (if buf = [] then Inl FS_Oob
      else if last buf \<noteq> EOL then Inl (FS_Err (Trans_err EINVAL))
      else Inr (takeWhile (\<lambda>c. c \<noteq> NUL) (butlast buf)))"

definition iwl_dbgfs_csi_enabled_read :: "csi_dev \<Rightarrow> string" where
  "iwl_dbgfs_csi_enabled_read d =
     [if tst (cfg_flags (csi_cfg d)) IWL_CHANNEL_ESTIMATION_ENABLE then CHR ''1'' else CHR ''0'', EOL]"

definition iwl_dbgfs_csi_enabled_write ::
  "(string \<Rightarrow> errno + bool) \<Rightarrow> (u32 \<Rightarrow> u8 list \<Rightarrow> trans_err option) \<Rightarrow> string \<Rightarrow> csi_dev \<Rightarrow> fs_result \<times> csi_dev"
where
  "iwl_dbgfs_csi_enabled_write kstrtobool send buf d =
     (case debugfs_text buf of
        Inl r \<Rightarrow> (r, d)
      | Inr txt \<Rightarrow>
          (case kstrtobool txt of
             Inl e \<Rightarrow> (FS_Err (Trans_err e), d)
           | Inr enabled \<Rightarrow>
               if \<not> enabled \<and> \<not> tst (cfg_flags (csi_cfg d)) IWL_CHANNEL_ESTIMATION_ENABLE
               then (FS_Done (length buf), d)
               else
                 (let c = csi_cfg d;
                      fl = cfg_flags c AND NOT IWL_CHANNEL_ESTIMATION_ENABLE;
                      fl = (if enabled then fl OR IWL_CHANNEL_ESTIMATION_ENABLE else fl);
                      d = d\<lparr>csi_cfg := c\<lparr>cfg_flags := fl\<rparr>\<rparr>;
                      (err, d) = (if fw_running d then iwl_mvm_send_csi_cmd send d else (None, d))
                  in (case err of Some e \<Rightarrow> FS_Err e | None \<Rightarrow> FS_Done (length buf), d))))"

text \<open>Signed 64-bit values and their decimal text.\<close>

definition print_s64 :: "int \<Rightarrow> string" where
  "print_s64 i = (if i < 0 then ''-'' @ print_dec (nat (- i)) else print_dec (nat i))"

definition UINT_MAX :: int where
  "UINT_MAX = 4294967295"

definition iwl_dbgfs_csi_count_read :: "csi_dev \<Rightarrow> string" where
  "iwl_dbgfs_csi_count_read d =
     scnprintf 32
       (print_s64 (if tst (cfg_flags (csi_cfg d)) IWL_CHANNEL_ESTIMATION_COUNTER
                   then uint (cfg_count (csi_cfg d)) else - 1) @ [EOL])"

definition iwl_dbgfs_csi_count_write ::
  "(string \<Rightarrow> errno + u64) \<Rightarrow> string \<Rightarrow> csi_dev \<Rightarrow> fs_result \<times> csi_dev"
where
  "iwl_dbgfs_csi_count_write kstrtos64 buf d =
     (case debugfs_text buf of
        Inl r \<Rightarrow> (r, d)
      | Inr txt \<Rightarrow>
          (case kstrtos64 txt of
             Inl e \<Rightarrow> (FS_Err (Trans_err e), d)
           | Inr ctr \<Rightarrow>
               let c = csi_cfg d
               in if sint ctr \<le> 0 then
                    (FS_Done (length buf),
                     d\<lparr>csi_cfg := c\<lparr>cfg_flags := cfg_flags c AND NOT IWL_CHANNEL_ESTIMATION_COUNTER,
                                    cfg_count := 0\<rparr>\<rparr>)
                  else if sint ctr \<le> UINT_MAX then
                    (FS_Done (length buf),
                     d\<lparr>csi_cfg := c\<lparr>cfg_flags := cfg_flags c OR IWL_CHANNEL_ESTIMATION_COUNTER,
                                    cfg_count := ucast ctr\<rparr>\<rparr>)
                  else (FS_Err (Trans_err ERANGE), d)))"

definition iwl_dbgfs_csi_timeout_read :: "csi_dev \<Rightarrow> string" where
  "iwl_dbgfs_csi_timeout_read d =
     scnprintf 32
       (print_s64 (if tst (cfg_flags (csi_cfg d)) IWL_CHANNEL_ESTIMATION_TIMER
                   then uint (cfg_timer (csi_cfg d)) else - 1) @ [EOL])"

definition iwl_dbgfs_csi_timeout_write ::
  "(string \<Rightarrow> errno + u64) \<Rightarrow> string \<Rightarrow> csi_dev \<Rightarrow> fs_result \<times> csi_dev"
where
  "iwl_dbgfs_csi_timeout_write kstrtos64 buf d =
     (case debugfs_text buf of
        Inl r \<Rightarrow> (r, d)
      | Inr txt \<Rightarrow>
          (case kstrtos64 txt of
             Inl e \<Rightarrow> (FS_Err (Trans_err e), d)
           | Inr timer \<Rightarrow>
               let c = csi_cfg d
               in if sint timer < 0 then
                    (FS_Done (length buf),
                     d\<lparr>csi_cfg := c\<lparr>cfg_flags := cfg_flags c AND NOT IWL_CHANNEL_ESTIMATION_TIMER,
                                    cfg_timer := 0\<rparr>\<rparr>)
                  else if sint timer \<le> UINT_MAX then
                    (FS_Done (length buf),
                     d\<lparr>csi_cfg := c\<lparr>cfg_flags := cfg_flags c OR IWL_CHANNEL_ESTIMATION_TIMER,
                                    cfg_timer := ucast timer\<rparr>\<rparr>)
                  else (FS_Err (Trans_err ERANGE), d)))"

definition iwl_dbgfs_csi_frame_types_read :: "csi_dev \<Rightarrow> string" where
  "iwl_dbgfs_csi_frame_types_read d =
     scnprintf 32 (''0x'' @ print_hex (unat (cfg_frame_types (csi_cfg d))) @ [EOL])"

definition iwl_dbgfs_csi_frame_types_write ::
  "(string \<Rightarrow> errno + u64) \<Rightarrow> string \<Rightarrow> csi_dev \<Rightarrow> fs_result \<times> csi_dev"
where
  "iwl_dbgfs_csi_frame_types_write kstrtou64 buf d =
     (case debugfs_text buf of
        Inl r \<Rightarrow> (r, d)
      | Inr txt \<Rightarrow>
          (case kstrtou64 txt of
             Inl e \<Rightarrow> (FS_Err (Trans_err e), d)
           | Inr v \<Rightarrow>
               (FS_Done (length buf), d\<lparr>csi_cfg := (csi_cfg d)\<lparr>cfg_frame_types := v\<rparr>\<rparr>)))"

definition iwl_dbgfs_csi_interval_read :: "csi_dev \<Rightarrow> string" where
  "iwl_dbgfs_csi_interval_read d =
     scnprintf 32 (print_dec (unat (cfg_interval (csi_cfg d))) @ [EOL])"

definition iwl_dbgfs_csi_interval_write ::
  "(string \<Rightarrow> errno + u32) \<Rightarrow> string \<Rightarrow> csi_dev \<Rightarrow> fs_result \<times> csi_dev"
where
  "iwl_dbgfs_csi_interval_write kstrtou32 buf d =
     (case debugfs_text buf of
        Inl r \<Rightarrow> (r, d)
      | Inr txt \<Rightarrow>
          (case kstrtou32 txt of
             Inl e \<Rightarrow> (FS_Err (Trans_err e), d)
           | Inr v \<Rightarrow>
               let c = (csi_cfg d)\<lparr>cfg_interval := v\<rparr>
               in (FS_Done (length buf),
                   d\<lparr>csi_cfg := c\<lparr>cfg_flags :=
                       (if v \<noteq> 0 then cfg_flags c OR IWL_CHANNEL_ESTIMATION_INTERVAL
                        else cfg_flags c AND NOT IWL_CHANNEL_ESTIMATION_INTERVAL)\<rparr>\<rparr>)))"

text \<open>The address filters: \<open>%pM\<close> prints six bytes in lower-case hexadecimal, colons between them.\<close>

definition hex_byte :: "u8 \<Rightarrow> string" where
  "hex_byte b = [digit_char (unat b div 16), digit_char (unat b mod 16)]"

fun print_mac :: "u8 list \<Rightarrow> string" where
  "print_mac [] = []"
| "print_mac [b] = hex_byte b"
| "print_mac (b # c # bs) = hex_byte b @ CHR '':'' # print_mac (c # bs)"

definition CSI_ADDRESSES_BUFLEN :: nat where
  "CSI_ADDRESSES_BUFLEN = 2 + ETH_ALEN * 3 * IWL_NUM_CHANNEL_ESTIMATION_FILTER_ADDRS"

fun csi_addresses_text :: "nat \<Rightarrow> u8 list list \<Rightarrow> string" where
  "csi_addresses_text space [] = []"
| "csi_addresses_text space (a # as) =
     (let line = scnprintf space (print_mac a @ [EOL])
      in line @ csi_addresses_text (space - length line) as)"

definition iwl_dbgfs_csi_addresses_read :: "csi_dev \<Rightarrow> string" where
  "iwl_dbgfs_csi_addresses_read d =
     csi_addresses_text CSI_ADDRESSES_BUFLEN
       (take (unat (cfg_num_filter_addrs (csi_cfg d))) (cfg_filter_addrs (csi_cfg d)))"

text \<open>
  \<open>strsep\<close> cuts the text at the first newline or blank; without one the token is the whole text
  and the rest is NULL. The loop stops at a NULL or empty token and when the array is full; before
  each conversion it copies 18 bytes of the buffer, starting at the token, into a debug string.
  \<open>scan\<close> stands for \<open>sscanf\<close> with six \<open>%hhx\<close> conversions: the six bytes, when all succeed.
\<close>

definition is_sep :: "char \<Rightarrow> bool" where
  "is_sep c \<longleftrightarrow> c = EOL \<or> c = CHR '' ''"

definition strsep :: "string \<Rightarrow> string \<times> string option" where
  "strsep s =
     (takeWhile (\<lambda>c. \<not> is_sep c) s,
      case dropWhile (\<lambda>c. \<not> is_sep c) s of [] \<Rightarrow> None | _ # rest \<Rightarrow> Some rest)"

type_synonym mac6 = "u8 \<times> u8 \<times> u8 \<times> u8 \<times> u8 \<times> u8"

fun mac_list :: "mac6 \<Rightarrow> u8 list" where
  "mac_list (a, b, c, d, e, f) = [a, b, c, d, e, f]"

fun csi_addresses_loop ::
  "(string \<Rightarrow> mac6 option) \<Rightarrow> nat \<Rightarrow> nat \<Rightarrow> string option \<Rightarrow> u8 list list
   \<Rightarrow> fs_result + (u8 list list \<times> string option)"
where
  "csi_addresses_loop scan 0 off pos addrs = Inr (addrs, pos)"
| "csi_addresses_loop scan (Suc n) off None addrs = Inr (addrs, None)"
| "csi_addresses_loop scan (Suc n) off (Some s) addrs =
     (let (addrstr, pos) = strsep s
      in if addrstr = [] then Inr (addrs, pos)
         else if CSI_ADDRESSES_BUFLEN < off + 18 then Inl FS_Oob
         else (case scan addrstr of
                 None \<Rightarrow> Inl (FS_Err (Trans_err EINVAL))
               | Some a \<Rightarrow>
                   csi_addresses_loop scan n (off + length addrstr + 1) pos (addrs @ [mac_list a])))"

definition iwl_dbgfs_csi_addresses_write ::
  "(string \<Rightarrow> mac6 option) \<Rightarrow> string \<Rightarrow> csi_dev \<Rightarrow> fs_result \<times> csi_dev"
where
  "iwl_dbgfs_csi_addresses_write scan buf d =
     (case debugfs_text buf of
        Inl r \<Rightarrow> (r, d)
      | Inr txt \<Rightarrow>
          (case csi_addresses_loop scan IWL_NUM_CHANNEL_ESTIMATION_FILTER_ADDRS 0 (Some txt) [] of
             Inl r \<Rightarrow> (r, d)
           | Inr (addrs, Some rest) \<Rightarrow> (FS_Err (Trans_err EINVAL), d)
           | Inr (addrs, None) \<Rightarrow>
               let c = csi_cfg d; num = length addrs
               in (FS_Done (length buf),
                   d\<lparr>csi_cfg := c\<lparr>cfg_num_filter_addrs := of_nat num,
                       cfg_filter_addrs := addrs @ drop num (cfg_filter_addrs c)\<rparr>\<rparr>)))"

section \<open>The files as a state machine\<close>

text \<open>
  The kernel's parsers and the transport, bundled, and the steps: one per writable file, each
  through the write wrapper with the buffer size of its declaration, and the restart.
\<close>

record csi_env =
  env_bool :: "string \<Rightarrow> errno + bool"
  env_s64 :: "string \<Rightarrow> errno + u64"
  env_u64 :: "string \<Rightarrow> errno + u64"
  env_u32 :: "string \<Rightarrow> errno + u32"
  env_mac :: "string \<Rightarrow> mac6 option"
  env_send :: "u32 \<Rightarrow> u8 list \<Rightarrow> trans_err option"

inductive csi_step :: "csi_env \<Rightarrow> csi_dev \<Rightarrow> csi_dev \<Rightarrow> bool" for env where
  enabled: "csi_step env d (snd (mvm_debugfs_write_wrapper 8
     (iwl_dbgfs_csi_enabled_write (env_bool env) (env_send env)) user d))"
| count: "csi_step env d (snd (mvm_debugfs_write_wrapper 32
     (iwl_dbgfs_csi_count_write (env_s64 env)) user d))"
| timeout: "csi_step env d (snd (mvm_debugfs_write_wrapper 32
     (iwl_dbgfs_csi_timeout_write (env_s64 env)) user d))"
| frame_types: "csi_step env d (snd (mvm_debugfs_write_wrapper 32
     (iwl_dbgfs_csi_frame_types_write (env_u64 env)) user d))"
| interval: "csi_step env d (snd (mvm_debugfs_write_wrapper 32
     (iwl_dbgfs_csi_interval_write (env_u32 env)) user d))"
| addresses: "csi_step env d (snd (mvm_debugfs_write_wrapper CSI_ADDRESSES_BUFLEN
     (iwl_dbgfs_csi_addresses_write (env_mac env)) user d))"
| rate_val: "csi_step env d (d\<lparr>csi_cfg := (csi_cfg d)\<lparr>cfg_rate_n_flags_val := v\<rparr>\<rparr>)"
| rate_mask: "csi_step env d (d\<lparr>csi_cfg := (csi_cfg d)\<lparr>cfg_rate_n_flags_mask := v\<rparr>\<rparr>)"
| restart: "csi_step env d (csi_resend_after_restart (env_send env) d)"

inductive csi_reachable :: "csi_env \<Rightarrow> csi_dev \<Rightarrow> bool" for env where
  init: "csi_cfg d = csi_cfg_init \<Longrightarrow> csi_reachable env d"
| step: "csi_reachable env d \<Longrightarrow> csi_step env d d' \<Longrightarrow> csi_reachable env d'"

definition csi_cfg_inv :: "csi_cfg \<Rightarrow> bool" where
  "csi_cfg_inv c \<longleftrightarrow>
     (bit (cfg_flags c) 2 \<longleftrightarrow> cfg_count c \<noteq> 0) \<and>
     (\<not> bit (cfg_flags c) 1 \<longrightarrow> cfg_timer c = 0) \<and>
     (bit (cfg_flags c) 3 \<longleftrightarrow> cfg_interval c \<noteq> 0) \<and>
     take_bit 4 (cfg_flags c) = cfg_flags c \<and>
     unat (cfg_num_filter_addrs c) \<le> IWL_NUM_CHANNEL_ESTIMATION_FILTER_ADDRS \<and>
     length (cfg_filter_addrs c) = IWL_NUM_CHANNEL_ESTIMATION_FILTER_ADDRS \<and>
     (\<forall>a \<in> set (cfg_filter_addrs c). length a = ETH_ALEN)"

section \<open>Lemmas\<close>

lemmas csi_flag_defs = IWL_CHANNEL_ESTIMATION_ENABLE_def IWL_CHANNEL_ESTIMATION_TIMER_def
  IWL_CHANNEL_ESTIMATION_COUNTER_def IWL_CHANNEL_ESTIMATION_INTERVAL_def

lemma csi_cfg_inv_init: "csi_cfg_inv csi_cfg_init"
  by (simp add: csi_cfg_inv_def csi_cfg_init_def ETH_ALEN_def)

lemma ucast_count_nonzero:
  assumes "0 < sint (ctr :: u64)" "sint ctr \<le> UINT_MAX"
  shows "(ucast ctr :: u32) \<noteq> 0"
proof
  assume z: "(ucast ctr :: u32) = 0"
  have "uint ctr = take_bit 64 (sint ctr)" by (simp add: uint_sint)
  also have "\<dots> = sint ctr"
    using assms by (intro take_bit_int_eq_self) (simp_all add: UINT_MAX_def)
  finally have u: "uint ctr = sint ctr" .
  have "(word_of_int (uint ctr) :: u32) = 0" using z by simp
  then have "(2 :: int) ^ LENGTH(32) dvd uint ctr" unfolding word_of_int_eq_0_iff .
  then have "(2 :: int) ^ LENGTH(32) \<le> uint ctr" using assms u by (intro zdvd_imp_le) simp_all
  with assms u show False by (simp add: UINT_MAX_def)
qed

text \<open>Setting and clearing one of the four flags keeps the others and the upper bits.\<close>

lemma csi_flag_bits [simp]:
  "bit (f AND NOT IWL_CHANNEL_ESTIMATION_ENABLE) n \<longleftrightarrow> bit f n \<and> n \<noteq> 0"
  "bit (f AND NOT IWL_CHANNEL_ESTIMATION_TIMER) n \<longleftrightarrow> bit f n \<and> n \<noteq> 1"
  "bit (f AND NOT IWL_CHANNEL_ESTIMATION_COUNTER) n \<longleftrightarrow> bit f n \<and> n \<noteq> 2"
  "bit (f AND NOT IWL_CHANNEL_ESTIMATION_INTERVAL) n \<longleftrightarrow> bit f n \<and> n \<noteq> 3"
  "bit (f OR IWL_CHANNEL_ESTIMATION_ENABLE) n \<longleftrightarrow> bit f n \<or> n = 0"
  "bit (f OR IWL_CHANNEL_ESTIMATION_TIMER) n \<longleftrightarrow> bit f n \<or> n = 1"
  "bit (f OR IWL_CHANNEL_ESTIMATION_COUNTER) n \<longleftrightarrow> bit f n \<or> n = 2"
  "bit (f OR IWL_CHANNEL_ESTIMATION_INTERVAL) n \<longleftrightarrow> bit f n \<or> n = 3"
proof -
  have b: "bit (push_bit k (1 :: u32)) n \<longleftrightarrow> n = k" if "k < 32" for k
    using that by (auto simp: bit_simps)
  have c: "bit IWL_CHANNEL_ESTIMATION_ENABLE n \<longleftrightarrow> n = 0"
    "bit IWL_CHANNEL_ESTIMATION_TIMER n \<longleftrightarrow> n = 1"
    "bit IWL_CHANNEL_ESTIMATION_COUNTER n \<longleftrightarrow> n = 2"
    "bit IWL_CHANNEL_ESTIMATION_INTERVAL n \<longleftrightarrow> n = 3"
    unfolding csi_flag_defs by (rule b, simp)+
  show "bit (f AND NOT IWL_CHANNEL_ESTIMATION_ENABLE) n \<longleftrightarrow> bit f n \<and> n \<noteq> 0"
    "bit (f AND NOT IWL_CHANNEL_ESTIMATION_TIMER) n \<longleftrightarrow> bit f n \<and> n \<noteq> 1"
    "bit (f AND NOT IWL_CHANNEL_ESTIMATION_COUNTER) n \<longleftrightarrow> bit f n \<and> n \<noteq> 2"
    "bit (f AND NOT IWL_CHANNEL_ESTIMATION_INTERVAL) n \<longleftrightarrow> bit f n \<and> n \<noteq> 3"
    "bit (f OR IWL_CHANNEL_ESTIMATION_ENABLE) n \<longleftrightarrow> bit f n \<or> n = 0"
    "bit (f OR IWL_CHANNEL_ESTIMATION_TIMER) n \<longleftrightarrow> bit f n \<or> n = 1"
    "bit (f OR IWL_CHANNEL_ESTIMATION_COUNTER) n \<longleftrightarrow> bit f n \<or> n = 2"
    "bit (f OR IWL_CHANNEL_ESTIMATION_INTERVAL) n \<longleftrightarrow> bit f n \<or> n = 3"
    by (auto simp: bit_and_iff bit_or_iff bit_not_iff_eq c dest: bit_imp_le_length)
qed

lemma tst_csi_flags [simp]:
  "tst f IWL_CHANNEL_ESTIMATION_ENABLE \<longleftrightarrow> bit f 0"
  "tst f IWL_CHANNEL_ESTIMATION_TIMER \<longleftrightarrow> bit f 1"
  "tst f IWL_CHANNEL_ESTIMATION_COUNTER \<longleftrightarrow> bit f 2"
  "tst f IWL_CHANNEL_ESTIMATION_INTERVAL \<longleftrightarrow> bit f 3"
  unfolding csi_flag_defs by (rule tst_push_bit_1; simp)+

lemma take_bit_4_iff: "take_bit 4 f = f \<longleftrightarrow> (\<forall>n. bit f n \<longrightarrow> n < 4)" for f :: u32
proof
  assume "take_bit 4 f = f"
  then show "\<forall>n. bit f n \<longrightarrow> n < 4" by (metis bit_take_bit_iff)
next
  assume "\<forall>n. bit f n \<longrightarrow> n < 4"
  then show "take_bit 4 f = f" by (intro bit_eqI) (auto simp: bit_take_bit_iff)
qed

lemma length_mac_list [simp]: "length (mac_list a) = ETH_ALEN"
  by (cases a) (simp add: ETH_ALEN_def)

lemma csi_addresses_loop_sound:
  "csi_addresses_loop scan n off pos addrs = Inr (out, rest) \<Longrightarrow>
   \<forall>a \<in> set addrs. length a = ETH_ALEN \<Longrightarrow>
   length out \<le> length addrs + n \<and> (\<forall>a \<in> set out. length a = ETH_ALEN)"
proof (induction scan n off pos addrs rule: csi_addresses_loop.induct)
  case (3 scan n off s addrs)
  obtain tok pos' where sep: "strsep s = (tok, pos')" by (cases "strsep s")
  show ?case
  proof (cases "tok = []")
    case True
    with 3(2,3) sep show ?thesis by simp
  next
    case False
    with 3(2) sep obtain a where a: "scan tok = Some a"
      "csi_addresses_loop scan n (off + length tok + 1) pos' (addrs @ [mac_list a]) = Inr (out, rest)"
      "\<not> CSI_ADDRESSES_BUFLEN < off + 18"
      by (simp split: if_splits option.splits)
    have "\<forall>b \<in> set (addrs @ [mac_list a]). length b = ETH_ALEN" using 3(3) by simp
    from 3(1) [OF sep [symmetric] refl False a(3) a(1) a(2) this] show ?thesis by simp
  qed
qed auto

lemma send_csi_cfg_unchanged [simp]: "csi_cfg (snd (iwl_mvm_send_csi_cmd send d)) = csi_cfg d"
  by (simp add: iwl_mvm_send_csi_cmd_def iwl_mvm_send_cmd_pdu_def iwl_mvm_send_cmd_def Let_def)

text \<open>Each file keeps the invariant of the settings.\<close>

lemma csi_cfg_inv_flags:
  "csi_cfg_inv c \<longleftrightarrow>
     (bit (cfg_flags c) 2 \<longleftrightarrow> cfg_count c \<noteq> 0) \<and> (\<not> bit (cfg_flags c) 1 \<longrightarrow> cfg_timer c = 0) \<and>
     (bit (cfg_flags c) 3 \<longleftrightarrow> cfg_interval c \<noteq> 0) \<and> (\<forall>n. bit (cfg_flags c) n \<longrightarrow> n < 4) \<and>
     unat (cfg_num_filter_addrs c) \<le> IWL_NUM_CHANNEL_ESTIMATION_FILTER_ADDRS \<and>
     length (cfg_filter_addrs c) = IWL_NUM_CHANNEL_ESTIMATION_FILTER_ADDRS \<and>
     (\<forall>a \<in> set (cfg_filter_addrs c). length a = ETH_ALEN)"
  by (simp add: csi_cfg_inv_def take_bit_4_iff)

lemma csi_enabled_inv:
  "csi_cfg_inv (csi_cfg d) \<Longrightarrow>
   csi_cfg_inv (csi_cfg (snd (iwl_dbgfs_csi_enabled_write kb send buf d)))"
  by (simp add: iwl_dbgfs_csi_enabled_write_def csi_cfg_inv_flags Let_def case_prod_beta
      split: sum.split)

lemma csi_count_inv:
  "csi_cfg_inv (csi_cfg d) \<Longrightarrow> csi_cfg_inv (csi_cfg (snd (iwl_dbgfs_csi_count_write ks buf d)))"
  by (auto simp: iwl_dbgfs_csi_count_write_def csi_cfg_inv_flags Let_def ucast_count_nonzero
      split: sum.splits)

lemma csi_timeout_inv:
  "csi_cfg_inv (csi_cfg d) \<Longrightarrow> csi_cfg_inv (csi_cfg (snd (iwl_dbgfs_csi_timeout_write ks buf d)))"
  by (auto simp: iwl_dbgfs_csi_timeout_write_def csi_cfg_inv_flags Let_def split: sum.splits)

lemma csi_interval_inv:
  "csi_cfg_inv (csi_cfg d) \<Longrightarrow> csi_cfg_inv (csi_cfg (snd (iwl_dbgfs_csi_interval_write ku buf d)))"
  by (auto simp: iwl_dbgfs_csi_interval_write_def csi_cfg_inv_flags Let_def split: sum.splits)

lemma csi_addresses_store_inv:
  assumes "csi_cfg_inv c"
    and "csi_addresses_loop scan IWL_NUM_CHANNEL_ESTIMATION_FILTER_ADDRS 0 (Some txt) [] = Inr (addrs, None)"
  shows "csi_cfg_inv (c\<lparr>cfg_num_filter_addrs := of_nat (length addrs),
      cfg_filter_addrs := addrs @ drop (length addrs) (cfg_filter_addrs c)\<rparr>)"
proof -
  have l: "length addrs \<le> 20" "\<forall>a \<in> set addrs. length a = ETH_ALEN"
    using csi_addresses_loop_sound [OF assms(2)]
    by (auto simp: IWL_NUM_CHANNEL_ESTIMATION_FILTER_ADDRS_def)
  then have "unat (of_nat (length addrs) :: u8) = length addrs" by (intro of_nat_inverse) simp_all
  with assms(1) l show ?thesis
    by (auto simp: csi_cfg_inv_def IWL_NUM_CHANNEL_ESTIMATION_FILTER_ADDRS_def dest: in_set_dropD)
qed

lemma csi_addresses_inv:
  "csi_cfg_inv (csi_cfg d) \<Longrightarrow>
   csi_cfg_inv (csi_cfg (snd (iwl_dbgfs_csi_addresses_write scan buf d)))"
  by (auto simp: iwl_dbgfs_csi_addresses_write_def Let_def csi_addresses_store_inv
      split: sum.splits option.splits)

lemma csi_step_inv: "csi_step env d d' \<Longrightarrow> csi_cfg_inv (csi_cfg d) \<Longrightarrow> csi_cfg_inv (csi_cfg d')"
proof (induction rule: csi_step.induct)
  case (frame_types d user)
  then show ?case
    by (auto simp: mvm_debugfs_write_wrapper_def iwl_dbgfs_csi_frame_types_write_def csi_cfg_inv_def
        split: sum.splits)
qed (simp_all add: mvm_debugfs_write_wrapper_def csi_enabled_inv csi_count_inv csi_timeout_inv
    csi_interval_inv csi_addresses_inv csi_resend_after_restart_def, simp_all add: csi_cfg_inv_def)


inductive_cases csi_step_cases: "csi_step env d d'"

inductive_cases csi_reachable_cases: "csi_reachable env d"

text \<open>The packed command: its length, the fields at their offsets, the address slots.\<close>

lemma get_bytes_append_skip [simp]:
  "length xs \<le> pos \<Longrightarrow> get_bytes pos n (xs @ ys) = get_bytes (pos - length xs) n ys"
  by (simp add: get_bytes_def)

lemma get_bytes_append_here [simp]: "length xs = n \<Longrightarrow> get_bytes 0 n (xs @ ys) = xs"
  by (simp add: get_bytes_def)

lemma get_bytes_concat_slots:
  assumes "\<And>i. i < n \<Longrightarrow> length (f i) = k" "i < n" "m \<le> k"
  shows "get_bytes (k * i) m (concat (map f [0..<n])) = take m (f i)"
proof -
  have len: "length (concat (map f [a..<b])) = k * (b - a)" if "b \<le> n" for a b
    using that assms(1) by (subst length_concat_slots [where k = k]) simp_all
  have "[0..<n] = [0..<i] @ i # [Suc i..<n]"
    using assms(2) by (metis less_imp_le_nat upt_add_eq_append upt_conv_Cons le_add_diff_inverse
        zero_le add_0)
  then have "concat (map f [0..<n]) = concat (map f [0..<i]) @ f i @ concat (map f [Suc i..<n])"
    by simp
  then show ?thesis using len [of i 0] assms by (simp add: get_bytes_def)
qed

lemma length_filter_addr_slot:
  "csi_cfg_inv c \<Longrightarrow> length (encode_filter_addr
     (if i < unat (cfg_num_filter_addrs c) then cfg_filter_addrs c ! i else replicate ETH_ALEN 0)) = 8"
  by (auto simp: csi_cfg_inv_def encode_filter_addr_def ETH_ALEN_def)

lemma length_chest_cfg_bytes:
  assumes "csi_cfg_inv c"
  shows "length (iwl_channel_estimation_cfg_bytes c) = sizeof_chest_cfg"
  unfolding iwl_channel_estimation_cfg_bytes_def sizeof_chest_cfg_def
  by (simp add: length_concat_slots [where k = 8] length_filter_addr_slot [OF assms])

lemma chest_cfg_bytes_slot:
  assumes "csi_cfg_inv c" "i < unat (cfg_num_filter_addrs c)"
  shows "get_bytes (36 + 8 * i) 6 (iwl_channel_estimation_cfg_bytes c) = cfg_filter_addrs c ! i"
proof -
  let ?slot = "\<lambda>i. encode_filter_addr (if i < unat (cfg_num_filter_addrs c)
     then cfg_filter_addrs c ! i else replicate ETH_ALEN 0)"
  have i: "i < IWL_NUM_CHANNEL_ESTIMATION_FILTER_ADDRS" and l: "length (cfg_filter_addrs c ! i) = 6"
    using assms by (auto simp: csi_cfg_inv_def ETH_ALEN_def)
  have "get_bytes (36 + 8 * i) 6 (iwl_channel_estimation_cfg_bytes c) =
        get_bytes (8 * i) 6 (concat (map ?slot [0..<IWL_NUM_CHANNEL_ESTIMATION_FILTER_ADDRS]))"
    by (simp add: iwl_channel_estimation_cfg_bytes_def)
  also have "\<dots> = take 6 (?slot i)"
    by (rule get_bytes_concat_slots) (simp_all add: length_filter_addr_slot [OF assms(1)] i)
  finally show ?thesis using l assms(2) by (simp add: encode_filter_addr_def)
qed

text \<open>The address file: the text of a filter list, cut again into its addresses.\<close>

lemma digit_char_not_sep:
  "d < 16 \<Longrightarrow> digit_char d \<noteq> CHR 0x0A \<and> digit_char d \<noteq> CHR '' '' \<and> digit_char d \<noteq> NUL"
proof -
  have "\<forall>d \<in> set [0..<16]. digit_char d \<noteq> CHR 0x0A \<and> digit_char d \<noteq> CHR '' '' \<and> digit_char d \<noteq> NUL"
    unfolding digit_char_def NUL_def by code_simp
  then show "d < 16 \<Longrightarrow> ?thesis" by simp
qed

lemma hex_byte_clean: "c \<in> set (hex_byte b) \<Longrightarrow> \<not> is_sep c \<and> c \<noteq> NUL"
proof -
  have "unat b < 256" using unsigned_less [of b] by simp
  then have "unat b div 16 < 16" "unat b mod 16 < 16" by simp_all
  then show "c \<in> set (hex_byte b) \<Longrightarrow> ?thesis"
    using digit_char_not_sep by (auto simp: hex_byte_def is_sep_def EOL_def)
qed

lemma print_mac_clean: "c \<in> set (print_mac a) \<Longrightarrow> \<not> is_sep c \<and> c \<noteq> NUL"
  by (induction a rule: print_mac.induct)
    (use hex_byte_clean in \<open>auto simp: is_sep_def EOL_def NUL_def\<close>)

lemma length_print_mac6 [simp]: "length (print_mac (mac_list a)) = 17"
  by (cases a) (simp add: hex_byte_def)

lemma strsep_line:
  "\<forall>c \<in> set t. \<not> is_sep c \<Longrightarrow> strsep t = (t, None)"
  "\<forall>c \<in> set t. \<not> is_sep c \<Longrightarrow> strsep (t @ EOL # rest) = (t, Some rest)"
  by (simp_all add: strsep_def takeWhile_eq_all_conv dropWhile_eq_Nil_conv [THEN iffD2]
      takeWhile_append2 dropWhile_append2 is_sep_def)

fun mac_lines :: "mac6 list \<Rightarrow> string" where
  "mac_lines [] = []"
| "mac_lines [a] = print_mac (mac_list a)"
| "mac_lines (a # b # as) = print_mac (mac_list a) @ EOL # mac_lines (b # as)"

lemma mac_lines_not_Nil [simp]: "as \<noteq> [] \<Longrightarrow> mac_lines as \<noteq> []"
  by (cases as rule: mac_lines.cases) (auto dest: arg_cong [of _ _ length])

lemma NUL_notin_mac_lines: "NUL \<notin> set (mac_lines as)"
  by (induction as rule: mac_lines.induct) (auto dest: print_mac_clean simp: EOL_def NUL_def)

lemma length_mac_lines: "as \<noteq> [] \<Longrightarrow> length (mac_lines as) = 18 * length as - 1"
  by (induction as rule: mac_lines.induct) auto

lemma csi_addresses_text_lines:
  "as \<noteq> [] \<Longrightarrow> 18 * length as < space \<Longrightarrow>
   csi_addresses_text space (map mac_list as) = mac_lines as @ [EOL]"
proof (induction as arbitrary: space rule: mac_lines.induct)
  case (3 a b as)
  then show ?case using 3(1) [of "space - 18"]
    by (simp add: scnprintf_def del: print_mac.simps mac_list.simps)
qed (simp_all add: scnprintf_def del: print_mac.simps mac_list.simps)

lemma csi_addresses_loop_lines:
  assumes scan: "\<And>a. scan (print_mac (mac_list a)) = Some a"
  shows "as \<noteq> [] \<Longrightarrow> length as \<le> n \<Longrightarrow> off + 18 * length as \<le> CSI_ADDRESSES_BUFLEN \<Longrightarrow>
     csi_addresses_loop scan n off (Some (mac_lines as)) done = Inr (done @ map mac_list as, None)"
proof (induction as arbitrary: n off "done" rule: mac_lines.induct)
  case (2 a)
  then obtain m where n: "n = Suc m" by (cases n) auto
  have "strsep (mac_lines [a]) = (print_mac (mac_list a), None)"
    using print_mac_clean by (simp add: strsep_line)
  moreover have "print_mac (mac_list a) \<noteq> []" by (auto dest: arg_cong [of _ _ length])
  ultimately show ?case using 2 scan n by (cases m) simp_all
next
  case (3 a b as)
  then obtain m where n: "n = Suc m" by (cases n) auto
  have "strsep (mac_lines (a # b # as)) = (print_mac (mac_list a), Some (mac_lines (b # as)))"
    using print_mac_clean by (simp add: strsep_line)
  moreover have "print_mac (mac_list a) \<noteq> []" by (auto dest: arg_cong [of _ _ length])
  ultimately show ?case
    using 3(3,4) scan n 3(1) [of m "18 + off" "done @ [mac_list a]"] by simp
qed simp


text \<open>The text that the address file shows for a valid configuration with at least one filter.\<close>

lemma csi_addresses_read_lines:
  assumes "csi_cfg_inv (csi_cfg d)" "cfg_num_filter_addrs (csi_cfg d) \<noteq> 0"
  obtains fl where "map mac_list fl = take (unat (cfg_num_filter_addrs (csi_cfg d))) (cfg_filter_addrs (csi_cfg d))"
    "length fl = unat (cfg_num_filter_addrs (csi_cfg d))" "0 < length fl" "length fl \<le> 20"
    "iwl_dbgfs_csi_addresses_read d = mac_lines fl @ [EOL]"
proof -
  define n where "n = unat (cfg_num_filter_addrs (csi_cfg d))"
  define fs where "fs = take n (cfg_filter_addrs (csi_cfg d))"
  define fl where "fl = map (\<lambda>f. (f ! 0, f ! 1, f ! 2, f ! 3, f ! 4, f ! 5)) fs"
  have inv: "n \<le> 20" "length fs = n" "\<forall>f \<in> set fs. length f = 6"
    using assms(1) by (auto simp: csi_cfg_inv_def n_def fs_def ETH_ALEN_def
        IWL_NUM_CHANNEL_ESTIMATION_FILTER_ADDRS_def dest: in_set_takeD)
  have n: "0 < n" using assms(2) by (simp add: n_def unat_gt_0)
  have "mac_list (f ! 0, f ! 1, f ! 2, f ! 3, f ! 4, f ! 5) = f" if "length f = 6" for f
    using that by (intro nth_equalityI) (auto simp: less_Suc_eq numeral_eq_Suc)
  then have map: "map mac_list fl = fs" using inv(3) by (simp add: fl_def comp_def map_idI)
  have len: "length fl = n" using inv(2) by (simp add: fl_def)
  have "iwl_dbgfs_csi_addresses_read d = mac_lines fl @ [EOL]"
    using map len n inv(1) csi_addresses_text_lines [of fl CSI_ADDRESSES_BUFLEN]
    by (cases "fl = []") (auto simp: iwl_dbgfs_csi_addresses_read_def fs_def n_def CSI_ADDRESSES_BUFLEN_def
        ETH_ALEN_def IWL_NUM_CHANNEL_ESTIMATION_FILTER_ADDRS_def)
  then show ?thesis using that [of fl] map len n inv(1) by (simp add: fs_def n_def)
qed

section \<open>Properties\<close>

text \<open>C22: In every state that any sequence of writes to the CSI debugfs files and firmware restarts
  reaches from the freshly allocated device, the settings are consistent: the COUNTER flag is set
  exactly when the count is non-zero, a clear TIMER flag means a zero timer, the INTERVAL flag is
  set exactly when the interval is non-zero, no undefined flag is set, and at most 20 filters are
  active, all stored addresses being six bytes long.\<close>

theorem csi_reachable_consistent: "csi_reachable env d \<Longrightarrow> csi_cfg_inv (csi_cfg d)"
  by (induction rule: csi_reachable.induct) (simp_all add: csi_cfg_inv_init csi_step_inv)

definition demo_csi_env :: csi_env where
  "demo_csi_env = \<lparr>env_bool = \<lambda>s. if s = ''1'' then Inr True else if s = ''0'' then Inr False else Inl EINVAL,
     env_s64 = \<lambda>s. if s = ''5'' then Inr 5 else Inl EINVAL,
     env_u64 = \<lambda>s. if s = ''0x10'' then Inr 16 else Inl EINVAL,
     env_u32 = \<lambda>s. if s = ''7'' then Inr 7 else Inl EINVAL,
     env_mac = \<lambda>s. None, env_send = \<lambda>_ _. None\<rparr>"

definition demo_csi_dev :: csi_dev where
  "demo_csi_dev = \<lparr>csi_cfg = csi_cfg_init, fw_running = True, d3_test_active = False,
     capa_csi_v2 = True, sent_cmds = []\<rparr>"

lemma csi_reachable_consistent_witness:
  "csi_cfg_inv (csi_cfg (snd (mvm_debugfs_write_wrapper 32
     (iwl_dbgfs_csi_interval_write (env_u32 demo_csi_env)) (''7'' @ [EOL]) demo_csi_dev)))"
  by (rule csi_reachable_consistent [of demo_csi_env])
    (rule csi_reachable.step [OF csi_reachable.init csi_step.interval], simp add: demo_csi_dev_def)

text \<open>C27: The command built from consistent settings has the size of
  \<open>struct iwl_channel_estimation_cfg\<close>, and the firmware reads back from it, at the offsets of the
  structure, the flags, timer, count, rate mask, rate value, interval, frame types and number of
  filters of the driver, and every active filter address in its eight-byte slot.\<close>

theorem iwl_channel_estimation_cfg_decodes:
  assumes "csi_cfg_inv c"
  shows "let cmd = iwl_channel_estimation_cfg_bytes c in
     length cmd = sizeof_chest_cfg \<and>
     (of_le_bytes (get_bytes 0 4 cmd) :: u32) = cfg_flags c \<and>
     (of_le_bytes (get_bytes 4 4 cmd) :: u32) = cfg_timer c \<and>
     (of_le_bytes (get_bytes 8 4 cmd) :: u32) = cfg_count c \<and>
     (of_le_bytes (get_bytes 12 4 cmd) :: u32) = cfg_rate_n_flags_mask c \<and>
     (of_le_bytes (get_bytes 16 4 cmd) :: u32) = cfg_rate_n_flags_val c \<and>
     (of_le_bytes (get_bytes 20 4 cmd) :: u32) = cfg_interval c \<and>
     (of_le_bytes (get_bytes 24 8 cmd) :: u64) = cfg_frame_types c \<and>
     (of_le_bytes (get_bytes 32 4 cmd) :: u32) = ucast (cfg_num_filter_addrs c) \<and>
     map (\<lambda>i. get_bytes (36 + 8 * i) 6 cmd) [0..<unat (cfg_num_filter_addrs c)]
       = take (unat (cfg_num_filter_addrs c)) (cfg_filter_addrs c)"
proof -
  have "map (\<lambda>i. get_bytes (36 + 8 * i) 6 (iwl_channel_estimation_cfg_bytes c))
          [0..<unat (cfg_num_filter_addrs c)]
        = take (unat (cfg_num_filter_addrs c)) (cfg_filter_addrs c)"
    using assms chest_cfg_bytes_slot [OF assms]
    by (intro nth_equalityI) (simp_all add: csi_cfg_inv_def)
  then show ?thesis
    using length_chest_cfg_bytes [OF assms]
    by (simp add: Let_def) (simp add: iwl_channel_estimation_cfg_bytes_def of_le_bytes_word)
qed

lemma iwl_channel_estimation_cfg_decodes_witness:
  "length (iwl_channel_estimation_cfg_bytes csi_cfg_init) = 196 \<and>
   (of_le_bytes (get_bytes 24 8 (iwl_channel_estimation_cfg_bytes csi_cfg_init)) :: u64) = NOT 0"
  using iwl_channel_estimation_cfg_decodes [OF csi_cfg_inv_init]
  by (simp add: Let_def sizeof_chest_cfg_def IWL_NUM_CHANNEL_ESTIMATION_FILTER_ADDRS_def
      csi_cfg_init_def)

text \<open>C26: Reading the address file of one device and writing the text to another transfers the
  filters: with a \<open>sscanf\<close> that reads back what \<open>%pM\<close> prints, and between 1 and 20 active
  filters, the write takes all 18 bytes per address and the second device holds the same number of
  filters and the same addresses, its other settings unchanged.\<close>

theorem csi_addresses_roundtrip:
  assumes scan: "\<And>a. scan (print_mac (mac_list a)) = Some a"
    and inv: "csi_cfg_inv (csi_cfg d)" and some: "cfg_num_filter_addrs (csi_cfg d) \<noteq> 0"
  shows "mvm_debugfs_write_wrapper CSI_ADDRESSES_BUFLEN (iwl_dbgfs_csi_addresses_write scan)
           (iwl_dbgfs_csi_addresses_read d) d'
         = (FS_Done (18 * unat (cfg_num_filter_addrs (csi_cfg d))),
            d'\<lparr>csi_cfg := (csi_cfg d')\<lparr>cfg_num_filter_addrs := cfg_num_filter_addrs (csi_cfg d),
               cfg_filter_addrs :=
                 take (unat (cfg_num_filter_addrs (csi_cfg d))) (cfg_filter_addrs (csi_cfg d))
                 @ drop (unat (cfg_num_filter_addrs (csi_cfg d))) (cfg_filter_addrs (csi_cfg d'))\<rparr>\<rparr>)"
proof -
  obtain fl where fl: "map mac_list fl =
      take (unat (cfg_num_filter_addrs (csi_cfg d))) (cfg_filter_addrs (csi_cfg d))"
    "length fl = unat (cfg_num_filter_addrs (csi_cfg d))" "0 < length fl" "length fl \<le> 20"
    "iwl_dbgfs_csi_addresses_read d = mac_lines fl @ [EOL]"
    using csi_addresses_read_lines [OF inv some] .
  have ne: "fl \<noteq> []" using fl(3) by auto
  have "length (mac_lines fl @ [EOL]) = 18 * length fl" using length_mac_lines [OF ne] fl(3) by simp
  then have buf: "take (CSI_ADDRESSES_BUFLEN - 1) (mac_lines fl @ [EOL]) = mac_lines fl @ [EOL]"
    "length (mac_lines fl @ [EOL]) = 18 * length fl"
    using fl(4) by (simp_all add: CSI_ADDRESSES_BUFLEN_def ETH_ALEN_def
        IWL_NUM_CHANNEL_ESTIMATION_FILTER_ADDRS_def)
  have text_of: "debugfs_text (mac_lines fl @ [EOL]) = Inr (mac_lines fl)"
    using NUL_notin_mac_lines [of fl] by (auto simp: debugfs_text_def takeWhile_eq_all_conv)
  have loop: "csi_addresses_loop scan IWL_NUM_CHANNEL_ESTIMATION_FILTER_ADDRS 0
      (Some (mac_lines fl)) [] = Inr (map mac_list fl, None)"
    using csi_addresses_loop_lines [OF scan ne, of _ 0 "[]"] fl(4)
    by (simp add: CSI_ADDRESSES_BUFLEN_def ETH_ALEN_def IWL_NUM_CHANNEL_ESTIMATION_FILTER_ADDRS_def)
  have active: "length (take (unat (cfg_num_filter_addrs (csi_cfg d))) (cfg_filter_addrs (csi_cfg d)))
      = unat (cfg_num_filter_addrs (csi_cfg d))"
    using fl(1,2) by (metis length_map)
  show ?thesis
    unfolding mvm_debugfs_write_wrapper_def fl(5) buf(1) iwl_dbgfs_csi_addresses_write_def text_of
    using fl(1,2) buf(2) active by (simp add: loop Let_def del: length_take)
qed

text \<open>A concrete \<open>sscanf\<close> for six two-digit bytes, for the witness.\<close>

definition hex_val :: "char \<Rightarrow> nat" where
  "hex_val c = (case find (\<lambda>d. digit_char d = c) [0..<16] of None \<Rightarrow> 0 | Some d \<Rightarrow> d)"

definition scan_pair :: "nat \<Rightarrow> string \<Rightarrow> u8" where
  "scan_pair i s = of_nat (16 * hex_val (s ! (3 * i)) + hex_val (s ! (3 * i + 1)))"

definition scan_mac6 :: "string \<Rightarrow> mac6 option" where
  "scan_mac6 s = (if length s = 17
     then Some (scan_pair 0 s, scan_pair 1 s, scan_pair 2 s, scan_pair 3 s, scan_pair 4 s, scan_pair 5 s)
     else None)"

lemma hex_val_digit_char: "d < 16 \<Longrightarrow> hex_val (digit_char d) = d"
proof -
  have "\<forall>d \<in> set [0..<16]. hex_val (digit_char d) = d"
    unfolding digit_char_def hex_val_def by code_simp
  then show "d < 16 \<Longrightarrow> hex_val (digit_char d) = d" by simp
qed

lemma scan_mac6_print: "scan_mac6 (print_mac (mac_list a)) = Some a"
proof -
  have v: "hex_val (digit_char (unat b div 16)) = unat b div 16"
      "hex_val (digit_char (unat b mod 16)) = unat b mod 16" for b :: u8
    using u8_less [of b]
    by (simp_all add: hex_val_digit_char less_mult_imp_div_less)
  have w: "of_nat (16 * (unat b div 16) + unat b mod 16) = b" for b :: u8
    by (simp only: mult_div_mod_eq) simp
  show ?thesis
    by (cases a) (simp add: scan_mac6_def scan_pair_def hex_byte_def v w
        del: of_nat_add of_nat_mult of_nat_Suc)
qed

definition demo_filter_dev :: csi_dev where
  "demo_filter_dev = demo_csi_dev\<lparr>csi_cfg := csi_cfg_init\<lparr>cfg_num_filter_addrs := 1,
     cfg_filter_addrs := [0x00, 0x16, 0xea, 0x12, 0x34, 0x56] # replicate 19 (replicate 6 0)\<rparr>\<rparr>"

lemma csi_addresses_roundtrip_witness:
  "fst (mvm_debugfs_write_wrapper CSI_ADDRESSES_BUFLEN (iwl_dbgfs_csi_addresses_write scan_mac6)
      (iwl_dbgfs_csi_addresses_read demo_filter_dev) demo_csi_dev) = FS_Done 18"
proof -
  have "csi_cfg_inv (csi_cfg demo_filter_dev)" "cfg_num_filter_addrs (csi_cfg demo_filter_dev) = 1"
    by (auto simp: demo_filter_dev_def demo_csi_dev_def csi_cfg_inv_def csi_cfg_init_def ETH_ALEN_def
        IWL_NUM_CHANNEL_ESTIMATION_FILTER_ADDRS_def)
  then show ?thesis
    using csi_addresses_roundtrip [of scan_mac6 demo_filter_dev demo_csi_dev, OF scan_mac6_print]
    by simp
qed



text \<open>A write of no bytes to the address file is not rejected before the handler looks at the
  byte in front of its buffer.\<close>

theorem csi_empty_write_reads_outside:
  "mvm_debugfs_write_wrapper CSI_ADDRESSES_BUFLEN (iwl_dbgfs_csi_addresses_write scan) [] d
   = (FS_Oob, d)"
  by (simp add: mvm_debugfs_write_wrapper_def iwl_dbgfs_csi_addresses_write_def debugfs_text_def)

end
