(* ===== verification/Csi_Collect.thy ===== *)
theory Csi_Collect
  imports Csi_Config "HOL-Library.Monad_Syntax" "HOL-Library.Multiset"
begin

text \<open>
  Collecting the channel-state reports of the firmware (mvm/vendor-cmd.c, mvm/flq-mvm.c and the
  notification path of mvm/ops.c). A report arrives as a header notification and up to 16 chunk
  notifications; each is queued with a reference to its receive page and handled later by a worker,
  which stores the page in the slot of the header or of the chunk and, with the last chunk, sends
  one netlink event and gives the pages back. Memory is modelled by the bytes of each page; an
  access outside a page is the outcome \<open>None\<close> of a handler.
\<close>

unbundle bit_operations_syntax

section \<open>State\<close>

definition IWL_CSI_MAX_EXPECTED_CHUNKS :: nat where
  "IWL_CSI_MAX_EXPECTED_CHUNKS = 16"

record iwl_csi_data_buffer =
  buf_page :: "nat option"
  buf_offset :: nat
  buf_order :: nat

record iwl_rx_cmd_buffer =
  rxb_page :: nat
  rxb_offset :: nat
  rxb_order :: nat
  rxb_stolen :: bool

datatype csi_handler = Csi_Header_Fn | Csi_Chunk_Fn

record csi_event =
  ev_portid :: u32
  ev_hdr :: "u8 list"
  ev_data :: "u8 list"

record csi_host =
  csi_data_entries :: "iwl_csi_data_buffer list"
  csi_portid :: u32
  csi_notif :: u8
  page_mem :: "nat \<Rightarrow> u8 list"
  page_refs :: "nat \<Rightarrow> int"
  async_handlers_list :: "(csi_handler \<times> iwl_rx_cmd_buffer) list"
  local_list :: "(csi_handler \<times> iwl_rx_cmd_buffer) list"
  res_src_mac :: "u8 list"
  res_dst_mac :: "u8 list"
  res_desc :: "u8 list"
  csi_events :: "csi_event list"

text \<open>
  What the kernel decides: the real time of the call, and whether the event message and its two
  attributes can be allocated, each as a function of the sizes asked for.
\<close>

record csi_kernel =
  ktime_ns :: u64
  nl_alloc :: "nat \<Rightarrow> bool"
  nl_put :: "nat \<Rightarrow> nat \<Rightarrow> bool"
  nl_reserve :: "nat \<Rightarrow> nat \<Rightarrow> nat \<Rightarrow> bool"

definition empty_csi_buffer :: iwl_csi_data_buffer where
  "empty_csi_buffer = \<lparr>buf_page = None, buf_offset = 0, buf_order = 0\<rparr>"

section \<open>Reading and writing pages\<close>

definition rd :: "(nat \<Rightarrow> u8 list) \<Rightarrow> nat \<Rightarrow> nat \<Rightarrow> nat \<Rightarrow> u8 list option" where
  "rd m p pos n = (if pos + n \<le> length (m p) then Some (get_bytes pos n (m p)) else None)"

definition rd16 :: "(nat \<Rightarrow> u8 list) \<Rightarrow> nat \<Rightarrow> nat \<Rightarrow> u16 option" where
  "rd16 m p pos = map_option of_le_bytes (rd m p pos 2)"

definition rd32 :: "(nat \<Rightarrow> u8 list) \<Rightarrow> nat \<Rightarrow> nat \<Rightarrow> u32 option" where
  "rd32 m p pos = map_option of_le_bytes (rd m p pos 4)"

definition wr :: "(nat \<Rightarrow> u8 list) \<Rightarrow> nat \<Rightarrow> nat \<Rightarrow> u8 list \<Rightarrow> (nat \<Rightarrow> u8 list) option" where
  "wr m p pos bs = (if pos + length bs \<le> length (m p) then Some (m(p := put_bytes pos bs (m p))) else None)"

text \<open>A packet: four bytes of length and flags, the command header, then the data at offset 8.\<close>

definition FH_RSCSR_FRAME_SIZE_MSK :: u32 where
  "FH_RSCSR_FRAME_SIZE_MSK = 0x3FFF"

definition iwl_rx_packet_len :: "u32 \<Rightarrow> u32" where
  "iwl_rx_packet_len len_n_flags = len_n_flags AND FH_RSCSR_FRAME_SIZE_MSK"

definition iwl_rx_packet_payload_len :: "u32 \<Rightarrow> u32" where
  "iwl_rx_packet_payload_len len_n_flags = iwl_rx_packet_len len_n_flags - 4"

definition PKT_DATA :: nat where
  "PKT_DATA = 8"

definition rxb_steal_page :: "iwl_rx_cmd_buffer \<Rightarrow> csi_host \<Rightarrow> iwl_rx_cmd_buffer \<times> csi_host" where
  "rxb_steal_page r h =
     (r\<lparr>rxb_stolen := True\<rparr>,
      h\<lparr>page_refs := (page_refs h)(rxb_page r := page_refs h (rxb_page r) + 1)\<rparr>)"

definition iwl_free_rxb :: "iwl_rx_cmd_buffer \<Rightarrow> csi_host \<Rightarrow> csi_host" where
  "iwl_free_rxb r h =
     h\<lparr>page_refs := (page_refs h)(rxb_page r := page_refs h (rxb_page r) - 1)\<rparr>"

section \<open>Storing the notifications of a report\<close>

fun csi_free_loop ::
  "iwl_csi_data_buffer list \<Rightarrow> (nat \<Rightarrow> int) \<Rightarrow> iwl_csi_data_buffer list \<times> (nat \<Rightarrow> int)"
where
  "csi_free_loop [] refs = ([], refs)"
| "csi_free_loop (b # bs) refs =
     (case buf_page b of
        None \<Rightarrow> let (bs', refs') = csi_free_loop bs refs in (b # bs', refs')
      | Some p \<Rightarrow>
          let (bs', refs') = csi_free_loop bs (refs(p := refs p - 1))
          in (empty_csi_buffer # bs', refs'))"

definition iwl_mvm_csi_free_pages :: "csi_host \<Rightarrow> csi_host" where
  "iwl_mvm_csi_free_pages h =
     (let (es, refs) = csi_free_loop (csi_data_entries h) (page_refs h)
      in h\<lparr>csi_data_entries := es, page_refs := refs\<rparr>)"

definition iwl_mvm_csi_steal :: "csi_host \<Rightarrow> nat \<Rightarrow> iwl_rx_cmd_buffer \<Rightarrow> csi_host" where
  "iwl_mvm_csi_steal h idx r =
     (if buf_page (csi_data_entries h ! idx) \<noteq> None then iwl_mvm_csi_free_pages h
      else (let (r, h) = rxb_steal_page r h in
            h\<lparr>csi_data_entries := (csi_data_entries h)[idx :=
                \<lparr>buf_page = Some (rxb_page r), buf_offset = rxb_offset r, buf_order = rxb_order r\<rparr>]\<rparr>))"

definition iwl_mvm_rx_csi_header :: "csi_host \<Rightarrow> iwl_rx_cmd_buffer \<Rightarrow> csi_host" where
  "iwl_mvm_rx_csi_header h r = iwl_mvm_csi_steal h 0 r"

section \<open>Completing a report\<close>

text \<open>
  The time stamp and the channel of the last received frame are written into the header, at the
  offsets 208 and 216. Nothing compares these with the length of the header notification.
\<close>

definition CSI_SMAC_OFFSET :: nat where "CSI_SMAC_OFFSET = 68"
definition CSI_TS_OFFSET :: nat where "CSI_TS_OFFSET = 208"
definition DESC_V1_CHANNEL_OFFSET :: nat where "DESC_V1_CHANNEL_OFFSET = 34"
definition DESC_V3_CHANNEL_OFFSET :: nat where "DESC_V3_CHANNEL_OFFSET = 42"
definition SIZEOF_RX_MPDU_DESC :: nat where "SIZEOF_RX_MPDU_DESC = 64"
definition IWL_RX_DESC_SIZE_V1 :: nat where "IWL_RX_DESC_SIZE_V1 = 48"

definition flq_expand_csi_hdr :: "csi_kernel \<Rightarrow> csi_host \<Rightarrow> nat \<Rightarrow> nat \<Rightarrow> csi_host option" where
  "flq_expand_csi_hdr k h p pos =
     do {
       _ \<leftarrow> rd (page_mem h) p (pos + CSI_SMAC_OFFSET) 8;
       m \<leftarrow> wr (page_mem h) p (pos + CSI_TS_OFFSET) (le_bytes 8 (ktime_ns k));
       m \<leftarrow> wr m p (pos + CSI_TS_OFFSET + 8) [res_desc h ! DESC_V3_CHANNEL_OFFSET];
       Some (h\<lparr>page_mem := m\<rparr>)
     }"

definition flq_mvm_record :: "bool \<Rightarrow> iwl_rx_cmd_buffer \<Rightarrow> csi_host \<Rightarrow> csi_host option" where
  "flq_mvm_record ax210 r h =
     (let p = rxb_page r; data = rxb_offset r + PKT_DATA;
          hdr = data + (if ax210 then SIZEOF_RX_MPDU_DESC else IWL_RX_DESC_SIZE_V1)
      in do {
        src \<leftarrow> rd (page_mem h) p (hdr + 10) ETH_ALEN;
        dst \<leftarrow> rd (page_mem h) p (hdr + 4) ETH_ALEN;
        desc \<leftarrow> rd (page_mem h) p data SIZEOF_RX_MPDU_DESC;
        Some (h\<lparr>res_src_mac := src, res_dst_mac := dst, res_desc := desc\<rparr>)
      })"

text \<open>
  The event: both loops over the chunks stop at the first one of length zero. \<open>data\<close> holds the
  page, position and length of each chunk's bytes; they are read after the header was written to.
\<close>

fun rd_chunks :: "(nat \<Rightarrow> u8 list) \<Rightarrow> (nat \<times> nat \<times> nat) list \<Rightarrow> u8 list option" where
  "rd_chunks m [] = Some []"
| "rd_chunks m ((p, pos, n) # ds) =
     do { bs \<leftarrow> rd m p pos n; rest \<leftarrow> rd_chunks m ds; Some (bs @ rest) }"

definition iwl_mvm_send_csi_event ::
  "csi_kernel \<Rightarrow> csi_host \<Rightarrow> nat \<times> nat \<Rightarrow> u32 \<Rightarrow> (nat \<times> nat \<times> nat) list \<Rightarrow> csi_host option"
where
  "iwl_mvm_send_csi_event k h hdr hdr_len data =
     (if csi_portid h = 0 then Some h
      else
        (let chunks = takeWhile (\<lambda>(p, pos, n). n \<noteq> 0) data;
             data_len = sum_list (map (\<lambda>(p, pos, n). of_nat n) chunks) :: u32;
             sz = unat (100 + hdr_len + data_len)
         in if \<not> nl_alloc k sz then Some h
            else if \<not> nl_put k sz (unat hdr_len) then Some h
            else do {
              hdr_bytes \<leftarrow> rd (page_mem h) (fst hdr) (snd hdr) (unat hdr_len);
              if \<not> nl_reserve k sz (unat hdr_len) (unat data_len) then Some h
              else do {
                data_bytes \<leftarrow> rd_chunks (page_mem h) chunks;
                if unat data_len < length data_bytes then None
                else Some (h\<lparr>csi_events := csi_events h @
                   [\<lparr>ev_portid = csi_portid h, ev_hdr = hdr_bytes, ev_data = data_bytes\<rparr>]\<rparr>)
              }
            }))"

text \<open>
  The chunks in their order, up to the first empty slot. The result \<open>None\<close> is an access outside a
  page, \<open>Some None\<close> a chunk that claims more bytes than its notification holds.
\<close>

definition SIZEOF_CSI_CHUNK :: nat where
  "SIZEOF_CSI_CHUNK = 12"

fun csi_chunk_loop ::
  "(nat \<Rightarrow> u8 list) \<Rightarrow> iwl_csi_data_buffer list \<Rightarrow> (nat \<times> nat \<times> nat) list option option"
where
  "csi_chunk_loop m [] = Some (Some [])"
| "csi_chunk_loop m (b # bs) =
     (case buf_page b of
        None \<Rightarrow> Some (Some [])
      | Some p \<Rightarrow>
          do {
            lf \<leftarrow> rd32 m p (buf_offset b);
            sz \<leftarrow> rd32 m p (buf_offset b + PKT_DATA + 8);
            if unat (iwl_rx_packet_payload_len lf) < SIZEOF_CSI_CHUNK + unat sz then Some None
            else do {
              rest \<leftarrow> csi_chunk_loop m bs;
              Some (map_option (\<lambda>ds. (p, buf_offset b + PKT_DATA + SIZEOF_CSI_CHUNK, unat sz) # ds) rest)
            }
          })"

definition iwl_mvm_csi_complete :: "csi_kernel \<Rightarrow> csi_host \<Rightarrow> csi_host option" where
  "iwl_mvm_csi_complete k h =
     (case (buf_page (csi_data_entries h ! 0), buf_page (csi_data_entries h ! 1)) of
        (Some p, Some _) \<Rightarrow>
          (let off = buf_offset (csi_data_entries h ! 0) in
           do {
             lf \<leftarrow> rd32 (page_mem h) p off;
             chunks \<leftarrow> csi_chunk_loop (page_mem h) (tl (csi_data_entries h));
             (case chunks of
                None \<Rightarrow> Some (iwl_mvm_csi_free_pages h)
              | Some data \<Rightarrow>
                  do {
                    h \<leftarrow> flq_expand_csi_hdr k h p (off + PKT_DATA);
                    h \<leftarrow> iwl_mvm_send_csi_event k h (p, off + PKT_DATA)
                           (iwl_rx_packet_payload_len lf) data;
                    Some (iwl_mvm_csi_free_pages h)
                  })
           })
      | _ \<Rightarrow> Some (iwl_mvm_csi_free_pages h))"

section \<open>The chunk notification\<close>

definition IWL_CSI_CHUNK_CTL_NUM_MASK_VER_1 :: u16 where "IWL_CSI_CHUNK_CTL_NUM_MASK_VER_1 = 0x0003"
definition IWL_CSI_CHUNK_CTL_IDX_MASK_VER_1 :: u16 where "IWL_CSI_CHUNK_CTL_IDX_MASK_VER_1 = 0x000c"
definition IWL_CSI_CHUNK_CTL_NUM_MASK_VER_2 :: u16 where "IWL_CSI_CHUNK_CTL_NUM_MASK_VER_2 = 0x00ff"
definition IWL_CSI_CHUNK_CTL_IDX_MASK_VER_2 :: u16 where "IWL_CSI_CHUNK_CTL_IDX_MASK_VER_2 = 0xff00"

definition le16_get_bits :: "u16 \<Rightarrow> u16 \<Rightarrow> nat" where
  "le16_get_bits v m = unat (drop_bit (ffs m - 1) (v AND m))"

definition csi_chunk_num_idx :: "u8 \<Rightarrow> u16 \<Rightarrow> (nat \<times> nat) option" where
  "csi_chunk_num_idx ver ctl =
     (if ver = 1 then Some (le16_get_bits ctl IWL_CSI_CHUNK_CTL_NUM_MASK_VER_1,
                            le16_get_bits ctl IWL_CSI_CHUNK_CTL_IDX_MASK_VER_1 + 1)
      else if ver = 2 then Some (le16_get_bits ctl IWL_CSI_CHUNK_CTL_NUM_MASK_VER_2,
                                 le16_get_bits ctl IWL_CSI_CHUNK_CTL_IDX_MASK_VER_2 + 1)
      else None)"

definition iwl_mvm_rx_csi_chunk ::
  "csi_kernel \<Rightarrow> csi_host \<Rightarrow> iwl_rx_cmd_buffer \<Rightarrow> csi_host option"
where
  "iwl_mvm_rx_csi_chunk k h r =
     do {
       ctl \<leftarrow> rd16 (page_mem h) (rxb_page r) (rxb_offset r + PKT_DATA + 6);
       (case csi_chunk_num_idx (csi_notif h) ctl of
          None \<Rightarrow> Some h
        | Some (num, idx) \<Rightarrow>
            if IWL_CSI_MAX_EXPECTED_CHUNKS + 1 - 1 \<le> idx then Some h
            else (let h = iwl_mvm_csi_steal h idx r in
                  if num = idx then iwl_mvm_csi_complete k h else Some h))
     }"

section \<open>The notification path\<close>

definition LOCATION_GROUP :: u16 where "LOCATION_GROUP = 0x8"
definition CSI_HEADER_NOTIFICATION :: u16 where "CSI_HEADER_NOTIFICATION = 0xFA"
definition CSI_CHUNKS_NOTIFICATION :: u16 where "CSI_CHUNKS_NOTIFICATION = 0xFB"

definition WIDE_ID :: "u16 \<Rightarrow> u16 \<Rightarrow> u16" where
  "WIDE_ID grp opcode = push_bit 8 grp OR opcode"

definition csi_rx_handlers :: "(u16 \<times> nat \<times> csi_handler) list" where
  "csi_rx_handlers =
     [(WIDE_ID LOCATION_GROUP CSI_HEADER_NOTIFICATION, 0, Csi_Header_Fn),
      (WIDE_ID LOCATION_GROUP CSI_CHUNKS_NOTIFICATION, SIZEOF_CSI_CHUNK, Csi_Chunk_Fn)]"

definition csi_handle ::
  "csi_kernel \<Rightarrow> csi_handler \<times> iwl_rx_cmd_buffer \<Rightarrow> csi_host \<Rightarrow> csi_host option"
where
  "csi_handle k e h =
     (case fst e of
        Csi_Header_Fn \<Rightarrow> Some (iwl_mvm_rx_csi_header h (snd e))
      | Csi_Chunk_Fn \<Rightarrow> iwl_mvm_rx_csi_chunk k h (snd e))"

text \<open>
  A packet that has one of the two identifiers and is long enough is queued with a reference of its
  own to the page, when the entry can be allocated.
\<close>

definition iwl_mvm_rx_common ::
  "bool \<Rightarrow> iwl_rx_cmd_buffer \<Rightarrow> csi_host \<Rightarrow> (iwl_rx_cmd_buffer \<times> csi_host) option"
where
  "iwl_mvm_rx_common alloc r h =
     do {
       lf \<leftarrow> rd32 (page_mem h) (rxb_page r) (rxb_offset r);
       hdr \<leftarrow> rd (page_mem h) (rxb_page r) (rxb_offset r + 4) 4;
       (case find (\<lambda>(cid, _, _). cid = WIDE_ID (ucast (hdr ! 1)) (ucast (hdr ! 0))) csi_rx_handlers of
          None \<Rightarrow> Some (r, h)
        | Some (_, min_size, fn) \<Rightarrow>
            if unat (iwl_rx_packet_payload_len lf) < min_size then Some (r, h)
            else if \<not> alloc then Some (r, h)
            else (let (r', h) = rxb_steal_page r h;
                      entry = \<lparr>rxb_page = rxb_page r, rxb_offset = rxb_offset r,
                               rxb_order = rxb_order r, rxb_stolen = False\<rparr>
                  in Some (r', h\<lparr>async_handlers_list := async_handlers_list h @ [(fn, entry)]\<rparr>)))
     }"

text \<open>The worker, in the steps that the lock makes visible: taking the queue, handling one entry.\<close>

definition async_wk_splice :: "csi_host \<Rightarrow> csi_host" where
  "async_wk_splice h = h\<lparr>local_list := async_handlers_list h, async_handlers_list := []\<rparr>"

definition async_wk_one :: "csi_kernel \<Rightarrow> csi_host \<Rightarrow> csi_host option" where
  "async_wk_one k h =
     (case local_list h of
        [] \<Rightarrow> Some h
      | e # es \<Rightarrow>
          do {
            h \<leftarrow> csi_handle k e h;
            Some ((iwl_free_rxb (snd e) h)\<lparr>local_list := es\<rparr>)
          })"

fun purge_loop :: "(csi_handler \<times> iwl_rx_cmd_buffer) list \<Rightarrow> csi_host \<Rightarrow> csi_host" where
  "purge_loop [] h = h"
| "purge_loop (e # es) h = purge_loop es (iwl_free_rxb (snd e) h)"

definition iwl_mvm_async_handlers_purge :: "csi_host \<Rightarrow> csi_host" where
  "iwl_mvm_async_handlers_purge h =
     (purge_loop (async_handlers_list h) h)\<lparr>async_handlers_list := []\<rparr>"

section \<open>The receiver of the events\<close>

definition iwl_mvm_vendor_csi_register :: "u32 \<Rightarrow> csi_host \<Rightarrow> csi_host" where
  "iwl_mvm_vendor_csi_register sender h = h\<lparr>csi_portid := sender\<rparr>"

datatype notify_result = NOTIFY_DONE | NOTIFY_OK

definition iwl_mvm_netlink_notifier ::
  "bool \<Rightarrow> bool \<Rightarrow> u32 \<Rightarrow> csi_host list \<Rightarrow> notify_result \<times> csi_host list"
where
  "iwl_mvm_netlink_notifier urelease generic portid devs =
     (if \<not> urelease \<or> \<not> generic then (NOTIFY_DONE, devs)
      else (NOTIFY_OK, map (\<lambda>h. if csi_portid h = portid then h\<lparr>csi_portid := 0\<rparr> else h) devs))"

section \<open>The interleaving of receive path, worker and netlink\<close>

inductive csi_host_step :: "csi_host \<Rightarrow> csi_host \<Rightarrow> bool" where
  rx: "iwl_mvm_rx_common alloc r h = Some (r', h') \<Longrightarrow> csi_host_step h h'"
| mpdu: "flq_mvm_record ax210 r h = Some h' \<Longrightarrow> csi_host_step h h'"
| splice: "local_list h = [] \<Longrightarrow> csi_host_step h (async_wk_splice h)"
| one: "async_wk_one k h = Some h' \<Longrightarrow> csi_host_step h h'"
| purge: "csi_host_step h (iwl_mvm_async_handlers_purge h)"
| register: "csi_host_step h (iwl_mvm_vendor_csi_register sender h)"
| release: "snd (iwl_mvm_netlink_notifier urelease generic portid [h]) = [h'] \<Longrightarrow> csi_host_step h h'"


inductive_cases csi_host_stepE: "csi_host_step h h'"

section \<open>References to receive pages\<close>

text \<open>
  The references that the collector answers for: one per queued notification, one per stored
  buffer. No operation changes the difference between the references taken and these, as long as
  the array of buffers has its declared length, which no operation changes either.
\<close>

definition held :: "csi_host \<Rightarrow> nat \<Rightarrow> int" where
  "held h p = occs (\<lambda>e. rxb_page (snd e) = p) (async_handlers_list h)
     + occs (\<lambda>e. rxb_page (snd e) = p) (local_list h)
     + occs (\<lambda>b. buf_page b = Some p) (csi_data_entries h)"

definition csi_balance :: "csi_host \<Rightarrow> (nat \<Rightarrow> int) option" where
  "csi_balance h =
     (if length (csi_data_entries h) = IWL_CSI_MAX_EXPECTED_CHUNKS + 1
      then Some (\<lambda>p. page_refs h p - held h p) else None)"

lemma csi_balance_iff:
  "csi_balance h' = csi_balance h \<longleftrightarrow>
     (length (csi_data_entries h) = 17 \<longleftrightarrow> length (csi_data_entries h') = 17) \<and>
     (length (csi_data_entries h) = 17 \<longrightarrow>
       (\<forall>p. page_refs h' p - held h' p = page_refs h p - held h p))"
  by (auto simp: csi_balance_def IWL_CSI_MAX_EXPECTED_CHUNKS_def fun_eq_iff)

lemma csi_free_loop_spec:
  "csi_free_loop bs refs = (bs', refs') \<Longrightarrow>
   length bs' = length bs \<and> (\<forall>b \<in> set bs'. buf_page b = None) \<and>
   (\<forall>p. refs' p = refs p - occs (\<lambda>b. buf_page b = Some p) bs)"
proof (induction bs refs arbitrary: bs' refs' rule: csi_free_loop.induct)
  case (2 b bs refs)
  show ?case
  proof (cases "buf_page b")
    case None
    obtain cs rs where l: "csi_free_loop bs refs = (cs, rs)" by fastforce
    from 2(1) [OF None l] 2(3) None l show ?thesis by auto
  next
    case (Some p)
    obtain cs rs where l: "csi_free_loop bs (refs(p := refs p - 1)) = (cs, rs)" by fastforce
    from 2(2) [OF Some l] 2(3) Some l show ?thesis by (auto simp: empty_csi_buffer_def)
  qed
qed simp

lemma occs_no_page:
  "\<forall>b \<in> set bs. buf_page b = None \<Longrightarrow> occs (\<lambda>b. buf_page b = Some p) bs = 0"
  by (induction bs) auto

lemma csi_free_pages_frame [simp]:
  "csi_portid (iwl_mvm_csi_free_pages h) = csi_portid h"
  "csi_notif (iwl_mvm_csi_free_pages h) = csi_notif h"
  "page_mem (iwl_mvm_csi_free_pages h) = page_mem h"
  "csi_events (iwl_mvm_csi_free_pages h) = csi_events h"
  "async_handlers_list (iwl_mvm_csi_free_pages h) = async_handlers_list h"
  "local_list (iwl_mvm_csi_free_pages h) = local_list h"
  by (simp_all add: iwl_mvm_csi_free_pages_def case_prod_beta)

lemma csi_free_pages_spec:
  "length (csi_data_entries (iwl_mvm_csi_free_pages h)) = length (csi_data_entries h)"
  "b \<in> set (csi_data_entries (iwl_mvm_csi_free_pages h)) \<Longrightarrow> buf_page b = None"
  "page_refs (iwl_mvm_csi_free_pages h) p
     = page_refs h p - occs (\<lambda>b. buf_page b = Some p) (csi_data_entries h)"
proof -
  obtain es refs where l: "csi_free_loop (csi_data_entries h) (page_refs h) = (es, refs)" by fastforce
  note spec = csi_free_loop_spec [OF l]
  show "length (csi_data_entries (iwl_mvm_csi_free_pages h)) = length (csi_data_entries h)"
    "b \<in> set (csi_data_entries (iwl_mvm_csi_free_pages h)) \<Longrightarrow> buf_page b = None"
    "page_refs (iwl_mvm_csi_free_pages h) p
       = page_refs h p - occs (\<lambda>b. buf_page b = Some p) (csi_data_entries h)"
    using spec by (auto simp: iwl_mvm_csi_free_pages_def l)
qed

lemma csi_free_pages_occs [simp]:
  "occs (\<lambda>b. buf_page b = Some p) (csi_data_entries (iwl_mvm_csi_free_pages h)) = 0"
  by (rule occs_no_page) (auto intro: csi_free_pages_spec)

lemma csi_balance_free_pages [simp]: "csi_balance (iwl_mvm_csi_free_pages h) = csi_balance h"
  by (simp add: csi_balance_iff held_def csi_free_pages_spec)

lemma csi_balance_steal [simp]:
  "idx < 17 \<Longrightarrow> csi_balance (iwl_mvm_csi_steal h idx r) = csi_balance h"
  by (auto simp: iwl_mvm_csi_steal_def rxb_steal_page_def csi_balance_iff held_def occs_list_update
      csi_free_pages_spec)

lemma csi_balance_expand: "flq_expand_csi_hdr k h p pos = Some h' \<Longrightarrow> csi_balance h' = csi_balance h"
  by (auto simp: flq_expand_csi_hdr_def bind_eq_Some_conv csi_balance_iff held_def)

lemma csi_balance_send:
  "iwl_mvm_send_csi_event k h hdr n data = Some h' \<Longrightarrow> csi_balance h' = csi_balance h"
  by (auto simp: iwl_mvm_send_csi_event_def Let_def bind_eq_Some_conv csi_balance_iff held_def
      split: if_splits)

text \<open>The outcomes of the handlers, as elimination rules.\<close>

lemma csi_completeE:
  assumes "iwl_mvm_csi_complete k h = Some h'"
  obtains (freed) "h' = iwl_mvm_csi_free_pages h"
  | (sent) p pos n data h1 h2 where "flq_expand_csi_hdr k h p pos = Some h1"
      "iwl_mvm_send_csi_event k h1 (p, pos) n data = Some h2" "h' = iwl_mvm_csi_free_pages h2"
proof -
  have "h' = iwl_mvm_csi_free_pages h \<or>
    (\<exists>p pos n data h1 h2. flq_expand_csi_hdr k h p pos = Some h1 \<and>
       iwl_mvm_send_csi_event k h1 (p, pos) n data = Some h2 \<and> h' = iwl_mvm_csi_free_pages h2)"
    using assms
    by (auto simp: iwl_mvm_csi_complete_def Let_def bind_eq_Some_conv split: option.split_asm) blast
  then show ?thesis using freed sent by blast
qed

lemma csi_chunkE:
  assumes "iwl_mvm_rx_csi_chunk k h r = Some h'"
  obtains (ignored) "h' = h"
  | (stored) num idx where "idx < 16" "num \<noteq> idx" "h' = iwl_mvm_csi_steal h idx r"
  | (completed) idx where "idx < 16" "iwl_mvm_csi_complete k (iwl_mvm_csi_steal h idx r) = Some h'"
proof -
  obtain ctl where ctl: "rd16 (page_mem h) (rxb_page r) (rxb_offset r + PKT_DATA + 6) = Some ctl"
    using assms by (auto simp: iwl_mvm_rx_csi_chunk_def bind_eq_Some_conv)
  show ?thesis
  proof (cases "csi_chunk_num_idx (csi_notif h) ctl")
    case None
    then show ?thesis using assms ctl ignored by (simp add: iwl_mvm_rx_csi_chunk_def)
  next
    case (Some ni)
    obtain num idx where ni: "ni = (num, idx)" by (cases ni)
    have h': "(if 16 \<le> idx then Some h
      else if num = idx then iwl_mvm_csi_complete k (iwl_mvm_csi_steal h idx r)
      else Some (iwl_mvm_csi_steal h idx r)) = Some h'"
      using assms ctl Some ni
      by (auto simp: iwl_mvm_rx_csi_chunk_def IWL_CSI_MAX_EXPECTED_CHUNKS_def Let_def split: if_splits)
    consider "16 \<le> idx" | "idx < 16" "num = idx" | "idx < 16" "num \<noteq> idx" by linarith
    then show ?thesis
    proof cases
      case 1
      with h' ignored show ?thesis by simp
    next
      case 2
      with h' completed show ?thesis by simp
    next
      case 3
      with h' stored show ?thesis by simp
    qed
  qed
qed

lemma csi_rx_commonE:
  assumes "iwl_mvm_rx_common alloc r h = Some (r', h')"
  obtains (ignored) "h' = h"
  | (queued) fn entry where "rxb_page entry = rxb_page r"
      "h' = (snd (rxb_steal_page r h))\<lparr>async_handlers_list := async_handlers_list h @ [(fn, entry)]\<rparr>"
proof -
  obtain lf hdr where rds: "rd32 (page_mem h) (rxb_page r) (rxb_offset r) = Some lf"
    "rd (page_mem h) (rxb_page r) (rxb_offset r + 4) 4 = Some hdr"
    using assms by (auto simp: iwl_mvm_rx_common_def bind_eq_Some_conv)
  show ?thesis
  proof (cases "find (\<lambda>(cid, _, _). cid = WIDE_ID (ucast (hdr ! 1)) (ucast (hdr ! 0))) csi_rx_handlers")
    case None
    then show ?thesis using assms rds ignored by (simp add: iwl_mvm_rx_common_def)
  next
    case (Some x)
    obtain cid m fn where x: "x = (cid, m, fn)" by (cases x)
    show ?thesis
    proof (cases "unat (iwl_rx_packet_payload_len lf) < m \<or> \<not> alloc")
      case True
      then have "h' = h" using assms rds Some x by (auto simp: iwl_mvm_rx_common_def split: if_splits)
      then show ?thesis by (rule ignored)
    next
      case False
      then show ?thesis using assms rds Some x
        by (intro queued [of "\<lparr>rxb_page = rxb_page r, rxb_offset = rxb_offset r,
              rxb_order = rxb_order r, rxb_stolen = False\<rparr>" fn])
          (auto simp: iwl_mvm_rx_common_def rxb_steal_page_def)
    qed
  qed
qed

lemma csi_expand_lists:
  "flq_expand_csi_hdr k h p pos = Some h' \<Longrightarrow>
   local_list h' = local_list h \<and> csi_data_entries h' = csi_data_entries h \<and>
   csi_portid h' = csi_portid h \<and> csi_events h' = csi_events h \<and> csi_notif h' = csi_notif h"
  by (auto simp: flq_expand_csi_hdr_def bind_eq_Some_conv)

lemma csi_send_lists:
  "iwl_mvm_send_csi_event k h hdr n data = Some h' \<Longrightarrow>
   local_list h' = local_list h \<and> csi_data_entries h' = csi_data_entries h \<and> page_mem h' = page_mem h"
  by (auto simp: iwl_mvm_send_csi_event_def Let_def bind_eq_Some_conv split: if_splits)

lemma csi_steal_lists [simp]:
  "local_list (iwl_mvm_csi_steal h idx r) = local_list h"
  "async_handlers_list (iwl_mvm_csi_steal h idx r) = async_handlers_list h"
  by (simp_all add: iwl_mvm_csi_steal_def rxb_steal_page_def)

lemma csi_balance_complete:
  "iwl_mvm_csi_complete k h = Some h' \<Longrightarrow> csi_balance h' = csi_balance h"
  by (erule csi_completeE) (simp_all add: csi_balance_expand csi_balance_send)

lemma csi_balance_handle: "csi_handle k e h = Some h' \<Longrightarrow> csi_balance h' = csi_balance h"
  by (auto simp: csi_handle_def iwl_mvm_rx_csi_header_def csi_balance_complete elim!: csi_chunkE
      split: csi_handler.splits)

lemma csi_complete_local: "iwl_mvm_csi_complete k h = Some h' \<Longrightarrow> local_list h' = local_list h"
  by (erule csi_completeE) (simp_all add: csi_expand_lists csi_send_lists)

lemma csi_handle_local: "csi_handle k e h = Some h' \<Longrightarrow> local_list h' = local_list h"
  by (auto simp: csi_handle_def iwl_mvm_rx_csi_header_def csi_complete_local elim!: csi_chunkE
      split: csi_handler.splits)

lemma csi_balance_one:
  assumes "async_wk_one k h = Some h'" shows "csi_balance h' = csi_balance h"
proof (cases "local_list h")
  case Nil
  with assms show ?thesis by (simp add: async_wk_one_def)
next
  case (Cons e es)
  with assms obtain h1 where h1: "csi_handle k e h = Some h1"
    "h' = (iwl_free_rxb (snd e) h1)\<lparr>local_list := es\<rparr>"
    by (auto simp: async_wk_one_def bind_eq_Some_conv)
  have "csi_balance h' = csi_balance h1"
    using csi_handle_local [OF h1(1)] Cons
    by (auto simp: h1(2) csi_balance_iff held_def iwl_free_rxb_def)
  then show ?thesis using csi_balance_handle [OF h1(1)] by simp
qed

lemma purge_loop_frame [simp]:
  "csi_data_entries (purge_loop es h) = csi_data_entries h" "local_list (purge_loop es h) = local_list h"
  "page_refs (purge_loop es h) p = page_refs h p - occs (\<lambda>e. rxb_page (snd e) = p) es"
  by (induction es h rule: purge_loop.induct) (auto simp: iwl_free_rxb_def)

lemma csi_balance_step: "csi_host_step h h' \<Longrightarrow> csi_balance h' = csi_balance h"
proof (induction rule: csi_host_step.induct)
  case (rx alloc r h r' h')
  then show ?case
    by (auto simp: rxb_steal_page_def csi_balance_iff held_def elim!: csi_rx_commonE)
next
  case (mpdu ax210 r h h')
  then show ?case by (auto simp: flq_mvm_record_def Let_def bind_eq_Some_conv csi_balance_iff held_def)
next
  case (splice h)
  then show ?case by (auto simp: async_wk_splice_def csi_balance_iff held_def)
next
  case (purge h)
  then show ?case by (auto simp: iwl_mvm_async_handlers_purge_def csi_balance_iff held_def)
next
  case (register sender h)
  then show ?case by (auto simp: iwl_mvm_vendor_csi_register_def csi_balance_iff held_def)
next
  case (release urelease generic portid h h')
  then show ?case by (auto simp: iwl_mvm_netlink_notifier_def csi_balance_iff held_def split: if_splits)
qed (rule csi_balance_one)

interpretation csi_pages: conserving_system csi_host_step csi_balance
  by unfold_locales (rule csi_balance_step)


section \<open>Assembling a report\<close>

text \<open>
  What the firmware sends: a header packet with its bytes, and the chunk packet with index \<open>i\<close> of
  \<open>num\<close> with its payload. \<open>csi_slot\<close> is the buffer a notification is meant for.
\<close>

definition csi_idle :: "csi_host \<Rightarrow> bool" where
  "csi_idle h \<longleftrightarrow> csi_data_entries h = replicate (IWL_CSI_MAX_EXPECTED_CHUNKS + 1) empty_csi_buffer"

definition csi_header_at :: "(nat \<Rightarrow> u8 list) \<Rightarrow> iwl_rx_cmd_buffer \<Rightarrow> u8 list \<Rightarrow> bool" where
  "csi_header_at m r hdr \<longleftrightarrow>
     (\<exists>lf. rd32 m (rxb_page r) (rxb_offset r) = Some lf \<and>
       unat (iwl_rx_packet_payload_len lf) = length hdr \<and>
       rd m (rxb_page r) (rxb_offset r + PKT_DATA) (length hdr) = Some hdr)"

definition csi_chunk_at ::
  "u8 \<Rightarrow> (nat \<Rightarrow> u8 list) \<Rightarrow> iwl_rx_cmd_buffer \<Rightarrow> nat \<Rightarrow> nat \<Rightarrow> u8 list \<Rightarrow> bool"
where
  "csi_chunk_at ver m r num i bs \<longleftrightarrow>
     (\<exists>lf ctl sz. rd32 m (rxb_page r) (rxb_offset r) = Some lf \<and>
       rd16 m (rxb_page r) (rxb_offset r + PKT_DATA + 6) = Some ctl \<and>
       rd32 m (rxb_page r) (rxb_offset r + PKT_DATA + 8) = Some sz \<and>
       csi_chunk_num_idx ver ctl = Some (num, i + 1) \<and>
       unat sz = length bs \<and> SIZEOF_CSI_CHUNK + length bs \<le> unat (iwl_rx_packet_payload_len lf) \<and>
       rd m (rxb_page r) (rxb_offset r + PKT_DATA + SIZEOF_CSI_CHUNK) (length bs) = Some bs)"

definition csi_slot :: "u8 \<Rightarrow> (nat \<Rightarrow> u8 list) \<Rightarrow> csi_handler \<times> iwl_rx_cmd_buffer \<Rightarrow> nat" where
  "csi_slot ver m e =
     (case fst e of
        Csi_Header_Fn \<Rightarrow> 0
      | Csi_Chunk_Fn \<Rightarrow>
          (case Option.bind (rd16 m (rxb_page (snd e)) (rxb_offset (snd e) + PKT_DATA + 6))
                  (csi_chunk_num_idx ver) of
             None \<Rightarrow> 0 | Some (num, idx) \<Rightarrow> idx))"

definition buf_of :: "iwl_rx_cmd_buffer \<Rightarrow> iwl_csi_data_buffer" where
  "buf_of r = \<lparr>buf_page = Some (rxb_page r), buf_offset = rxb_offset r, buf_order = rxb_order r\<rparr>"

lemma buf_of_sel [simp]:
  "buf_page (buf_of r) = Some (rxb_page r)" "buf_offset (buf_of r) = rxb_offset r"
  by (simp_all add: buf_of_def)

fun csi_run ::
  "csi_kernel \<Rightarrow> (csi_handler \<times> iwl_rx_cmd_buffer) list \<Rightarrow> csi_host \<Rightarrow> csi_host option"
where
  "csi_run k [] h = Some h"
| "csi_run k (e # es) h = Option.bind (csi_handle k e h) (csi_run k es)"

lemma csi_run_append: "csi_run k (xs @ ys) h = Option.bind (csi_run k xs h) (csi_run k ys)"
proof (induction xs arbitrary: h)
  case (Cons e es)
  then show ?case by (cases "csi_handle k e h") simp_all
qed simp

lemma csi_chunk_at_slot:
  "csi_chunk_at ver m r num i bs \<Longrightarrow> csi_slot ver m (Csi_Chunk_Fn, r) = i + 1"
  by (auto simp: csi_chunk_at_def csi_slot_def)

text \<open>What a handler that only stores leaves alone.\<close>

definition csi_same :: "csi_host \<Rightarrow> csi_host \<Rightarrow> bool" where
  "csi_same h h' \<longleftrightarrow> page_mem h' = page_mem h \<and> csi_portid h' = csi_portid h \<and>
     csi_notif h' = csi_notif h \<and> csi_events h' = csi_events h \<and> res_desc h' = res_desc h"

lemma csi_steal_empty_slot:
  "buf_page (csi_data_entries h ! idx) = None \<Longrightarrow>
   csi_data_entries (iwl_mvm_csi_steal h idx r) = (csi_data_entries h)[idx := buf_of r] \<and>
   csi_same h (iwl_mvm_csi_steal h idx r)"
  by (simp add: iwl_mvm_csi_steal_def rxb_steal_page_def buf_of_def csi_same_def)

text \<open>A notification that does not complete the report.\<close>

definition csi_storing :: "u8 \<Rightarrow> (nat \<Rightarrow> u8 list) \<Rightarrow> nat \<Rightarrow> csi_handler \<times> iwl_rx_cmd_buffer \<Rightarrow> bool" where
  "csi_storing ver m n e \<longleftrightarrow>
     (case fst e of Csi_Header_Fn \<Rightarrow> True
      | Csi_Chunk_Fn \<Rightarrow> \<exists>i bs. csi_chunk_at ver m (snd e) n i bs \<and> i + 1 < n)"

lemma csi_handle_storing:
  assumes "csi_storing (csi_notif h) (page_mem h) n e" "n \<le> 16"
  shows "csi_handle k e h = Some (iwl_mvm_csi_steal h (csi_slot (csi_notif h) (page_mem h) e) (snd e))"
  using assms
  by (cases e, cases "fst e")
    (auto simp: csi_storing_def csi_handle_def iwl_mvm_rx_csi_header_def csi_slot_def csi_chunk_at_def
      iwl_mvm_rx_csi_chunk_def IWL_CSI_MAX_EXPECTED_CHUNKS_def)

lemma csi_run_storing:
  assumes "\<forall>e \<in> set es. csi_storing (csi_notif h) (page_mem h) n e" "n \<le> 16"
    and "distinct (map (csi_slot (csi_notif h) (page_mem h)) es)"
    and "\<forall>e \<in> set es. csi_slot (csi_notif h) (page_mem h) e < length (csi_data_entries h) \<and>
           buf_page (csi_data_entries h ! csi_slot (csi_notif h) (page_mem h) e) = None"
  shows "\<exists>h'. csi_run k es h = Some h' \<and> csi_same h h' \<and>
    length (csi_data_entries h') = length (csi_data_entries h) \<and>
    (\<forall>e \<in> set es. csi_data_entries h' ! csi_slot (csi_notif h) (page_mem h) e = buf_of (snd e)) \<and>
    (\<forall>s. s \<notin> csi_slot (csi_notif h) (page_mem h) ` set es \<longrightarrow>
       csi_data_entries h' ! s = csi_data_entries h ! s)"
  using assms
proof (induction es arbitrary: h)
  case Nil
  then show ?case by (simp add: csi_same_def)
next
  case (Cons e es)
  let ?slot = "csi_slot (csi_notif h) (page_mem h)"
  define h1 where "h1 = iwl_mvm_csi_steal h (?slot e) (snd e)"
  have h1: "csi_data_entries h1 = (csi_data_entries h)[?slot e := buf_of (snd e)]" "csi_same h h1"
    using Cons.prems csi_steal_empty_slot [of h "?slot e" "snd e"] by (simp_all add: h1_def)
  then have eqs: "csi_notif h1 = csi_notif h" "page_mem h1 = page_mem h" by (simp_all add: csi_same_def)
  have e: "csi_handle k e h = Some h1"
    using csi_handle_storing [of h n e k] Cons.prems by (simp add: h1_def)
  have "\<exists>h'. csi_run k es h1 = Some h' \<and> csi_same h1 h' \<and>
    length (csi_data_entries h') = length (csi_data_entries h1) \<and>
    (\<forall>e \<in> set es. csi_data_entries h' ! ?slot e = buf_of (snd e)) \<and>
    (\<forall>s. s \<notin> ?slot ` set es \<longrightarrow> csi_data_entries h' ! s = csi_data_entries h1 ! s)"
    using Cons.IH [of h1, unfolded eqs] Cons.prems h1 by (force simp: nth_list_update)
  then obtain h' where h': "csi_run k es h1 = Some h'" "csi_same h1 h'"
    "length (csi_data_entries h') = length (csi_data_entries h1)"
    "\<forall>e \<in> set es. csi_data_entries h' ! ?slot e = buf_of (snd e)"
    "\<forall>s. s \<notin> ?slot ` set es \<longrightarrow> csi_data_entries h' ! s = csi_data_entries h1 ! s" by blast
  have new: "csi_data_entries h' ! ?slot e = buf_of (snd e)"
    using h'(5) h1(1) Cons.prems(3,4) by auto
  have "csi_same h h'" using h1(2) h'(2) by (simp add: csi_same_def)
  then show ?case using e h' h1(1) new by (intro exI [of _ h']) auto
qed


text \<open>The completion: the chunk loop over the stored buffers, the patched header, the event.\<close>

definition payload_ref :: "iwl_rx_cmd_buffer \<Rightarrow> u8 list \<Rightarrow> nat \<times> nat \<times> nat" where
  "payload_ref r bs = (rxb_page r, rxb_offset r + PKT_DATA + SIZEOF_CSI_CHUNK, length bs)"

lemma csi_chunk_loop_stored:
  assumes "length rs = length pays" "\<forall>i < length rs. \<exists>num j. csi_chunk_at ver m (rs ! i) num j (pays ! i)"
  shows "csi_chunk_loop m (map buf_of rs @ empty_csi_buffer # xs)
    = Some (Some (map2 payload_ref rs pays))"
  using assms
proof (induction rs pays rule: list_induct2)
  case Nil
  then show ?case by (simp add: empty_csi_buffer_def)
next
  case (Cons r rs bs pays)
  have "\<exists>num j. csi_chunk_at ver m r num j bs" using Cons.prems by force
  moreover have "csi_chunk_loop m (map buf_of rs @ empty_csi_buffer # xs) = Some (Some (map2 payload_ref rs pays))"
    using Cons.prems by (intro Cons.IH) force
  ultimately show ?case
    by (auto simp: csi_chunk_at_def payload_ref_def)
qed

lemma rd_chunks_payloads:
  assumes "length rs = length pays"
    and "\<forall>i < length rs. rd m (rxb_page (rs ! i)) (rxb_offset (rs ! i) + PKT_DATA + SIZEOF_CSI_CHUNK)
           (length (pays ! i)) = Some (pays ! i)"
  shows "rd_chunks m (map2 payload_ref rs pays) = Some (concat pays)"
  using assms
proof (induction rs pays rule: list_induct2)
  case (Cons r rs bs pays)
  have "rd m (rxb_page r) (rxb_offset r + PKT_DATA + SIZEOF_CSI_CHUNK) (length bs) = Some bs"
    using Cons.prems by force
  moreover have "rd_chunks m (map2 payload_ref rs pays) = Some (concat pays)"
    using Cons.prems by (intro Cons.IH) force
  ultimately show ?case by (simp add: payload_ref_def)
qed simp

lemma rd_wr_same:
  "wr m p pos bs = Some m' \<Longrightarrow> rd m p q n = Some xs \<Longrightarrow> q \<le> pos \<Longrightarrow> pos + length bs \<le> q + n \<Longrightarrow>
   rd m' p q n = Some (put_bytes (pos - q) bs xs)"
  by (auto simp: wr_def rd_def get_bytes_def put_bytes_def drop_take min_def split: if_splits)

lemma rd_wr_disjoint:
  "wr m p pos bs = Some m' \<Longrightarrow> p' \<noteq> p \<or> q + n \<le> pos \<or> pos + length bs \<le> q \<Longrightarrow>
   rd m' p' q n = rd m p' q n"
  by (auto simp: wr_def rd_def get_bytes_def put_bytes_def drop_take min_def split: if_splits)

text \<open>The header as the event carries it.\<close>

definition expanded_hdr :: "csi_kernel \<Rightarrow> u8 \<Rightarrow> u8 list \<Rightarrow> u8 list" where
  "expanded_hdr k channel hdr =
     put_bytes (CSI_TS_OFFSET + 8) [channel] (put_bytes CSI_TS_OFFSET (le_bytes 8 (ktime_ns k)) hdr)"

lemma csi_expand_effect:
  assumes "rd (page_mem h) p pos n = Some hdr" "217 \<le> n"
  shows "\<exists>h'. flq_expand_csi_hdr k h p pos = Some h' \<and>
    h' = h\<lparr>page_mem := page_mem h'\<rparr> \<and>
    rd (page_mem h') p pos n = Some (expanded_hdr k (res_desc h ! DESC_V3_CHANNEL_OFFSET) hdr) \<and>
    (\<forall>p' q l. p' \<noteq> p \<or> q + l \<le> pos + 208 \<or> pos + 217 \<le> q \<longrightarrow>
       rd (page_mem h') p' q l = rd (page_mem h) p' q l)"
proof -
  have len: "pos + n \<le> length (page_mem h p)" using assms(1) by (simp add: rd_def split: if_splits)
  define m1 where "m1 = (page_mem h)(p := put_bytes (pos + 208) (le_bytes 8 (ktime_ns k)) (page_mem h p))"
  have m1: "wr (page_mem h) p (pos + CSI_TS_OFFSET) (le_bytes 8 (ktime_ns k)) = Some m1"
    using len assms(2) by (simp add: wr_def m1_def CSI_TS_OFFSET_def)
  obtain m2 where m2: "wr m1 p (pos + CSI_TS_OFFSET + 8) [res_desc h ! DESC_V3_CHANNEL_OFFSET] = Some m2"
    using len assms(2) by (auto simp: wr_def m1_def CSI_TS_OFFSET_def)
  have r1: "rd m1 p pos n = Some (put_bytes CSI_TS_OFFSET (le_bytes 8 (ktime_ns k)) hdr)"
    using rd_wr_same [OF m1 assms(1)] assms(2) by (simp add: CSI_TS_OFFSET_def)
  have r2: "rd m2 p pos n = Some (expanded_hdr k (res_desc h ! DESC_V3_CHANNEL_OFFSET) hdr)"
    using rd_wr_same [OF m2 r1] assms(2) by (simp add: CSI_TS_OFFSET_def expanded_hdr_def)
  have frame: "rd m2 p' q l = rd (page_mem h) p' q l"
    if "p' \<noteq> p \<or> q + l \<le> pos + 208 \<or> pos + 217 \<le> q" for p' q l
    using rd_wr_disjoint [OF m1, of p' q l] rd_wr_disjoint [OF m2, of p' q l] that
    by (auto simp: CSI_TS_OFFSET_def)
  have "rd (page_mem h) p (pos + CSI_SMAC_OFFSET) 8 \<noteq> None"
    using len assms(2) by (simp add: rd_def CSI_SMAC_OFFSET_def)
  then have "flq_expand_csi_hdr k h p pos = Some (h\<lparr>page_mem := m2\<rparr>)"
    using m1 m2 by (auto simp: flq_expand_csi_hdr_def)
  then show ?thesis using r2 frame by simp
qed

lemma csi_send_payloads:
  assumes "csi_portid h \<noteq> 0" "\<forall>sz. nl_alloc k sz" "\<forall>sz n. nl_put k sz n" "\<forall>sz n d. nl_reserve k sz n d"
    and "rd (page_mem h) p pos (unat hdr_len) = Some hdr"
    and "length rs = length pays" "\<forall>bs \<in> set pays. bs \<noteq> []" "length (concat pays) < 2 ^ 32"
    and "\<forall>i < length rs. rd (page_mem h) (rxb_page (rs ! i))
           (rxb_offset (rs ! i) + PKT_DATA + SIZEOF_CSI_CHUNK) (length (pays ! i)) = Some (pays ! i)"
  shows "iwl_mvm_send_csi_event k h (p, pos) hdr_len (map2 payload_ref rs pays) =
    Some (h\<lparr>csi_events := csi_events h @
      [\<lparr>ev_portid = csi_portid h, ev_hdr = hdr, ev_data = concat pays\<rparr>]\<rparr>)"
proof -
  have nz: "takeWhile (\<lambda>(p, pos, n). n \<noteq> 0) (map2 payload_ref rs pays) = map2 payload_ref rs pays"
    using assms(7) by (auto simp: payload_ref_def takeWhile_eq_all_conv dest: set_zip_rightD)
  have "sum_list (map (\<lambda>(p, pos, n). of_nat n) (map2 payload_ref rs pays)) =
      (of_nat (length (concat pays)) :: u32)"
    using assms(6) by (induction rs pays rule: list_induct2) (simp_all add: payload_ref_def)
  then have len: "unat (sum_list (map (\<lambda>(p, pos, n). of_nat n) (map2 payload_ref rs pays)) :: u32)
      = length (concat pays)"
    using assms(8) by (simp add: unat_of_nat del: length_concat)
  show ?thesis
    unfolding iwl_mvm_send_csi_event_def nz Let_def len
    using assms(1-5) rd_chunks_payloads [OF assms(6,9)] by simp
qed

lemma csi_free_loop_all_empty:
  "\<forall>b \<in> set es. buf_page b = None \<longrightarrow> b = empty_csi_buffer \<Longrightarrow>
   fst (csi_free_loop es refs) = replicate (length es) empty_csi_buffer"
  by (induction es refs rule: csi_free_loop.induct) (auto simp: case_prod_beta split: option.split)

lemma csi_free_pages_idle:
  "length (csi_data_entries h) = 17 \<Longrightarrow>
   \<forall>b \<in> set (csi_data_entries h). buf_page b = None \<longrightarrow> b = empty_csi_buffer \<Longrightarrow>
   csi_idle (iwl_mvm_csi_free_pages h)"
  by (simp add: csi_idle_def iwl_mvm_csi_free_pages_def case_prod_beta csi_free_loop_all_empty
      IWL_CSI_MAX_EXPECTED_CHUNKS_def)

lemma csi_complete_stored:
  assumes len: "length (csi_data_entries h) = 17" "length rs = length pays" "rs \<noteq> []"
    and entries: "csi_data_entries h =
      buf_of hr # map buf_of rs @ empty_csi_buffer # later"
      "\<forall>b \<in> set later. buf_page b = None \<longrightarrow> b = empty_csi_buffer"
    and chunks: "\<forall>i < length rs. \<exists>num j. csi_chunk_at ver (page_mem h) (rs ! i) num j (pays ! i)"
    and hdr: "csi_header_at (page_mem h) hr hdr" "217 \<le> length hdr"
    and apart: "\<forall>i < length rs. rxb_page (rs ! i) = rxb_page hr \<longrightarrow>
      rxb_offset (rs ! i) + PKT_DATA + SIZEOF_CSI_CHUNK + length (pays ! i) \<le> rxb_offset hr + PKT_DATA + 208 \<or>
      rxb_offset hr + PKT_DATA + 217 \<le> rxb_offset (rs ! i) + PKT_DATA + SIZEOF_CSI_CHUNK"
    and kernel: "csi_portid h \<noteq> 0" "\<forall>sz. nl_alloc k sz" "\<forall>sz n. nl_put k sz n" "\<forall>sz n d. nl_reserve k sz n d"
    and data: "\<forall>bs \<in> set pays. bs \<noteq> []" "length (concat pays) < 2 ^ 32"
  shows "\<exists>h'. iwl_mvm_csi_complete k h = Some h' \<and> csi_idle h' \<and>
    csi_events h' = csi_events h @
      [\<lparr>ev_portid = csi_portid h,
        ev_hdr = expanded_hdr k (res_desc h ! DESC_V3_CHANNEL_OFFSET) hdr, ev_data = concat pays\<rparr>]"
proof -
  obtain lf where lf: "rd32 (page_mem h) (rxb_page hr) (rxb_offset hr) = Some lf"
    "unat (iwl_rx_packet_payload_len lf) = length hdr"
    "rd (page_mem h) (rxb_page hr) (rxb_offset hr + PKT_DATA) (length hdr) = Some hdr"
    using hdr(1) by (auto simp: csi_header_at_def)
  have loop: "csi_chunk_loop (page_mem h) (tl (csi_data_entries h))
      = Some (Some (map2 payload_ref rs pays))"
    using csi_chunk_loop_stored [OF len(2) chunks] entries by simp
  obtain h1 where h1: "flq_expand_csi_hdr k h (rxb_page hr) (rxb_offset hr + PKT_DATA) = Some h1"
    "h1 = h\<lparr>page_mem := page_mem h1\<rparr>"
    "rd (page_mem h1) (rxb_page hr) (rxb_offset hr + PKT_DATA) (length hdr)
       = Some (expanded_hdr k (res_desc h ! DESC_V3_CHANNEL_OFFSET) hdr)"
    "\<forall>p' q l. p' \<noteq> rxb_page hr \<or> q + l \<le> rxb_offset hr + PKT_DATA + 208 \<or>
       rxb_offset hr + PKT_DATA + 217 \<le> q \<longrightarrow> rd (page_mem h1) p' q l = rd (page_mem h) p' q l"
    using csi_expand_effect [OF lf(3) hdr(2), of k] by blast
  have pays: "\<forall>i < length rs. rd (page_mem h1) (rxb_page (rs ! i))
       (rxb_offset (rs ! i) + PKT_DATA + SIZEOF_CSI_CHUNK) (length (pays ! i)) = Some (pays ! i)"
  proof (intro allI impI)
    fix i assume i: "i < length rs"
    then show "rd (page_mem h1) (rxb_page (rs ! i))
       (rxb_offset (rs ! i) + PKT_DATA + SIZEOF_CSI_CHUNK) (length (pays ! i)) = Some (pays ! i)"
      using h1(4) [rule_format, of "rxb_page (rs ! i)"
          "rxb_offset (rs ! i) + PKT_DATA + SIZEOF_CSI_CHUNK" "length (pays ! i)"]
        apart chunks by (auto simp: csi_chunk_at_def)
  qed
  have same: "csi_portid h1 = csi_portid h" "csi_events h1 = csi_events h"
    "csi_data_entries h1 = csi_data_entries h"
    by (subst h1(2), simp)+
  have send: "iwl_mvm_send_csi_event k h1 (rxb_page hr, rxb_offset hr + PKT_DATA)
      (iwl_rx_packet_payload_len lf) (map2 payload_ref rs pays) =
    Some (h1\<lparr>csi_events := csi_events h @ [\<lparr>ev_portid = csi_portid h,
        ev_hdr = expanded_hdr k (res_desc h ! DESC_V3_CHANNEL_OFFSET) hdr, ev_data = concat pays\<rparr>]\<rparr>)"
    using csi_send_payloads [of h1 k "rxb_page hr" "rxb_offset hr + PKT_DATA"
        "iwl_rx_packet_payload_len lf" _ rs pays] same kernel h1(3) lf(2) len(2) data pays by simp
  have b1: "csi_data_entries h ! 1 = buf_of (rs ! 0)"
    using entries len(3) by (simp add: nth_append)
  have "iwl_mvm_csi_complete k h = Some (iwl_mvm_csi_free_pages (h1\<lparr>csi_events := csi_events h @
      [\<lparr>ev_portid = csi_portid h, ev_hdr = expanded_hdr k (res_desc h ! DESC_V3_CHANNEL_OFFSET) hdr,
        ev_data = concat pays\<rparr>]\<rparr>))" (is "_ = Some (iwl_mvm_csi_free_pages ?h2)")
    using b1 lf(1) loop h1(1) send entries by (simp add: iwl_mvm_csi_complete_def)
  moreover have "csi_idle (iwl_mvm_csi_free_pages ?h2)"
    using len(1) by (intro csi_free_pages_idle) (auto simp: same(3) entries)
  ultimately show ?thesis by simp
qed


text \<open>The slots of the notifications that come before the last chunk.\<close>

lemma in_set_butlast_iff: "x \<in> set (butlast xs) \<longleftrightarrow> (\<exists>i. i + 1 < length xs \<and> x = xs ! i)"
proof
  assume "x \<in> set (butlast xs)"
  then obtain i where "i < length (butlast xs)" "butlast xs ! i = x" by (auto simp: in_set_conv_nth)
  then show "\<exists>i. i + 1 < length xs \<and> x = xs ! i" by (intro exI [of _ i]) (simp add: nth_butlast)
next
  assume "\<exists>i. i + 1 < length xs \<and> x = xs ! i"
  then obtain i where "i + 1 < length xs" "x = xs ! i" by blast
  then have "i < length (butlast xs)" "butlast xs ! i = x" by (simp_all add: nth_butlast)
  then show "x \<in> set (butlast xs)" by (metis nth_mem)
qed

lemma csi_order_slots:
  assumes n: "rs \<noteq> []"
    and chunks: "\<forall>i < length rs. csi_chunk_at ver m (rs ! i) (length rs) i (pays ! i)"
    and order: "mset es = mset ((Csi_Header_Fn, hr) # map (Pair Csi_Chunk_Fn) (butlast rs))"
  shows "distinct (map (csi_slot ver m) es)" "csi_slot ver m ` set es = {0..<length rs}"
    "\<forall>e \<in> set es. csi_storing ver m (length rs) e" "(Csi_Header_Fn, hr) \<in> set es"
    "\<forall>j. Suc j < length rs \<longrightarrow> (Csi_Chunk_Fn, rs ! j) \<in> set es"
proof -
  let ?base = "(Csi_Header_Fn, hr) # map (Pair Csi_Chunk_Fn) (butlast rs)"
  have slot_chunk: "csi_slot ver m (Csi_Chunk_Fn, rs ! i) = i + 1" if "i < length rs" for i
    using chunks that by (blast intro: csi_chunk_at_slot)
  have slots: "map (csi_slot ver m) ?base = [0..<length rs]"
  proof (rule nth_equalityI)
    show "length (map (csi_slot ver m) ?base) = length [0..<length rs]" using n by (cases rs) auto
    fix i assume "i < length (map (csi_slot ver m) ?base)"
    then show "map (csi_slot ver m) ?base ! i = [0..<length rs] ! i"
      using n slot_chunk
      by (cases i) (auto simp: csi_slot_def [of _ _ "(Csi_Header_Fn, hr)"] nth_butlast)
  qed
  have set_es: "set es = set ?base" using order by (metis set_mset_mset)
  have "mset (map (csi_slot ver m) es) = mset [0..<length rs]"
    unfolding slots [symmetric] using order by (simp only: mset_map)
  then show "distinct (map (csi_slot ver m) es)" using mset_eq_imp_distinct_iff distinct_upt by blast
  show "csi_slot ver m ` set es = {0..<length rs}"
    unfolding set_es using arg_cong [OF slots, of set] by (simp only: set_map set_upt)
  show "\<forall>e \<in> set es. csi_storing ver m (length rs) e"
  proof
    fix e assume "e \<in> set es"
    then consider "e = (Csi_Header_Fn, hr)" | i where "i + 1 < length rs" "e = (Csi_Chunk_Fn, rs ! i)"
      unfolding set_es by (auto simp: in_set_butlast_iff)
    then show "csi_storing ver m (length rs) e"
    proof cases
      case (2 i)
      then have "csi_chunk_at ver m (rs ! i) (length rs) i (pays ! i)" using chunks by simp
      with 2 show ?thesis by (auto simp: csi_storing_def)
    qed (simp add: csi_storing_def)
  qed
  show "(Csi_Header_Fn, hr) \<in> set es" "\<forall>j. Suc j < length rs \<longrightarrow> (Csi_Chunk_Fn, rs ! j) \<in> set es"
    by (fastforce simp: set_es in_set_butlast_iff)+
qed

text \<open>The buffers when the last chunk has been stored too.\<close>

lemma csi_entries_of_report:
  assumes len: "length es = 17" "rs \<noteq> []" "length rs \<le> 15"
    and header: "es ! 0 = buf_of hr" and chunk: "\<forall>j. Suc j < length rs \<longrightarrow> es ! Suc j = buf_of (rs ! j)"
    and rest: "\<forall>s < 17. length rs \<le> s \<longrightarrow> es ! s = empty_csi_buffer"
  shows "es[length rs := buf_of (last rs)]
    = buf_of hr # map buf_of rs @ replicate (16 - length rs) empty_csi_buffer"
proof (rule nth_equalityI)
  show "length (es[length rs := buf_of (last rs)])
      = length (buf_of hr # map buf_of rs @ replicate (16 - length rs) empty_csi_buffer)"
    using len by simp
  fix i assume i: "i < length (es[length rs := buf_of (last rs)])"
  have last: "last rs = rs ! (length rs - 1)" using len(2) by (rule last_conv_nth)
  consider "i = 0" | j where "i = Suc j" "Suc j < length rs" | "i = length rs" "i \<noteq> 0" | "length rs < i"
    using len(2) by (cases i) (auto intro: linorder_cases)
  then show "es[length rs := buf_of (last rs)] ! i
      = (buf_of hr # map buf_of rs @ replicate (16 - length rs) empty_csi_buffer) ! i"
  proof cases
    case 1
    then show ?thesis using header len(2) by simp
  next
    case (2 j)
    then show ?thesis using chunk by (simp add: nth_append)
  next
    case 3
    then show ?thesis using len last by (cases i) (auto simp: nth_append)
  next
    case 4
    then show ?thesis using rest i len by (cases i) (auto simp: nth_append)
  qed
qed

section \<open>Properties\<close>

text \<open>C5: However the receive path, the worker, the purge, the recording of data frames and the
  netlink side interleave, the number of references to each receive page always exceeds the number
  of queued notifications and stored buffers that use the page by the same amount: no page is
  leaked and none is given back twice.\<close>

theorem csi_pages_balanced:
  assumes "csi_host_step\<^sup>*\<^sup>* h h'" "length (csi_data_entries h) = IWL_CSI_MAX_EXPECTED_CHUNKS + 1"
  shows "page_refs h' p - held h' p = page_refs h p - held h p"
  using csi_pages.quantity_run [OF assms(1)] assms(2)
  by (auto simp: csi_balance_iff IWL_CSI_MAX_EXPECTED_CHUNKS_def)

text \<open>C4: A report of up to 15 chunks is delivered exactly once and complete. If all buffers are
  free, a receiver is registered and the netlink message can be built, then the header and all
  chunks but the last, handled in any order, followed by the last chunk, append one event to the
  events sent: addressed to the receiver, with the header as received except for the time stamp at
  208 and the channel at 216, and with the payloads of the chunks in the order of their indices.
  Afterwards all buffers are free again. (The header notification must be at least 217 bytes long,
  and no payload may overlap the nine bytes that are written.)\<close>

theorem csi_report_delivered:
  assumes idle: "csi_idle h" and port: "csi_portid h \<noteq> 0"
    and kernel: "\<forall>sz. nl_alloc k sz" "\<forall>sz n. nl_put k sz n" "\<forall>sz n d. nl_reserve k sz n d"
    and n: "rs \<noteq> []" "length rs \<le> 15" "length pays = length rs"
    and chunks: "\<forall>i < length rs.
      csi_chunk_at (csi_notif h) (page_mem h) (rs ! i) (length rs) i (pays ! i) \<and> pays ! i \<noteq> []"
    and size: "length (concat pays) < 2 ^ 32"
    and hdr: "csi_header_at (page_mem h) hr hdr" "217 \<le> length hdr"
    and apart: "\<forall>i < length rs. rxb_page (rs ! i) = rxb_page hr \<longrightarrow>
      rxb_offset (rs ! i) + PKT_DATA + SIZEOF_CSI_CHUNK + length (pays ! i) \<le> rxb_offset hr + PKT_DATA + 208 \<or>
      rxb_offset hr + PKT_DATA + 217 \<le> rxb_offset (rs ! i) + PKT_DATA + SIZEOF_CSI_CHUNK"
    and order: "mset es = mset ((Csi_Header_Fn, hr) # map (Pair Csi_Chunk_Fn) (butlast rs))"
  shows "\<exists>h'. csi_run k (es @ [(Csi_Chunk_Fn, last rs)]) h = Some h' \<and> csi_idle h' \<and>
    csi_events h' = csi_events h @ [\<lparr>ev_portid = csi_portid h,
      ev_hdr = expanded_hdr k (res_desc h ! DESC_V3_CHANNEL_OFFSET) hdr, ev_data = concat pays\<rparr>]"
proof -
  let ?slot = "csi_slot (csi_notif h) (page_mem h)"
  let ?n = "length rs"
  have ent: "csi_data_entries h = replicate 17 empty_csi_buffer"
    using idle by (simp add: csi_idle_def IWL_CSI_MAX_EXPECTED_CHUNKS_def)
  have at: "\<forall>i < ?n. csi_chunk_at (csi_notif h) (page_mem h) (rs ! i) ?n i (pays ! i)"
    using chunks by blast
  note slots = csi_order_slots [OF n(1) at order]
  have "\<exists>h'. csi_run k es h = Some h' \<and> csi_same h h' \<and>
    length (csi_data_entries h') = length (csi_data_entries h) \<and>
    (\<forall>e \<in> set es. csi_data_entries h' ! ?slot e = buf_of (snd e)) \<and>
    (\<forall>s. s \<notin> ?slot ` set es \<longrightarrow> csi_data_entries h' ! s = csi_data_entries h ! s)"
  proof (rule csi_run_storing)
    have "?slot e < ?n" if "e \<in> set es" for e using slots(2) that by force
    then show "\<forall>e \<in> set es. ?slot e < length (csi_data_entries h) \<and>
        buf_page (csi_data_entries h ! ?slot e) = None"
      using n(2) by (fastforce simp: ent empty_csi_buffer_def)
  qed (use slots n(2) in auto)
  then obtain h1 where h1: "csi_run k es h = Some h1" "csi_same h h1"
    "length (csi_data_entries h1) = 17"
    "\<forall>e \<in> set es. csi_data_entries h1 ! ?slot e = buf_of (snd e)"
    "\<forall>s. s \<notin> {0..<?n} \<longrightarrow> csi_data_entries h1 ! s = csi_data_entries h ! s"
    using ent slots(2) by auto
  note same = h1(2) [unfolded csi_same_def]
  define h2 where "h2 = iwl_mvm_csi_steal h1 ?n (last rs)"
  have "csi_data_entries h1 ! ?n = empty_csi_buffer" using h1(5) ent n(2) by simp
  then have h2: "csi_data_entries h2 = (csi_data_entries h1)[?n := buf_of (last rs)]" "csi_same h1 h2"
    using csi_steal_empty_slot [of h1 ?n "last rs"] by (simp_all add: h2_def empty_csi_buffer_def)
  have "csi_data_entries h1 ! 0 = buf_of hr"
    using h1(4) [rule_format, OF slots(4)] by (simp add: csi_slot_def)
  moreover have "csi_data_entries h1 ! Suc j = buf_of (rs ! j)" if "Suc j < ?n" for j
  proof -
    have "?slot (Csi_Chunk_Fn, rs ! j) = j + 1" using at that by (blast intro: csi_chunk_at_slot Suc_lessD)
    then show ?thesis using h1(4) [rule_format, OF slots(5) [rule_format, OF that]] by simp
  qed
  ultimately have entries: "csi_data_entries h2
      = buf_of hr # map buf_of rs @ replicate (16 - ?n) empty_csi_buffer"
    using h1(3,5) n ent unfolding h2(1) by (intro csi_entries_of_report) auto
  have "replicate (16 - ?n) empty_csi_buffer = empty_csi_buffer # replicate (15 - ?n) empty_csi_buffer"
    using n(2) by (cases "16 - ?n") (auto simp: le_diff_conv)
  note entries = entries [unfolded this]
  have mem: "page_mem h2 = page_mem h" "csi_portid h2 = csi_portid h" "csi_notif h2 = csi_notif h"
    "csi_events h2 = csi_events h" "res_desc h2 = res_desc h"
    using same h2(2) by (simp_all add: csi_same_def)
  have "csi_chunk_at (csi_notif h) (page_mem h) (last rs) ?n (?n - 1) (pays ! (?n - 1))"
    using at [rule_format, of "?n - 1"] n(1) by (simp add: last_conv_nth)
  then have final: "csi_handle k (Csi_Chunk_Fn, last rs) h1 = iwl_mvm_csi_complete k h2"
    using same n(1,2) by (auto simp: csi_handle_def iwl_mvm_rx_csi_chunk_def csi_chunk_at_def h2_def
        IWL_CSI_MAX_EXPECTED_CHUNKS_def)
  have "\<exists>h'. iwl_mvm_csi_complete k h2 = Some h' \<and> csi_idle h' \<and>
    csi_events h' = csi_events h2 @ [\<lparr>ev_portid = csi_portid h2,
      ev_hdr = expanded_hdr k (res_desc h2 ! DESC_V3_CHANNEL_OFFSET) hdr, ev_data = concat pays\<rparr>]"
  proof (rule csi_complete_stored [where ver = "csi_notif h" and rs = rs and hr = hr
        and later = "replicate (15 - ?n) empty_csi_buffer"])
    show "\<forall>bs \<in> set pays. bs \<noteq> []" using chunks n(3) by (metis in_set_conv_nth)
    show "\<forall>i < ?n. \<exists>num j. csi_chunk_at (csi_notif h) (page_mem h2) (rs ! i) num j (pays ! i)"
      using at mem by auto
  qed (use n entries h2(1) h1(3) hdr apart port kernel size mem in simp_all)
  then obtain h' where h': "iwl_mvm_csi_complete k h2 = Some h'" "csi_idle h'"
    "csi_events h' = csi_events h @ [\<lparr>ev_portid = csi_portid h,
      ev_hdr = expanded_hdr k (res_desc h ! DESC_V3_CHANNEL_OFFSET) hdr, ev_data = concat pays\<rparr>]"
    using mem by auto
  then show ?thesis using final h1(1) by (simp add: csi_run_append)
qed


text \<open>When a chunk is missing although the last one arrived, the report is sent nevertheless:
  the event carries the chunks before the first missing one and silently drops all later chunks,
  whatever they are.\<close>

theorem csi_missing_chunk_truncates:
  assumes len: "length (csi_data_entries h) = 17" "length rs = length pays" "rs \<noteq> []"
    and entries: "csi_data_entries h = buf_of hr # map buf_of rs @ empty_csi_buffer # later"
      "\<forall>b \<in> set later. buf_page b = None \<longrightarrow> b = empty_csi_buffer"
    and chunks: "\<forall>i < length rs. \<exists>num j. csi_chunk_at ver (page_mem h) (rs ! i) num j (pays ! i)"
    and hdr: "csi_header_at (page_mem h) hr hdr" "217 \<le> length hdr"
    and apart: "\<forall>i < length rs. rxb_page (rs ! i) \<noteq> rxb_page hr"
    and kernel: "csi_portid h \<noteq> 0" "\<forall>sz. nl_alloc k sz" "\<forall>sz n. nl_put k sz n" "\<forall>sz n d. nl_reserve k sz n d"
    and data: "\<forall>bs \<in> set pays. bs \<noteq> []" "length (concat pays) < 2 ^ 32"
  shows "map_option csi_events (iwl_mvm_csi_complete k h) = Some (csi_events h @
      [\<lparr>ev_portid = csi_portid h,
        ev_hdr = expanded_hdr k (res_desc h ! DESC_V3_CHANNEL_OFFSET) hdr, ev_data = concat pays\<rparr>])"
  using csi_complete_stored [OF len entries chunks hdr _ kernel data] apart by auto

text \<open>A report of 16 chunks, the number the driver is dimensioned for, is never delivered: no
  chunk that announces 16 chunks in total completes the report, because the chunk with the highest
  index is refused by the bound on the index.\<close>

theorem csi_sixteen_chunks_never_delivered:
  assumes "rd16 (page_mem h) (rxb_page r) (rxb_offset r + PKT_DATA + 6) = Some ctl"
    and "csi_chunk_num_idx (csi_notif h) ctl = Some (IWL_CSI_MAX_EXPECTED_CHUNKS, idx)"
  shows "\<exists>h'. iwl_mvm_rx_csi_chunk k h r = Some h' \<and> csi_events h' = csi_events h \<and>
    (idx = IWL_CSI_MAX_EXPECTED_CHUNKS \<longrightarrow> h' = h)"
proof -
  have "csi_events (iwl_mvm_csi_steal h idx r) = csi_events h"
    by (simp add: iwl_mvm_csi_steal_def rxb_steal_page_def)
  then show ?thesis using assms by (auto simp: iwl_mvm_rx_csi_chunk_def Let_def)
qed


text \<open>The channel written into the CSI header is byte 42 of the descriptor of the last data
  frame, on every device. Byte 42 is the channel in the layout of AX210 and later devices; in the
  layout of earlier devices the channel is byte 34 and byte 42 belongs to the time stamp, so there
  the header does not carry the channel whenever the two bytes differ.\<close>

theorem csi_channel_is_byte_42:
  assumes "flq_mvm_record ax210 r h = Some h1" "flq_expand_csi_hdr k h1 p pos = Some h2"
    and "data = rxb_offset r + PKT_DATA"
  shows "page_mem h2 p ! (pos + 216) = page_mem h (rxb_page r) ! (data + 42) \<and>
    (page_mem h (rxb_page r) ! (data + DESC_V1_CHANNEL_OFFSET) \<noteq> page_mem h (rxb_page r) ! (data + 42) \<longrightarrow>
      page_mem h2 p ! (pos + 216) \<noteq> page_mem h (rxb_page r) ! (data + DESC_V1_CHANNEL_OFFSET))"
proof -
  have desc: "res_desc h1 = get_bytes data 64 (page_mem h (rxb_page r))"
    "data + 64 \<le> length (page_mem h (rxb_page r))"
    using assms(1,3)
    by (auto simp: flq_mvm_record_def Let_def bind_eq_Some_conv rd_def SIZEOF_RX_MPDU_DESC_def
        split: if_splits)
  have "page_mem h2 p ! (pos + 216) = res_desc h1 ! 42"
    using assms(2) by (auto simp: flq_expand_csi_hdr_def bind_eq_Some_conv wr_def put_bytes_def nth_append
        CSI_TS_OFFSET_def DESC_V3_CHANNEL_OFFSET_def split: if_splits)
  then show ?thesis using desc by (simp add: get_bytes_def)
qed

section \<open>Witnesses\<close>

text \<open>A header packet of 240 bytes in page 0, two chunks of two bytes in pages 1 and 2, and a data
  frame in page 3.\<close>

definition demo_chunk :: "u8 \<Rightarrow> u8 list \<Rightarrow> u8 list" where
  "demo_chunk i bs = [18, 0, 0, 0, 0xFB, 8, 0, 0] @ [0, 0, 0, 0, 0, 0, 2, i, 2, 0, 0, 0] @ bs"

definition demo_mem :: "nat \<Rightarrow> u8 list" where
  "demo_mem p =
     (if p = 0 then [244, 0, 0, 0, 0xFA, 8, 0, 0] @ replicate 240 7
      else if p = 1 then demo_chunk 0 [1, 2] else if p = 2 then demo_chunk 1 [3, 4]
      else replicate 120 (of_nat p))"

definition demo_rxb :: "nat \<Rightarrow> iwl_rx_cmd_buffer" where
  "demo_rxb p = \<lparr>rxb_page = p, rxb_offset = 0, rxb_order = 0, rxb_stolen = False\<rparr>"

definition demo_host :: csi_host where
  "demo_host = \<lparr>csi_data_entries = replicate 17 empty_csi_buffer, csi_portid = 42, csi_notif = 2,
     page_mem = demo_mem, page_refs = (\<lambda>_. 1), async_handlers_list = [], local_list = [],
     res_src_mac = replicate 6 0, res_dst_mac = replicate 6 0, res_desc = replicate 64 9,
     csi_events = []\<rparr>"

definition demo_kernel :: csi_kernel where
  "demo_kernel = \<lparr>ktime_ns = 0x0102030405060708, nl_alloc = \<lambda>_. True, nl_put = \<lambda>_ _. True,
     nl_reserve = \<lambda>_ _ _. True\<rparr>"

lemma demo_header_at: "csi_header_at demo_mem (demo_rxb 0) (replicate 240 7)"
proof -
  have "rd32 demo_mem 0 0 = Some 244" "unat (iwl_rx_packet_payload_len 244) = 240"
    "rd demo_mem 0 8 240 = Some (replicate 240 7)" by code_simp+
  then show ?thesis by (simp add: csi_header_at_def demo_rxb_def PKT_DATA_def)
qed

lemma demo_chunk_at:
  "csi_chunk_at 2 demo_mem (demo_rxb 1) 2 0 [1, 2]" "csi_chunk_at 2 demo_mem (demo_rxb 2) 2 1 [3, 4]"
proof -
  have "rd32 demo_mem 1 0 = Some 18" "rd16 demo_mem 1 14 = Some 2" "rd32 demo_mem 1 16 = Some 2"
    "csi_chunk_num_idx 2 2 = Some (2, 1)" "unat (iwl_rx_packet_payload_len 18) = 14"
    "rd demo_mem 1 20 2 = Some [1, 2]" by code_simp+
  then show "csi_chunk_at 2 demo_mem (demo_rxb 1) 2 0 [1, 2]"
    by (simp add: csi_chunk_at_def demo_rxb_def PKT_DATA_def SIZEOF_CSI_CHUNK_def
        numeral_2_eq_2 [symmetric])
  have "rd32 demo_mem 2 0 = Some 18" "rd16 demo_mem 2 14 = Some 0x102" "rd32 demo_mem 2 16 = Some 2"
    "csi_chunk_num_idx 2 0x102 = Some (2, 2)" "unat (iwl_rx_packet_payload_len 18) = 14"
    "rd demo_mem 2 20 2 = Some [3, 4]" by code_simp+
  then show "csi_chunk_at 2 demo_mem (demo_rxb 2) 2 1 [3, 4]"
    by (simp add: csi_chunk_at_def demo_rxb_def PKT_DATA_def SIZEOF_CSI_CHUNK_def
        numeral_2_eq_2 [symmetric])
qed

lemma csi_report_delivered_witness:
  "\<exists>h'. csi_run demo_kernel ([(Csi_Chunk_Fn, demo_rxb 1), (Csi_Header_Fn, demo_rxb 0)]
      @ [(Csi_Chunk_Fn, last [demo_rxb 1, demo_rxb 2])]) demo_host = Some h' \<and> csi_idle h' \<and>
    csi_events h' = [\<lparr>ev_portid = 42, ev_hdr = expanded_hdr demo_kernel 9 (replicate 240 7),
      ev_data = [1, 2, 3, 4]\<rparr>]"
proof -
  have "\<exists>h'. csi_run demo_kernel ([(Csi_Chunk_Fn, demo_rxb 1), (Csi_Header_Fn, demo_rxb 0)]
      @ [(Csi_Chunk_Fn, last [demo_rxb 1, demo_rxb 2])]) demo_host = Some h' \<and> csi_idle h' \<and>
    csi_events h' = csi_events demo_host @ [\<lparr>ev_portid = csi_portid demo_host,
      ev_hdr = expanded_hdr demo_kernel (res_desc demo_host ! DESC_V3_CHANNEL_OFFSET) (replicate 240 7),
      ev_data = concat [[1, 2], [3, 4]]\<rparr>]"
  proof (rule csi_report_delivered [where hr = "demo_rxb 0"])
    show "csi_portid demo_host \<noteq> 0" by (simp add: demo_host_def)
    show "length (concat [[1, 2], [3, 4 :: u8]]) < 2 ^ 32" by simp
  qed (use demo_header_at demo_chunk_at in \<open>auto simp: demo_host_def demo_kernel_def csi_idle_def
        IWL_CSI_MAX_EXPECTED_CHUNKS_def demo_rxb_def less_Suc_eq numeral_2_eq_2\<close>)
  then show ?thesis by (simp add: demo_host_def DESC_V3_CHANNEL_OFFSET_def)
qed

definition demo_host_hole :: csi_host where
  "demo_host_hole = demo_host\<lparr>csi_data_entries :=
     buf_of (demo_rxb 0) # map buf_of [demo_rxb 1] @ empty_csi_buffer # buf_of (demo_rxb 2)
       # replicate 13 empty_csi_buffer\<rparr>"

lemma csi_missing_chunk_truncates_witness:
  "map_option csi_events (iwl_mvm_csi_complete demo_kernel demo_host_hole) =
    Some [\<lparr>ev_portid = 42, ev_hdr = expanded_hdr demo_kernel 9 (replicate 240 7), ev_data = [1, 2]\<rparr>]"
proof -
  have "map_option csi_events (iwl_mvm_csi_complete demo_kernel demo_host_hole) =
    Some (csi_events demo_host_hole @ [\<lparr>ev_portid = csi_portid demo_host_hole,
      ev_hdr = expanded_hdr demo_kernel (res_desc demo_host_hole ! DESC_V3_CHANNEL_OFFSET) (replicate 240 7),
      ev_data = concat [[1, 2]]\<rparr>])"
    by (rule csi_missing_chunk_truncates [where hr = "demo_rxb 0" and rs = "[demo_rxb 1]" and ver = 2
          and later = "buf_of (demo_rxb 2) # replicate 13 empty_csi_buffer"])
      (use demo_header_at demo_chunk_at in \<open>auto simp: demo_host_hole_def demo_host_def
        demo_kernel_def demo_rxb_def\<close>)
  then show ?thesis by (simp add: demo_host_hole_def demo_host_def DESC_V3_CHANNEL_OFFSET_def)
qed

lemma csi_pages_balanced_witness:
  "page_refs (iwl_mvm_async_handlers_purge (async_wk_splice demo_host)) 1
     - held (iwl_mvm_async_handlers_purge (async_wk_splice demo_host)) 1 = 1"
proof -
  have "csi_host_step\<^sup>*\<^sup>* demo_host (iwl_mvm_async_handlers_purge (async_wk_splice demo_host))"
    by (intro converse_rtranclp_into_rtranclp [of csi_host_step demo_host "async_wk_splice demo_host"]
        r_into_rtranclp csi_host_step.splice csi_host_step.purge) (simp add: demo_host_def)
  then show ?thesis
    using csi_pages_balanced [of demo_host _ 1]
    by (simp add: demo_host_def held_def IWL_CSI_MAX_EXPECTED_CHUNKS_def empty_csi_buffer_def occs_def)
qed

lemma csi_sixteen_chunks_never_delivered_witness:
  "\<exists>h'. iwl_mvm_rx_csi_chunk demo_kernel
      (demo_host\<lparr>page_mem := \<lambda>_. replicate 14 0 @ [16, 15, 0, 0]\<rparr>) (demo_rxb 0) = Some h'
    \<and> csi_events h' = []"
proof -
  let ?h = "demo_host\<lparr>page_mem := \<lambda>_. replicate 14 0 @ [16, 15, 0, 0]\<rparr>"
  have "rd16 (\<lambda>_. replicate 14 0 @ [16, 15, 0, 0]) 0 14 = Some 0xF10"
    "csi_chunk_num_idx 2 0xF10 = Some (16, 16)" by code_simp+
  then show ?thesis
    using csi_sixteen_chunks_never_delivered [of ?h "demo_rxb 0" "0xF10" 16 demo_kernel]
    by (auto simp: demo_host_def demo_rxb_def PKT_DATA_def IWL_CSI_MAX_EXPECTED_CHUNKS_def)
qed


lemma csi_channel_is_byte_42_witness:
  "\<exists>h1 h2. flq_mvm_record True (demo_rxb 3) demo_host = Some h1 \<and>
     flq_expand_csi_hdr demo_kernel h1 0 8 = Some h2 \<and> page_mem h2 0 ! 224 = 3"
proof -
  have "rd demo_mem 3 82 6 \<noteq> None" "rd demo_mem 3 76 6 \<noteq> None" "rd demo_mem 3 8 64 \<noteq> None"
    "rd demo_mem 0 76 8 \<noteq> None" by code_simp+
  then obtain h1 where h1: "flq_mvm_record True (demo_rxb 3) demo_host = Some h1" "page_mem h1 = demo_mem"
    by (auto simp: flq_mvm_record_def demo_rxb_def demo_host_def PKT_DATA_def SIZEOF_RX_MPDU_DESC_def
        ETH_ALEN_def)
  have "rd (page_mem h1) 0 8 240 = Some (replicate 240 7)"
    using demo_header_at h1(2) by (auto simp: csi_header_at_def demo_rxb_def PKT_DATA_def)
  from csi_expand_effect [OF this, of demo_kernel] obtain h2 where
    h2: "flq_expand_csi_hdr demo_kernel h1 0 8 = Some h2" by auto
  have "demo_mem 3 ! 50 = 3" by code_simp
  then have "page_mem h2 0 ! 224 = 3"
    using csi_channel_is_byte_42 [OF h1(1) h2 refl]
    by (simp add: demo_rxb_def demo_host_def PKT_DATA_def)
  then show ?thesis using h1 h2 by blast
qed

end
