(* ===== verification/Reorder.thy ===== *)
theory Reorder
  imports Rx_Frame "HOL-Library.Multiset"
begin

text \<open>
  The receive reorder buffer of a block-ack session (mvm/rxmq.c, with its set-up and removal in
  mvm/sta.c). Frames are a type parameter: the code never looks into a frame it has stored. Calls
  into mac80211 and the transport are recorded as events, in the order in which they are made. The
  kernel's clock (\<open>jiffies\<close>, the comparison \<open>time_after\<close> and the timeout of a tenth of a second in
  jiffies) is an argument. The outcome \<open>None\<close> of an operation is a loop that does not end or an
  access outside an array.
\<close>

unbundle bit_operations_syntax

section \<open>State\<close>

definition IWL_MAX_BAID :: nat where "IWL_MAX_BAID = 32"
definition IWL_MVM_AMPDU_CONSEC_DROPS_DELBA :: u32 where "IWL_MVM_AMPDU_CONSEC_DROPS_DELBA = 20"

record reorder_buffer =
  head_sn :: u16
  num_stored :: u16
  buf_size :: u16
  rb_queue :: nat
  last_amsdu :: u16
  last_sub_index :: u8
  reorder_timer :: "u64 option"
  removed :: bool
  valid :: bool
  consec_oldsn_drops :: u32
  consec_oldsn_ampdu_gp2 :: u32
  consec_oldsn_prev_drop :: bool

record 'f reorder_entry =
  entry_frames :: "'f list"
  entry_time :: u64

record 'f baid_data =
  sta_mask :: u32
  bd_tid :: u8
  bd_baid :: u8
  bd_timeout :: u16
  entries_per_queue :: u16
  last_rx :: u64
  reorder_buf :: "reorder_buffer list"
  bd_entries :: "'f reorder_entry list"

record rx_clock =
  jiffies :: u64
  reorder_tmo :: u64
  time_after :: "u64 \<Rightarrow> u64 \<Rightarrow> bool"

datatype 'f rx_event =
    Pass nat 'f
  | Free_skb 'f
  | Sync_nssn u8 u16
  | Stop_ba u8
  | Frame_timeout u8

record rx_sta =
  sta_fw_id_mask :: u32

record 'f rx_mvm =
  baid_map :: "'f baid_data option list"
  fw_id_to_mac_id :: "rx_sta option list"
  queue_sync_cookie :: u32
  queue_sync_state :: u64
  sync_wakeups :: nat

section \<open>Releasing frames\<close>

definition iwl_mvm_is_sn_less :: "u16 \<Rightarrow> u16 \<Rightarrow> u16 \<Rightarrow> bool" where
  "iwl_mvm_is_sn_less sn1 sn2 buffer_size \<longleftrightarrow>
     ieee80211_sn_less sn1 sn2 \<and> \<not> ieee80211_sn_less sn1 (sn2 - buffer_size)"

text \<open>
  The release loop walks from \<open>ssn\<close> to \<open>nssn\<close>; each step empties the slot of one sequence number
  and hands its frames to mac80211. The distance to \<open>nssn\<close> decreases in every step, whatever the
  arguments.
\<close>

function release_loop ::
  "bool \<Rightarrow> u8 \<Rightarrow> nat \<Rightarrow> u16 \<Rightarrow> u16 \<Rightarrow> nat \<Rightarrow> u16 \<Rightarrow> 'f reorder_entry list \<Rightarrow> u16
   \<Rightarrow> 'f reorder_entry list \<times> u16 \<times> 'f rx_event list"
where
  "release_loop send baid q bs nssn base ssn es num =
     (if iwl_mvm_is_sn_less ssn nssn bs then
        (let index = unat (ssn mod bs);
             skbs = entry_frames (es ! (base + index));
             ssn' = ieee80211_sn_inc ssn;
             sync = (if send \<and> (ssn' = 2048 \<or> ssn' = 0) then [Sync_nssn baid ssn'] else []);
             es' = es[base + index := (es ! (base + index))\<lparr>entry_frames := []\<rparr>];
             (es'', num', evs) =
               release_loop send baid q bs nssn base ssn' es' (num - of_nat (length skbs))
         in (es'', num', sync @ map (Pass q) skbs @ evs))
      else (es, num, []))"
  by pat_completeness auto

termination
proof (relation "measure (\<lambda>(send, baid, q, bs, nssn, base, ssn, es, num). sn_dist ssn nssn)", goal_cases)
  case (2 send baid q bs nssn base ssn es num)
  from 2(1) have "0 < sn_dist ssn nssn" by (simp add: iwl_mvm_is_sn_less_def ieee80211_sn_less_iff)
  with 2 show ?case using sn_dist_inc [of ssn nssn] by simp
qed simp

declare release_loop.simps [simp del]

text \<open>
  The search for the first non-empty slot from the head on: it only ends when there is one.
\<close>

definition first_stored :: "u16 \<Rightarrow> u16 \<Rightarrow> nat \<Rightarrow> 'f reorder_entry list \<Rightarrow> nat option" where
  "first_stored head bs base es =
     find (\<lambda>i. entry_frames (es ! (base + i)) \<noteq> [])
       (map (\<lambda>k. (unat (head mod bs) + k) mod unat bs) [0..<unat bs])"

definition release_set_timer ::
  "rx_clock \<Rightarrow> nat \<Rightarrow> reorder_buffer \<Rightarrow> 'f reorder_entry list \<Rightarrow> reorder_buffer option"
where
  "release_set_timer clk base buf es =
     (if num_stored buf \<noteq> 0 \<and> \<not> removed buf then
        (case first_stored (head_sn buf) (buf_size buf) base es of
           None \<Rightarrow> None
         | Some i \<Rightarrow>
             Some (buf\<lparr>reorder_timer := Some (entry_time (es ! (base + i)) + 1 + reorder_tmo clk)\<rparr>))
      else Some (buf\<lparr>reorder_timer := None\<rparr>))"

definition release_buf ::
  "rx_clock \<Rightarrow> bool \<Rightarrow> bool \<Rightarrow> u8 \<Rightarrow> nat \<Rightarrow> u16 \<Rightarrow> reorder_buffer \<Rightarrow> 'f reorder_entry list
   \<Rightarrow> (reorder_buffer \<times> 'f reorder_entry list \<times> 'f rx_event list) option"
where
  "release_buf clk send from_sync baid base nssn buf es =
     (let ssn = head_sn buf in
      if from_sync \<and> ieee80211_sn_less nssn ssn
         \<or> iwl_mvm_is_sn_less nssn ssn (buf_size buf) then
        map_option (\<lambda>buf. (buf, es, [])) (release_set_timer clk base buf es)
      else
        (let (es, num, evs) =
               release_loop send baid (rb_queue buf) (buf_size buf) nssn base ssn es (num_stored buf);
             buf = buf\<lparr>num_stored := num, head_sn := nssn\<rparr>
         in map_option (\<lambda>buf. (buf, es, evs)) (release_set_timer clk base buf es)))"

definition queue_base :: "'f baid_data \<Rightarrow> reorder_buffer \<Rightarrow> nat" where
  "queue_base bd buf = rb_queue buf * unat (entries_per_queue bd)"

definition iwl_mvm_release_frames ::
  "rx_clock \<Rightarrow> bool \<Rightarrow> bool \<Rightarrow> nat \<Rightarrow> u16 \<Rightarrow> 'f baid_data \<Rightarrow> ('f baid_data \<times> 'f rx_event list) option"
where
  "iwl_mvm_release_frames clk send from_sync q nssn bd =
     (let buf = reorder_buf bd ! q in
      map_option
        (\<lambda>(buf, es, evs). (bd\<lparr>reorder_buf := (reorder_buf bd)[q := buf], bd_entries := es\<rparr>, evs))
        (release_buf clk send from_sync (bd_baid bd) (queue_base bd buf) nssn buf (bd_entries bd)))"

section \<open>The reorder timer\<close>

text \<open>
  The scan over the slots from the head: the result is the last index looked at, the sequence number
  after the last expired run and whether a frame expired.
\<close>

fun expire_scan ::
  "rx_clock \<Rightarrow> u16 \<Rightarrow> u16 \<Rightarrow> nat \<Rightarrow> 'f reorder_entry list \<Rightarrow> nat list \<Rightarrow> bool \<Rightarrow> nat \<times> u16 \<times> bool
   \<Rightarrow> nat \<times> u16 \<times> bool"
where
  "expire_scan clk head bs base es [] cont (index, sn, expired) = (index, sn, expired)"
| "expire_scan clk head bs base es (i # is) cont (index, sn, expired) =
     (let index = (unat head + i) mod unat bs in
      if entry_frames (es ! (base + index)) = [] then
        expire_scan clk head bs base es is False (index, sn, expired)
      else if \<not> cont \<and> \<not> time_after clk (jiffies clk) (entry_time (es ! (base + index)) + reorder_tmo clk)
      then (index, sn, expired)
      else expire_scan clk head bs base es is True
             (index, ieee80211_sn_add head (of_nat (i + 1)), True))"

text \<open>\<open>ffs\<close> minus one, as the u8 and u32 indices of the station table.\<close>

definition first_sta_id :: "u32 \<Rightarrow> nat" where
  "first_sta_id m = (if m = 0 then 255 else ffs m - 1)"

definition lookup_sta :: "'f rx_mvm \<Rightarrow> nat \<Rightarrow> rx_sta option option" where
  "lookup_sta mvm i = (if i < length (fw_id_to_mac_id mvm) then Some (fw_id_to_mac_id mvm ! i) else None)"

definition iwl_mvm_reorder_timer_expired ::
  "rx_clock \<Rightarrow> 'f rx_mvm \<Rightarrow> nat \<Rightarrow> 'f baid_data \<Rightarrow> ('f baid_data \<times> 'f rx_event list) option"
where
  "iwl_mvm_reorder_timer_expired clk mvm q bd =
     (let buf = reorder_buf bd ! q; base = queue_base bd buf; es = bd_entries bd in
      if num_stored buf = 0 \<or> removed buf then Some (bd, [])
      else
        (let (index, sn, expired) =
               expire_scan clk (head_sn buf) (buf_size buf) base es [0..<unat (buf_size buf)] False
                 (0, 0, False)
         in if expired then
              (case lookup_sta mvm (first_sta_id (sta_mask bd)) of
                 Some (Some sta) \<Rightarrow>
                   map_option (\<lambda>(bd, evs). (bd, Frame_timeout (bd_tid bd) # evs))
                     (iwl_mvm_release_frames clk True False q sn bd)
               | _ \<Rightarrow> None)
            else
              Some (bd\<lparr>reorder_buf := (reorder_buf bd)[q :=
                  buf\<lparr>reorder_timer := Some (entry_time (es ! (base + index)) + 1 + reorder_tmo clk)\<rparr>]\<rparr>, [])))"

section \<open>Notifications\<close>

definition update_baid :: "nat \<Rightarrow> 'f baid_data \<Rightarrow> 'f rx_mvm \<Rightarrow> 'f rx_mvm" where
  "update_baid baid bd mvm = mvm\<lparr>baid_map := (baid_map mvm)[baid := Some bd]\<rparr>"

definition iwl_mvm_del_ba ::
  "rx_clock \<Rightarrow> nat \<Rightarrow> u8 \<Rightarrow> 'f rx_mvm \<Rightarrow> ('f rx_mvm \<times> 'f rx_event list) option"
where
  "iwl_mvm_del_ba clk q baid mvm =
     (if IWL_MAX_BAID \<le> unat baid then Some (mvm, [])
      else
        (case baid_map mvm ! unat baid of
           None \<Rightarrow> Some (mvm, [])
         | Some bd \<Rightarrow>
             (case lookup_sta mvm (first_sta_id (sta_mask bd)) of
                None \<Rightarrow> None
              | Some None \<Rightarrow> Some (mvm, [])
              | Some (Some sta) \<Rightarrow>
                  (let buf = reorder_buf bd ! q in
                   map_option
                     (\<lambda>(bd, evs).
                        (update_baid (unat baid)
                           (bd\<lparr>reorder_buf := (reorder_buf bd)[q :=
                               (reorder_buf bd ! q)\<lparr>reorder_timer := None\<rparr>]\<rparr>) mvm, evs))
                     (iwl_mvm_release_frames clk False False q
                        (ieee80211_sn_add (head_sn buf) (buf_size buf)) bd)))))"

definition iwl_mvm_release_frames_from_notif ::
  "rx_clock \<Rightarrow> nat \<Rightarrow> u16 \<Rightarrow> nat \<Rightarrow> bool \<Rightarrow> 'f rx_mvm \<Rightarrow> ('f rx_mvm \<times> 'f rx_event list) option"
where
  "iwl_mvm_release_frames_from_notif clk baid nssn q from_sync mvm =
     (if baid = IWL_RX_REORDER_DATA_INVALID_BAID \<or> IWL_MAX_BAID \<le> baid then Some (mvm, [])
      else
        (case baid_map mvm ! baid of
           None \<Rightarrow> Some (mvm, [])
         | Some bd \<Rightarrow>
             (case lookup_sta mvm (first_sta_id (sta_mask bd)) of
                None \<Rightarrow> None
              | Some None \<Rightarrow> Some (mvm, [])
              | Some (Some sta) \<Rightarrow>
                  map_option (\<lambda>(bd, evs). (update_baid baid bd mvm, evs))
                    (iwl_mvm_release_frames clk False from_sync q nssn bd))))"

definition iwl_mvm_nssn_sync ::
  "rx_clock \<Rightarrow> nat \<Rightarrow> u32 \<Rightarrow> u32 \<Rightarrow> 'f rx_mvm \<Rightarrow> ('f rx_mvm \<times> 'f rx_event list) option"
where
  "iwl_mvm_nssn_sync clk q baid nssn mvm =
     iwl_mvm_release_frames_from_notif clk (unat (ucast baid :: u8)) (ucast nssn) q True mvm"

text \<open>The message of one receive queue to another, as the handler sees it: the length of the
  payload, the fields of \<open>struct iwl_mvm_internal_rxq_notif\<close> and the data bytes.\<close>

record rxq_notif =
  notif_len :: u32
  notif_type :: nat
  notif_sync :: bool
  notif_cookie :: u32
  notif_data :: "u8 list"

definition IWL_MVM_RXQ_EMPTY :: nat where "IWL_MVM_RXQ_EMPTY = 0"
definition IWL_MVM_RXQ_NOTIF_DEL_BA :: nat where "IWL_MVM_RXQ_NOTIF_DEL_BA = 1"
definition IWL_MVM_RXQ_NSSN_SYNC :: nat where "IWL_MVM_RXQ_NSSN_SYNC = 2"
definition SIZEOF_RXQ_NOTIF :: u32 where "SIZEOF_RXQ_NOTIF = 4 + 8"

text \<open>The switch over the type of the message, and the answer to a synchronous one.\<close>

definition rxq_notif_action ::
  "rx_clock \<Rightarrow> nat \<Rightarrow> rxq_notif \<Rightarrow> 'f rx_mvm \<Rightarrow> ('f rx_mvm \<times> 'f rx_event list) option"
where
  "rxq_notif_action clk q n mvm =
     (let len = notif_len n - SIZEOF_RXQ_NOTIF in
      if notif_type n = IWL_MVM_RXQ_EMPTY then Some (mvm, [])
      else if notif_type n = IWL_MVM_RXQ_NOTIF_DEL_BA then
        (if len \<noteq> 4 then Some (mvm, [])
         else iwl_mvm_del_ba clk q (ucast (of_le_bytes (take 4 (notif_data n)) :: u32)) mvm)
      else if notif_type n = IWL_MVM_RXQ_NSSN_SYNC then
        (if len \<noteq> 8 then Some (mvm, [])
         else iwl_mvm_nssn_sync clk q (of_le_bytes (take 4 (notif_data n)))
                (of_le_bytes (take 4 (drop 4 (notif_data n)))) mvm)
      else Some (mvm, []))"

definition rxq_sync_done :: "nat \<Rightarrow> 'f rx_mvm \<Rightarrow> 'f rx_mvm" where
  "rxq_sync_done q mvm =
     (let st = queue_sync_state mvm AND NOT (push_bit q 1)
      in mvm\<lparr>queue_sync_state := st,
             sync_wakeups := sync_wakeups mvm + (if st = 0 then 1 else 0)\<rparr>)"

definition iwl_mvm_rx_queue_notif ::
  "rx_clock \<Rightarrow> nat \<Rightarrow> rxq_notif \<Rightarrow> 'f rx_mvm \<Rightarrow> ('f rx_mvm \<times> 'f rx_event list) option"
where
  "iwl_mvm_rx_queue_notif clk q n mvm =
     (if notif_len n < SIZEOF_RXQ_NOTIF then Some (mvm, [])
      else if notif_sync n \<and> queue_sync_cookie mvm \<noteq> notif_cookie n then Some (mvm, [])
      else map_option (\<lambda>(mvm, evs). (if notif_sync n then rxq_sync_done q mvm else mvm, evs))
             (rxq_notif_action clk q n mvm))"

definition iwl_mvm_rx_frame_release ::
  "rx_clock \<Rightarrow> nat \<Rightarrow> u32 \<Rightarrow> u8 \<Rightarrow> u16 \<Rightarrow> 'f rx_mvm \<Rightarrow> ('f rx_mvm \<times> 'f rx_event list) option"
where
  "iwl_mvm_rx_frame_release clk q payload_len baid nssn mvm =
     (if payload_len < 4 then Some (mvm, [])
      else iwl_mvm_release_frames_from_notif clk (unat baid) nssn q False mvm)"

definition IWL_MVM_STATION_COUNT_MAX :: nat where "IWL_MVM_STATION_COUNT_MAX = 16"

definition iwl_mvm_rx_bar_frame_release ::
  "rx_clock \<Rightarrow> nat \<Rightarrow> u32 \<Rightarrow> u32 \<Rightarrow> u32 \<Rightarrow> 'f rx_mvm \<Rightarrow> ('f rx_mvm \<times> 'f rx_event list) option"
where
  "iwl_mvm_rx_bar_frame_release clk q payload_len sta_tid ba_info mvm =
     (let baid = unat (take_bit 6 (drop_bit 24 ba_info));
          nssn = ucast (take_bit 12 ba_info);
          sta_id = unat (take_bit 5 (drop_bit 4 sta_tid));
          tid = take_bit 4 sta_tid
      in if payload_len < 8 then Some (mvm, [])
         else if baid = IWL_RX_REORDER_DATA_INVALID_BAID \<or> IWL_MAX_BAID \<le> baid then Some (mvm, [])
         else
           (case baid_map mvm ! baid of
              None \<Rightarrow> Some (mvm, [])
            | Some bd \<Rightarrow>
                if tid \<noteq> ucast (bd_tid bd) \<or> IWL_MVM_STATION_COUNT_MAX < sta_id
                   \<or> \<not> bit (sta_mask bd) sta_id then Some (mvm, [])
                else iwl_mvm_release_frames_from_notif clk baid nssn q False mvm))"

section \<open>Receiving a frame\<close>

definition iwl_mvm_oldsn_workaround ::
  "u8 \<Rightarrow> u32 \<Rightarrow> u32 \<Rightarrow> reorder_buffer \<Rightarrow> reorder_buffer \<times> 'f rx_event list"
where
  "iwl_mvm_oldsn_workaround tid reorder gp2 buf =
     (if gp2 = consec_oldsn_ampdu_gp2 buf \<and> consec_oldsn_prev_drop buf then (buf, [])
      else
        (let buf =
               (if gp2 \<noteq> consec_oldsn_ampdu_gp2 buf then
                  (if consec_oldsn_prev_drop buf then buf else buf\<lparr>consec_oldsn_drops := 0\<rparr>)
                    \<lparr>consec_oldsn_ampdu_gp2 := gp2\<rparr>
                else buf)
         in if \<not> tst reorder IWL_RX_MPDU_REORDER_BA_OLD_SN then (buf, [])
            else
              (let buf = buf\<lparr>consec_oldsn_prev_drop := True,
                             consec_oldsn_drops := consec_oldsn_drops buf + 1\<rparr>
               in if consec_oldsn_drops buf = IWL_MVM_AMPDU_CONSEC_DROPS_DELBA
                  then (buf\<lparr>consec_oldsn_prev_drop := False, consec_oldsn_drops := 0\<rparr>, [Stop_ba tid])
                  else (buf, []))))"

text \<open>The frame in its slot, unless the slot holds a copy of it already.\<close>

definition reorder_store ::
  "rx_clock \<Rightarrow> nat \<Rightarrow> bool \<Rightarrow> u8 \<Rightarrow> u16 \<Rightarrow> 'f \<Rightarrow> reorder_buffer \<Rightarrow> 'f reorder_entry list
   \<Rightarrow> (reorder_buffer \<times> 'f reorder_entry list) option"
where
  "reorder_store clk base amsdu sub_frame_idx sn skb buf es =
     (let index = unat (sn mod buf_size buf); e = es ! (base + index) in
      if entry_frames e \<noteq> [] \<and>
         (\<not> amsdu \<or> sn \<noteq> last_amsdu buf \<or> sub_frame_idx \<le> last_sub_index buf) then None
      else
        Some ((if amsdu then buf\<lparr>last_amsdu := sn, last_sub_index := sub_frame_idx\<rparr> else buf)
                \<lparr>num_stored := num_stored buf + 1\<rparr>,
              es[base + index := e\<lparr>entry_frames := entry_frames e @ [skb], entry_time := jiffies clk\<rparr>]))"

text \<open>
  The part of the handler under the lock, for a frame of the session \<open>bd\<close>: the first component of
  the result says whether the frame was stored or dropped. \<open>reorder_tail\<close> is what follows the
  adjustment to a jump of the window: drop, pass on, or store and release.
\<close>

definition set_rb :: "nat \<Rightarrow> reorder_buffer \<Rightarrow> 'f baid_data \<Rightarrow> 'f baid_data" where
  "set_rb q buf bd = bd\<lparr>reorder_buf := (reorder_buf bd)[q := buf]\<rparr>"

definition reorder_tail ::
  "rx_clock \<Rightarrow> nat \<Rightarrow> u8 \<Rightarrow> bool \<Rightarrow> bool \<Rightarrow> u8 \<Rightarrow> u16 \<Rightarrow> u16 \<Rightarrow> 'f \<Rightarrow> 'f baid_data
   \<Rightarrow> (bool \<times> 'f baid_data \<times> 'f rx_event list) option"
where
  "reorder_tail clk q baid amsdu last_subframe sub_frame_idx sn nssn skb bd =
     (let buf = reorder_buf bd ! q;
          sync = (if sn = 2048 \<or> sn = 0 then [Sync_nssn baid sn] else [])
      in if ieee80211_sn_less sn (head_sn buf) then Some (True, bd, [Free_skb skb])
         else if num_stored buf = 0 \<and> ieee80211_sn_less sn nssn then
           (if iwl_mvm_is_sn_less (head_sn buf) nssn (buf_size buf) \<and> (\<not> amsdu \<or> last_subframe)
            then Some (False, set_rb q (buf\<lparr>head_sn := nssn\<rparr>) bd, sync)
            else Some (False, bd, []))
         else if num_stored buf = 0 \<and> sn = head_sn buf then
           (if \<not> amsdu \<or> last_subframe
            then Some (False, set_rb q (buf\<lparr>head_sn := ieee80211_sn_inc (head_sn buf)\<rparr>) bd, sync)
            else Some (False, bd, []))
         else
           (case reorder_store clk (queue_base bd buf) amsdu sub_frame_idx sn skb buf (bd_entries bd) of
              None \<Rightarrow> Some (True, bd, [Free_skb skb])
            | Some (buf, es) \<Rightarrow>
                (let bd = (set_rb q buf bd)\<lparr>bd_entries := es\<rparr> in
                 if \<not> amsdu \<or> last_subframe then
                   map_option (\<lambda>(bd, evs). (True, bd, evs)) (iwl_mvm_release_frames clk True False q nssn bd)
                 else Some (True, bd, []))))"

definition reorder_locked ::
  "rx_clock \<Rightarrow> nat \<Rightarrow> u8 \<Rightarrow> ieee80211_hdr \<Rightarrow> u32 \<Rightarrow> iwl_rx_mpdu_desc \<Rightarrow> 'f \<Rightarrow> 'f baid_data
   \<Rightarrow> (bool \<times> 'f baid_data \<times> 'f rx_event list) option"
where
  "reorder_locked clk q baid hdr gp2 desc skb bd =
     (let reorder = reorder_data desc;
          amsdu = tst (mac_flags2 desc) IWL_RX_MPDU_MFLG2_AMSDU;
          last_subframe = tst (amsdu_info desc) IWL_RX_MPDU_AMSDU_LAST_SUBFRAME;
          sub_frame_idx = amsdu_info desc AND IWL_RX_MPDU_AMSDU_SUBFRAME_IDX_MASK;
          tid = ieee80211_get_tid hdr;
          nssn = ucast (reorder AND IWL_RX_MPDU_REORDER_NSSN_MASK) :: u16;
          sn = ucast (drop_bit IWL_RX_MPDU_REORDER_SN_SHIFT (reorder AND IWL_RX_MPDU_REORDER_SN_MASK)) :: u16;
          buf = reorder_buf bd ! q
      in if \<not> valid buf \<and> tst reorder IWL_RX_MPDU_REORDER_BA_OLD_SN then Some (False, bd, [])
         else
           (let bd = set_rb q (buf\<lparr>valid := True\<rparr>) bd in
            if ieee80211_is_back_req (frame_control hdr) then
              map_option (\<lambda>(bd, evs). (True, bd, evs @ [Free_skb skb]))
                (iwl_mvm_release_frames clk False False q nssn bd)
            else
              (case (if \<not> iwl_mvm_is_sn_less nssn (head_sn buf + buf_size buf) (buf_size buf)
                        \<or> \<not> ieee80211_sn_less sn (head_sn buf + buf_size buf)
                     then iwl_mvm_release_frames clk True False q
                            (if ieee80211_sn_less sn nssn then sn else nssn) bd
                     else Some (bd, [])) of
                 None \<Rightarrow> None
               | Some (bd, evs) \<Rightarrow>
                   (let (buf, evs2) = iwl_mvm_oldsn_workaround tid reorder gp2 (reorder_buf bd ! q)
                    in map_option (\<lambda>(r, bd, evs3). (r, bd, evs @ evs2 @ evs3))
                         (reorder_tail clk q baid amsdu last_subframe sub_frame_idx sn nssn skb
                            (set_rb q buf bd))))))"

definition iwl_mvm_reorder ::
  "rx_clock \<Rightarrow> nat \<Rightarrow> rx_sta option \<Rightarrow> ieee80211_hdr \<Rightarrow> u32 \<Rightarrow> iwl_rx_mpdu_desc \<Rightarrow> 'f \<Rightarrow> 'f rx_mvm
   \<Rightarrow> (bool \<times> 'f rx_mvm \<times> 'f rx_event list) option"
where
  "iwl_mvm_reorder clk q sta hdr gp2 desc skb mvm =
     (let reorder = reorder_data desc;
          baid = unat (drop_bit IWL_RX_MPDU_REORDER_BAID_SHIFT (reorder AND IWL_RX_MPDU_REORDER_BAID_MASK));
          fc = frame_control hdr
      in if baid = IWL_RX_REORDER_DATA_INVALID_BAID then Some (False, mvm, [])
         else (case sta of
             None \<Rightarrow> Some (False, mvm, [])
           | Some st \<Rightarrow>
               if \<not> ieee80211_is_back_req fc \<and> (\<not> ieee80211_is_data_qos fc \<or> is_multicast_ether_addr (addr1 hdr))
               then Some (False, mvm, [])
               else if \<not> ieee80211_is_data_present fc then Some (False, mvm, [])
               else if length (baid_map mvm) \<le> baid then None
               else
                 (case baid_map mvm ! baid of
                    None \<Rightarrow> Some (False, mvm, [])
                  | Some bd \<Rightarrow>
                      if ieee80211_get_tid hdr \<noteq> bd_tid bd \<or> \<not> tst (sta_fw_id_mask st) (sta_mask bd)
                      then Some (False, mvm, [])
                      else map_option (\<lambda>(r, bd, evs). (r, update_baid baid bd mvm, evs))
                             (reorder_locked clk q (of_nat baid) hdr gp2 desc skb bd))))"

text \<open>The age of the session.\<close>

definition iwl_mvm_agg_rx_received ::
  "(u64 \<Rightarrow> u64 \<Rightarrow> bool) \<Rightarrow> (u16 \<Rightarrow> u64) \<Rightarrow> u64 \<Rightarrow> nat \<Rightarrow> 'f rx_mvm \<Rightarrow> 'f rx_mvm option"
where
  "iwl_mvm_agg_rx_received time_before tu_to_jiffies now baid mvm =
     (if length (baid_map mvm) \<le> baid then None
      else
        (case baid_map mvm ! baid of
           None \<Rightarrow> Some mvm
         | Some bd \<Rightarrow>
             if bd_timeout bd = 0 then Some mvm
             else if time_before (last_rx bd + tu_to_jiffies (bd_timeout bd)) now
                  then Some (update_baid baid (bd\<lparr>last_rx := now\<rparr>) mvm)
                  else Some mvm))"

section \<open>Set-up and removal\<close>

text \<open>The queues are initialised one after the other; the entries come from zeroed memory.\<close>

definition iwl_mvm_init_reorder_buffer :: "nat \<Rightarrow> u16 \<Rightarrow> u16 \<Rightarrow> 'f baid_data \<Rightarrow> 'f baid_data" where
  "iwl_mvm_init_reorder_buffer num_rx_queues ssn bsize bd =
     bd\<lparr>reorder_buf :=
          map (\<lambda>q. (reorder_buf bd ! q)\<lparr>num_stored := 0, head_sn := ssn, buf_size := bsize,
                 reorder_timer := None, rb_queue := q, valid := False\<rparr>) [0..<num_rx_queues]
          @ drop num_rx_queues (reorder_buf bd),
        bd_entries :=
          map (\<lambda>i. if i mod unat (entries_per_queue bd) < unat bsize
                       \<and> i div unat (entries_per_queue bd) < num_rx_queues
                   then (bd_entries bd ! i)\<lparr>entry_frames := []\<rparr> else bd_entries bd ! i)
            [0..<length (bd_entries bd)]\<rparr>"

fun purge_slots :: "nat \<Rightarrow> nat \<Rightarrow> 'f reorder_entry list \<Rightarrow> 'f reorder_entry list \<times> 'f rx_event list" where
  "purge_slots base 0 es = (es, [])"
| "purge_slots base (Suc j) es =
     (let (es', evs) = purge_slots base j es
      in (es'[base + j := (es' ! (base + j))\<lparr>entry_frames := []\<rparr>],
          evs @ map Free_skb (entry_frames (es' ! (base + j)))))"

fun free_reorder_loop :: "nat list \<Rightarrow> 'f baid_data \<Rightarrow> 'f baid_data \<times> 'f rx_event list" where
  "free_reorder_loop [] bd = (bd, [])"
| "free_reorder_loop (q # qs) bd =
     (let buf = reorder_buf bd ! q in
      if num_stored buf = 0 then free_reorder_loop qs bd
      else
        (let (es, evs) = purge_slots (q * unat (entries_per_queue bd)) (unat (buf_size buf)) (bd_entries bd);
             (bd', evs') = free_reorder_loop qs
               (bd\<lparr>bd_entries := es,
                  reorder_buf := (reorder_buf bd)[q := buf\<lparr>removed := True, reorder_timer := None\<rparr>]\<rparr>)
         in (bd', evs @ evs')))"

text \<open>Removal, after the queues have been told to release their frames.\<close>

definition iwl_mvm_free_reorder :: "nat \<Rightarrow> 'f baid_data \<Rightarrow> 'f baid_data \<times> 'f rx_event list" where
  "iwl_mvm_free_reorder num_rx_queues bd = free_reorder_loop [0..<num_rx_queues] bd"

section \<open>The window\<close>

lemma iwl_mvm_is_sn_less_iff:
  assumes "unat bs < 2048"
  shows "iwl_mvm_is_sn_less a b bs \<longleftrightarrow> 0 < sn_dist a b \<and> sn_dist a b \<le> unat bs"
proof -
  let ?d = "int (sn_dist a b)"
  have bs: "uint bs = int (unat bs)" by simp
  have "int (sn_dist a (b - bs)) = (uint (b - bs) mod 4096 - uint a) mod 4096"
    by (simp add: sn_dist_int mod_diff_left_eq)
  also have "\<dots> = ((uint b - uint a) mod 4096 - uint bs) mod 4096"
    by (simp add: uint_sub_mod mod_diff_left_eq algebra_simps)
  finally have e: "int (sn_dist a (b - bs)) = (?d - int (unat bs)) mod 4096"
    by (simp only: sn_dist_int bs)
  show ?thesis
  proof (cases "unat bs \<le> sn_dist a b")
    case True
    then have "(?d - int (unat bs)) mod 4096 = ?d - int (unat bs)"
      using sn_dist_less [of a b] by (intro mod_pos_pos_trivial) linarith+
    with e have "sn_dist a (b - bs) = sn_dist a b - unat bs" by linarith
    then show ?thesis using assms True by (auto simp: iwl_mvm_is_sn_less_def ieee80211_sn_less_iff)
  next
    case False
    have "(?d - int (unat bs)) mod 4096 = (?d - int (unat bs) + 4096) mod 4096" by simp
    also have "\<dots> = ?d - int (unat bs) + 4096"
      using False assms by (intro mod_pos_pos_trivial) linarith+
    finally have "sn_dist a (b - bs) = 4096 + sn_dist a b - unat bs" using e False assms by linarith
    then show ?thesis using assms False by (auto simp: iwl_mvm_is_sn_less_def ieee80211_sn_less_iff)
  qed
qed

text \<open>The slot of the \<open>k\<close>-th sequence number from \<open>sn\<close> on.\<close>

definition slot :: "u16 \<Rightarrow> u16 \<Rightarrow> nat \<Rightarrow> nat" where
  "slot bs sn k = (unat sn + k) mod unat bs"

lemma slot_0: "unat (sn mod bs) = slot bs sn 0"
  by (simp add: slot_def unat_mod_distrib)

lemma slot_less: "bs \<noteq> 0 \<Longrightarrow> slot bs sn k < unat bs"
  by (simp add: slot_def unat_gt_0)

lemma slot_inc: "unat bs dvd 4096 \<Longrightarrow> slot bs (ieee80211_sn_inc sn) k = slot bs sn (Suc k)"
proof -
  assume "unat bs dvd 4096"
  then have "((unat sn + 1) mod 4096 + k) mod unat bs = (unat sn + 1 + k) mod unat bs"
    by (metis mod_add_left_eq mod_mod_cancel)
  then show ?thesis by (simp add: slot_def unat_sn_inc)
qed

lemma slot_add: "unat bs dvd 4096 \<Longrightarrow> n < 65536 \<Longrightarrow> slot bs (ieee80211_sn_add sn (of_nat n)) k = slot bs sn (n + k)"
proof -
  assume "unat bs dvd 4096" "n < 65536"
  then have "((unat sn + n) mod 4096 + k) mod unat bs = (unat sn + n + k) mod unat bs"
    by (metis mod_add_left_eq mod_mod_cancel)
  then show ?thesis using \<open>n < 65536\<close> by (simp add: slot_def unat_sn_add add.assoc)
qed

lemma slot_inj: "j < unat bs \<Longrightarrow> k < unat bs \<Longrightarrow> slot bs sn j = slot bs sn k \<Longrightarrow> j = k"
proof (induction j k rule: linorder_wlog)
  case (le j k)
  then have "unat bs dvd k - j" using mod_eq_dvd_iff_nat [of "unat sn + j" "unat sn + k" "unat bs"]
    by (simp add: slot_def)
  with le show ?case by (auto dest: dvd_imp_le)
qed auto

lemma slot_surj: "i < unat bs \<Longrightarrow> \<exists>k < unat bs. slot bs sn k = i"
proof -
  assume i: "i < unat bs"
  have "(slot bs sn) ` {0..<unat bs} \<subseteq> {0..<unat bs}" using i by (auto simp: slot_def)
  moreover have "inj_on (slot bs sn) {0..<unat bs}" by (auto intro!: inj_onI dest: slot_inj)
  ultimately have "(slot bs sn) ` {0..<unat bs} = {0..<unat bs}"
    by (intro endo_inj_surj) simp_all
  then show ?thesis using i by (metis atLeastLessThan_iff image_iff le0)
qed

section \<open>What the operations do with the frames\<close>

fun passed :: "'f rx_event list \<Rightarrow> 'f list" where
  "passed [] = []"
| "passed (Pass q f # evs) = f # passed evs"
| "passed (_ # evs) = passed evs"

fun freed :: "'f rx_event list \<Rightarrow> 'f list" where
  "freed [] = []"
| "freed (Free_skb f # evs) = f # freed evs"
| "freed (_ # evs) = freed evs"

lemma passed_append [simp]: "passed (xs @ ys) = passed xs @ passed ys"
  by (induction xs rule: passed.induct) auto

lemma freed_append [simp]: "freed (xs @ ys) = freed xs @ freed ys"
  by (induction xs rule: freed.induct) auto

lemma passed_map_Pass [simp]: "passed (map (Pass q) fs) = fs" "freed (map (Pass q) fs) = []"
  by (induction fs) auto

lemma freed_map_Free [simp]: "freed (map Free_skb fs) = fs" "passed (map Free_skb fs) = []"
  by (induction fs) auto

definition all_frames :: "'f reorder_entry list \<Rightarrow> 'f multiset" where
  "all_frames es = mset (concat (map entry_frames es))"

definition queue_frames :: "nat \<Rightarrow> nat \<Rightarrow> 'f reorder_entry list \<Rightarrow> 'f multiset" where
  "queue_frames base n es = all_frames (take n (drop base es))"

lemma all_frames_simps [simp]:
  "all_frames [] = {#}" "all_frames (e # es) = mset (entry_frames e) + all_frames es"
  by (simp_all add: all_frames_def)

lemma all_frames_update:
  "i < length es \<Longrightarrow>
   all_frames (es[i := e]) + mset (entry_frames (es ! i)) = all_frames es + mset (entry_frames e)"
proof (induction es arbitrary: i)
  case (Cons x es)
  then show ?case by (cases i) (auto simp: ac_simps)
qed simp

lemma queue_frames_update:
  assumes "i < n" "base + n \<le> length es"
  shows "queue_frames base n (es[base + i := e]) + mset (entry_frames (es ! (base + i)))
    = queue_frames base n es + mset (entry_frames e)"
proof -
  have "take n (drop base (es[base + i := e])) = (take n (drop base es))[i := e]"
    using assms by (simp add: drop_update_swap take_update_swap)
  moreover have "take n (drop base es) ! i = es ! (base + i)" using assms by simp
  ultimately show ?thesis
    using all_frames_update [of i "take n (drop base es)" e] assms by (simp add: queue_frames_def)
qed

lemma queue_frames_cong:
  assumes "length es' = length es" "\<And>i. base \<le> i \<Longrightarrow> i < base + n \<Longrightarrow> es' ! i = es ! i"
  shows "queue_frames base n es' = queue_frames base n es"
proof -
  have "take n (drop base es') = take n (drop base es)"
    using assms by (intro nth_equalityI) auto
  then show ?thesis by (simp add: queue_frames_def)
qed

lemma queue_frames_not_empty:
  assumes "queue_frames base n es \<noteq> {#}" "base + n \<le> length es"
  shows "\<exists>i < n. entry_frames (es ! (base + i)) \<noteq> []"
proof (rule ccontr)
  assume none: "\<not> ?thesis"
  have "entry_frames e = []" if "e \<in> set (take n (drop base es))" for e
    using that none assms(2) by (force simp: in_set_conv_nth)
  then have "queue_frames base n es = {#}"
    by (auto simp: queue_frames_def all_frames_def)
  with assms(1) show False by simp
qed

text \<open>The release loop conserves the frames and touches only the slots of its queue.\<close>

lemma release_loop_conserves:
  assumes "bs \<noteq> 0" "base + unat bs \<le> length es" "release_loop send baid q bs nssn base ssn es num = (es', num', evs)"
  shows "length es' = length es \<and> freed evs = [] \<and>
    (\<forall>i. i < base \<or> base + unat bs \<le> i \<longrightarrow> es' ! i = es ! i) \<and>
    (\<forall>i. entry_time (es' ! i) = entry_time (es ! i)) \<and>
    (\<forall>i. length (entry_frames (es' ! i)) \<le> length (entry_frames (es ! i))) \<and>
    all_frames es' + mset (passed evs) = all_frames es \<and>
    queue_frames base (unat bs) es' + mset (passed evs) = queue_frames base (unat bs) es \<and>
    num' = num - of_nat (length (passed evs))"
  using assms
proof (induction send baid q bs nssn base ssn es num arbitrary: es' num' evs rule: release_loop.induct)
  case (1 send baid q bs nssn base ssn es num)
  show ?case
  proof (cases "iwl_mvm_is_sn_less ssn nssn bs")
    case False
    then show ?thesis using 1(4) by (subst (asm) release_loop.simps) auto
  next
    case True
    define i where "i = slot bs ssn 0"
    define es1 where "es1 = es[base + i := (es ! (base + i))\<lparr>entry_frames := []\<rparr>]"
    define num1 where "num1 = num - of_nat (length (entry_frames (es ! (base + i))))"
    define sync where "sync = (if send \<and> (ieee80211_sn_inc ssn = 2048 \<or> ieee80211_sn_inc ssn = 0)
      then [Sync_nssn baid (ieee80211_sn_inc ssn)] else [] :: 'a rx_event list)"
    obtain es2 num2 evs2 where rec:
      "release_loop send baid q bs nssn base (ieee80211_sn_inc ssn) es1 num1 = (es2, num2, evs2)"
      by (metis prod_cases3)
    have res: "es' = es2" "num' = num2"
      "evs = sync @ map (Pass q) (entry_frames (es ! (base + i))) @ evs2"
      using 1(4) True rec
      by (subst (asm) release_loop.simps, simp add: Let_def slot_0 i_def es1_def num1_def sync_def)+
    have i: "i < unat bs" using slot_less [OF 1(2)] by (simp add: i_def)
    have len: "base + unat bs \<le> length es1" using 1(3) by (simp add: es1_def)
    note IH = 1(1) [OF True refl refl refl refl refl 1(2), unfolded slot_0, folded i_def,
        folded es1_def, folded num1_def, OF len rec]
    have sync_out: "passed sync = []" "freed sync = []" by (simp_all add: sync_def)
    have t: "entry_time (es1 ! j) = entry_time (es ! j)" for j
      by (cases "j = base + i \<and> base + i < length es") (auto simp: es1_def nth_list_update list_update_beyond)
    have sh: "length (entry_frames (es1 ! j)) \<le> length (entry_frames (es ! j))" for j
      by (cases "j = base + i \<and> base + i < length es") (auto simp: es1_def nth_list_update list_update_beyond)
    have sh2: "\<forall>j. length (entry_frames (es2 ! j)) \<le> length (entry_frames (es ! j))"
      using IH sh by (meson le_trans)
    have a: "all_frames es1 + mset (entry_frames (es ! (base + i))) = all_frames es"
      using all_frames_update [of "base + i" es "(es ! (base + i))\<lparr>entry_frames := []\<rparr>"] 1(3) i
      by (simp add: es1_def)
    have b: "queue_frames base (unat bs) es1 + mset (entry_frames (es ! (base + i)))
        = queue_frames base (unat bs) es"
      using queue_frames_update [OF i 1(3), of "(es ! (base + i))\<lparr>entry_frames := []\<rparr>"]
      by (simp add: es1_def)
    have c: "all_frames es2 + mset (passed evs) = all_frames es"
      "queue_frames base (unat bs) es2 + mset (passed evs) = queue_frames base (unat bs) es"
      using IH a b sync_out by (simp_all add: res) (metis add.assoc add.commute)+
    have out: "\<forall>j. j < base \<or> base + unat bs \<le> j \<longrightarrow> es2 ! j = es ! j"
      using IH i by (auto simp: es1_def)
    show ?thesis using IH c out t sh2 sync_out by (simp add: res num1_def es1_def)
  qed
qed

section \<open>The invariant of a session\<close>

text \<open>
  A slot holds one frame or the subframes of one A-MSDU, whose indices (7 bits) increase: at most
  128 frames, and in the slot of the last A-MSDU no more than its last subframe index allows. So
  the u16 counter of a window of fewer than 512 slots cannot wrap.
\<close>

definition slots_ok :: "nat \<Rightarrow> u16 \<Rightarrow> u16 \<Rightarrow> u8 \<Rightarrow> 'f reorder_entry list \<Rightarrow> bool" where
  "slots_ok base bs last_sn last_sub es \<longleftrightarrow> unat last_sub < 128 \<and>
     (\<forall>i < unat bs. length (entry_frames (es ! (base + i)))
        \<le> (if i = slot bs last_sn 0 then unat last_sub + 1 else 128))"

definition buf_ok :: "nat \<Rightarrow> reorder_buffer \<Rightarrow> 'f reorder_entry list \<Rightarrow> bool" where
  "buf_ok base buf es \<longleftrightarrow>
     buf_size buf \<noteq> 0 \<and> unat (buf_size buf) < 512 \<and> base + unat (buf_size buf) \<le> length es \<and>
     unat (num_stored buf) = size (queue_frames base (unat (buf_size buf)) es) \<and>
     slots_ok base (buf_size buf) (last_amsdu buf) (last_sub_index buf) es"

lemma slots_ok_le: "slots_ok base bs l k es \<Longrightarrow> i < unat bs \<Longrightarrow> length (entry_frames (es ! (base + i))) \<le> 128"
proof -
  assume ok: "slots_ok base bs l k es" and i: "i < unat bs"
  have "length (entry_frames (es ! (base + i))) \<le> (if i = slot bs l 0 then unat k + 1 else 128)" "unat k < 128"
    using ok i unfolding slots_ok_def by blast+
  then show ?thesis by (auto split: if_splits)
qed

lemma slots_ok_shrink:
  "slots_ok base bs l k es \<Longrightarrow> (\<And>i. length (entry_frames (es' ! i)) \<le> length (entry_frames (es ! i))) \<Longrightarrow>
   slots_ok base bs l k es'"
  unfolding slots_ok_def by (meson le_trans)

lemma slots_ok_cong:
  "slots_ok base bs l k es \<Longrightarrow> (\<And>i. i < unat bs \<Longrightarrow> es' ! (base + i) = es ! (base + i)) \<Longrightarrow> slots_ok base bs l k es'"
  by (simp add: slots_ok_def)

lemma size_all_frames_le: "(\<And>e. e \<in> set es \<Longrightarrow> length (entry_frames e) \<le> k) \<Longrightarrow> size (all_frames es) \<le> k * length es"
proof (induction es)
  case (Cons e es)
  have "length (entry_frames e) \<le> k" "size (all_frames es) \<le> k * length es" using Cons by simp_all
  then show ?case by simp
qed simp

lemma num_stored_bound:
  assumes "buf_ok base buf es"
  shows "unat (num_stored buf) < 65535"
proof -
  have "length (entry_frames e) \<le> 128" if "e \<in> set (take (unat (buf_size buf)) (drop base es))" for e
    using that assms by (fastforce simp: in_set_conv_nth buf_ok_def dest: slots_ok_le)
  then have "size (queue_frames base (unat (buf_size buf)) es) \<le> 128 * unat (buf_size buf)"
    using size_all_frames_le [of "take (unat (buf_size buf)) (drop base es)" 128] assms
    by (simp add: queue_frames_def buf_ok_def)
  then show ?thesis using assms by (auto simp: buf_ok_def)
qed

text \<open>The entries that no window uses hold nothing.\<close>

definition idle_slots :: "'f baid_data \<Rightarrow> bool" where
  "idle_slots bd \<longleftrightarrow> (\<forall>i < length (bd_entries bd).
     (\<forall>q < length (reorder_buf bd). i < queue_base bd (reorder_buf bd ! q) \<or>
        queue_base bd (reorder_buf bd ! q) + unat (buf_size (reorder_buf bd ! q)) \<le> i) \<longrightarrow>
     entry_frames (bd_entries bd ! i) = [])"

definition baid_ok :: "'f baid_data \<Rightarrow> bool" where
  "baid_ok bd \<longleftrightarrow> idle_slots bd \<and>
     (\<forall>q < length (reorder_buf bd).
        rb_queue (reorder_buf bd ! q) = q \<and>
        unat (buf_size (reorder_buf bd ! q)) \<le> unat (entries_per_queue bd) \<and>
        buf_ok (queue_base bd (reorder_buf bd ! q)) (reorder_buf bd ! q) (bd_entries bd))"

lemma first_stored_Some:
  assumes "bs \<noteq> 0" "base + unat bs \<le> length es" "queue_frames base (unat bs) es \<noteq> {#}"
  shows "\<exists>i < unat bs. first_stored head bs base es = Some i \<and> entry_frames (es ! (base + i)) \<noteq> []"
proof -
  obtain i where i: "i < unat bs" "entry_frames (es ! (base + i)) \<noteq> []"
    using queue_frames_not_empty [OF assms(3,2)] by blast
  obtain k where k: "k < unat bs" "slot bs (head mod bs) k = i"
    using slot_surj [OF i(1)] by blast
  have "first_stored head bs base es \<noteq> None"
    using i k by (auto simp: first_stored_def find_None_iff slot_def intro!: bexI [of _ k])
  then obtain j where j: "first_stored head bs base es = Some j" by blast
  then have "entry_frames (es ! (base + j)) \<noteq> [] \<and> j < unat bs"
    using assms(1) by (auto simp: first_stored_def find_Some_iff unat_gt_0)
  with j show ?thesis by blast
qed

text \<open>What a release leaves alone in the buffer.\<close>

definition same_setup :: "reorder_buffer \<Rightarrow> reorder_buffer \<Rightarrow> bool" where
  "same_setup b b' \<longleftrightarrow> rb_queue b' = rb_queue b \<and> buf_size b' = buf_size b \<and>
     removed b' = removed b \<and> valid b' = valid b \<and> last_amsdu b' = last_amsdu b \<and>
     last_sub_index b' = last_sub_index b"

definition timer_ok :: "reorder_buffer \<Rightarrow> bool" where
  "timer_ok b \<longleftrightarrow> (reorder_timer b = None \<longleftrightarrow> num_stored b = 0 \<or> removed b)"

lemma release_set_timer_ok:
  assumes "buf_ok base buf es"
  shows "\<exists>buf'. release_set_timer clk base buf es = Some buf' \<and>
    buf' = buf\<lparr>reorder_timer := reorder_timer buf'\<rparr> \<and> timer_ok buf'"
proof (cases "num_stored buf \<noteq> 0 \<and> \<not> removed buf")
  case True
  then have "queue_frames base (unat (buf_size buf)) es \<noteq> {#}"
    using assms by (auto simp: buf_ok_def unat_eq_0)
  then show ?thesis
    using first_stored_Some [of "buf_size buf" base es "head_sn buf"] True assms
    by (auto simp: release_set_timer_def buf_ok_def timer_ok_def)
qed (auto simp: release_set_timer_def timer_ok_def)

lemma buf_ok_timer [simp]: "buf_ok base (b\<lparr>reorder_timer := t\<rparr>) es = buf_ok base b es"
  by (simp add: buf_ok_def)

lemma release_buf_ok:
  assumes "buf_ok base buf es"
  shows "\<exists>buf' es' evs. release_buf clk send sy baid base nssn buf es = Some (buf', es', evs) \<and>
    buf_ok base buf' es' \<and> same_setup buf buf' \<and> timer_ok buf' \<and>
    length es' = length es \<and> freed evs = [] \<and>
    (\<forall>i. i < base \<or> base + unat (buf_size buf) \<le> i \<longrightarrow> es' ! i = es ! i) \<and>
    all_frames es' + mset (passed evs) = all_frames es \<and>
    unat (num_stored buf') \<le> unat (num_stored buf)"
proof (cases "sy \<and> ieee80211_sn_less nssn (head_sn buf) \<or> iwl_mvm_is_sn_less nssn (head_sn buf) (buf_size buf)")
  case True
  obtain buf' where b: "release_set_timer clk base buf es = Some buf'"
    "buf' = buf\<lparr>reorder_timer := reorder_timer buf'\<rparr>" "timer_ok buf'"
    using release_set_timer_ok [OF assms] by blast
  have "buf_ok base buf' es" "same_setup buf buf'" "num_stored buf' = num_stored buf"
    using assms by (subst b(2), simp add: same_setup_def)+
  then show ?thesis using True b by (auto simp: release_buf_def)
next
  case False
  obtain es' num' evs where l:
    "release_loop send baid (rb_queue buf) (buf_size buf) nssn base (head_sn buf) es (num_stored buf) = (es', num', evs)"
    by (metis prod_cases3)
  have ok: "buf_size buf \<noteq> 0" "base + unat (buf_size buf) \<le> length es" using assms by (simp_all add: buf_ok_def)
  note c = release_loop_conserves [OF ok l]
  have "size (queue_frames base (unat (buf_size buf)) es') + length (passed evs)
      = unat (num_stored buf)"
    using c assms by (metis buf_ok_def size_mset size_union)
  then have num: "unat num' = size (queue_frames base (unat (buf_size buf)) es')" "unat num' \<le> unat (num_stored buf)"
    using c by (simp_all add: unat_minus_of_nat)
  have "slots_ok base (buf_size buf) (last_amsdu buf) (last_sub_index buf) es'"
    using slots_ok_shrink c assms unfolding buf_ok_def by blast
  then have ok': "buf_ok base (buf\<lparr>num_stored := num', head_sn := nssn\<rparr>) es'"
    using ok c num assms by (simp add: buf_ok_def)
  obtain buf' where b: "release_set_timer clk base (buf\<lparr>num_stored := num', head_sn := nssn\<rparr>) es' = Some buf'"
    "buf' = (buf\<lparr>num_stored := num', head_sn := nssn\<rparr>)\<lparr>reorder_timer := reorder_timer buf'\<rparr>" "timer_ok buf'"
    using release_set_timer_ok [OF ok'] by blast
  have "buf_ok base buf' es'" "same_setup buf buf'" "num_stored buf' = num'"
    using ok' by (subst b(2), simp add: same_setup_def)+
  then show ?thesis using False b(1,3) c l num by (auto simp: release_buf_def)
qed

lemma queue_slices_apart:
  "q \<noteq> p \<Longrightarrow> a \<le> e \<Longrightarrow> b \<le> e \<Longrightarrow> q * e \<le> i \<Longrightarrow> i < q * e + b \<Longrightarrow> i < p * e \<or> p * e + a \<le> (i :: nat)"
proof -
  assume a: "q \<noteq> p" "a \<le> e" "b \<le> e" "q * e \<le> i" "i < q * e + b"
  consider "q + 1 \<le> p" | "p + 1 \<le> q" using a(1) by linarith
  then show ?thesis
  proof cases
    case 1
    then have "(q + 1) * e \<le> p * e" by (rule mult_le_mono1)
    with a show ?thesis by (simp add: add_mult_distrib)
  next
    case 2
    then have "(p + 1) * e \<le> q * e" by (rule mult_le_mono1)
    with a show ?thesis by (simp add: add_mult_distrib)
  qed
qed

lemma baid_ok_update:
  assumes ok: "baid_ok bd" and q: "q < length (reorder_buf bd)"
    and buf: "rb_queue buf = q" "buf_size buf = buf_size (reorder_buf bd ! q)"
      "buf_ok (queue_base bd buf) buf es"
    and es: "length es = length (bd_entries bd)"
      "\<forall>i. i < queue_base bd buf \<or> queue_base bd buf + unat (buf_size buf) \<le> i \<longrightarrow> es ! i = bd_entries bd ! i"
  shows "baid_ok (bd\<lparr>reorder_buf := (reorder_buf bd)[q := buf], bd_entries := es\<rparr>)"
proof -
  have other: "buf_ok (queue_base bd (reorder_buf bd ! p)) (reorder_buf bd ! p) es"
    if p: "p < length (reorder_buf bd)" "p \<noteq> q" for p
  proof -
    let ?b = "reorder_buf bd ! p"
    have sizes: "rb_queue ?b = p" "unat (buf_size ?b) \<le> unat (entries_per_queue bd)"
      "unat (buf_size buf) \<le> unat (entries_per_queue bd)" "buf_ok (queue_base bd ?b) ?b (bd_entries bd)"
      using ok p q buf(2) by (simp_all add: baid_ok_def)
    have "queue_frames (queue_base bd ?b) (unat (buf_size ?b)) es
        = queue_frames (queue_base bd ?b) (unat (buf_size ?b)) (bd_entries bd)"
    proof (rule queue_frames_cong [OF es(1)])
      fix i assume "queue_base bd ?b \<le> i" "i < queue_base bd ?b + unat (buf_size ?b)"
      then have "i < queue_base bd buf \<or> queue_base bd buf + unat (buf_size buf) \<le> i"
        using queue_slices_apart [of p q _ "unat (entries_per_queue bd)"] p(2) sizes buf(1)
        by (simp add: queue_base_def)
      then show "es ! i = bd_entries bd ! i" using es(2) by blast
    qed
    moreover have "es ! (queue_base bd ?b + i) = bd_entries bd ! (queue_base bd ?b + i)"
      if i: "i < unat (buf_size ?b)" for i
    proof -
      have "queue_base bd ?b + i < queue_base bd buf \<or> queue_base bd buf + unat (buf_size buf) \<le> queue_base bd ?b + i"
        using queue_slices_apart [of p q "unat (buf_size buf)" "unat (entries_per_queue bd)"
            "unat (buf_size ?b)" "queue_base bd ?b + i"] p(2) sizes buf(1) i by (simp add: queue_base_def)
      then show ?thesis using es(2) by blast
    qed
    ultimately show ?thesis using sizes(4) es(1) slots_ok_cong by (simp add: buf_ok_def) blast
  qed
  have qb: "queue_base (bd\<lparr>reorder_buf := bs, bd_entries := es'\<rparr>) b = queue_base bd b" for bs es' b
    by (simp add: queue_base_def)
  have "idle_slots (bd\<lparr>reorder_buf := (reorder_buf bd)[q := buf], bd_entries := es\<rparr>)"
    unfolding idle_slots_def
  proof (intro allI impI)
    let ?bd = "bd\<lparr>reorder_buf := (reorder_buf bd)[q := buf], bd_entries := es\<rparr>"
    fix i
    assume i: "i < length (bd_entries ?bd)" and
      out: "\<forall>p < length (reorder_buf ?bd). i < queue_base ?bd (reorder_buf ?bd ! p) \<or>
        queue_base ?bd (reorder_buf ?bd ! p) + unat (buf_size (reorder_buf ?bd ! p)) \<le> i"
    have b: "queue_base bd (reorder_buf bd ! q) = queue_base bd buf" "buf_size (reorder_buf bd ! q) = buf_size buf"
      using ok q buf by (simp_all add: baid_ok_def queue_base_def)
    have out': "i < queue_base bd (reorder_buf bd ! p) \<or>
        queue_base bd (reorder_buf bd ! p) + unat (buf_size (reorder_buf bd ! p)) \<le> i"
      if "p < length (reorder_buf bd)" for p
      using spec [OF out, of p] that b by (cases "p = q") (simp_all add: qb)
    moreover have "i < length (bd_entries bd)" using i es(1) by simp
    ultimately have "entry_frames (bd_entries bd ! i) = []"
      using ok unfolding baid_ok_def idle_slots_def by blast
    moreover have "es ! i = bd_entries bd ! i" using out' [OF q] es(2) unfolding b by blast
    ultimately show "entry_frames (bd_entries ?bd ! i) = []" by simp
  qed
  then show ?thesis
    using ok q buf other by (auto simp: baid_ok_def qb nth_list_update)
qed

text \<open>The facts about a release at the level of the session.\<close>

definition bd_frames :: "'f baid_data \<Rightarrow> 'f multiset" where
  "bd_frames bd = all_frames (bd_entries bd)"

lemma release_frames_ok:
  assumes ok: "baid_ok bd" and q: "q < length (reorder_buf bd)"
  shows "\<exists>bd' evs. iwl_mvm_release_frames clk send sy q nssn bd = Some (bd', evs) \<and>
    baid_ok bd' \<and> length (reorder_buf bd') = length (reorder_buf bd) \<and>
    same_setup (reorder_buf bd ! q) (reorder_buf bd' ! q) \<and> timer_ok (reorder_buf bd' ! q) \<and>
    entries_per_queue bd' = entries_per_queue bd \<and> sta_mask bd' = sta_mask bd \<and>
    bd_tid bd' = bd_tid bd \<and>
    freed evs = [] \<and> bd_frames bd' + mset (passed evs) = bd_frames bd \<and>
    unat (num_stored (reorder_buf bd' ! q)) \<le> unat (num_stored (reorder_buf bd ! q))"
proof -
  let ?b = "reorder_buf bd ! q"
  have b: "rb_queue ?b = q" "buf_ok (queue_base bd ?b) ?b (bd_entries bd)"
    using ok q by (simp_all add: baid_ok_def)
  obtain buf' es' evs where r:
    "release_buf clk send sy (bd_baid bd) (queue_base bd ?b) nssn ?b (bd_entries bd) = Some (buf', es', evs)"
    "buf_ok (queue_base bd ?b) buf' es'" "same_setup ?b buf'" "timer_ok buf'"
    "length es' = length (bd_entries bd)" "freed evs = []"
    "\<forall>i. i < queue_base bd ?b \<or> queue_base bd ?b + unat (buf_size ?b) \<le> i \<longrightarrow> es' ! i = bd_entries bd ! i"
    "all_frames es' + mset (passed evs) = all_frames (bd_entries bd)"
    "unat (num_stored buf') \<le> unat (num_stored ?b)"
    using release_buf_ok [OF b(2)] by blast
  have qb: "queue_base bd buf' = queue_base bd ?b" "rb_queue buf' = q" "buf_size buf' = buf_size ?b"
    using r(3) b(1) by (simp_all add: same_setup_def queue_base_def)
  have "baid_ok (bd\<lparr>reorder_buf := (reorder_buf bd)[q := buf'], bd_entries := es'\<rparr>)"
    using r qb by (intro baid_ok_update [OF ok q]) simp_all
  then show ?thesis
    using r q by (simp add: iwl_mvm_release_frames_def Let_def bd_frames_def)
qed

lemma baid_ok_set_buf:
  assumes "baid_ok bd" "q < length (reorder_buf bd)"
    and "rb_queue buf = q" "buf_size buf = buf_size (reorder_buf bd ! q)"
      "num_stored buf = num_stored (reorder_buf bd ! q)" "last_amsdu buf = last_amsdu (reorder_buf bd ! q)"
      "last_sub_index buf = last_sub_index (reorder_buf bd ! q)"
  shows "baid_ok (bd\<lparr>reorder_buf := (reorder_buf bd)[q := buf]\<rparr>)"
proof -
  have "queue_base bd buf = queue_base bd (reorder_buf bd ! q)"
    using assms by (simp add: baid_ok_def queue_base_def)
  then have "baid_ok (bd\<lparr>reorder_buf := (reorder_buf bd)[q := buf], bd_entries := bd_entries bd\<rparr>)"
    using assms by (intro baid_ok_update) (auto simp: baid_ok_def buf_ok_def)
  then show ?thesis by simp
qed

text \<open>Storing a frame, and the tracking of old sequence numbers.\<close>

lemma reorder_store_ok:
  assumes ok: "buf_ok base buf es" "unat sub < 128"
    and st: "reorder_store clk base amsdu sub sn skb buf es = Some (buf', es')"
  shows "buf_ok base buf' es' \<and> length es' = length es \<and> rb_queue buf' = rb_queue buf \<and>
    buf_size buf' = buf_size buf \<and> head_sn buf' = head_sn buf \<and> removed buf' = removed buf \<and>
    (\<forall>i. i < base \<or> base + unat (buf_size buf) \<le> i \<longrightarrow> es' ! i = es ! i) \<and>
    all_frames es' = add_mset skb (all_frames es)"
proof -
  let ?i = "slot (buf_size buf) sn 0"
  let ?e = "(es ! (base + ?i))\<lparr>entry_frames := entry_frames (es ! (base + ?i)) @ [skb], entry_time := jiffies clk\<rparr>"
  have bs: "buf_size buf \<noteq> 0" "base + unat (buf_size buf) \<le> length es"
    "unat (num_stored buf) = size (queue_frames base (unat (buf_size buf)) es)"
    using ok(1) by (simp_all add: buf_ok_def)
  have i: "?i < unat (buf_size buf)" by (rule slot_less [OF bs(1)])
  have st': "es' = es[base + ?i := ?e]"
    "buf' = (if amsdu then buf\<lparr>last_amsdu := sn, last_sub_index := sub\<rparr> else buf)\<lparr>num_stored := num_stored buf + 1\<rparr>"
    using st by (auto simp: reorder_store_def Let_def slot_0 split: if_splits)
  have all: "all_frames es' = add_mset skb (all_frames es)"
    using all_frames_update [of "base + ?i" es ?e] i bs(2) by (simp add: st'(1))
  have qf: "queue_frames base (unat (buf_size buf)) es' = add_mset skb (queue_frames base (unat (buf_size buf)) es)"
    using queue_frames_update [OF i bs(2), of ?e] by (simp add: st'(1))
  have len: "length (entry_frames (es' ! (base + j))) = length (entry_frames (es ! (base + j))) + of_bool (j = ?i)"
    if "j < unat (buf_size buf)" for j
    using that bs(2) by (auto simp: st'(1) nth_list_update)
  have old: "slots_ok base (buf_size buf) (last_amsdu buf) (last_sub_index buf) es"
    using ok(1) by (simp add: buf_ok_def)
  have room: "length (entry_frames (es ! (base + ?i))) + 1
      \<le> (if ?i = slot (buf_size buf) (last_amsdu buf') 0 then unat (last_sub_index buf') + 1 else 128)"
  proof (cases "entry_frames (es ! (base + ?i)) = []")
    case False
    then have "amsdu" "sn = last_amsdu buf" "last_sub_index buf < sub"
      using st by (auto simp: reorder_store_def Let_def slot_0 split: if_splits)
    then show ?thesis using old i by (auto simp: slots_ok_def st'(2) word_less_nat_alt)
  qed simp
  have bsz: "buf_size buf' = buf_size buf" by (simp add: st'(2))
  have slots: "slots_ok base (buf_size buf') (last_amsdu buf') (last_sub_index buf') es'"
    unfolding slots_ok_def
  proof (intro conjI allI impI)
    show "unat (last_sub_index buf') < 128" using ok(2) old by (simp add: st'(2) slots_ok_def)
    fix j assume j: "j < unat (buf_size buf')"
    show "length (entry_frames (es' ! (base + j)))
      \<le> (if j = slot (buf_size buf') (last_amsdu buf') 0 then unat (last_sub_index buf') + 1 else 128)"
    proof (cases "j = ?i")
      case True
      have "length (entry_frames (es' ! (base + ?i))) = length (entry_frames (es ! (base + ?i))) + 1"
        using len [OF i] by simp
      then show ?thesis using room unfolding True bsz by (simp only:)
    next
      case False
      then have "length (entry_frames (es' ! (base + j))) = length (entry_frames (es ! (base + j)))"
        using len [of j] j by (simp add: bsz)
      moreover have "j < unat (buf_size buf)" using j by (simp add: bsz)
      moreover from this have "length (entry_frames (es ! (base + j)))
          \<le> (if j = slot (buf_size buf) (last_amsdu buf) 0 then unat (last_sub_index buf) + 1 else 128)"
        "length (entry_frames (es ! (base + j))) \<le> 128"
        using old slots_ok_le [OF old] unfolding slots_ok_def by blast+
      ultimately show ?thesis using False unfolding st'(2) by (cases amsdu) (simp_all split: if_splits)
    qed
  qed
  have "unat (num_stored buf + 1) = unat (num_stored buf) + 1"
    using num_stored_bound [OF ok(1)] by (simp add: unat_word_ariths)
  then have "buf_ok base buf' es'"
    using bs qf ok slots by (auto simp: buf_ok_def st'(2)) (simp add: st'(1))
  then show ?thesis using all i by (auto simp: st')
qed

lemma oldsn_workaround_ok:
  assumes "iwl_mvm_oldsn_workaround tid reorder gp2 buf = (buf', evs)"
  shows "same_setup buf buf' \<and> num_stored buf' = num_stored buf \<and> head_sn buf' = head_sn buf \<and>
    reorder_timer buf' = reorder_timer buf \<and> passed evs = [] \<and> freed evs = []"
  using assms by (auto simp: iwl_mvm_oldsn_workaround_def Let_def same_setup_def split: if_splits)

text \<open>Conservation of the frames by one frame's arrival.\<close>

definition frames_kept :: "'f \<Rightarrow> 'f baid_data \<Rightarrow> bool \<Rightarrow> 'f baid_data \<Rightarrow> 'f rx_event list \<Rightarrow> bool" where
  "frames_kept skb bd r bd' evs \<longleftrightarrow>
     bd_frames bd' + mset (passed evs) + mset (freed evs) + (if r then {#} else {#skb#})
       = add_mset skb (bd_frames bd)"

lemma set_rb_simps [simp]:
  "bd_frames (set_rb q b bd) = bd_frames bd" "length (reorder_buf (set_rb q b bd)) = length (reorder_buf bd)"
  "q < length (reorder_buf bd) \<Longrightarrow> reorder_buf (set_rb q b bd) ! q = b"
  "bd_entries (set_rb q b bd) = bd_entries bd" "queue_base (set_rb q b bd) x = queue_base bd x"
  by (simp_all add: set_rb_def bd_frames_def queue_base_def)

lemma baid_ok_set_rb:
  assumes "baid_ok bd" "q < length (reorder_buf bd)" "same_setup (reorder_buf bd ! q) buf"
    "num_stored buf = num_stored (reorder_buf bd ! q)"
  shows "baid_ok (set_rb q buf bd)"
  using assms baid_ok_set_buf [OF assms(1,2), of buf]
  by (simp add: set_rb_def same_setup_def baid_ok_def [of bd])

lemma reorder_store_session_ok:
  assumes ok: "baid_ok bd" and q: "q < length (reorder_buf bd)"
    and sub: "unat sub < 128"
    and st: "reorder_store clk (queue_base bd (reorder_buf bd ! q)) amsdu sub sn skb (reorder_buf bd ! q)
      (bd_entries bd) = Some (buf', es')"
  shows "baid_ok ((set_rb q buf' bd)\<lparr>bd_entries := es'\<rparr>) \<and>
    bd_frames ((set_rb q buf' bd)\<lparr>bd_entries := es'\<rparr>) = add_mset skb (bd_frames bd)"
proof -
  let ?b = "reorder_buf bd ! q"
  have b: "rb_queue ?b = q" "buf_ok (queue_base bd ?b) ?b (bd_entries bd)"
    using ok q by (simp_all add: baid_ok_def)
  note s = reorder_store_ok [OF b(2) sub st]
  have "queue_base bd buf' = queue_base bd ?b" using s by (simp add: queue_base_def)
  then have "baid_ok (bd\<lparr>reorder_buf := (reorder_buf bd)[q := buf'], bd_entries := es'\<rparr>)"
    using s b by (intro baid_ok_update [OF ok q]) simp_all
  then show ?thesis using s by (simp add: bd_frames_def set_rb_def)
qed

lemma reorder_tail_ok:
  assumes ok: "baid_ok bd" and q: "q < length (reorder_buf bd)"
    and sub: "unat sub < 128"
  shows "\<exists>r bd' evs. reorder_tail clk q baid amsdu lst sub sn nssn skb bd = Some (r, bd', evs) \<and>
    baid_ok bd' \<and> length (reorder_buf bd') = length (reorder_buf bd) \<and> frames_kept skb bd r bd' evs"
proof -
  let ?b = "reorder_buf bd ! q"
  let ?old = "ieee80211_sn_less sn (head_sn ?b)"
  let ?direct = "num_stored ?b = 0 \<and> (ieee80211_sn_less sn nssn \<or> sn = head_sn ?b)"
  let ?st = "reorder_store clk (queue_base bd ?b) amsdu sub sn skb ?b (bd_entries bd)"
  have head: "baid_ok (set_rb q (?b\<lparr>head_sn := h\<rparr>) bd)" for h
    using ok q by (intro baid_ok_set_rb) (simp_all add: same_setup_def)
  consider (drop) "?old" | (direct) "\<not> ?old" "?direct" | (copy) "\<not> ?old" "\<not> ?direct" "?st = None"
    | (store) buf es where "\<not> ?old" "\<not> ?direct" "?st = Some (buf, es)" by fastforce
  then show ?thesis
  proof cases
    case drop
    then show ?thesis using ok
      by (intro exI [of _ True] exI [of _ bd] exI [of _ "[Free_skb skb]"])
         (simp add: reorder_tail_def Let_def frames_kept_def)
  next
    case direct
    define h where "h = (if ieee80211_sn_less sn nssn then nssn else ieee80211_sn_inc (head_sn ?b))"
    define c where "c \<longleftrightarrow> (\<not> amsdu \<or> lst) \<and>
      (ieee80211_sn_less sn nssn \<longrightarrow> iwl_mvm_is_sn_less (head_sn ?b) nssn (buf_size ?b))"
    define evs where "evs = (if c \<and> (sn = 2048 \<or> sn = 0) then [Sync_nssn baid sn] else [] :: 'a rx_event list)"
    have "reorder_tail clk q baid amsdu lst sub sn nssn skb bd
        = Some (False, if c then set_rb q (?b\<lparr>head_sn := h\<rparr>) bd else bd, evs)"
    proof (cases "ieee80211_sn_less sn nssn")
      case True
      then show ?thesis using direct
        unfolding reorder_tail_def Let_def h_def c_def evs_def by auto
    next
      case False
      with direct have "sn = head_sn ?b" by blast
      then show ?thesis using direct False
        unfolding reorder_tail_def Let_def h_def c_def evs_def by simp
    qed
    moreover have "frames_kept skb bd False (if c then set_rb q (?b\<lparr>head_sn := h\<rparr>) bd else bd) evs"
      by (simp add: frames_kept_def evs_def)
    moreover have "baid_ok (if c then set_rb q (?b\<lparr>head_sn := h\<rparr>) bd else bd)"
      using ok head by simp
    moreover have "length (reorder_buf (if c then set_rb q (?b\<lparr>head_sn := h\<rparr>) bd else bd))
        = length (reorder_buf bd)"
      by simp
    ultimately show ?thesis by blast
  next
    case copy
    then have "reorder_tail clk q baid amsdu lst sub sn nssn skb bd = Some (True, bd, [Free_skb skb])"
      unfolding reorder_tail_def Let_def by auto
    then show ?thesis using ok
      by (intro exI [of _ True] exI [of _ bd] exI [of _ "[Free_skb skb]"]) (simp add: frames_kept_def)
  next
    case (store buf es)
    let ?bd1 = "(set_rb q buf bd)\<lparr>bd_entries := es\<rparr>"
    note s = reorder_store_session_ok [OF ok q sub store(3)]
    have l: "length (reorder_buf ?bd1) = length (reorder_buf bd)" by (simp add: set_rb_def)
    then have q1: "q < length (reorder_buf ?bd1)" using q by simp
    obtain bd' evs where r: "iwl_mvm_release_frames clk True False q nssn ?bd1 = Some (bd', evs)"
      "baid_ok bd'" "length (reorder_buf bd') = length (reorder_buf ?bd1)" "freed evs = []"
      "bd_frames bd' + mset (passed evs) = bd_frames ?bd1"
      using release_frames_ok [OF conjunct1 [OF s] q1, of clk True False nssn] by blast
    show ?thesis
    proof (cases "\<not> amsdu \<or> lst")
      case True
      then have "reorder_tail clk q baid amsdu lst sub sn nssn skb bd = Some (True, bd', evs)"
        using store r(1) unfolding reorder_tail_def Let_def by simp
      then show ?thesis using r s l by (auto simp: frames_kept_def)
    next
      case False
      then have "reorder_tail clk q baid amsdu lst sub sn nssn skb bd = Some (True, ?bd1, [])"
        using store unfolding reorder_tail_def Let_def by simp
      then show ?thesis using s l by (auto simp: frames_kept_def)
    qed
  qed
qed

lemma subframe_idx_less: "unat (x AND IWL_RX_MPDU_AMSDU_SUBFRAME_IDX_MASK) < 128"
proof -
  have "x AND 0x7f \<le> 0x7f" by (rule word_and_le1)
  then show ?thesis by (simp add: IWL_RX_MPDU_AMSDU_SUBFRAME_IDX_MASK_def word_le_nat_alt)
qed

lemma reorder_locked_ok:
  assumes ok: "baid_ok bd" and q: "q < length (reorder_buf bd)"
  shows "\<exists>r bd' evs. reorder_locked clk q baid hdr gp2 desc skb bd = Some (r, bd', evs) \<and>
    baid_ok bd' \<and> length (reorder_buf bd') = length (reorder_buf bd) \<and> frames_kept skb bd r bd' evs"
proof (cases "\<not> valid (reorder_buf bd ! q) \<and> tst (reorder_data desc) IWL_RX_MPDU_REORDER_BA_OLD_SN")
  case True
  then show ?thesis using ok
    by (intro exI [of _ False] exI [of _ bd] exI [of _ "[]"])
       (simp add: reorder_locked_def Let_def frames_kept_def)
next
  case False
  define nssn :: u16 where "nssn = ucast (reorder_data desc AND IWL_RX_MPDU_REORDER_NSSN_MASK)"
  define sn :: u16 where
    "sn = ucast (drop_bit IWL_RX_MPDU_REORDER_SN_SHIFT (reorder_data desc AND IWL_RX_MPDU_REORDER_SN_MASK))"
  let ?b = "reorder_buf bd ! q"
  define bd1 where "bd1 = set_rb q (?b\<lparr>valid := True\<rparr>) bd"
  have "buf_ok (queue_base bd ?b) (?b\<lparr>valid := True\<rparr>) (bd_entries bd)"
    using ok q by (simp add: baid_ok_def buf_ok_def)
  then have ok1: "baid_ok bd1" "length (reorder_buf bd1) = length (reorder_buf bd)" "bd_frames bd1 = bd_frames bd"
    "num_stored (reorder_buf bd1 ! q) = num_stored ?b" "q < length (reorder_buf bd1)"
    using ok q baid_ok_set_buf [OF ok q, of "?b\<lparr>valid := True\<rparr>"]
    by (simp_all add: bd1_def set_rb_def bd_frames_def baid_ok_def [of bd])
  show ?thesis
  proof (cases "ieee80211_is_back_req (frame_control hdr)")
    case True
    obtain bd' evs where r: "iwl_mvm_release_frames clk False False q nssn bd1 = Some (bd', evs)"
      "baid_ok bd'" "length (reorder_buf bd') = length (reorder_buf bd)" "freed evs = []"
      "bd_frames bd' + mset (passed evs) = bd_frames bd"
      using release_frames_ok [OF ok1(1,5), of clk False False nssn] ok1 by auto
    then show ?thesis using False True
      by (auto simp: reorder_locked_def Let_def frames_kept_def nssn_def [symmetric] bd1_def [symmetric])
  next
    case noBar: False
    define c where "c = (\<not> iwl_mvm_is_sn_less nssn (head_sn ?b + buf_size ?b) (buf_size ?b) \<or>
      \<not> ieee80211_sn_less sn (head_sn ?b + buf_size ?b))"
    define min_sn where "min_sn = (if ieee80211_sn_less sn nssn then sn else nssn)"
    obtain bd2 evs where r2:
      "(if c then iwl_mvm_release_frames clk True False q min_sn bd1 else Some (bd1, [])) = Some (bd2, evs)"
      "baid_ok bd2" "length (reorder_buf bd2) = length (reorder_buf bd)" "freed evs = []"
      "bd_frames bd2 + mset (passed evs) = bd_frames bd"
      "unat (num_stored (reorder_buf bd2 ! q)) \<le> unat (num_stored ?b)"
      using release_frames_ok [OF ok1(1,5), of clk True False min_sn] ok1 by (cases c) auto
    obtain buf3 and evs2 :: "'a rx_event list" where
      o: "iwl_mvm_oldsn_workaround (ieee80211_get_tid hdr) (reorder_data desc) gp2 (reorder_buf bd2 ! q) = (buf3, evs2)"
      by fastforce
    note o' = oldsn_workaround_ok [OF o]
    have q2: "q < length (reorder_buf bd2)" using q r2(3) by simp
    have ok3: "baid_ok (set_rb q buf3 bd2)" using o' by (intro baid_ok_set_rb [OF r2(2) q2]) simp_all
    have sub: "unat (amsdu_info desc AND IWL_RX_MPDU_AMSDU_SUBFRAME_IDX_MASK) < 128"
      by (rule subframe_idx_less)
    obtain r bd' evs3 where t:
      "reorder_tail clk q baid (tst (mac_flags2 desc) IWL_RX_MPDU_MFLG2_AMSDU)
         (tst (amsdu_info desc) IWL_RX_MPDU_AMSDU_LAST_SUBFRAME)
         (amsdu_info desc AND IWL_RX_MPDU_AMSDU_SUBFRAME_IDX_MASK) sn nssn skb (set_rb q buf3 bd2) = Some (r, bd', evs3)"
      "baid_ok bd'" "length (reorder_buf bd') = length (reorder_buf bd)" "frames_kept skb (set_rb q buf3 bd2) r bd' evs3"
      using reorder_tail_ok [OF ok3 _ sub] q2 r2(3) by fastforce
    have "reorder_locked clk q baid hdr gp2 desc skb bd = Some (r, bd', evs @ evs2 @ evs3)"
      using noBar r2(1) o t(1)
      unfolding reorder_locked_def Let_def nssn_def [symmetric] sn_def [symmetric] bd1_def [symmetric]
        c_def [symmetric] min_sn_def [symmetric] by (simp only: if_not_P [OF False]) simp
    moreover have "frames_kept skb bd r bd' (evs @ evs2 @ evs3)"
      using t(4) r2(4) o' by (auto simp: frames_kept_def ac_simps r2(5) [symmetric])
    ultimately show ?thesis using t by blast
  qed
qed

end
