(* ===== verification/Reorder_Run.thy ===== *)
theory Reorder_Run
  imports Reorder
begin

text \<open>
  The receive handlers over the map of block-ack sessions: every handler returns, keeps the sessions
  consistent and neither loses nor duplicates a frame. The handlers form a step relation, which is an
  instance of \<open>invariant_system\<close> with this balance as its invariant.
\<close>

unbundle bit_operations_syntax

section \<open>The sessions of the driver\<close>

definition option_frames :: "'f baid_data option \<Rightarrow> 'f multiset" where
  "option_frames o' = (case o' of None \<Rightarrow> {#} | Some bd \<Rightarrow> bd_frames bd)"

definition mvm_frames :: "'f rx_mvm \<Rightarrow> 'f multiset" where
  "mvm_frames mvm = sum_list (map option_frames (baid_map mvm))"

definition mvm_ok :: "nat \<Rightarrow> 'f rx_mvm \<Rightarrow> bool" where
  "mvm_ok nq mvm \<longleftrightarrow> length (baid_map mvm) = IWL_MAX_BAID \<and>
     (\<forall>b bd. b < IWL_MAX_BAID \<and> baid_map mvm ! b = Some bd \<longrightarrow>
        baid_ok bd \<and> length (reorder_buf bd) = nq)"

lemma mvm_okD:
  "mvm_ok nq mvm \<Longrightarrow> b < IWL_MAX_BAID \<Longrightarrow> baid_map mvm ! b = Some bd \<Longrightarrow> baid_ok bd"
  "mvm_ok nq mvm \<Longrightarrow> b < IWL_MAX_BAID \<Longrightarrow> baid_map mvm ! b = Some bd \<Longrightarrow> length (reorder_buf bd) = nq"
  by (simp_all add: mvm_ok_def)

lemma sum_list_option_update:
  "i < length xs \<Longrightarrow> sum_list (map option_frames (xs[i := x])) + option_frames (xs ! i)
     = sum_list (map option_frames xs) + option_frames x"
proof (induction xs arbitrary: i)
  case (Cons y ys)
  then show ?case by (cases i) (simp_all add: ac_simps)
qed simp

lemma mvm_frames_update:
  assumes "mvm_ok nq mvm" "b < IWL_MAX_BAID" "baid_map mvm ! b = Some bd"
    and "bd_frames bd' + X = bd_frames bd + Y"
  shows "mvm_frames (update_baid b bd' mvm) + X = mvm_frames mvm + Y"
proof -
  have b: "b < length (baid_map mvm)" using assms by (simp add: mvm_ok_def)
  have "mvm_frames (update_baid b bd' mvm) + bd_frames bd = mvm_frames mvm + bd_frames bd'"
    using sum_list_option_update [OF b, of "Some bd'"] assms(3)
    by (simp add: mvm_frames_def update_baid_def option_frames_def)
  then have "(mvm_frames (update_baid b bd' mvm) + X) + bd_frames bd = (mvm_frames mvm + Y) + bd_frames bd"
    using assms(4) by (metis (no_types, opaque_lifting) add.assoc add.commute)
  then show ?thesis by simp
qed

lemma mvm_ok_update:
  "mvm_ok nq mvm \<Longrightarrow> b < IWL_MAX_BAID \<Longrightarrow> baid_ok bd \<Longrightarrow> length (reorder_buf bd) = nq \<Longrightarrow>
   mvm_ok nq (update_baid b bd mvm)"
  by (auto simp: mvm_ok_def update_baid_def nth_list_update)

text \<open>What a handler that receives the frames \<open>new\<close> promises about the frames.\<close>

definition handled :: "nat \<Rightarrow> 'f multiset \<Rightarrow> 'f rx_mvm \<Rightarrow> 'f rx_mvm \<Rightarrow> 'f multiset \<Rightarrow> 'f rx_event list \<Rightarrow> bool" where
  "handled nq new mvm mvm' direct evs \<longleftrightarrow> mvm_ok nq mvm' \<and>
     mvm_frames mvm' + mset (passed evs) + mset (freed evs) + direct = mvm_frames mvm + new"

lemma handled_same: "mvm_ok nq mvm \<Longrightarrow> handled nq {#} mvm mvm {#} []"
  by (simp add: handled_def)

section \<open>Releases\<close>

lemma lookup_found: "lookup_sta mvm i = Some (Some sta) \<Longrightarrow> i < length (fw_id_to_mac_id mvm)"
  by (auto simp: lookup_sta_def split: if_splits)

text \<open>The stations of a session are in the table.\<close>

definition stations_known :: "'f rx_mvm \<Rightarrow> bool" where
  "stations_known mvm \<longleftrightarrow>
     (\<forall>b bd. b < length (baid_map mvm) \<and> baid_map mvm ! b = Some bd \<longrightarrow>
        first_sta_id (sta_mask bd) < length (fw_id_to_mac_id mvm))"

lemma release_from_notif_handled:
  assumes ok: "mvm_ok nq mvm" "q < nq"
    and r: "iwl_mvm_release_frames_from_notif clk baid nssn q sy mvm = Some (mvm', evs)"
  shows "handled nq {#} mvm mvm' {#} evs"
proof (cases "\<exists>bd sta. baid < IWL_MAX_BAID \<and> baid_map mvm ! baid = Some bd \<and>
    baid \<noteq> IWL_RX_REORDER_DATA_INVALID_BAID \<and> lookup_sta mvm (first_sta_id (sta_mask bd)) = Some (Some sta)")
  case False
  then have "mvm' = mvm" "evs = []"
    using r by (auto simp: iwl_mvm_release_frames_from_notif_def not_le split: if_splits option.splits)
  then show ?thesis using ok by (simp add: handled_same)
next
  case True
  then obtain bd sta where b: "baid < IWL_MAX_BAID" "baid_map mvm ! baid = Some bd"
    "baid \<noteq> IWL_RX_REORDER_DATA_INVALID_BAID" "lookup_sta mvm (first_sta_id (sta_mask bd)) = Some (Some sta)"
    by blast
  note bd = mvm_okD [OF ok(1) b(1,2)]
  obtain bd' evs' where rel: "iwl_mvm_release_frames clk False sy q nssn bd = Some (bd', evs')"
    "baid_ok bd'" "length (reorder_buf bd') = length (reorder_buf bd)" "freed evs' = []"
    "bd_frames bd' + mset (passed evs') = bd_frames bd"
    using release_frames_ok [OF bd(1), of q clk False sy nssn] bd(2) ok(2) by blast
  have e: "mvm' = update_baid baid bd' mvm" "evs = evs'"
    using r b rel(1) by (simp_all add: iwl_mvm_release_frames_from_notif_def)
  show ?thesis
    using mvm_frames_update [OF ok(1) b(1,2), of bd' "mset (passed evs')" "{#}"] rel bd
      mvm_ok_update [OF ok(1) b(1) rel(2)] by (simp add: handled_def e)
qed

lemma release_from_notif_returns:
  assumes ok: "mvm_ok nq mvm" "q < nq" "stations_known mvm"
  shows "iwl_mvm_release_frames_from_notif clk baid nssn q sy mvm \<noteq> None"
proof
  assume n: "iwl_mvm_release_frames_from_notif clk baid nssn q sy mvm = None"
  then have b: "baid < IWL_MAX_BAID"
    by (auto simp: iwl_mvm_release_frames_from_notif_def split: if_splits)
  with n obtain bd where bd: "baid_map mvm ! baid = Some bd"
    by (auto simp: iwl_mvm_release_frames_from_notif_def split: if_splits option.splits)
  have "lookup_sta mvm (first_sta_id (sta_mask bd)) \<noteq> None"
    using ok b bd by (auto simp: lookup_sta_def stations_known_def mvm_ok_def)
  moreover have "iwl_mvm_release_frames clk False sy q nssn bd \<noteq> None"
    using release_frames_ok [OF mvm_okD(1) [OF ok(1) b bd], of q clk False sy nssn]
      mvm_okD(2) [OF ok(1) b bd] ok(2) by auto
  ultimately show False
    using n b bd by (auto simp: iwl_mvm_release_frames_from_notif_def split: if_splits option.splits)
qed

lemma del_ba_handled:
  assumes ok: "mvm_ok nq mvm" "q < nq" and r: "iwl_mvm_del_ba clk q baid mvm = Some (mvm', evs)"
  shows "handled nq {#} mvm mvm' {#} evs"
proof (cases "\<exists>bd sta. unat baid < IWL_MAX_BAID \<and> baid_map mvm ! unat baid = Some bd \<and>
    lookup_sta mvm (first_sta_id (sta_mask bd)) = Some (Some sta)")
  case False
  then have "mvm' = mvm" "evs = []"
    using r by (auto simp: iwl_mvm_del_ba_def not_le split: if_splits option.splits)
  then show ?thesis using ok by (simp add: handled_same)
next
  case True
  then obtain bd sta where b: "unat baid < IWL_MAX_BAID" "baid_map mvm ! unat baid = Some bd"
    "lookup_sta mvm (first_sta_id (sta_mask bd)) = Some (Some sta)"
    by blast
  note bd = mvm_okD [OF ok(1) b(1,2)]
  have q: "q < length (reorder_buf bd)" using bd ok(2) by simp
  let ?h = "ieee80211_sn_add (head_sn (reorder_buf bd ! q)) (buf_size (reorder_buf bd ! q))"
  obtain bd' evs' where rel: "iwl_mvm_release_frames clk False False q ?h bd = Some (bd', evs')"
    "baid_ok bd'" "length (reorder_buf bd') = length (reorder_buf bd)" "freed evs' = []"
    "bd_frames bd' + mset (passed evs') = bd_frames bd"
    using release_frames_ok [OF bd(1) q, of clk False False ?h] by blast
  let ?bd = "bd'\<lparr>reorder_buf := (reorder_buf bd')[q := (reorder_buf bd' ! q)\<lparr>reorder_timer := None\<rparr>]\<rparr>"
  have e: "mvm' = update_baid (unat baid) ?bd mvm" "evs = evs'"
    using r b rel(1) by (simp_all add: iwl_mvm_del_ba_def Let_def)
  have bd2: "baid_ok ?bd" "bd_frames ?bd = bd_frames bd'" "length (reorder_buf ?bd) = nq"
    using rel q bd baid_ok_set_buf [OF rel(2), of q "(reorder_buf bd' ! q)\<lparr>reorder_timer := None\<rparr>"]
    by (simp_all add: bd_frames_def baid_ok_def [of bd'])
  show ?thesis
    using mvm_frames_update [OF ok(1) b(1,2), of ?bd "mset (passed evs')" "{#}"] rel bd2
      mvm_ok_update [OF ok(1) b(1) bd2(1,3)] by (simp add: handled_def e)
qed

lemma del_ba_returns:
  assumes ok: "mvm_ok nq mvm" "q < nq" "stations_known mvm"
  shows "iwl_mvm_del_ba clk q baid mvm \<noteq> None"
proof
  assume n: "iwl_mvm_del_ba clk q baid mvm = None"
  then have b: "unat baid < IWL_MAX_BAID" by (auto simp: iwl_mvm_del_ba_def split: if_splits)
  with n obtain bd where bd: "baid_map mvm ! unat baid = Some bd"
    by (auto simp: iwl_mvm_del_ba_def split: if_splits option.splits)
  have "lookup_sta mvm (first_sta_id (sta_mask bd)) \<noteq> None"
    using ok b bd by (auto simp: lookup_sta_def stations_known_def mvm_ok_def)
  moreover have "iwl_mvm_release_frames clk False False q
      (ieee80211_sn_add (head_sn (reorder_buf bd ! q)) (buf_size (reorder_buf bd ! q))) bd \<noteq> None"
    using release_frames_ok [OF mvm_okD(1) [OF ok(1) b bd], of q clk False False
        "ieee80211_sn_add (head_sn (reorder_buf bd ! q)) (buf_size (reorder_buf bd ! q))"]
      mvm_okD(2) [OF ok(1) b bd] ok(2) by auto
  ultimately show False
    using n b bd by (auto simp: iwl_mvm_del_ba_def Let_def split: if_splits option.splits)
qed

text \<open>The messages between the receive queues.\<close>

lemma sync_done_fields [simp]:
  "mvm_ok nq (rxq_sync_done q mvm) = mvm_ok nq mvm" "mvm_frames (rxq_sync_done q mvm) = mvm_frames mvm"
  by (simp_all add: rxq_sync_done_def Let_def mvm_ok_def mvm_frames_def)

lemma notif_action_handled:
  assumes "mvm_ok nq mvm" "q < nq" "rxq_notif_action clk q n mvm = Some (mvm', evs)"
  shows "handled nq {#} mvm mvm' {#} evs"
  using assms
  by (auto simp: rxq_notif_action_def Let_def iwl_mvm_nssn_sync_def handled_same
      intro: del_ba_handled release_from_notif_handled split: if_splits)

lemma queue_notif_handled:
  assumes ok: "mvm_ok nq mvm" "q < nq" and r: "iwl_mvm_rx_queue_notif clk q n mvm = Some (mvm', evs)"
  shows "handled nq {#} mvm mvm' {#} evs"
proof (cases "notif_len n < SIZEOF_RXQ_NOTIF \<or> notif_sync n \<and> queue_sync_cookie mvm \<noteq> notif_cookie n")
  case True
  then show ?thesis using r ok by (auto simp: iwl_mvm_rx_queue_notif_def handled_same split: if_splits)
next
  case False
  then obtain mvm1 where a: "rxq_notif_action clk q n mvm = Some (mvm1, evs)"
    and m: "mvm' = (if notif_sync n then rxq_sync_done q mvm1 else mvm1)"
    using r by (auto simp: iwl_mvm_rx_queue_notif_def)
  have "handled nq {#} mvm mvm1 {#} evs" by (rule notif_action_handled [OF ok a])
  then show ?thesis by (simp add: handled_def m)
qed

lemma frame_release_handled:
  "mvm_ok nq mvm \<Longrightarrow> q < nq \<Longrightarrow> iwl_mvm_rx_frame_release clk q len baid nssn mvm = Some (mvm', evs) \<Longrightarrow>
   handled nq {#} mvm mvm' {#} evs"
  by (auto simp: iwl_mvm_rx_frame_release_def handled_same intro: release_from_notif_handled split: if_splits)

lemma bar_frame_release_handled:
  "mvm_ok nq mvm \<Longrightarrow> q < nq \<Longrightarrow> iwl_mvm_rx_bar_frame_release clk q len st ba mvm = Some (mvm', evs) \<Longrightarrow>
   handled nq {#} mvm mvm' {#} evs"
  by (auto simp: iwl_mvm_rx_bar_frame_release_def Let_def handled_same
      intro: release_from_notif_handled split: if_splits option.splits)

section \<open>Arrivals and time-outs\<close>

text \<open>The ways through the handler: past the buffer, or through the part under the lock.\<close>

lemma reorderE:
  assumes "iwl_mvm_reorder clk q sta hdr gp2 desc skb mvm = Some (r, mvm', evs)"
  defines "baid \<equiv>
    unat (drop_bit IWL_RX_MPDU_REORDER_BAID_SHIFT (reorder_data desc AND IWL_RX_MPDU_REORDER_BAID_MASK))"
  shows "r = False \<and> mvm' = mvm \<and> evs = [] \<or>
    (\<exists>bd bd'. baid < length (baid_map mvm) \<and> baid_map mvm ! baid = Some bd \<and>
       mvm' = update_baid baid bd' mvm \<and>
       reorder_locked clk q (of_nat baid) hdr gp2 desc skb bd = Some (r, bd', evs))"
proof (cases sta)
  case None
  then show ?thesis using assms(1) by (simp add: iwl_mvm_reorder_def Let_def split: if_splits)
next
  case (Some st)
  show ?thesis
  proof (cases "baid < length (baid_map mvm)")
    case False
    then show ?thesis using assms(1) Some unfolding iwl_mvm_reorder_def Let_def baid_def
      by (simp split: if_splits)
  next
    case True
    show ?thesis
    proof (cases "baid_map mvm ! baid")
      case None
      then show ?thesis using assms(1) Some True unfolding iwl_mvm_reorder_def Let_def baid_def
        by (simp split: if_splits)
    next
      case bd: (Some bd)
      show ?thesis
      proof (cases "reorder_locked clk q (of_nat baid) hdr gp2 desc skb bd")
        case None
        then show ?thesis using assms(1) Some True bd unfolding iwl_mvm_reorder_def Let_def baid_def
          by (simp split: if_splits)
      next
        case res: (Some res)
        then show ?thesis using assms(1) Some True bd unfolding iwl_mvm_reorder_def Let_def baid_def
          by (cases res) (simp split: if_splits)
      qed
    qed
  qed
qed

lemma reorder_handled:
  assumes ok: "mvm_ok nq mvm" "q < nq"
    and r: "iwl_mvm_reorder clk q sta hdr gp2 desc skb mvm = Some (r, mvm', evs)"
  shows "handled nq {#skb#} mvm mvm' (if r then {#} else {#skb#}) evs"
proof -
  define baid where
    "baid = unat (drop_bit IWL_RX_MPDU_REORDER_BAID_SHIFT (reorder_data desc AND IWL_RX_MPDU_REORDER_BAID_MASK))"
  consider (out) "r = False" "mvm' = mvm" "evs = []"
    | (locked) bd bd' where "baid < IWL_MAX_BAID" "baid_map mvm ! baid = Some bd" "mvm' = update_baid baid bd' mvm"
      "reorder_locked clk q (of_nat baid) hdr gp2 desc skb bd = Some (r, bd', evs)"
    using r reorderE [of clk q sta hdr gp2 desc skb mvm r mvm' evs] ok(1)
    unfolding baid_def mvm_ok_def by (metis (no_types))
  then show ?thesis
  proof cases
    case out
    then show ?thesis using ok by (simp add: handled_def)
  next
    case 2: (locked bd bd')
    note bd = mvm_okD [OF ok(1) 2(1,2)]
    have k: "baid_ok bd'" "length (reorder_buf bd') = nq" "frames_kept skb bd r bd' evs"
      using reorder_locked_ok [OF bd(1), of q clk "of_nat baid" hdr gp2 desc skb] bd(2) ok(2) 2(4) by auto
    have "mvm_frames mvm' + (mset (passed evs) + mset (freed evs) + (if r then {#} else {#skb#}))
        = mvm_frames mvm + {#skb#}"
      unfolding 2(3) using k(3)
      by (intro mvm_frames_update [OF ok(1) 2(1,2)]) (simp add: frames_kept_def ac_simps)
    then show ?thesis using mvm_ok_update [OF ok(1) 2(1) k(1,2)] by (simp add: handled_def 2(3) ac_simps)
  qed
qed

lemma timer_expired_ok:
  assumes ok: "baid_ok bd" and q: "q < length (reorder_buf bd)"
    and r: "iwl_mvm_reorder_timer_expired clk mvm q bd = Some (bd', evs)"
  shows "baid_ok bd' \<and> length (reorder_buf bd') = length (reorder_buf bd) \<and> freed evs = [] \<and>
    bd_frames bd' + mset (passed evs) = bd_frames bd"
proof -
  let ?set = "\<lambda>t. bd\<lparr>reorder_buf := (reorder_buf bd)[q := (reorder_buf bd ! q)\<lparr>reorder_timer := t\<rparr>]\<rparr>"
  consider "bd' = bd" "evs = []"
    | sn ev evs' where "iwl_mvm_release_frames clk True False q sn bd = Some (bd', evs')"
        "evs = Frame_timeout ev # evs'"
    | t where "bd' = ?set t" "evs = []"
    using r by (auto simp: iwl_mvm_reorder_timer_expired_def Let_def split: if_splits prod.splits option.splits)
  then show ?thesis
  proof cases
    case 1
    then show ?thesis using ok by simp
  next
    case (2 sn ev evs')
    then show ?thesis using release_frames_ok [OF ok q, of clk True False sn] by auto
  next
    case (3 t)
    have "baid_ok (?set t)"
      using ok q by (intro baid_ok_set_buf [OF ok q]) (simp_all add: baid_ok_def)
    then show ?thesis using 3 by (simp add: bd_frames_def)
  qed
qed

section \<open>Runs\<close>

record 'f reorder_run =
  driver :: "'f rx_mvm"
  arrived :: "'f multiset"
  delivered :: "'f multiset"
  dropped :: "'f multiset"

definition note_events :: "'f rx_mvm \<Rightarrow> 'f multiset \<Rightarrow> 'f multiset \<Rightarrow> 'f rx_event list \<Rightarrow> 'f reorder_run \<Rightarrow> 'f reorder_run" where
  "note_events mvm new direct evs s =
     s\<lparr>driver := mvm, arrived := arrived s + new,
       delivered := delivered s + mset (passed evs) + direct, dropped := dropped s + mset (freed evs)\<rparr>"

text \<open>
  One step is one call of a receive handler on one of the \<open>nq\<close> queues: a frame, which goes straight
  to mac80211 when the handler answers false, a message of another queue, a release notification of
  the firmware, or the expiry of a reorder timer.
\<close>

inductive reorder_step :: "nat \<Rightarrow> 'f reorder_run \<Rightarrow> 'f reorder_run \<Rightarrow> bool" for nq where
  step_frame:
    "q < nq \<Longrightarrow> iwl_mvm_reorder clk q sta hdr gp2 desc skb (driver s) = Some (r, mvm', evs) \<Longrightarrow>
     reorder_step nq s (note_events mvm' {#skb#} (if r then {#} else {#skb#}) evs s)"
| step_notif:
    "q < nq \<Longrightarrow> iwl_mvm_rx_queue_notif clk q n (driver s) = Some (mvm', evs) \<Longrightarrow>
     reorder_step nq s (note_events mvm' {#} {#} evs s)"
| step_release:
    "q < nq \<Longrightarrow> iwl_mvm_rx_frame_release clk q len baid nssn (driver s) = Some (mvm', evs) \<Longrightarrow>
     reorder_step nq s (note_events mvm' {#} {#} evs s)"
| step_bar_release:
    "q < nq \<Longrightarrow> iwl_mvm_rx_bar_frame_release clk q len sta_tid ba_info (driver s) = Some (mvm', evs) \<Longrightarrow>
     reorder_step nq s (note_events mvm' {#} {#} evs s)"
| step_timer:
    "q < nq \<Longrightarrow> b < IWL_MAX_BAID \<Longrightarrow> baid_map (driver s) ! b = Some bd \<Longrightarrow>
     iwl_mvm_reorder_timer_expired clk (driver s) q bd = Some (bd', evs) \<Longrightarrow>
     reorder_step nq s (note_events (update_baid b bd' (driver s)) {#} {#} evs s)"

definition run_ok :: "nat \<Rightarrow> 'f reorder_run \<Rightarrow> bool" where
  "run_ok nq s \<longleftrightarrow> mvm_ok nq (driver s) \<and>
     arrived s = delivered s + dropped s + mvm_frames (driver s)"

lemma run_ok_handled:
  assumes "run_ok nq s" "handled nq new (driver s) mvm' direct evs"
  shows "run_ok nq (note_events mvm' new direct evs s)"
proof -
  have "delivered s + mset (passed evs) + direct + (dropped s + mset (freed evs)) + mvm_frames mvm'
      = delivered s + dropped s + (mvm_frames mvm' + mset (passed evs) + mset (freed evs) + direct)"
    by (simp add: ac_simps)
  also have "\<dots> = delivered s + dropped s + (mvm_frames (driver s) + new)"
    using assms(2) by (simp add: handled_def)
  also have "\<dots> = arrived s + new" using assms(1) by (simp add: run_ok_def ac_simps)
  finally show ?thesis using assms by (simp add: run_ok_def handled_def note_events_def)
qed

lemma timer_handled:
  assumes ok: "mvm_ok nq mvm" "q < nq" and b: "b < IWL_MAX_BAID" "baid_map mvm ! b = Some bd"
    and r: "iwl_mvm_reorder_timer_expired clk mvm q bd = Some (bd', evs)"
  shows "handled nq {#} mvm (update_baid b bd' mvm) {#} evs"
proof -
  note bd = mvm_okD [OF ok(1) b]
  have t: "baid_ok bd'" "length (reorder_buf bd') = nq" "freed evs = []"
    "bd_frames bd' + mset (passed evs) = bd_frames bd"
    using timer_expired_ok [OF bd(1) _ r] bd(2) ok(2) by auto
  show ?thesis
    using mvm_frames_update [OF ok(1) b, of bd' "mset (passed evs)" "{#}"] t
      mvm_ok_update [OF ok(1) b(1) t(1,2)] by (simp add: handled_def)
qed

lemma reorder_step_ok: "reorder_step nq s s' \<Longrightarrow> run_ok nq s \<Longrightarrow> run_ok nq s'"
proof (induction rule: reorder_step.induct)
  case step_frame
  then show ?case by (meson run_ok_handled reorder_handled run_ok_def)
next
  case step_notif
  then show ?case by (meson run_ok_handled queue_notif_handled run_ok_def)
next
  case step_release
  then show ?case by (meson run_ok_handled frame_release_handled run_ok_def)
next
  case step_bar_release
  then show ?case by (meson run_ok_handled bar_frame_release_handled run_ok_def)
next
  case step_timer
  then show ?case by (meson run_ok_handled timer_handled run_ok_def)
qed

interpretation reorder_runs: invariant_system "reorder_step nq" "run_ok nq" for nq
  by unfold_locales (rule reorder_step_ok)

lemmas demo_defs = ieee80211_is_back_req_def ieee80211_is_data_qos_def ieee80211_is_data_present_def

text \<open>A small driver state: one session (BAID 3) with a window of four on one queue, head 10.\<close>

definition demo_clock :: rx_clock where
  "demo_clock = \<lparr>jiffies = 100, reorder_tmo = 10, time_after = (\<lambda>a b. b < a)\<rparr>"

definition demo_buffer :: "u16 \<Rightarrow> reorder_buffer" where
  "demo_buffer head = \<lparr>head_sn = head, num_stored = 0, buf_size = 4, rb_queue = 0, last_amsdu = 0,
     last_sub_index = 0, reorder_timer = None, removed = False, valid = False, consec_oldsn_drops = 0,
     consec_oldsn_ampdu_gp2 = 0, consec_oldsn_prev_drop = False\<rparr>"

definition demo_session :: "u16 \<Rightarrow> nat baid_data" where
  "demo_session head = \<lparr>sta_mask = 1, bd_tid = 0, bd_baid = 3, bd_timeout = 0, entries_per_queue = 4,
     last_rx = 0, reorder_buf = [demo_buffer head],
     bd_entries = replicate 4 \<lparr>entry_frames = [], entry_time = 0\<rparr>\<rparr>"

definition demo_mvm :: "u16 \<Rightarrow> nat rx_mvm" where
  "demo_mvm head = \<lparr>baid_map = (replicate 32 None)[3 := Some (demo_session head)],
     fw_id_to_mac_id = [Some \<lparr>sta_fw_id_mask = 1\<rparr>], queue_sync_cookie = 0,
     queue_sync_state = 0, sync_wakeups = 0\<rparr>"

definition demo_hdr :: ieee80211_hdr where
  "demo_hdr = \<lparr>frame_control = 0x88, addr1 = [2, 0, 0, 0, 0, 1], addr2 = [2, 0, 0, 0, 0, 2],
     addr3 = [2, 0, 0, 0, 0, 3], seq_ctrl = 0, qos_ctl = 0\<rparr>"

definition demo_desc :: "u8 \<Rightarrow> u8 \<Rightarrow> u32 \<Rightarrow> iwl_rx_mpdu_desc" where
  "demo_desc flags2 amsdu reorder = \<lparr>mpdu_len = 0, mac_flags1 = 0, mac_flags2 = flags2, amsdu_info = amsdu,
     phy_info = 0, l3l4_flags = 0, rx_status_word = 0, reorder_data = reorder, raw_xsum = 0\<rparr>"

definition demo_run :: "u16 \<Rightarrow> nat reorder_run" where
  "demo_run head = \<lparr>driver = demo_mvm head, arrived = {#}, delivered = {#}, dropped = {#}\<rparr>"

lemma all_frames_empty: "entry_frames e = [] \<Longrightarrow> all_frames (replicate n e) = {#}"
  by (induction n) simp_all

lemma demo_session_ok: "baid_ok (demo_session head)"
  unfolding baid_ok_def
proof (intro allI impI conjI [of "idle_slots (demo_session head)"])
  show "idle_slots (demo_session head)" by (simp add: idle_slots_def demo_session_def)
  fix q assume "q < length (reorder_buf (demo_session head))"
  then have q: "reorder_buf (demo_session head) ! q = demo_buffer head" "q = 0" by (simp_all add: demo_session_def)
  have "all_frames (bd_entries (demo_session head)) = {#}"
    unfolding demo_session_def baid_data.simps by (rule all_frames_empty) simp
  then have "queue_frames 0 4 (bd_entries (demo_session head)) = {#}"
    by (simp add: queue_frames_def demo_session_def)
  moreover have "slots_ok 0 4 0 0 (bd_entries (demo_session head))"
    by (auto simp: slots_ok_def demo_session_def)
  ultimately have "buf_ok 0 (demo_buffer head) (bd_entries (demo_session head))"
    by (simp add: buf_ok_def demo_buffer_def demo_session_def)
  then show "rb_queue (reorder_buf (demo_session head) ! q) = q \<and>
      unat (buf_size (reorder_buf (demo_session head) ! q)) \<le> unat (entries_per_queue (demo_session head)) \<and>
      buf_ok (queue_base (demo_session head) (reorder_buf (demo_session head) ! q))
        (reorder_buf (demo_session head) ! q) (bd_entries (demo_session head))"
    by (simp add: q queue_base_def) (simp add: demo_buffer_def demo_session_def)
qed

definition demo_sta :: rx_sta where "demo_sta = \<lparr>sta_fw_id_mask = 1\<rparr>"

lemma demo_map: "b < 32 \<Longrightarrow> baid_map (demo_mvm head) ! b = (if b = 3 then Some (demo_session head) else None)"
  by (simp add: demo_mvm_def)

lemma demo_mvm_ok: "mvm_ok 1 (demo_mvm head)"
  unfolding mvm_ok_def IWL_MAX_BAID_def
proof (intro conjI allI impI)
  show "length (baid_map (demo_mvm head)) = 32" by (simp add: demo_mvm_def)
  fix b bd assume "b < 32 \<and> baid_map (demo_mvm head) ! b = Some bd"
  then have bd: "bd = demo_session head" by (metis demo_map option.distinct(1) option.inject)
  show "baid_ok bd" "length (reorder_buf bd) = 1"
    by (simp_all only: bd demo_session_ok) (simp add: demo_session_def)
qed

lemma demo_run_ok: "run_ok 1 (demo_run head)"
proof -
  have "mvm_frames (demo_mvm head) = {#}"
    by (simp add: mvm_frames_def demo_mvm_def option_frames_def numeral_eq_Suc bd_frames_def
        demo_session_def all_frames_def)
  then show ?thesis by (simp only: run_ok_def demo_run_def demo_mvm_ok reorder_run.simps) simp
qed

text \<open>A frame ahead of the window's head is stored.\<close>

definition demo_stored :: "nat rx_mvm" where
  "demo_stored = fst (snd (the (iwl_mvm_reorder demo_clock 0 (Some demo_sta) demo_hdr 0
     (demo_desc 0 0 0x0300B00A) 7 (demo_mvm 10))))"

lemma demo_store:
  "iwl_mvm_reorder demo_clock 0 (Some demo_sta) demo_hdr 0 (demo_desc 0 0 0x0300B00A) 7 (demo_mvm 10)
     = Some (True, demo_stored, [])"
  by code_simp

section \<open>Properties\<close>

text \<open>C6: No frame is lost and none is duplicated: after any sequence of receive steps (frames, messages
  between the queues, release notifications, timer expiries), the frames that have arrived are
  exactly those delivered to mac80211, those freed as duplicates or outdated, and those still in a
  reorder buffer; every session is still consistent.
\<close>

theorem reorder_run_conserves_frames:
  assumes "(reorder_step nq)\<^sup>*\<^sup>* s s'" "run_ok nq s"
  shows "mvm_ok nq (driver s') \<and> arrived s' = delivered s' + dropped s' + mvm_frames (driver s')"
  using reorder_runs.inv_run [OF assms] by (simp add: run_ok_def)

lemma demo_reorder_step:
  "reorder_step 1 (demo_run 10) (note_events demo_stored {#7#} {#} [] (demo_run 10))"
proof -
  have "iwl_mvm_reorder demo_clock 0 (Some demo_sta) demo_hdr 0 (demo_desc 0 0 0x0300B00A) 7 (driver (demo_run 10))
      = Some (True, demo_stored, [])"
    using demo_store by (simp add: demo_run_def)
  from step_frame [OF _ this] show ?thesis by simp
qed

lemma reorder_run_ok_demo: "run_ok 1 (note_events demo_stored {#7#} {#} [] (demo_run 10))"
  by (rule reorder_step_ok [OF demo_reorder_step demo_run_ok])

theorem reorder_run_conserves_frames_witness:
  "let s' = note_events demo_stored {#7#} {#} [] (demo_run 10)
   in arrived s' = {#7#} \<and> mvm_frames (driver s') = {#7#}"
  using reorder_run_conserves_frames [OF r_into_rtranclp [of "reorder_step 1", OF demo_reorder_step] demo_run_ok]
  by (simp add: note_events_def demo_run_def)

text \<open>C30: In every reachable state the counter of a queue is the number of frames stored in its slots: it
  has not wrapped, no slot holds more than the 128 subframes of one A-MSDU, and the total stays
  below 65535 (windows of fewer than 512 slots).
\<close>

theorem reorder_counter_exact:
  assumes "(reorder_step nq)\<^sup>*\<^sup>* s s'" "run_ok nq s" "b < IWL_MAX_BAID" "q < nq"
    and "baid_map (driver s') ! b = Some bd"
  shows "let buf = reorder_buf bd ! q; base = queue_base bd buf
    in unat (num_stored buf) = size (queue_frames base (unat (buf_size buf)) (bd_entries bd)) \<and>
       unat (num_stored buf) < 65535 \<and>
       (\<forall>i < unat (buf_size buf). length (entry_frames (bd_entries bd ! (base + i))) \<le> 128)"
proof -
  have "mvm_ok nq (driver s')" using reorder_runs.inv_run [OF assms(1,2)] by (simp add: run_ok_def)
  note bd = mvm_okD [OF this assms(3,5)]
  then have b: "buf_ok (queue_base bd (reorder_buf bd ! q)) (reorder_buf bd ! q) (bd_entries bd)"
    using assms(4) by (simp add: baid_ok_def)
  then show ?thesis using num_stored_bound [OF b] slots_ok_le by (auto simp: buf_ok_def Let_def)
qed

lemma demo_stored_map: "baid_map demo_stored ! 3 \<noteq> None"
  by code_simp

theorem reorder_counter_exact_witness:
  "let bd = the (baid_map demo_stored ! 3); buf = reorder_buf bd ! 0
   in unat (num_stored buf) = size (queue_frames (queue_base bd buf) (unat (buf_size buf)) (bd_entries bd))
     \<and> unat (num_stored buf) < 65535"
proof -
  obtain bd where bd: "baid_map demo_stored ! 3 = Some bd" using demo_stored_map by blast
  show ?thesis
    using reorder_counter_exact [OF r_into_rtranclp [of "reorder_step 1", OF demo_reorder_step] demo_run_ok,
        of 3 0 bd] bd
    by (simp add: Let_def note_events_def IWL_MAX_BAID_def)
qed

text \<open>C21: The handlers always return. On consistent sessions a frame whose BAID names a session of the map
  (or none) is handled, and so are the messages between the queues as long as the stations of the
  sessions are in the station table: no loop of the release code runs forever, in particular the
  search for the next stored frame, and no array is left.
\<close>

theorem reorder_handlers_return:
  assumes "mvm_ok nq mvm" "q < nq" "stations_known mvm"
    and "unat (drop_bit IWL_RX_MPDU_REORDER_BAID_SHIFT (reorder_data desc AND IWL_RX_MPDU_REORDER_BAID_MASK)) < IWL_MAX_BAID"
  shows "iwl_mvm_reorder clk q sta hdr gp2 desc skb mvm \<noteq> None \<and> iwl_mvm_rx_queue_notif clk q n mvm \<noteq> None"
proof -
  define baid where
    "baid = unat (drop_bit IWL_RX_MPDU_REORDER_BAID_SHIFT (reorder_data desc AND IWL_RX_MPDU_REORDER_BAID_MASK))"
  have b: "baid < IWL_MAX_BAID" "length (baid_map mvm) = IWL_MAX_BAID"
    using assms by (simp_all add: mvm_ok_def baid_def)
  have "iwl_mvm_reorder clk q sta hdr gp2 desc skb mvm \<noteq> None"
  proof (cases "baid_map mvm ! baid")
    case None
    then show ?thesis using b unfolding iwl_mvm_reorder_def Let_def baid_def [symmetric]
      by (simp split: option.split)
  next
    case (Some bd)
    note bd = mvm_okD [OF assms(1) b(1) Some]
    obtain r bd' evs where "reorder_locked clk q (of_nat baid) hdr gp2 desc skb bd = Some (r, bd', evs)"
      using reorder_locked_ok [OF bd(1)] bd(2) assms(2) by metis
    then show ?thesis using b Some unfolding iwl_mvm_reorder_def Let_def baid_def [symmetric]
      by (simp split: option.split)
  qed
  moreover have "rxq_notif_action clk q n mvm \<noteq> None"
    using del_ba_returns [OF assms(1-3)] release_from_notif_returns [OF assms(1-3)]
    by (simp add: rxq_notif_action_def Let_def iwl_mvm_nssn_sync_def)
  ultimately show ?thesis by (auto simp: iwl_mvm_rx_queue_notif_def)
qed

theorem reorder_handlers_return_witness:
  "iwl_mvm_reorder demo_clock 0 (Some demo_sta) demo_hdr 0 (demo_desc 0 0 0x0300B00A) 7 (demo_mvm 10) \<noteq> None"
proof -
  have "stations_known (demo_mvm 10)"
    unfolding stations_known_def
  proof (intro allI impI)
    fix b bd assume "b < length (baid_map (demo_mvm 10)) \<and> baid_map (demo_mvm 10) ! b = Some bd"
    then have "bd = demo_session 10"
      using demo_map [of b 10] by (auto simp: demo_mvm_def [of 10] split: if_splits)
    moreover have "first_sta_id (sta_mask (demo_session 10)) < length (fw_id_to_mac_id (demo_mvm 10))" by code_simp
    ultimately show "first_sta_id (sta_mask bd) < length (fw_id_to_mac_id (demo_mvm 10))" by simp
  qed
  moreover have "unat (drop_bit IWL_RX_MPDU_REORDER_BAID_SHIFT
      (reorder_data (demo_desc 0 0 0x0300B00A) AND IWL_RX_MPDU_REORDER_BAID_MASK)) < IWL_MAX_BAID"
    by code_simp
  ultimately show ?thesis
    by (rule conjunct1 [OF reorder_handlers_return [OF demo_mvm_ok zero_less_one]])
qed

lemma first_stored_slot:
  assumes "first_stored head bs base es = Some i"
  shows "\<exists>k < unat bs. i = slot bs head k \<and> entry_frames (es ! (base + i)) \<noteq> [] \<and>
    (\<forall>j < k. entry_frames (es ! (base + slot bs head j)) = [])"
proof -
  have s: "(unat (head mod bs) + k) mod unat bs = slot bs head k" for k
    by (simp add: slot_def unat_mod_distrib mod_add_left_eq)
  obtain k where "k < unat bs" "entry_frames (es ! (base + slot bs head k)) \<noteq> []" "i = slot bs head k"
    "\<forall>j < k. entry_frames (es ! (base + slot bs head j)) = []"
    using assms by (auto simp: first_stored_def find_Some_iff s)
  then show ?thesis by blast
qed

lemma release_set_timer_effect:
  assumes "release_set_timer clk base buf es = Some buf'"
  shows "(if num_stored buf' \<noteq> 0 \<and> \<not> removed buf' then
      \<exists>k < unat (buf_size buf'). let i = slot (buf_size buf') (head_sn buf') k in
        entry_frames (es ! (base + i)) \<noteq> [] \<and>
        (\<forall>j < k. entry_frames (es ! (base + slot (buf_size buf') (head_sn buf') j)) = []) \<and>
        reorder_timer buf' = Some (entry_time (es ! (base + i)) + 1 + reorder_tmo clk)
     else reorder_timer buf' = None)"
proof (cases "num_stored buf \<noteq> 0 \<and> \<not> removed buf")
  case True
  then obtain i where i: "first_stored (head_sn buf) (buf_size buf) base es = Some i"
    "buf' = buf\<lparr>reorder_timer := Some (entry_time (es ! (base + i)) + 1 + reorder_tmo clk)\<rparr>"
    using assms by (auto simp: release_set_timer_def split: option.splits)
  show ?thesis using first_stored_slot [OF i(1)] True by (auto simp: i(2) Let_def)
next
  case False
  then have "buf' = buf\<lparr>reorder_timer := None\<rparr>"
    using assms by (auto simp: release_set_timer_def split: if_splits)
  then show ?thesis using False by simp
qed

lemma release_buf_timer:
  "release_buf clk send sy baid base nssn buf es = Some (buf', es', evs) \<Longrightarrow>
   \<exists>b. release_set_timer clk base b es' = Some buf'"
  by (auto simp: release_buf_def Let_def split: if_splits prod.splits)

text \<open>After a release the timer of the queue is armed exactly when frames remain in the buffer (and
  the session is not being removed), and then for the first stored frame from the head on: its
  arrival time plus the timeout plus one.
\<close>

theorem release_arms_timer:
  assumes "q < length (reorder_buf bd)"
    and "iwl_mvm_release_frames clk send sy q nssn bd = Some (bd', evs)"
  shows "let buf = reorder_buf bd' ! q; base = queue_base bd (reorder_buf bd ! q) in
    (if num_stored buf \<noteq> 0 \<and> \<not> removed buf then
      \<exists>k < unat (buf_size buf). let i = slot (buf_size buf) (head_sn buf) k in
        entry_frames (bd_entries bd' ! (base + i)) \<noteq> [] \<and>
        (\<forall>j < k. entry_frames (bd_entries bd' ! (base + slot (buf_size buf) (head_sn buf) j)) = []) \<and>
        reorder_timer buf = Some (entry_time (bd_entries bd' ! (base + i)) + 1 + reorder_tmo clk)
     else reorder_timer buf = None)"
proof -
  let ?b = "reorder_buf bd ! q"
  obtain buf' where r: "release_buf clk send sy (bd_baid bd) (queue_base bd ?b) nssn ?b (bd_entries bd)
      = Some (buf', bd_entries bd', evs)" "bd' = bd\<lparr>reorder_buf := (reorder_buf bd)[q := buf'], bd_entries := bd_entries bd'\<rparr>"
    using assms(2) by (auto simp: iwl_mvm_release_frames_def Let_def)
  have b: "reorder_buf bd' ! q = buf'" using assms(1) by (subst r(2)) simp
  obtain b0 where "release_set_timer clk (queue_base bd ?b) b0 (bd_entries bd') = Some buf'"
    using release_buf_timer [OF r(1)] by blast
  from release_set_timer_effect [OF this] show ?thesis unfolding Let_def b .
qed

theorem release_arms_timer_witness:
  "let bd = the (baid_map demo_stored ! 3); bd' = fst (the (iwl_mvm_release_frames demo_clock True False 0 10 bd))
   in reorder_timer (reorder_buf bd' ! 0) = Some 111 \<and> num_stored (reorder_buf bd' ! 0) = 1"
proof -
  have r: "0 < length (reorder_buf (the (baid_map demo_stored ! 3)))"
    "iwl_mvm_release_frames demo_clock True False 0 10 (the (baid_map demo_stored ! 3))
      = Some (the (baid_map demo_stored ! 3), [])"
    by code_simp+
  have "num_stored (reorder_buf (the (baid_map demo_stored ! 3)) ! 0) = 1"
    "reorder_timer (reorder_buf (the (baid_map demo_stored ! 3)) ! 0) = Some 111"
    by code_simp+
  then show ?thesis using release_arms_timer [OF r] by (simp add: r(2) Let_def)
qed

text \<open>The branch that releases frames for a block-ack request is never reached: the test for the
  presence of data before it already sends every such frame past the reorder buffer.
\<close>

theorem bar_never_releases:
  assumes "ieee80211_is_back_req (frame_control hdr)"
  shows "iwl_mvm_reorder clk q sta hdr gp2 desc skb mvm = Some (False, mvm, [])"
proof -
  let ?fc = "frame_control hdr"
  have "?fc AND 0xc = (?fc AND 0xfc) AND 0xc" "?fc AND 0xc = (?fc AND 0x4c) AND 0xc"
    by (simp_all add: and.assoc)
  moreover have "?fc AND 0xfc = 0x84" using assms by (simp add: hdr_simps)
  ultimately have "?fc AND 0x4c \<noteq> 8" by auto
  then have "\<not> ieee80211_is_data_present ?fc" by (simp add: hdr_simps)
  then show ?thesis using assms by (simp add: iwl_mvm_reorder_def Let_def split: option.split)
qed

theorem bar_never_releases_witness:
  "iwl_mvm_reorder demo_clock 0 (Some demo_sta) (demo_hdr\<lparr>frame_control := 0x84\<rparr>) 0
     (demo_desc 0 0 0x0300F00E) 7 demo_stored = Some (False, demo_stored, [])"
proof -
  have "ieee80211_is_back_req (frame_control (demo_hdr\<lparr>frame_control := 0x84\<rparr>))" by code_simp
  then show ?thesis by (rule bar_never_releases)
qed

text \<open>A descriptor whose 7-bit BAID is 32 or more, but not the invalid one, makes the handler read
  outside its map of sessions: unlike the release notification, it does not compare the BAID with the
  size of the map.
\<close>

theorem reorder_baid_outside_map:
  assumes "length (baid_map mvm) = IWL_MAX_BAID"
    and "let baid = unat (drop_bit IWL_RX_MPDU_REORDER_BAID_SHIFT (reorder_data desc AND IWL_RX_MPDU_REORDER_BAID_MASK))
         in IWL_MAX_BAID \<le> baid \<and> baid \<noteq> IWL_RX_REORDER_DATA_INVALID_BAID"
    and "ieee80211_is_data_qos (frame_control hdr)" "ieee80211_is_data_present (frame_control hdr)"
    and "\<not> is_multicast_ether_addr (addr1 hdr)"
  shows "iwl_mvm_reorder clk q (Some st) hdr gp2 desc skb mvm = None \<and>
    iwl_mvm_release_frames_from_notif clk
      (unat (drop_bit IWL_RX_MPDU_REORDER_BAID_SHIFT (reorder_data desc AND IWL_RX_MPDU_REORDER_BAID_MASK)))
      nssn q sy mvm = Some (mvm, [])"
  using assms unfolding Let_def iwl_mvm_reorder_def iwl_mvm_release_frames_from_notif_def by simp

theorem reorder_baid_outside_map_witness:
  "iwl_mvm_reorder demo_clock 0 (Some demo_sta) demo_hdr 0 (demo_desc 0 0 0x2000B00A) 7 (demo_mvm 10) = None"
proof -
  have "length (baid_map (demo_mvm 10)) = IWL_MAX_BAID"
    "let baid = unat (drop_bit IWL_RX_MPDU_REORDER_BAID_SHIFT
        (reorder_data (demo_desc 0 0 0x2000B00A) AND IWL_RX_MPDU_REORDER_BAID_MASK))
     in IWL_MAX_BAID \<le> baid \<and> baid \<noteq> IWL_RX_REORDER_DATA_INVALID_BAID"
    "ieee80211_is_data_qos (frame_control demo_hdr)" "ieee80211_is_data_present (frame_control demo_hdr)"
    "\<not> is_multicast_ether_addr (addr1 demo_hdr)"
    by code_simp+
  from reorder_baid_outside_map [OF this] show ?thesis by blast
qed

text \<open>A subframe of an A-MSDU that is not the last one is never released and never changes the reorder
  timer: stored in an empty buffer, it stays there without a timer until another frame, a release
  notification or the removal of the session comes.
\<close>

theorem partial_amsdu_leaves_timer:
  assumes "q < length (reorder_buf bd)"
    and "reorder_tail clk q baid True False sub sn nssn skb bd = Some (r, bd', evs)"
  shows "reorder_timer (reorder_buf bd' ! q) = reorder_timer (reorder_buf bd ! q) \<and> passed evs = []"
proof -
  let ?b = "reorder_buf bd ! q"
  have "(bd' = bd \<or> (\<exists>buf es. reorder_store clk (queue_base bd ?b) True sub sn skb ?b (bd_entries bd) = Some (buf, es) \<and>
      bd' = (set_rb q buf bd)\<lparr>bd_entries := es\<rparr>)) \<and> passed evs = []"
    using assms(2) unfolding reorder_tail_def Let_def by (auto split: if_splits option.splits)
  then show ?thesis
    using assms(1) by (auto simp: reorder_store_def Let_def split: if_splits)
qed

theorem partial_amsdu_leaves_timer_witness:
  "let bd' = fst (snd (the (reorder_tail demo_clock 0 3 True False 0 11 10 7 (demo_session 10))))
   in num_stored (reorder_buf bd' ! 0) = 1 \<and> reorder_timer (reorder_buf bd' ! 0) = None"
proof -
  let ?res = "the (reorder_tail demo_clock 0 3 True False 0 11 10 7 (demo_session 10))"
  have r: "0 < length (reorder_buf (demo_session 10))"
    "reorder_tail demo_clock 0 3 True False 0 11 10 7 (demo_session 10) = Some (True, fst (snd ?res), [])"
    by code_simp+
  have "num_stored (reorder_buf (fst (snd ?res)) ! 0) = 1" "reorder_timer (reorder_buf (demo_session 10) ! 0) = None"
    by code_simp+
  then show ?thesis using partial_amsdu_leaves_timer [OF r] unfolding Let_def by metis
qed

text \<open>
  The tracking of old sequence numbers over a sequence of A-MPDUs (their GP2 times), each with the
  old-SN flag.
\<close>

fun oldsn_run :: "u8 \<Rightarrow> u32 \<Rightarrow> u32 list \<Rightarrow> reorder_buffer \<Rightarrow> reorder_buffer \<times> 'f rx_event list" where
  "oldsn_run tid reorder [] buf = (buf, [])"
| "oldsn_run tid reorder (gp2 # gs) buf =
     (let (buf, evs) = iwl_mvm_oldsn_workaround tid reorder gp2 buf;
          (buf, evs') = oldsn_run tid reorder gs buf
      in (buf, evs @ evs'))"

lemma oldsn_step:
  assumes "tst reorder IWL_RX_MPDU_REORDER_BA_OLD_SN" "gp2 \<noteq> consec_oldsn_ampdu_gp2 buf"
    and "consec_oldsn_prev_drop buf \<or> consec_oldsn_drops buf = 0" "unat (consec_oldsn_drops buf) < 20"
  shows "iwl_mvm_oldsn_workaround tid reorder gp2 buf =
    (if consec_oldsn_drops buf = 19
     then (buf\<lparr>consec_oldsn_ampdu_gp2 := gp2, consec_oldsn_prev_drop := False, consec_oldsn_drops := 0\<rparr>, [Stop_ba tid])
     else (buf\<lparr>consec_oldsn_ampdu_gp2 := gp2, consec_oldsn_prev_drop := True,
               consec_oldsn_drops := consec_oldsn_drops buf + 1\<rparr>, []))"
proof -
  have "consec_oldsn_drops buf + 1 = 20 \<longleftrightarrow> consec_oldsn_drops buf = 19"
    by (simp add: eq_diff_eq [symmetric])
  then show ?thesis
    using assms
    by (cases "consec_oldsn_prev_drop buf")
       (simp_all add: iwl_mvm_oldsn_workaround_def Let_def IWL_MVM_AMPDU_CONSEC_DROPS_DELBA_def)
qed

lemma oldsn_count:
  assumes "tst reorder IWL_RX_MPDU_REORDER_BA_OLD_SN"
  shows "distinct_adj (consec_oldsn_ampdu_gp2 buf # gs) \<Longrightarrow>
    consec_oldsn_prev_drop buf \<or> consec_oldsn_drops buf = 0 \<Longrightarrow>
    unat (consec_oldsn_drops buf) + length gs < 20 \<Longrightarrow>
    oldsn_run tid reorder gs buf =
      (buf\<lparr>consec_oldsn_ampdu_gp2 := last (consec_oldsn_ampdu_gp2 buf # gs),
           consec_oldsn_prev_drop := consec_oldsn_prev_drop buf \<or> gs \<noteq> [],
           consec_oldsn_drops := consec_oldsn_drops buf + of_nat (length gs)\<rparr>, [] :: 'f rx_event list)"
proof (induction gs arbitrary: buf)
  case (Cons g gs)
  let ?b = "buf\<lparr>consec_oldsn_ampdu_gp2 := g, consec_oldsn_prev_drop := True,
    consec_oldsn_drops := consec_oldsn_drops buf + 1\<rparr>"
  have "consec_oldsn_drops buf \<noteq> 19" using Cons.prems(3) by auto
  then have s: "iwl_mvm_oldsn_workaround tid reorder g buf = (?b, [] :: 'f rx_event list)"
    using \<open>consec_oldsn_drops buf \<noteq> 19\<close> Cons.prems by (subst oldsn_step [OF assms]) auto
  have "unat (consec_oldsn_drops buf + 1) = unat (consec_oldsn_drops buf) + 1"
    using Cons.prems(3) by (simp add: unat_word_ariths)
  then have "oldsn_run tid reorder gs ?b = (?b\<lparr>consec_oldsn_ampdu_gp2 := last (g # gs),
      consec_oldsn_drops := consec_oldsn_drops buf + 1 + of_nat (length gs)\<rparr>, [] :: 'f rx_event list)"
    using Cons.IH [of ?b] Cons.prems by simp
  then show ?case by (simp add: s add.assoc add.commute)
qed simp

lemma oldsn_run_append:
  "oldsn_run tid reorder (gs @ hs) buf =
     (let (b1, evs1) = oldsn_run tid reorder gs buf; (b2, evs2) = oldsn_run tid reorder hs b1
      in (b2, evs1 @ evs2))"
  by (induction gs arbitrary: buf) (simp_all add: Let_def split: prod.split)

text \<open>Twenty consecutive A-MPDUs with outdated sequence numbers stop the block-ack session, and fewer do
  not: starting from a cleared counter, a run of twenty A-MPDUs (with GP2 times different from one to
  the next) gives one request to stop the session and clears the state; a shorter run only counts.
\<close>

theorem oldsn_twenty_ampdus_stop_ba:
  assumes "tst reorder IWL_RX_MPDU_REORDER_BA_OLD_SN" "distinct_adj (consec_oldsn_ampdu_gp2 buf # gs)"
    and "consec_oldsn_drops buf = 0" "length gs \<le> 20"
  shows "let (buf', evs :: 'f rx_event list) = oldsn_run tid reorder gs buf in
    (if length gs = 20 then evs = [Stop_ba tid] \<and> consec_oldsn_drops buf' = 0 \<and> \<not> consec_oldsn_prev_drop buf'
     else evs = [] \<and> consec_oldsn_drops buf' = of_nat (length gs))"
proof (cases "length gs = 20")
  case False
  then show ?thesis using assms by (simp add: oldsn_count [OF assms(1,2)])
next
  case True
  then obtain hs g where g: "gs = hs @ [g]" by (metis length_greater_0_conv rev_exhaust zero_less_numeral)
  have h: "length hs = 19" using True g by simp
  let ?b = "buf\<lparr>consec_oldsn_ampdu_gp2 := last (consec_oldsn_ampdu_gp2 buf # hs),
    consec_oldsn_prev_drop := True, consec_oldsn_drops := 19\<rparr>"
  have d: "distinct_adj (consec_oldsn_ampdu_gp2 buf # hs)" "g \<noteq> last (consec_oldsn_ampdu_gp2 buf # hs)"
    using assms(2) distinct_adj_append_iff [of "consec_oldsn_ampdu_gp2 buf # hs" "[g]"] by (auto simp: g)
  have "hs \<noteq> []" using h by auto
  then have "oldsn_run tid reorder hs buf = (?b, [] :: 'f rx_event list)"
    using assms(3) h by (simp add: oldsn_count [OF assms(1) d(1)])
  moreover have "iwl_mvm_oldsn_workaround tid reorder g ?b
      = (?b\<lparr>consec_oldsn_ampdu_gp2 := g, consec_oldsn_prev_drop := False, consec_oldsn_drops := 0\<rparr>, [Stop_ba tid :: 'f rx_event])"
    using d(2) by (subst oldsn_step [OF assms(1)]) simp_all
  ultimately show ?thesis using True by (simp add: g oldsn_run_append)
qed

theorem oldsn_twenty_ampdus_stop_ba_witness:
  "snd (oldsn_run 5 0x80000000 (map of_nat [1..<21]) (demo_buffer 10) :: _ \<times> nat rx_event list) = [Stop_ba 5]"
proof -
  have "tst 0x80000000 IWL_RX_MPDU_REORDER_BA_OLD_SN"
    "distinct_adj (consec_oldsn_ampdu_gp2 (demo_buffer 10) # map of_nat [1..<21])"
    "consec_oldsn_drops (demo_buffer 10) = 0" "length (map of_nat [1..<21] :: u32 list) \<le> 20"
    by code_simp+
  from oldsn_twenty_ampdus_stop_ba [OF this, where ?'f = nat, of 5] show ?thesis by (simp add: case_prod_beta)
qed

end
