(* ===== verification/Reorder_Order.thy ===== *)
theory Reorder_Order
  imports Reorder_Run
begin

text \<open>
  The reorder buffer as a window over sequence numbers: releasing up to a sequence number shifts the
  window and delivers what falls out of it, removal of a session empties it, and a queue whose
  firmware keeps to the window delivers its frames in the order of their sequence numbers.
\<close>

unbundle bit_operations_syntax

section \<open>The window\<close>

text \<open>The frames of the sequence numbers from the head on.\<close>

definition window :: "'f baid_data \<Rightarrow> nat \<Rightarrow> 'f list list" where
  "window bd q =
     (let b = reorder_buf bd ! q in
      map (\<lambda>k. entry_frames (bd_entries bd ! (queue_base bd b + slot (buf_size b) (head_sn b) k)))
        [0..<unat (buf_size b)])"

text \<open>What releasing \<open>d\<close> sequence numbers means for the window.\<close>

definition shift_window :: "nat \<Rightarrow> 'f list list \<Rightarrow> 'f list \<times> 'f list list" where
  "shift_window d w = (concat (take d w), drop d w @ replicate d [])"

lemma length_window [simp]: "length (window bd q) = unat (buf_size (reorder_buf bd ! q))"
  by (simp add: window_def Let_def)

lemma slot_dist: "unat bs dvd 4096 \<Longrightarrow> slot bs b k = slot bs a (sn_dist a b + k)"
proof -
  assume d: "unat bs dvd 4096"
  have "int (sn_dist a b) mod int (unat bs) = (uint b - uint a) mod int (unat bs)"
    using d by (simp only: sn_dist_int) (metis int_dvd_int_iff mod_mod_cancel of_nat_numeral)
  then have "(int (unat a) + (int (sn_dist a b) + int k)) mod int (unat bs)
      = (int (unat a) + ((uint b - uint a) + int k)) mod int (unat bs)"
    by (metis mod_add_cong)
  then have "int ((unat a + (sn_dist a b + k)) mod unat bs) = int ((unat b + k) mod unat bs)"
    by (simp add: zmod_int)
  then show ?thesis by (simp add: slot_def)
qed

lemma slot_period: "slot bs a (unat bs + k) = slot bs a k"
  by (simp add: slot_def) (metis add.left_commute mod_add_self1)

lemma release_loop_exact:
  assumes bs: "unat bs dvd 4096" "bs \<noteq> 0" "unat bs < 2048" and len: "base + unat bs \<le> length es"
    and d: "sn_dist ssn nssn \<le> unat bs"
    and r: "release_loop send baid q bs nssn base ssn es num = (es', num', evs)"
  shows "passed evs = concat (map (\<lambda>k. entry_frames (es ! (base + slot bs ssn k))) [0..<sn_dist ssn nssn]) \<and>
    (\<forall>k < unat bs. entry_frames (es' ! (base + slot bs ssn k))
       = (if k < sn_dist ssn nssn then [] else entry_frames (es ! (base + slot bs ssn k))))"
  using len d r
proof (induction "sn_dist ssn nssn" arbitrary: ssn es num es' num' evs)
  case 0
  then have "\<not> iwl_mvm_is_sn_less ssn nssn bs" by (simp add: iwl_mvm_is_sn_less_iff [OF bs(3)])
  then have "es' = es" "evs = []" using 0(4) by (simp_all add: release_loop.simps [of _ _ _ bs])
  then show ?case using 0(1) by simp
next
  case (Suc d)
  let ?i = "base + slot bs ssn 0"
  define es1 where "es1 = es[?i := (es ! ?i)\<lparr>entry_frames := []\<rparr>]"
  have less: "iwl_mvm_is_sn_less ssn nssn bs"
    using Suc.hyps(2) Suc.prems(2) by (simp add: iwl_mvm_is_sn_less_iff [OF bs(3)])
  have d': "sn_dist (ieee80211_sn_inc ssn) nssn = d" using Suc.hyps(2) sn_dist_inc [of ssn nssn] by simp
  obtain num1 sync evs2 where rec:
    "release_loop send baid q bs nssn base (ieee80211_sn_inc ssn) es1 num1 = (es', num', evs2)"
    "evs = sync @ map (Pass q) (entry_frames (es ! ?i)) @ evs2" "passed sync = []"
    using Suc.prems(3) less
    by (subst (asm) release_loop.simps)
       (auto simp: Let_def slot_0 es1_def split: prod.splits if_splits)
  have i: "slot bs ssn 0 < unat bs" by (rule slot_less [OF bs(2)])
  have other: "entry_frames (es1 ! (base + slot bs ssn k))
      = (if k = 0 then [] else entry_frames (es ! (base + slot bs ssn k)))" if "k < unat bs" for k
    using that slot_inj [of k bs 0 ssn] i Suc.prems(1) by (auto simp: es1_def nth_list_update)
  have IH: "passed evs2 = concat (map (\<lambda>k. entry_frames (es1 ! (base + slot bs (ieee80211_sn_inc ssn) k))) [0..<d])"
    "\<forall>k < unat bs. entry_frames (es' ! (base + slot bs (ieee80211_sn_inc ssn) k))
       = (if k < d then [] else entry_frames (es1 ! (base + slot bs (ieee80211_sn_inc ssn) k)))"
    using Suc.hyps(1) [of "ieee80211_sn_inc ssn" es1, OF _ _ _ rec(1)] d' Suc.prems(1,2) Suc.hyps(2)
    by (simp_all add: es1_def)
  have m: "map (\<lambda>k. entry_frames (es1 ! (base + slot bs (ieee80211_sn_inc ssn) k))) [0..<d]
      = map (\<lambda>k. entry_frames (es ! (base + slot bs ssn (Suc k)))) [0..<d]"
    using other Suc.prems(2) Suc.hyps(2) by (intro map_cong) (simp_all add: slot_inc [OF bs(1)])
  have "[0..<Suc d] = 0 # map Suc [0..<d]" by (simp add: map_Suc_upt upt_conv_Cons del: upt_Suc)
  then have "passed evs = concat (map (\<lambda>k. entry_frames (es ! (base + slot bs ssn k))) [0..<Suc d])"
    using rec(2,3) IH(1) [unfolded m] by (simp add: o_def del: upt_Suc)
  moreover have "entry_frames (es' ! (base + slot bs ssn k))
      = (if k < Suc d then [] else entry_frames (es ! (base + slot bs ssn k)))" if k: "k < unat bs" for k
  proof (cases k)
    case 0
    have s: "slot bs ssn 0 = slot bs (ieee80211_sn_inc ssn) (unat bs - 1)"
      using slot_period [of bs ssn 0] k by (simp add: slot_inc [OF bs(1)])
    have "entry_frames (es' ! (base + slot bs ssn 0)) = []"
      using IH(2) k other [of 0] i s by (metis Suc_pred' bot_nat_0.not_eq_extremum lessI not_less0)
    then show ?thesis using 0 by simp
  next
    case (Suc j)
    then show ?thesis using IH(2) k other [of k] by (simp add: slot_inc [OF bs(1), symmetric])
  qed
  ultimately show ?case using Suc.hyps(2) by simp
qed

section \<open>Releases shift the window\<close>

lemma release_frames_exact:
  assumes ok: "baid_ok bd" and q: "q < length (reorder_buf bd)"
    and bs: "unat (buf_size (reorder_buf bd ! q)) dvd 4096"
    and d: "sn_dist (head_sn (reorder_buf bd ! q)) nssn \<le> unat (buf_size (reorder_buf bd ! q))"
  shows "\<exists>bd' evs. iwl_mvm_release_frames clk send sy q nssn bd = Some (bd', evs) \<and>
    (passed evs, window bd' q) = shift_window (sn_dist (head_sn (reorder_buf bd ! q)) nssn) (window bd q) \<and>
    head_sn (reorder_buf bd' ! q) = nssn"
proof -
  let ?b = "reorder_buf bd ! q"
  let ?bs = "buf_size ?b" and ?h = "head_sn ?b" and ?base = "queue_base bd ?b"
  let ?d = "sn_dist ?h nssn"
  have b: "buf_ok ?base ?b (bd_entries bd)" using ok q by (simp add: baid_ok_def)
  then have bs': "?bs \<noteq> 0" "unat ?bs < 2048" "?base + unat ?bs \<le> length (bd_entries bd)"
    by (simp_all add: buf_ok_def)
  have fwd: "\<not> ieee80211_sn_less nssn ?h" "\<not> iwl_mvm_is_sn_less nssn ?h ?bs"
    using d bs' b sn_dist_rev [of nssn ?h] by (auto simp: ieee80211_sn_less_iff iwl_mvm_is_sn_less_def buf_ok_def split: if_splits)
  obtain es' num' evs where l:
    "release_loop send (bd_baid bd) (rb_queue ?b) ?bs nssn ?base ?h (bd_entries bd) (num_stored ?b) = (es', num', evs)"
    by (metis prod_cases3)
  note e = release_loop_exact [OF bs bs'(1,2,3) d l]
  obtain bd' evs0 where r: "iwl_mvm_release_frames clk send sy q nssn bd = Some (bd', evs0)"
    using release_frames_ok [OF ok q] by blast
  then obtain b0 where b0: "release_set_timer clk ?base (?b\<lparr>num_stored := num', head_sn := nssn\<rparr>) es' = Some b0"
    "bd' = bd\<lparr>reorder_buf := (reorder_buf bd)[q := b0], bd_entries := es'\<rparr>" "evs0 = evs"
    using fwd l by (auto simp: iwl_mvm_release_frames_def Let_def release_buf_def)
  have f: "head_sn b0 = nssn" "buf_size b0 = ?bs" "rb_queue b0 = rb_queue ?b"
    using b0(1) by (auto simp: release_set_timer_def split: if_splits option.splits)
  have w': "window bd' q = map (\<lambda>k. entry_frames (es' ! (?base + slot ?bs nssn k))) [0..<unat ?bs]"
    using q by (simp add: window_def Let_def b0(2) queue_base_def f)
  have w: "window bd q ! k = entry_frames (bd_entries bd ! (?base + slot ?bs ?h k))" if "k < unat ?bs" for k
    using that by (simp add: window_def Let_def)
  have "window bd' q = drop ?d (window bd q) @ replicate ?d []"
  proof (rule nth_equalityI)
    show "length (window bd' q) = length (drop ?d (window bd q) @ replicate ?d [])"
      using d by (simp add: w')
    fix k assume "k < length (window bd' q)"
    then have k: "k < unat ?bs" by (simp add: w')
    have s: "slot ?bs nssn k = slot ?bs ?h (?d + k)" by (rule slot_dist [OF bs])
    show "window bd' q ! k = (drop ?d (window bd q) @ replicate ?d []) ! k"
    proof (cases "?d + k < unat ?bs")
      case True
      then have "k < unat ?bs - ?d" by linarith
      then show ?thesis using True e k s by (simp add: w' nth_append w)
    next
      case False
      then have "slot ?bs nssn k = slot ?bs ?h (?d + k - unat ?bs)"
        using slot_period [of ?bs ?h "?d + k - unat ?bs"] by (simp add: s)
      moreover have j: "?d + k - unat ?bs < ?d" "?d + k - unat ?bs < unat ?bs" using k d False by linarith+
      ultimately have "window bd' q ! k = []" using e k by (simp add: w')
      moreover have "\<not> k < unat ?bs - ?d" using False by linarith
      ultimately show ?thesis using d k by (simp add: nth_append)
    qed
  qed
  moreover have "passed evs = concat (take ?d (window bd q))"
    using e d by (simp add: window_def Let_def take_map)
  ultimately show ?thesis using r q f by (simp add: shift_window_def b0)
qed

lemma window_frames:
  assumes "baid_ok bd" "q < length (reorder_buf bd)"
  shows "mset (concat (window bd q))
    = queue_frames (queue_base bd (reorder_buf bd ! q)) (unat (buf_size (reorder_buf bd ! q))) (bd_entries bd)"
proof -
  let ?b = "reorder_buf bd ! q"
  let ?n = "unat (buf_size ?b)" and ?base = "queue_base bd ?b"
  let ?fr = "\<lambda>i. mset (entry_frames (bd_entries bd ! (?base + i)))"
  have b: "buf_size ?b \<noteq> 0" "?base + ?n \<le> length (bd_entries bd)"
    using assms by (simp_all add: baid_ok_def buf_ok_def)
  have "inj_on (slot (buf_size ?b) (head_sn ?b)) {0..<?n}" by (auto intro!: inj_onI dest: slot_inj)
  moreover have "slot (buf_size ?b) (head_sn ?b) ` {0..<?n} = {0..<?n}"
    using slot_less [OF b(1)] slot_surj [of _ "buf_size ?b" "head_sn ?b"] by (force simp: image_iff)
  ultimately have perm: "image_mset (slot (buf_size ?b) (head_sn ?b)) (mset [0..<?n]) = mset [0..<?n]"
    by (metis image_mset_mset_set mset_upt)
  have "take ?n (drop ?base (bd_entries bd)) = map (\<lambda>i. bd_entries bd ! (?base + i)) [0..<?n]"
    using b(2) by (intro nth_equalityI) simp_all
  then have "queue_frames ?base ?n (bd_entries bd) = (\<Sum>i\<in>#mset [0..<?n]. ?fr i)"
    by (simp add: queue_frames_def all_frames_def mset_concat sum_mset_sum_list [symmetric] o_def)
  also have "\<dots> = (\<Sum>k\<in>#mset [0..<?n]. ?fr (slot (buf_size ?b) (head_sn ?b) k))"
    by (subst perm [symmetric]) (simp add: image_mset.compositionality o_def)
  also have "\<dots> = mset (concat (window bd q))"
    by (simp add: window_def Let_def mset_concat sum_mset_sum_list [symmetric] o_def)
  finally show ?thesis by simp
qed

lemma num_stored_window:
  assumes "baid_ok bd" "q < length (reorder_buf bd)"
  shows "unat (num_stored (reorder_buf bd ! q)) = length (concat (window bd q))"
proof -
  have "buf_ok (queue_base bd (reorder_buf bd ! q)) (reorder_buf bd ! q) (bd_entries bd)"
    using assms by (simp add: baid_ok_def)
  then show ?thesis unfolding buf_ok_def window_frames [OF assms, symmetric] by (metis size_mset)
qed


text \<open>The session with its one stored frame, in full.\<close>

definition demo_stored_session :: "nat baid_data" where
  "demo_stored_session = (demo_session 10)
     \<lparr>reorder_buf := [(demo_buffer 10)\<lparr>num_stored := 1, valid := True, reorder_timer := Some 111\<rparr>],
      bd_entries := (bd_entries (demo_session 10))[3 := \<lparr>entry_frames = [7], entry_time = 100\<rparr>]\<rparr>"

lemma demo_stored_map3: "baid_map demo_stored ! 3 = Some demo_stored_session"
  by code_simp

lemma demo_stored_ok: "mvm_ok 1 demo_stored"
  using reorder_run_ok_demo by (simp add: note_events_def run_ok_def)

lemma demo_stored_session_ok: "baid_ok demo_stored_session"
  using mvm_okD(1) [OF demo_stored_ok _ demo_stored_map3] by (simp add: IWL_MAX_BAID_def)


lemma shift_window_all: "shift_window (length w) w = (concat w, replicate (length w) [])"
  by (simp add: shift_window_def)

lemma sn_dist_add_self: "n < 4096 \<Longrightarrow> sn_dist a (ieee80211_sn_add a (of_nat n)) = n"
proof -
  assume n: "n < 4096"
  have "int (sn_dist a (ieee80211_sn_add a (of_nat n))) = (int ((unat a + n) mod 4096) - int (unat a)) mod 4096"
    using n by (simp add: sn_dist_int unat_sn_add [symmetric])
  also have "\<dots> = int n" using n by (simp add: zmod_int mod_diff_left_eq)
  finally show ?thesis by simp
qed

text \<open>A release on one queue leaves the other queues of the session alone.\<close>

lemma release_frames_other:
  assumes ok: "baid_ok bd" and q: "q < length (reorder_buf bd)" and p: "p < length (reorder_buf bd)" "p \<noteq> q"
    and r: "iwl_mvm_release_frames clk send sy q nssn bd = Some (bd', evs)"
  shows "reorder_buf bd' ! p = reorder_buf bd ! p \<and> window bd' p = window bd p"
proof -
  let ?b = "reorder_buf bd ! q" and ?c = "reorder_buf bd ! p" and ?e = "unat (entries_per_queue bd)"
  have b: "rb_queue ?b = q" "unat (buf_size ?b) \<le> ?e" "buf_ok (queue_base bd ?b) ?b (bd_entries bd)"
    and c: "rb_queue ?c = p" "unat (buf_size ?c) \<le> ?e" "buf_size ?c \<noteq> 0"
    using ok q p by (auto simp: baid_ok_def buf_ok_def)
  obtain buf' es' where e: "bd' = bd\<lparr>reorder_buf := (reorder_buf bd)[q := buf'], bd_entries := es'\<rparr>"
    "\<forall>i. i < queue_base bd ?b \<or> queue_base bd ?b + unat (buf_size ?b) \<le> i \<longrightarrow> es' ! i = bd_entries bd ! i"
    using r release_buf_ok [OF b(3), of clk send sy "bd_baid bd" nssn]
    by (auto simp: iwl_mvm_release_frames_def Let_def)
  have "es' ! (queue_base bd ?c + slot (buf_size ?c) (head_sn ?c) k) =
      bd_entries bd ! (queue_base bd ?c + slot (buf_size ?c) (head_sn ?c) k)" for k
  proof -
    have "slot (buf_size ?c) (head_sn ?c) k < unat (buf_size ?c)" using c(3) by (rule slot_less)
    then have "queue_base bd ?c + slot (buf_size ?c) (head_sn ?c) k < q * ?e \<or>
        q * ?e + unat (buf_size ?b) \<le> queue_base bd ?c + slot (buf_size ?c) (head_sn ?c) k"
      using p(2) b(2) c(2)
      by (intro queue_slices_apart [of p q _ ?e "unat (buf_size ?c)"]) (simp_all add: queue_base_def c(1))
    moreover have "queue_base bd ?b = q * ?e" by (simp add: queue_base_def b(1))
    ultimately show ?thesis using e(2) by metis
  qed
  then show ?thesis using p by (simp add: e(1) window_def Let_def queue_base_def)
qed

lemma del_ba_effect:
  assumes "mvm_ok nq mvm" "q < nq" "unat baid < IWL_MAX_BAID" "baid_map mvm ! unat baid = Some bd"
    and "lookup_sta mvm (first_sta_id (sta_mask bd)) = Some (Some sta)"
    and "unat (buf_size (reorder_buf bd ! q)) dvd 4096"
  shows "\<exists>bd' evs. iwl_mvm_del_ba clk q baid mvm = Some (update_baid (unat baid) bd' mvm, evs) \<and>
    passed evs = concat (window bd q) \<and> freed evs = [] \<and>
    num_stored (reorder_buf bd' ! q) = 0 \<and> concat (window bd' q) = [] \<and> reorder_timer (reorder_buf bd' ! q) = None \<and>
    sta_mask bd' = sta_mask bd \<and>
    (\<forall>p < nq. p \<noteq> q \<longrightarrow> reorder_buf bd' ! p = reorder_buf bd ! p \<and> window bd' p = window bd p)"
proof -
  let ?b = "reorder_buf bd ! q"
  let ?h = "ieee80211_sn_add (head_sn ?b) (buf_size ?b)"
  note bd = mvm_okD [OF assms(1,3,4)]
  have q: "q < length (reorder_buf bd)" using bd assms(2) by simp
  have bs: "unat (buf_size ?b) < 512" using bd(1) q by (simp add: baid_ok_def buf_ok_def)
  have d: "sn_dist (head_sn ?b) ?h = unat (buf_size ?b)"
    using sn_dist_add_self [of "unat (buf_size ?b)" "head_sn ?b"] bs by simp
  obtain bd1 evs where r: "iwl_mvm_release_frames clk False False q ?h bd = Some (bd1, evs)"
    "(passed evs, window bd1 q) = shift_window (unat (buf_size ?b)) (window bd q)"
    using release_frames_exact [OF bd(1) q assms(6), of ?h clk False False] d by auto
  have k: "baid_ok bd1" "length (reorder_buf bd1) = length (reorder_buf bd)" "freed evs = []" "sta_mask bd1 = sta_mask bd"
    using release_frames_ok [OF bd(1) q, of clk False False ?h] r(1) by auto
  have sh: "passed evs = concat (window bd q)" "concat (window bd1 q) = []"
    using r(2) shift_window_all [of "window bd q"] by auto
  let ?bd = "bd1\<lparr>reorder_buf := (reorder_buf bd1)[q := (reorder_buf bd1 ! q)\<lparr>reorder_timer := None\<rparr>]\<rparr>"
  have "unat (num_stored (reorder_buf bd1 ! q)) = 0"
    using num_stored_window [OF k(1), of q] q k(2) sh(2) by simp
  then have "num_stored (reorder_buf bd1 ! q) = 0" by (simp only: unat_eq_0)
  moreover have "window ?bd q = window bd1 q"
    using q k(2) by (simp add: window_def Let_def queue_base_def)
  moreover have "reorder_buf ?bd ! p = reorder_buf bd ! p \<and> window ?bd p = window bd p" if p: "p < nq" "p \<noteq> q" for p
  proof -
    have "reorder_buf bd1 ! p = reorder_buf bd ! p \<and> window bd1 p = window bd p"
      using release_frames_other [OF bd(1) q _ p(2) r(1)] p(1) bd(2) by simp
    moreover have "window ?bd p = window bd1 p" using p(2) by (simp add: window_def Let_def queue_base_def)
    ultimately show ?thesis using p(2) by simp
  qed
  ultimately show ?thesis
    using assms r(1) sh q k by (intro exI [of _ ?bd] exI [of _ evs]) (simp add: iwl_mvm_del_ba_def Let_def)
qed

lemma demo_stored_facts:
  "lookup_sta demo_stored (first_sta_id (sta_mask demo_stored_session)) = Some (Some demo_sta)"
  "unat (buf_size (reorder_buf demo_stored_session ! 0)) dvd 4096"
  "concat (window demo_stored_session 0) = [7]" "unat (3 :: u8) < IWL_MAX_BAID"
  by code_simp+

text \<open>The message that removes a session empties the queue: all frames of the window are passed to
  mac80211 in the order of the window, no frame and no timer is left.
\<close>

theorem del_ba_flushes_queue:
  assumes "mvm_ok nq mvm" "q < nq" "unat baid < IWL_MAX_BAID" "baid_map mvm ! unat baid = Some bd"
    and "lookup_sta mvm (first_sta_id (sta_mask bd)) = Some (Some sta)"
    and "unat (buf_size (reorder_buf bd ! q)) dvd 4096"
  shows "\<exists>bd' evs. iwl_mvm_del_ba clk q baid mvm = Some (update_baid (unat baid) bd' mvm, evs) \<and>
    passed evs = concat (window bd q) \<and>
    num_stored (reorder_buf bd' ! q) = 0 \<and> concat (window bd' q) = [] \<and> reorder_timer (reorder_buf bd' ! q) = None"
  using del_ba_effect [OF assms] by blast

theorem del_ba_flushes_queue_witness:
  "\<exists>bd' evs. iwl_mvm_del_ba demo_clock 0 3 demo_stored = Some (update_baid 3 bd' demo_stored, evs) \<and> passed evs = [7]"
proof -
  have b3: "unat (3 :: u8) = 3" by simp
  show ?thesis
    using demo_stored_facts del_ba_flushes_queue [OF demo_stored_ok, of 0 3 demo_stored_session demo_sta demo_clock] demo_stored_map3
    unfolding b3 by auto
qed

section \<open>Delivery in order\<close>

text \<open>
  The sequence numbers of a session, counted on instead of wrapping: \<open>sn_of i\<close> is the 12-bit number
  in the frame. Distances and comparisons of nearby numbers are those of the integers.
\<close>

definition sn_of :: "int \<Rightarrow> u16" where "sn_of i = of_int (i mod 4096)"

lemma uint_sn_of: "uint (sn_of i) = i mod 4096"
proof -
  have "i mod 4096 mod 65536 = i mod 4096"
    by (rule mod_pos_pos_trivial) (auto intro: less_trans [OF pos_mod_bound])
  then show ?thesis by (simp add: sn_of_def unsigned_of_int take_bit_eq_mod)
qed

lemma sn_dist_of: "int (sn_dist (sn_of a) (sn_of b)) = (b - a) mod 4096"
  by (simp add: sn_dist_int uint_sn_of mod_diff_eq)

lemma sn_dist_of_nat: "a \<le> b \<Longrightarrow> b < a + 4096 \<Longrightarrow> sn_dist (sn_of a) (sn_of b) = nat (b - a)"
proof -
  assume "a \<le> b" "b < a + 4096"
  then have "(b - a) mod 4096 = b - a" by (intro mod_pos_pos_trivial) simp_all
  then show ?thesis using sn_dist_of [of a b] by linarith
qed

lemma sn_less_of: "\<bar>a - b\<bar> < 2048 \<Longrightarrow> ieee80211_sn_less (sn_of a) (sn_of b) \<longleftrightarrow> a < b"
proof -
  assume n: "\<bar>a - b\<bar> < 2048"
  show ?thesis
  proof (cases "a \<le> b")
    case True
    then show ?thesis using n sn_dist_of_nat [of a b] by (auto simp: ieee80211_sn_less_iff nat_less_iff)
  next
    case False
    then have "sn_dist (sn_of b) (sn_of a) = nat (a - b)" using n by (intro sn_dist_of_nat) simp_all
    moreover have "nat (a - b) < 2048" using n by (simp add: nat_less_iff)
    ultimately show ?thesis
      using False sn_dist_rev [of "sn_of a" "sn_of b"] by (simp add: ieee80211_sn_less_iff split: if_splits)
  qed
qed

lemma sn_of_eq: "\<bar>a - b\<bar> < 4096 \<Longrightarrow> sn_of a = sn_of b \<longleftrightarrow> a = b"
proof -
  assume n: "\<bar>a - b\<bar> < 4096"
  have "sn_of a = sn_of b \<longleftrightarrow> 4096 dvd a - b" by (simp add: word_uint_eq_iff uint_sn_of mod_eq_dvd_iff)
  then show ?thesis using n dvd_imp_le_int [of "a - b" 4096] by auto
qed

lemma is_sn_less_of:
  assumes "\<bar>a - b\<bar> < 2048" "unat bs < 2048"
  shows "iwl_mvm_is_sn_less (sn_of a) (sn_of b) bs \<longleftrightarrow> a < b \<and> b \<le> a + uint bs"
proof -
  have "iwl_mvm_is_sn_less (sn_of a) (sn_of b) bs \<longleftrightarrow> a < b \<and> sn_dist (sn_of a) (sn_of b) \<le> unat bs"
    using sn_less_of [OF assms(1)] sn_dist_less [of "sn_of a" "sn_of b"]
    by (auto simp: iwl_mvm_is_sn_less_iff [OF assms(2)] ieee80211_sn_less_iff) (use assms(2) in linarith)+
  moreover have "a < b \<Longrightarrow> sn_dist (sn_of a) (sn_of b) = nat (b - a)" using assms(1) by (intro sn_dist_of_nat) simp_all
  moreover have "a < b \<Longrightarrow> nat (b - a) \<le> unat bs \<longleftrightarrow> b \<le> a + uint bs" by (simp add: nat_le_iff) linarith
  ultimately show ?thesis by auto
qed

text \<open>The end of the window, which the code does not reduce modulo 4096.\<close>

lemma sn_dist_cong: "uint a mod 4096 = uint a' mod 4096 \<Longrightarrow> uint b mod 4096 = uint b' mod 4096 \<Longrightarrow>
   sn_dist a b = sn_dist a' b'"
proof -
  assume "uint a mod 4096 = uint a' mod 4096" "uint b mod 4096 = uint b' mod 4096"
  then have "(uint b - uint a) mod 4096 = (uint b' - uint a') mod 4096" by (intro mod_diff_cong)
  then show ?thesis by (metis int_int_eq sn_dist_int)
qed

lemma sn_of_plus: "uint (sn_of i + bs) mod 4096 = uint (sn_of (i + uint bs)) mod 4096"
proof -
  have "uint (sn_of i + bs) mod 4096 = (i mod 4096 + uint bs) mod 65536 mod 4096"
    by (simp add: uint_word_ariths uint_sn_of)
  also have "\<dots> = (i mod 4096 + uint bs) mod 4096" by (simp add: mod_mod_cancel)
  finally show ?thesis by (simp add: uint_sn_of mod_add_left_eq)
qed

lemma window_end_less:
  assumes "\<bar>a - (h + uint bs)\<bar> < 2048" "unat bs < 2048"
  shows "ieee80211_sn_less (sn_of a) (sn_of h + bs) \<longleftrightarrow> a < h + uint bs"
    "iwl_mvm_is_sn_less (sn_of a) (sn_of h + bs) bs \<longleftrightarrow> a < h + uint bs \<and> h \<le> a"
proof -
  have e: "sn_dist (sn_of a) (sn_of h + bs) = sn_dist (sn_of a) (sn_of (h + uint bs))"
    by (intro sn_dist_cong) (simp_all only: sn_of_plus)
  show "ieee80211_sn_less (sn_of a) (sn_of h + bs) \<longleftrightarrow> a < h + uint bs"
    using sn_less_of [OF assms(1)] by (simp add: ieee80211_sn_less_iff e)
  show "iwl_mvm_is_sn_less (sn_of a) (sn_of h + bs) bs \<longleftrightarrow> a < h + uint bs \<and> h \<le> a"
    using is_sn_less_of [OF assms] by (auto simp: iwl_mvm_is_sn_less_iff [OF assms(2)] e)
qed

lemma sn_inc_of: "ieee80211_sn_inc (sn_of i) = sn_of (i + 1)"
proof -
  have "int (unat (ieee80211_sn_inc (sn_of i))) = (uint (sn_of i) + 1) mod 4096"
    by (simp add: unat_sn_inc zmod_int add.commute)
  also have "\<dots> = uint (sn_of (i + 1))" by (simp add: uint_sn_of mod_add_right_eq add.commute)
  finally show ?thesis by (simp add: word_uint_eq_iff)
qed

text \<open>
  A queue is in order at the running head \<open>H\<close> when each stored frame sits in the slot of its own
  sequence number and no slot holds two (the frames are not subframes of A-MSDUs).
\<close>

definition slots_in_order :: "('f \<Rightarrow> int) \<Rightarrow> int \<Rightarrow> 'f list list \<Rightarrow> bool" where
  "slots_in_order seqn H w \<longleftrightarrow>
     (\<forall>k < length w. length (w ! k) \<le> 1 \<and> (\<forall>f \<in> set (w ! k). seqn f = H + int k))"

definition in_order :: "('f \<Rightarrow> int) \<Rightarrow> nat \<Rightarrow> int \<Rightarrow> 'f baid_data \<Rightarrow> bool" where
  "in_order seqn q H bd \<longleftrightarrow> baid_ok bd \<and> q < length (reorder_buf bd) \<and>
     unat (buf_size (reorder_buf bd ! q)) dvd 4096 \<and> head_sn (reorder_buf bd ! q) = sn_of H \<and>
     slots_in_order seqn H (window bd q)"

definition sorted_between :: "('f \<Rightarrow> int) \<Rightarrow> int \<Rightarrow> int \<Rightarrow> 'f list \<Rightarrow> bool" where
  "sorted_between seqn a b fs \<longleftrightarrow>
     sorted_wrt (<) (map seqn fs) \<and> (\<forall>f \<in> set fs. a \<le> seqn f \<and> seqn f < b)"

lemma sorted_between_Nil [simp]: "sorted_between seqn a b []"
  by (simp add: sorted_between_def)

lemma sorted_between_append:
  "sorted_between seqn a b fs \<Longrightarrow> sorted_between seqn b c gs \<Longrightarrow> a \<le> b \<Longrightarrow> b \<le> c \<Longrightarrow>
   sorted_between seqn a c (fs @ gs)"
  by (fastforce simp: sorted_between_def sorted_wrt_append)

lemma slots_in_order_Cons:
  "slots_in_order seqn H (x # w) \<longleftrightarrow>
     length x \<le> 1 \<and> (\<forall>f \<in> set x. seqn f = H) \<and> slots_in_order seqn (H + 1) w"
  by (auto simp: slots_in_order_def All_less_Suc2 add.assoc)

lemma slots_in_order_append:
  "slots_in_order seqn H (u @ v) \<longleftrightarrow> slots_in_order seqn H u \<and> slots_in_order seqn (H + int (length u)) v"
proof (induction u arbitrary: H)
  case (Cons x u)
  then show ?case by (simp add: slots_in_order_Cons add.assoc)
qed (simp add: slots_in_order_def)

lemma slots_in_order_empty: "slots_in_order seqn H (replicate d [])"
  by (simp add: slots_in_order_def)

lemma slots_in_order_sorted:
  "slots_in_order seqn H w \<Longrightarrow> sorted_between seqn H (H + int (length w)) (concat w)"
proof (induction w arbitrary: H)
  case (Cons x w)
  have "sorted_between seqn (H + 1) (H + 1 + int (length w)) (concat w)"
    using Cons by (simp add: slots_in_order_Cons)
  moreover have "sorted_between seqn H (H + 1) x"
    using Cons.prems by (cases x) (auto simp: slots_in_order_Cons sorted_between_def)
  ultimately show ?case
    using sorted_between_append [of seqn H "H + 1" x "H + 1 + int (length w)" "concat w"]
    by (simp add: add.assoc)
qed simp

lemma slots_in_order_shift:
  assumes "slots_in_order seqn H w" "shift_window d w = (out, w')" "d \<le> length w"
  shows "slots_in_order seqn (H + int d) w' \<and> sorted_between seqn H (H + int d) out"
proof -
  have "slots_in_order seqn H (take d w @ drop d w)" using assms(1) by simp
  then have "slots_in_order seqn H (take d w)" "slots_in_order seqn (H + int d) (drop d w)"
    using assms(3) unfolding slots_in_order_append by simp_all
  then show ?thesis
    using slots_in_order_sorted [of seqn H "take d w"] assms(2,3) slots_in_order_empty
    by (auto simp: shift_window_def slots_in_order_append)
qed

lemma release_in_order:
  assumes io: "in_order seqn q H bd"
    and N: "H - uint (buf_size (reorder_buf bd ! q)) \<le> N" "N \<le> H + uint (buf_size (reorder_buf bd ! q))"
  shows "\<exists>bd' evs. iwl_mvm_release_frames clk send sy q (sn_of N) bd = Some (bd', evs) \<and>
    in_order seqn q (max H N) bd' \<and> buf_size (reorder_buf bd' ! q) = buf_size (reorder_buf bd ! q) \<and>
    freed evs = [] \<and> sorted_between seqn H (max H N) (passed evs)"
proof -
  let ?b = "reorder_buf bd ! q"
  have ok: "baid_ok bd" "q < length (reorder_buf bd)" "unat (buf_size ?b) dvd 4096" "head_sn ?b = sn_of H"
    "slots_in_order seqn H (window bd q)" using io by (simp_all add: in_order_def)
  have bs: "unat (buf_size ?b) < 512" using ok(1,2) by (simp add: baid_ok_def buf_ok_def)
  then have "int (unat (buf_size ?b)) < 512" by linarith
  then have ubs: "uint (buf_size ?b) < 512" by simp
  obtain bd' evs where r: "iwl_mvm_release_frames clk send sy q (sn_of N) bd = Some (bd', evs)"
    "baid_ok bd'" "length (reorder_buf bd') = length (reorder_buf bd)"
    "same_setup ?b (reorder_buf bd' ! q)" "freed evs = []"
    using release_frames_ok [OF ok(1,2), of clk send sy "sn_of N"] by blast
  show ?thesis
  proof (cases "N < H")
    case True
    then have "iwl_mvm_is_sn_less (sn_of N) (head_sn ?b) (buf_size ?b)"
      using N bs ubs by (simp add: ok(4) is_sn_less_of)
    then obtain b' where "release_set_timer clk (queue_base bd ?b) ?b (bd_entries bd) = Some b'" "evs = []"
      "bd' = bd\<lparr>reorder_buf := (reorder_buf bd)[q := b']\<rparr>"
      using r(1) by (auto simp: iwl_mvm_release_frames_def Let_def release_buf_def)
    then have "window bd' q = window bd q" "head_sn (reorder_buf bd' ! q) = head_sn ?b" "evs = []"
      using ok(2) by (auto simp: release_set_timer_def window_def queue_base_def Let_def split: if_splits option.splits)
    then show ?thesis using r ok True by (simp add: in_order_def same_setup_def)
  next
    case False
    then have d: "sn_dist (head_sn ?b) (sn_of N) = nat (N - H)"
      using N ubs by (simp add: ok(4) sn_dist_of_nat)
    moreover have le: "nat (N - H) \<le> unat (buf_size ?b)" using N False by (simp add: nat_le_iff)
    ultimately have e: "(passed evs, window bd' q) = shift_window (nat (N - H)) (window bd q)"
      "head_sn (reorder_buf bd' ! q) = sn_of N"
      using release_frames_exact [OF ok(1,2,3), of "sn_of N" clk send sy] r(1) by auto
    have "slots_in_order seqn N (window bd' q) \<and> sorted_between seqn H N (passed evs)"
      using slots_in_order_shift [OF ok(5) e(1) [symmetric]] le False by simp
    then show ?thesis using r ok False e by (simp add: in_order_def same_setup_def max_def)
  qed
qed

lemma in_order_bounds:
  assumes "in_order seqn q H bd"
  shows "unat (buf_size (reorder_buf bd ! q)) < 512" "uint (buf_size (reorder_buf bd ! q)) < 512"
    "0 < uint (buf_size (reorder_buf bd ! q))"
proof -
  show b: "unat (buf_size (reorder_buf bd ! q)) < 512"
    using assms by (simp add: in_order_def baid_ok_def buf_ok_def)
  then have "int (unat (buf_size (reorder_buf bd ! q))) < 512" by linarith
  then show "uint (buf_size (reorder_buf bd ! q)) < 512" by simp
  have "buf_size (reorder_buf bd ! q) \<noteq> 0"
    using assms by (simp add: in_order_def baid_ok_def buf_ok_def)
  then show "0 < uint (buf_size (reorder_buf bd ! q))" by (simp add: word_neq_0_conv word_less_def)
qed

text \<open>Moving the head of an empty queue, and storing a frame.\<close>

lemma in_order_empty:
  assumes "in_order seqn q H bd" "num_stored (reorder_buf bd ! q) = 0"
  shows "in_order seqn q H' (set_rb q ((reorder_buf bd ! q)\<lparr>head_sn := sn_of H'\<rparr>) bd)"
proof -
  let ?b = "reorder_buf bd ! q" and ?bd = "set_rb q ((reorder_buf bd ! q)\<lparr>head_sn := sn_of H'\<rparr>) bd"
  have ok: "baid_ok bd" "q < length (reorder_buf bd)" using assms by (simp_all add: in_order_def)
  have ok': "baid_ok ?bd" using ok by (intro baid_ok_set_rb [OF ok]) (simp_all add: same_setup_def baid_ok_def)
  have b': "reorder_buf ?bd ! q = ?b\<lparr>head_sn := sn_of H'\<rparr>" "q < length (reorder_buf ?bd)" using ok by simp_all
  have "concat (window ?bd q) = []" using num_stored_window [OF ok' b'(2)] assms(2) by (simp add: b' del: concat_eq_Nil_conv)
  then have "slots_in_order seqn H' (window ?bd q)"
    by (auto simp: slots_in_order_def) (metis nth_mem list.size(3) le0 length_window, metis nth_mem empty_iff empty_set length_window)
  then show ?thesis using assms ok' b' by (simp add: in_order_def)
qed

lemma reorder_store_plain:
  "reorder_store clk base False sub sn skb b es =
     (if entry_frames (es ! (base + unat (sn mod buf_size b))) \<noteq> [] then None
      else Some (b\<lparr>num_stored := num_stored b + 1\<rparr>,
        es[base + unat (sn mod buf_size b) :=
          (es ! (base + unat (sn mod buf_size b)))\<lparr>entry_frames := [skb], entry_time := jiffies clk\<rparr>]))"
  by (simp add: reorder_store_def Let_def)

lemma store_in_order:
  assumes io: "in_order seqn q H bd"
    and S: "seqn skb = S" "H \<le> S" "S < H + uint (buf_size (reorder_buf bd ! q))"
    and st: "reorder_store clk (queue_base bd (reorder_buf bd ! q)) False sub (sn_of S) skb (reorder_buf bd ! q)
      (bd_entries bd) = Some (buf, es)"
  shows "in_order seqn q H ((set_rb q buf bd)\<lparr>bd_entries := es\<rparr>) \<and> buf_size buf = buf_size (reorder_buf bd ! q)"
proof -
  let ?b = "reorder_buf bd ! q"
  let ?bs = "buf_size ?b" and ?base = "queue_base bd ?b" and ?k = "nat (S - H)"
  let ?bd = "(set_rb q buf bd)\<lparr>bd_entries := es\<rparr>"
  have ok: "baid_ok bd" "q < length (reorder_buf bd)" "unat ?bs dvd 4096" "head_sn ?b = sn_of H"
    "slots_in_order seqn H (window bd q)" using io by (simp_all add: in_order_def)
  note bnd = in_order_bounds [OF io]
  have k: "?k < unat ?bs" using S by (simp add: nat_less_iff)
  have slot: "unat (sn_of S mod ?bs) = slot ?bs (sn_of H) ?k"
    using slot_dist [OF ok(3), of "sn_of S" 0 "sn_of H"] S bnd by (simp add: slot_0 sn_dist_of_nat)
  have e: "es = (bd_entries bd)[?base + slot ?bs (sn_of H) ?k :=
      (bd_entries bd ! (?base + slot ?bs (sn_of H) ?k))\<lparr>entry_frames := [skb], entry_time := jiffies clk\<rparr>]"
    "buf = ?b\<lparr>num_stored := num_stored ?b + 1\<rparr>"
    using st by (auto simp: reorder_store_def Let_def slot split: if_splits)
  have st0: "reorder_store clk ?base False 0 (sn_of S) skb ?b (bd_entries bd) = Some (buf, es)"
    using st by (simp only: reorder_store_plain)
  have ok': "baid_ok ?bd" using reorder_store_session_ok [OF ok(1,2) _ st0] by simp
  have len: "?base + unat ?bs \<le> length (bd_entries bd)" "?bs \<noteq> 0" using ok(1,2) by (simp_all add: baid_ok_def buf_ok_def)
  have w: "window ?bd q ! j = (if j = ?k then [skb] else window bd q ! j)" if j: "j < unat ?bs" for j
  proof -
    have "slot ?bs (sn_of H) ?k = slot ?bs (sn_of H) j \<longleftrightarrow> j = ?k" using slot_inj [OF j k, of "sn_of H"] by auto
    moreover have "?base + slot ?bs (sn_of H) ?k < length (bd_entries bd)"
      using slot_less [OF len(2), of "sn_of H" ?k] len(1) by linarith
    moreover have "window ?bd q ! j = entry_frames (es ! (?base + slot ?bs (sn_of H) j))"
      using ok(2) j by (simp add: window_def Let_def queue_base_def set_rb_def e(2) ok(4))
    moreover have "window bd q ! j = entry_frames (bd_entries bd ! (?base + slot ?bs (sn_of H) j))"
      using j by (simp add: window_def Let_def ok(4))
    ultimately show ?thesis by (simp add: e(1) nth_list_update)
  qed
  have "slots_in_order seqn H (window ?bd q)"
    using ok(5) S(1,2) w by (auto simp: slots_in_order_def e(2) ok(2))
  then show ?thesis using ok ok' by (simp add: in_order_def e(2))
qed

text \<open>
  What the firmware promises about the next frame \<open>S\<close> and its NSSN \<open>N\<close> when the head is \<open>H\<close>: both are
  at most a window behind the head, the NSSN at most a window ahead of it, and the frame within the
  window that starts at the NSSN.
\<close>

definition in_window :: "int \<Rightarrow> u16 \<Rightarrow> int \<Rightarrow> int \<Rightarrow> bool" where
  "in_window H bs S N \<longleftrightarrow> H - uint bs \<le> N \<and> N \<le> H + uint bs \<and> H - uint bs \<le> S \<and> S < N + uint bs"

lemma tail_in_order:
  assumes io: "in_order seqn q H bd"
    and N: "H - uint (buf_size (reorder_buf bd ! q)) \<le> N" "N \<le> H + uint (buf_size (reorder_buf bd ! q))"
    and S: "seqn skb = S" "H - 2 * uint (buf_size (reorder_buf bd ! q)) \<le> S" "S < H + uint (buf_size (reorder_buf bd ! q))"
  shows "\<exists>r bd' evs H'. reorder_tail clk q baid False lst sub (sn_of S) (sn_of N) skb bd = Some (r, bd', evs) \<and>
    H \<le> H' \<and> H' \<le> H + uint (buf_size (reorder_buf bd ! q)) \<and> in_order seqn q H' bd' \<and>
    buf_size (reorder_buf bd' ! q) = buf_size (reorder_buf bd ! q) \<and>
    sorted_between seqn H H' (passed evs @ (if r then [] else [skb]))"
proof -
  let ?b = "reorder_buf bd ! q"
  let ?bs = "buf_size ?b"
  let ?tail = "reorder_tail clk q baid False lst sub (sn_of S) (sn_of N) skb bd"
  note bnd = in_order_bounds [OF io]
  have ok: "baid_ok bd" "q < length (reorder_buf bd)" "head_sn ?b = sn_of H"
    using io by (simp_all add: in_order_def)
  have less: "ieee80211_sn_less (sn_of S) (head_sn ?b) \<longleftrightarrow> S < H"
    "ieee80211_sn_less (sn_of S) (sn_of N) \<longleftrightarrow> S < N" "sn_of S = head_sn ?b \<longleftrightarrow> S = H"
  proof -
    show "ieee80211_sn_less (sn_of S) (head_sn ?b) \<longleftrightarrow> S < H" "ieee80211_sn_less (sn_of S) (sn_of N) \<longleftrightarrow> S < N"
      using S N bnd unfolding ok(3) by (intro sn_less_of; linarith)+
    show "sn_of S = head_sn ?b \<longleftrightarrow> S = H"
      using S N bnd unfolding ok(3) by (intro sn_of_eq) linarith
  qed
  let ?st = "reorder_store clk (queue_base bd ?b) False sub (sn_of S) skb ?b (bd_entries bd)"
  consider (old) "S < H" | (skip) "H \<le> S" "num_stored ?b = 0" "S < N" | (head) "num_stored ?b = 0" "\<not> S < N" "S = H"
    | (copy) "H \<le> S" "num_stored ?b \<noteq> 0 \<or> \<not> S < N \<and> S \<noteq> H" "?st = None"
    | (store) buf es where "H \<le> S" "num_stored ?b \<noteq> 0 \<or> \<not> S < N \<and> S \<noteq> H" "?st = Some (buf, es)"
    by fastforce
  then show ?thesis
  proof cases
    case old
    then have "?tail = Some (True, bd, [Free_skb skb])" by (simp add: reorder_tail_def Let_def less)
    then show ?thesis using io bnd
      by (intro exI [of _ True] exI [of _ bd] exI [of _ "[Free_skb skb]"] exI [of _ H]) simp
  next
    case skip
    have "iwl_mvm_is_sn_less (head_sn ?b) (sn_of N) ?bs"
      using skip N bnd by (simp add: ok(3) is_sn_less_of)
    then obtain evs where "?tail = Some (False, set_rb q (?b\<lparr>head_sn := sn_of N\<rparr>) bd, evs)" "passed evs = []"
      using skip by (simp add: reorder_tail_def Let_def less)
    then show ?thesis using in_order_empty [OF io skip(2), of N] skip N S(1) ok(2)
      by (intro exI [of _ False] exI [of _ "set_rb q (?b\<lparr>head_sn := sn_of N\<rparr>) bd"] exI [of _ evs] exI [of _ N])
         (simp add: sorted_between_def)
  next
    case head
    then have l: "\<not> ieee80211_sn_less (sn_of S) (head_sn ?b)" "\<not> ieee80211_sn_less (sn_of S) (sn_of N)"
      "sn_of S = head_sn ?b" "ieee80211_sn_inc (head_sn ?b) = sn_of (H + 1)"
      using less by (simp_all add: ok(3) sn_inc_of)
    obtain evs where "?tail = Some (False, set_rb q (?b\<lparr>head_sn := sn_of (H + 1)\<rparr>) bd, evs)" "passed evs = []"
      using l head(1) by (simp add: reorder_tail_def Let_def)
    then show ?thesis using in_order_empty [OF io head(1), of "H + 1"] head S(1) ok(2) bnd
      by (intro exI [of _ False] exI [of _ "set_rb q (?b\<lparr>head_sn := sn_of (H + 1)\<rparr>) bd"] exI [of _ evs]
          exI [of _ "H + 1"]) (simp add: sorted_between_def)
  next
    case copy
    then have "?tail = Some (True, bd, [Free_skb skb])" by (auto simp: reorder_tail_def Let_def less)
    then show ?thesis using io bnd
      by (intro exI [of _ True] exI [of _ bd] exI [of _ "[Free_skb skb]"] exI [of _ H]) simp
  next
    case (store buf es)
    let ?bd1 = "(set_rb q buf bd)\<lparr>bd_entries := es\<rparr>"
    have st: "in_order seqn q H ?bd1" "buf_size (reorder_buf ?bd1 ! q) = ?bs"
      using store_in_order [OF io S(1) store(1) S(3) store(3)] ok(2) by simp_all
    obtain bd' evs where r: "iwl_mvm_release_frames clk True False q (sn_of N) ?bd1 = Some (bd', evs)"
      "in_order seqn q (max H N) bd'" "buf_size (reorder_buf bd' ! q) = ?bs" "sorted_between seqn H (max H N) (passed evs)"
      using release_in_order [OF st(1), of N clk True False] N unfolding st(2) by blast
    have "?tail = Some (True, bd', evs)"
      using store r(1) by (auto simp: reorder_tail_def Let_def less)
    then show ?thesis using r N bnd
      by (intro exI [of _ True] exI [of _ bd'] exI [of _ evs] exI [of _ "max H N"]) simp
  qed
qed

text \<open>A whole arrival: the adjustment to a jump of the window, the old-SN tracking and the rest.\<close>

lemma in_order_same_buf:
  assumes "in_order seqn q H bd" "same_setup (reorder_buf bd ! q) b" "num_stored b = num_stored (reorder_buf bd ! q)"
    "head_sn b = head_sn (reorder_buf bd ! q)"
  shows "in_order seqn q H (set_rb q b bd)"
proof -
  have ok: "baid_ok bd" "q < length (reorder_buf bd)" using assms(1) by (simp_all add: in_order_def)
  have "baid_ok (set_rb q b bd)" by (rule baid_ok_set_rb [OF ok assms(2,3)])
  moreover have "window (set_rb q b bd) q = window bd q"
    using assms(2,4) ok by (simp add: window_def Let_def set_rb_def queue_base_def same_setup_def)
  ultimately show ?thesis using assms by (simp add: in_order_def same_setup_def)
qed

lemma adjust_in_order:
  assumes io: "in_order seqn q H bd" and w: "in_window H (buf_size (reorder_buf bd ! q)) S N"
  defines "b \<equiv> reorder_buf bd ! q"
  shows "\<exists>bd' evs H'.
    (if \<not> iwl_mvm_is_sn_less (sn_of N) (head_sn b + buf_size b) (buf_size b)
        \<or> \<not> ieee80211_sn_less (sn_of S) (head_sn b + buf_size b)
     then iwl_mvm_release_frames clk True False q
            (if ieee80211_sn_less (sn_of S) (sn_of N) then sn_of S else sn_of N) bd
     else Some (bd, [])) = Some (bd', evs) \<and>
    H \<le> H' \<and> H' \<le> max H N \<and> in_order seqn q H' bd' \<and>
    buf_size (reorder_buf bd' ! q) = buf_size b \<and> sorted_between seqn H H' (passed evs) \<and>
    S < H' + uint (buf_size b) \<and> (H' \<noteq> H \<longrightarrow> H' \<le> N \<and> H' \<le> S + uint (buf_size b))"
proof -
  note bnd = in_order_bounds [OF io, folded b_def]
  have h: "head_sn b = sn_of H" using io by (simp add: in_order_def b_def)
  have W: "H - uint (buf_size b) \<le> N" "N \<le> H + uint (buf_size b)" "H - uint (buf_size b) \<le> S" "S < N + uint (buf_size b)"
    using w by (simp_all add: in_window_def b_def)
  have l: "ieee80211_sn_less (sn_of S) (sn_of N) \<longleftrightarrow> S < N" using W bnd by (intro sn_less_of) linarith
  have e: "iwl_mvm_is_sn_less (sn_of N) (head_sn b + buf_size b) (buf_size b) \<longleftrightarrow> N < H + uint (buf_size b) \<and> H \<le> N"
    "ieee80211_sn_less (sn_of S) (head_sn b + buf_size b) \<longleftrightarrow> S < H + uint (buf_size b)"
    unfolding h using W bnd by (intro window_end_less; linarith)+
  show ?thesis
  proof (cases "(N < H + uint (buf_size b) \<and> H \<le> N) \<and> S < H + uint (buf_size b)")
    case True
    then show ?thesis unfolding e l using io
      by (intro exI [of _ bd] exI [of _ "[]"] exI [of _ H]) (simp add: b_def)
  next
    case False
    have mN: "H - uint (buf_size b) \<le> min S N" "min S N \<le> H + uint (buf_size b)" using W by linarith+
    have m: "(if S < N then sn_of S else sn_of N) = sn_of (min S N)" by simp
    obtain bd' evs where r: "iwl_mvm_release_frames clk True False q (sn_of (min S N)) bd = Some (bd', evs)"
      "in_order seqn q (max H (min S N)) bd'" "buf_size (reorder_buf bd' ! q) = buf_size b"
      "sorted_between seqn H (max H (min S N)) (passed evs)"
      using release_in_order [OF io mN [unfolded b_def], of clk True False] unfolding b_def by blast
    have "S < max H (min S N) + uint (buf_size b)" using False W bnd by linarith
    then show ?thesis unfolding e l m using False r W bnd
      by (intro exI [of _ bd'] exI [of _ evs] exI [of _ "max H (min S N)"]) auto
  qed
qed

lemma arrival_in_order:
  assumes io: "in_order seqn q H bd" and w: "in_window H (buf_size (reorder_buf bd ! q)) (seqn skb) N"
    and frame: "\<not> tst (mac_flags2 desc) IWL_RX_MPDU_MFLG2_AMSDU" "\<not> ieee80211_is_back_req (frame_control hdr)"
      "ucast (reorder_data desc AND IWL_RX_MPDU_REORDER_NSSN_MASK) = sn_of N"
      "ucast (drop_bit IWL_RX_MPDU_REORDER_SN_SHIFT (reorder_data desc AND IWL_RX_MPDU_REORDER_SN_MASK)) = sn_of (seqn skb)"
      "valid (reorder_buf bd ! q) \<or> \<not> tst (reorder_data desc) IWL_RX_MPDU_REORDER_BA_OLD_SN"
  shows "\<exists>r bd' evs H'. reorder_locked clk q baid hdr gp2 desc skb bd = Some (r, bd', evs) \<and>
    H \<le> H' \<and> H' \<le> H + 2 * uint (buf_size (reorder_buf bd ! q)) \<and> in_order seqn q H' bd' \<and>
    sorted_between seqn H H' (passed evs @ (if r then [] else [skb]))"
proof -
  let ?b = "reorder_buf bd ! q"
  define bd1 where "bd1 = set_rb q (?b\<lparr>valid := True\<rparr>) bd"
  have q: "q < length (reorder_buf bd)" "baid_ok bd" using io by (simp_all add: in_order_def)
  have w0: "window bd1 q = window bd q"
    using q by (simp add: bd1_def window_def Let_def set_rb_def queue_base_def)
  have "baid_ok bd1"
    using q baid_ok_set_buf [OF q(2,1), of "?b\<lparr>valid := True\<rparr>"] by (simp add: bd1_def set_rb_def baid_ok_def [of bd])
  then have io1: "in_order seqn q H bd1" using io w0 q by (simp add: in_order_def bd1_def)
  have b1: "buf_size (reorder_buf bd1 ! q) = buf_size ?b" "head_sn (reorder_buf bd1 ! q) = head_sn ?b"
    using q by (simp_all add: bd1_def)
  obtain bd2 evs H1 where a:
    "(if \<not> iwl_mvm_is_sn_less (sn_of N) (head_sn ?b + buf_size ?b) (buf_size ?b)
        \<or> \<not> ieee80211_sn_less (sn_of (seqn skb)) (head_sn ?b + buf_size ?b)
     then iwl_mvm_release_frames clk True False q
            (if ieee80211_sn_less (sn_of (seqn skb)) (sn_of N) then sn_of (seqn skb) else sn_of N) bd1
     else Some (bd1, [])) = Some (bd2, evs)"
    "H \<le> H1" "H1 \<le> max H N" "in_order seqn q H1 bd2" "buf_size (reorder_buf bd2 ! q) = buf_size ?b"
    "sorted_between seqn H H1 (passed evs)" "seqn skb < H1 + uint (buf_size ?b)"
    "H1 \<noteq> H \<longrightarrow> H1 \<le> N \<and> H1 \<le> seqn skb + uint (buf_size ?b)"
    using adjust_in_order [OF io1, of "seqn skb" N clk] w unfolding b1 by blast
  obtain b3 and evs2 :: "'a rx_event list" where
    o: "iwl_mvm_oldsn_workaround (ieee80211_get_tid hdr) (reorder_data desc) gp2 (reorder_buf bd2 ! q) = (b3, evs2)"
    by fastforce
  note o' = oldsn_workaround_ok [OF o]
  have io3: "in_order seqn q H1 (set_rb q b3 bd2)" using o' by (intro in_order_same_buf [OF a(4)]) simp_all
  have q2: "q < length (reorder_buf bd2)" using a(4) by (simp add: in_order_def)
  have b3: "buf_size (reorder_buf (set_rb q b3 bd2) ! q) = buf_size ?b"
    using o' q2 a(5) by (simp add: same_setup_def)
  have W: "H - uint (buf_size ?b) \<le> N" "N \<le> H + uint (buf_size ?b)" "H - uint (buf_size ?b) \<le> seqn skb"
    using w by (simp_all add: in_window_def)
  note bnd = in_order_bounds [OF io]
  have N1: "H1 - uint (buf_size ?b) \<le> N" "N \<le> H1 + uint (buf_size ?b)" "H1 - 2 * uint (buf_size ?b) \<le> seqn skb"
    "H1 \<le> H + uint (buf_size ?b)"
    using W a(2,3,8) bnd by linarith+
  obtain r bd' evs3 H2 where t:
    "reorder_tail clk q baid False (tst (amsdu_info desc) IWL_RX_MPDU_AMSDU_LAST_SUBFRAME)
       (amsdu_info desc AND IWL_RX_MPDU_AMSDU_SUBFRAME_IDX_MASK) (sn_of (seqn skb)) (sn_of N) skb (set_rb q b3 bd2)
     = Some (r, bd', evs3)"
    "H1 \<le> H2" "H2 \<le> H1 + uint (buf_size ?b)" "in_order seqn q H2 bd'"
    "sorted_between seqn H1 H2 (passed evs3 @ (if r then [] else [skb]))"
    using tail_in_order [OF io3, of N skb "seqn skb"] N1 a(7) unfolding b3 by blast
  have neg: "\<not> (\<not> valid ?b \<and> tst (reorder_data desc) IWL_RX_MPDU_REORDER_BA_OLD_SN)" using frame(5) by blast
  have "reorder_locked clk q baid hdr gp2 desc skb bd = Some (r, bd', evs @ evs2 @ evs3)"
    using a(1) o t(1) frame(1,2) unfolding reorder_locked_def Let_def frame(3,4) bd1_def [symmetric]
    by (simp only: if_not_P [OF neg]) simp
  moreover have "sorted_between seqn H H2 (passed (evs @ evs2 @ evs3) @ (if r then [] else [skb]))"
    using sorted_between_append [OF a(6) t(5)] a(2) t(2) o' by simp
  ultimately show ?thesis using t(2-4) a(2) N1(4) by (intro exI conjI) auto
qed

text \<open>The reorder timer releases up to a sequence number within the window.\<close>

lemma sn_add_of: "n < 65536 \<Longrightarrow> ieee80211_sn_add (sn_of i) (of_nat n) = sn_of (i + int n)"
proof -
  assume n: "n < 65536"
  have "int (unat (ieee80211_sn_add (sn_of i) (of_nat n))) = (uint (sn_of i) + int n) mod 4096"
    using n by (simp add: unat_sn_add zmod_int)
  also have "\<dots> = uint (sn_of (i + int n))" by (simp add: uint_sn_of mod_add_left_eq)
  finally show ?thesis by (simp add: word_uint_eq_iff)
qed

lemma expire_scan_range:
  assumes "expire_scan clk head bs base es is cont (index, sn, e) = (index', sn', True)"
    and "\<forall>i \<in> set is. i < n" "e \<longrightarrow> (\<exists>i < n. sn = ieee80211_sn_add head (of_nat (i + 1)))"
  shows "\<exists>i < n. sn' = ieee80211_sn_add head (of_nat (i + 1))"
  using assms
proof (induction "is" arbitrary: cont index sn e)
  case (Cons i "is")
  show ?case
  proof (cases "expire_scan clk head bs base es (i # is) cont (index, sn, e)
      = expire_scan clk head bs base es is True ((unat head + i) mod unat bs, ieee80211_sn_add head (of_nat (i + 1)), True)")
    case True
    then show ?thesis using Cons.IH [of True _ _ True] Cons.prems by auto
  next
    case False
    then show ?thesis using Cons.IH [of False _ sn e] Cons.prems by (auto simp: Let_def split: if_splits)
  qed
qed simp

lemma timer_in_order:
  assumes io: "in_order seqn q H bd" and r: "iwl_mvm_reorder_timer_expired clk mvm q bd = Some (bd', evs)"
  shows "\<exists>H'. H \<le> H' \<and> H' \<le> H + uint (buf_size (reorder_buf bd ! q)) \<and> in_order seqn q H' bd' \<and>
    sorted_between seqn H H' (passed evs)"
proof -
  let ?b = "reorder_buf bd ! q"
  let ?set = "\<lambda>t. set_rb q (?b\<lparr>reorder_timer := t\<rparr>) bd"
  note bnd = in_order_bounds [OF io]
  have h: "head_sn ?b = sn_of H" using io by (simp add: in_order_def)
  consider (same) "bd' = bd" "evs = []"
    | (release) index sn ev evs' where
        "expire_scan clk (head_sn ?b) (buf_size ?b) (queue_base bd ?b) (bd_entries bd) [0..<unat (buf_size ?b)] False (0, 0, False)
          = (index, sn, True)"
        "iwl_mvm_release_frames clk True False q sn bd = Some (bd', evs')" "evs = Frame_timeout ev # evs'"
    | (timer) t where "bd' = ?set t" "evs = []"
    using r by (auto simp: iwl_mvm_reorder_timer_expired_def Let_def set_rb_def split: if_splits prod.splits option.splits)
  then show ?thesis
  proof cases
    case same
    then show ?thesis using io bnd by (intro exI [of _ H]) simp
  next
    case (release index sn ev evs')
    obtain i where i: "i < unat (buf_size ?b)" "sn = ieee80211_sn_add (head_sn ?b) (of_nat (i + 1))"
      using expire_scan_range [OF release(1), of "unat (buf_size ?b)"] by auto
    have "i + 1 < 65536" using i bnd(1) by linarith
    then have sn: "sn = sn_of (H + int (i + 1))" using sn_add_of [of "i + 1" H] i(2) by (simp only: h)
    have "int (i + 1) \<le> int (unat (buf_size ?b))" using i(1) by linarith
    then have n: "int (i + 1) \<le> uint (buf_size ?b)" by simp
    then have "H - uint (buf_size ?b) \<le> H + int (i + 1)" "H + int (i + 1) \<le> H + uint (buf_size ?b)" using bnd by linarith+
    from release_in_order [OF io this, of clk True False] release(2)
    have "in_order seqn q (max H (H + int (i + 1))) bd'" "sorted_between seqn H (max H (H + int (i + 1))) (passed evs')"
      unfolding sn by auto
    then show ?thesis using n release(3) by (intro exI [of _ "H + int (i + 1)"]) (simp add: max_def)
  next
    case (timer t)
    have "in_order seqn q H (?set t)" by (rule in_order_same_buf [OF io]) (simp_all add: same_setup_def)
    then show ?thesis using timer bnd by (intro exI [of _ H]) simp
  qed
qed

section \<open>Runs of one queue\<close>

text \<open>
  One queue of a session, with the running head and the frames delivered so far as ghost state. A
  step is an arrival that keeps to the window and carries no A-MSDU subframe, a release, or a time-out.
\<close>

record 'f order_run =
  or_session :: "'f baid_data"
  or_head :: int
  or_out :: "'f list"

definition or_next :: "nat \<Rightarrow> 'f baid_data \<Rightarrow> 'f list \<Rightarrow> 'f order_run \<Rightarrow> 'f order_run" where
  "or_next q bd out s = s\<lparr>or_session := bd,
     or_head := or_head s
       + int (sn_dist (head_sn (reorder_buf (or_session s) ! q)) (head_sn (reorder_buf bd ! q))),
     or_out := or_out s @ out\<rparr>"

inductive order_step :: "('f \<Rightarrow> int) \<Rightarrow> nat \<Rightarrow> 'f order_run \<Rightarrow> 'f order_run \<Rightarrow> bool" for seqn q where
  order_frame:
    "in_window (or_head s) (buf_size (reorder_buf (or_session s) ! q)) (seqn skb) N \<Longrightarrow>
     \<not> tst (mac_flags2 desc) IWL_RX_MPDU_MFLG2_AMSDU \<Longrightarrow> \<not> ieee80211_is_back_req (frame_control hdr) \<Longrightarrow>
     ucast (reorder_data desc AND IWL_RX_MPDU_REORDER_NSSN_MASK) = sn_of N \<Longrightarrow>
     ucast (drop_bit IWL_RX_MPDU_REORDER_SN_SHIFT (reorder_data desc AND IWL_RX_MPDU_REORDER_SN_MASK))
       = sn_of (seqn skb) \<Longrightarrow>
     valid (reorder_buf (or_session s) ! q) \<or> \<not> tst (reorder_data desc) IWL_RX_MPDU_REORDER_BA_OLD_SN \<Longrightarrow>
     reorder_locked clk q baid hdr gp2 desc skb (or_session s) = Some (r, bd', evs) \<Longrightarrow>
     order_step seqn q s (or_next q bd' (passed evs @ (if r then [] else [skb])) s)"
| order_release:
    "or_head s - uint (buf_size (reorder_buf (or_session s) ! q)) \<le> N \<Longrightarrow>
     N \<le> or_head s + uint (buf_size (reorder_buf (or_session s) ! q)) \<Longrightarrow>
     iwl_mvm_release_frames clk send sy q (sn_of N) (or_session s) = Some (bd', evs) \<Longrightarrow>
     order_step seqn q s (or_next q bd' (passed evs) s)"
| order_timer:
    "iwl_mvm_reorder_timer_expired clk mvm q (or_session s) = Some (bd', evs) \<Longrightarrow>
     order_step seqn q s (or_next q bd' (passed evs) s)"

definition order_inv :: "('f \<Rightarrow> int) \<Rightarrow> nat \<Rightarrow> 'f order_run \<Rightarrow> bool" where
  "order_inv seqn q s \<longleftrightarrow> in_order seqn q (or_head s) (or_session s) \<and>
     sorted_wrt (<) (map seqn (or_out s)) \<and> (\<forall>f \<in> set (or_out s). seqn f < or_head s)"

lemma order_inv_next:
  assumes "order_inv seqn q s" "or_head s \<le> H'" "H' < or_head s + 4096" "in_order seqn q H' bd'"
    and "sorted_between seqn (or_head s) H' out"
  shows "order_inv seqn q (or_next q bd' out s)"
proof -
  have "sn_dist (head_sn (reorder_buf (or_session s) ! q)) (head_sn (reorder_buf bd' ! q)) = nat (H' - or_head s)"
    using assms sn_dist_of_nat [OF assms(2,3)] by (simp add: order_inv_def in_order_def)
  then have "or_head (or_next q bd' out s) = H'" using assms(2) by (simp add: or_next_def)
  then show ?thesis
    using assms by (fastforce simp: order_inv_def or_next_def sorted_between_def sorted_wrt_append)
qed

lemma order_step_inv: "order_step seqn q s s' \<Longrightarrow> order_inv seqn q s \<Longrightarrow> order_inv seqn q s'"
proof (induction rule: order_step.induct)
  case (order_frame s skb N desc hdr clk baid gp2 r bd' evs)
  have io: "in_order seqn q (or_head s) (or_session s)" using order_frame.prems by (simp add: order_inv_def)
  from arrival_in_order [OF io order_frame.hyps(1-6), of clk baid gp2] order_frame.hyps(7)
    in_order_bounds [OF io] show ?case
    by (auto intro: order_inv_next [OF order_frame.prems])
next
  case (order_release s N clk send sy bd' evs)
  have io: "in_order seqn q (or_head s) (or_session s)" using order_release.prems by (simp add: order_inv_def)
  from release_in_order [OF io order_release.hyps(1,2), of clk send sy] order_release.hyps(3)
  have "in_order seqn q (max (or_head s) N) bd'" "sorted_between seqn (or_head s) (max (or_head s) N) (passed evs)"
    by auto
  then show ?case using order_release.hyps(2) in_order_bounds [OF io]
    by (intro order_inv_next [OF order_release.prems, where H' = "max (or_head s) N"]) simp_all
next
  case (order_timer clk mvm s bd' evs)
  have io: "in_order seqn q (or_head s) (or_session s)" using order_timer.prems by (simp add: order_inv_def)
  from timer_in_order [OF io order_timer.hyps] in_order_bounds [OF io] show ?case
    by (auto intro: order_inv_next [OF order_timer.prems])
qed

interpretation order_runs: invariant_system "order_step seqn q" "order_inv seqn q" for seqn q
  by unfold_locales (rule order_step_inv)


definition demo_order :: "nat order_run" where
  "demo_order = \<lparr>or_session = demo_session 10, or_head = 10, or_out = []\<rparr>"

definition demo_arrive :: "u32 \<Rightarrow> nat \<Rightarrow> nat order_run \<Rightarrow> nat order_run" where
  "demo_arrive reorder f s =
     (case reorder_locked demo_clock 0 3 demo_hdr 0 (demo_desc 0 0 reorder) f (or_session s) of
        Some (r, bd', evs) \<Rightarrow> or_next 0 bd' (passed evs @ (if r then [] else [f])) s
      | None \<Rightarrow> s)"

lemma demo_arrive_step:
  assumes "in_window (or_head s) (buf_size (reorder_buf (or_session s) ! 0)) (int f) N"
    "ucast (reorder AND IWL_RX_MPDU_REORDER_NSSN_MASK) = sn_of N"
    "ucast (drop_bit IWL_RX_MPDU_REORDER_SN_SHIFT (reorder AND IWL_RX_MPDU_REORDER_SN_MASK)) = sn_of (int f)"
    "\<not> tst reorder IWL_RX_MPDU_REORDER_BA_OLD_SN"
    "reorder_locked demo_clock 0 3 demo_hdr 0 (demo_desc 0 0 reorder) f (or_session s) \<noteq> None"
  shows "order_step int 0 s (demo_arrive reorder f s)"
proof -
  obtain r bd' evs where r: "reorder_locked demo_clock 0 3 demo_hdr 0 (demo_desc 0 0 reorder) f (or_session s) = Some (r, bd', evs)"
    using assms(5) by auto
  have "\<not> tst (mac_flags2 (demo_desc 0 0 reorder)) IWL_RX_MPDU_MFLG2_AMSDU"
    "\<not> ieee80211_is_back_req (frame_control demo_hdr)"
    by (simp add: demo_desc_def tst_def, code_simp)
  then have "order_step int 0 s (or_next 0 bd' (passed evs @ (if r then [] else [f])) s)"
    using assms(2-4) r
    by (intro order_frame [where N = N and desc = "demo_desc 0 0 reorder" and hdr = demo_hdr] assms(1))
       (simp_all add: demo_desc_def)
  then show ?thesis by (simp add: demo_arrive_def r)
qed


text \<open>A release to a sequence number more than a window ahead of the head, or more than a window behind
  it, delivers nothing and moves the head there all the same: the stored frames stay in slots that now
  stand for other sequence numbers, and an old frame can move the window back.
\<close>

theorem release_outside_window_moves_head:
  assumes "baid_ok bd" "q < length (reorder_buf bd)"
    and "unat (buf_size (reorder_buf bd ! q)) < sn_dist (head_sn (reorder_buf bd ! q)) nssn"
    and "unat (buf_size (reorder_buf bd ! q)) < sn_dist nssn (head_sn (reorder_buf bd ! q))"
  shows "\<exists>bd'. iwl_mvm_release_frames clk send False q nssn bd = Some (bd', []) \<and>
    bd_entries bd' = bd_entries bd \<and> head_sn (reorder_buf bd' ! q) = nssn"
proof -
  let ?b = "reorder_buf bd ! q"
  have "unat (buf_size ?b) < 512" using assms(1,2) by (simp add: baid_ok_def buf_ok_def)
  then have bs: "unat (buf_size ?b) < 2048" by linarith
  have n: "\<not> iwl_mvm_is_sn_less nssn (head_sn ?b) (buf_size ?b)" "\<not> iwl_mvm_is_sn_less (head_sn ?b) nssn (buf_size ?b)"
    using assms(3,4) by (simp_all add: iwl_mvm_is_sn_less_iff [OF bs])
  obtain bd' evs where r: "iwl_mvm_release_frames clk send False q nssn bd = Some (bd', evs)"
    using release_frames_ok [OF assms(1,2)] by blast
  then show ?thesis
    using n assms(2)
    by (auto simp: iwl_mvm_release_frames_def Let_def release_buf_def release_loop.simps [of _ _ _ "buf_size ?b"]
        release_set_timer_def split: if_splits option.splits)
qed

theorem release_outside_window_moves_head_witness:
  "\<exists>bd'. iwl_mvm_release_frames demo_clock True False 0 20 demo_stored_session = Some (bd', []) \<and>
    bd_entries bd' = bd_entries demo_stored_session \<and> head_sn (reorder_buf bd' ! 0) = 20"
proof -
  have "0 < length (reorder_buf demo_stored_session)"
    "unat (buf_size (reorder_buf demo_stored_session ! 0)) < sn_dist (head_sn (reorder_buf demo_stored_session ! 0)) 20"
    "unat (buf_size (reorder_buf demo_stored_session ! 0)) < sn_dist 20 (head_sn (reorder_buf demo_stored_session ! 0))"
    by code_simp+
  from release_outside_window_moves_head [OF demo_stored_session_ok this] show ?thesis by blast
qed

end
