(* ===== verification/Cn_Queue_Run.thy ===== *)
theory Cn_Queue_Run
  imports Cn_Queue
begin

text \<open>
  The connector queue with its producer and its work item interleaved, the properties of both the
  sequential and the interleaved queue, and what unloading the module leaves behind.
\<close>

unbundle bit_operations_syntax

section \<open>Producer and work item, interleaved\<close>

text \<open>
  Where the producer stands: the allocated message, the two indices it read under the lock, the
  slot it has filled. Where the work item stands: the slot it sends next and the index it read.
\<close>

datatype prod_pc = P_idle | P_have nat | P_indices nat u32 u32 | P_stored nat u32 | P_published
datatype work_pc = W_idle | W_send u32 u32

record 'p conn_sys = "'p connector" +
  cs_prod :: prod_pc
  cs_work :: work_pc
  cs_accepted :: "cn_msg list"
  cs_sent :: "cn_msg list"
  cs_fault :: bool

inductive conn_step :: "u32 \<Rightarrow> 'p conn_sys \<Rightarrow> 'p conn_sys \<Rightarrow> bool" for users where
  alloc: "cs_prod s = P_idle \<Longrightarrow> p \<noteq> 0 \<Longrightarrow> cn_heap s p = None \<Longrightarrow>
    conn_step users s (s\<lparr>cn_heap := (cn_heap s)(p \<mapsto> connector_msg users data sz code), cs_prod := P_have p\<rparr>)"
| indices: "cs_prod s = P_have p \<Longrightarrow>
    conn_step users s (s\<lparr>cs_prod := P_indices p (cn_buf_read s) (cn_buf_write s)\<rparr>)"
| drop_msg: "cs_prod s = P_indices p start stop \<Longrightarrow> enqueue_drops start stop (cn_priv s) \<Longrightarrow>
    conn_step users s (case kfree p s of None \<Rightarrow> s\<lparr>cs_fault := True\<rparr> | Some s' \<Rightarrow> s'\<lparr>cs_prod := P_idle\<rparr>)"
| store: "cs_prod s = P_indices p start stop \<Longrightarrow> \<not> enqueue_drops start stop (cn_priv s) \<Longrightarrow>
    conn_step users s (if length (cn_msg_buf s) \<le> unat stop then s\<lparr>cs_fault := True\<rparr>
      else (cn_store p stop s)\<lparr>cs_prod := P_stored p stop\<rparr>)"
| publish: "cs_prod s = P_stored p stop \<Longrightarrow>
    conn_step users s ((cn_publish stop s)\<lparr>cs_prod := P_published,
      cs_accepted := cs_accepted s @ [the (cn_heap s p)]\<rparr>)"
| wake: "cs_prod s = P_published \<Longrightarrow> conn_step users s ((cn_wake s)\<lparr>cs_prod := P_idle\<rparr>)"
| work_start: "cs_work s = W_idle \<Longrightarrow> cn_work s \<Longrightarrow>
    conn_step users s (s\<lparr>cn_work := False, cs_work := W_send (cn_buf_read s) (cn_buf_write s)\<rparr>)"
| work_send: "cs_work s = W_send i stop \<Longrightarrow> i \<noteq> stop \<Longrightarrow>
    conn_step users s (case cn_send_slot i s of None \<Rightarrow> s\<lparr>cs_fault := True\<rparr>
      | Some (m, s') \<Rightarrow> s'\<lparr>cs_work := W_send (ring_next i) stop, cs_sent := cs_sent s @ [m]\<rparr>)"
| work_done: "cs_work s = W_send stop stop \<Longrightarrow>
    conn_step users s (s\<lparr>cn_buf_read := stop, cs_work := W_idle\<rparr>)"
| set_priv: "conn_step users s (iwl_connector_set_priv pr s)"

text \<open>The state after registration.\<close>

definition conn_start :: "'p option \<Rightarrow> 'p conn_sys" where
  "conn_start pr = \<lparr>cn_msg_buf = replicate 1024 0, cn_buf_read = 0, cn_buf_write = 0, cn_priv = pr,
     cn_work = False, cn_heap = Map.empty, cs_prod = P_idle, cs_work = W_idle, cs_accepted = [],
     cs_sent = [], cs_fault = False\<rparr>"

section \<open>The invariant\<close>

text \<open>The index \<open>j\<close> lies on the way from \<open>i\<close> to \<open>k\<close> round the ring.\<close>

definition between :: "u32 \<Rightarrow> u32 \<Rightarrow> u32 \<Rightarrow> bool" where
  "between i j k \<longleftrightarrow> unat i < 1024 \<and> unat j < 1024 \<and> unat k < 1024 \<and>
     ring_dist i k = ring_dist i j + ring_dist j k"

text \<open>The next slot the work item reads, the index up to which it will read, the producer's message.\<close>

primrec front_of :: "work_pc \<Rightarrow> u32 \<Rightarrow> u32" where
  "front_of W_idle r = r"
| "front_of (W_send i stop) r = i"

primrec seen_of :: "work_pc \<Rightarrow> u32 \<Rightarrow> u32" where
  "seen_of W_idle r = r"
| "seen_of (W_send i stop) r = stop"

primrec own_of :: "prod_pc \<Rightarrow> nat list" where
  "own_of P_idle = []"
| "own_of (P_have p) = [p]"
| "own_of (P_indices p start stop) = [p]"
| "own_of (P_stored p stop) = [p]"
| "own_of P_published = []"

definition cs_front :: "'p conn_sys \<Rightarrow> u32" where
  "cs_front s = front_of (cs_work s) (cn_buf_read s)"

definition cs_seen :: "'p conn_sys \<Rightarrow> u32" where
  "cs_seen s = seen_of (cs_work s) (cn_buf_read s)"

definition cs_own :: "'p conn_sys \<Rightarrow> nat list" where
  "cs_own s = own_of (cs_prod s)"

definition cs_live :: "'p conn_sys \<Rightarrow> nat list" where
  "cs_live s = ring_slots (ring_dist (cs_front s) (cn_buf_write s)) (cs_front s) (cn_msg_buf s)"

primrec prod_fits :: "prod_pc \<Rightarrow> u32 \<Rightarrow> u32 \<Rightarrow> nat list \<Rightarrow> bool" where
  "prod_fits P_idle r w buf = True"
| "prod_fits (P_have p) r w buf = True"
| "prod_fits (P_indices p start stop) r w buf \<longleftrightarrow> stop = w \<and> between start r stop"
| "prod_fits (P_stored p stop) r w buf \<longleftrightarrow> stop = w \<and> buf ! unat stop = p \<and> ring_dist r stop < 1023"
| "prod_fits P_published r w buf = True"

definition prod_ok :: "'p conn_sys \<Rightarrow> bool" where
  "prod_ok s = prod_fits (cs_prod s) (cn_buf_read s) (cn_buf_write s) (cn_msg_buf s)"

definition conn_indices_inv :: "'p conn_sys \<Rightarrow> bool" where
  "conn_indices_inv s \<longleftrightarrow> length (cn_msg_buf s) = 1024 \<and>
     between (cn_buf_read s) (cs_front s) (cn_buf_write s) \<and>
     between (cs_front s) (cs_seen s) (cn_buf_write s)"

definition conn_heap_inv :: "'p conn_sys \<Rightarrow> bool" where
  "conn_heap_inv s \<longleftrightarrow> distinct (cs_live s @ cs_own s) \<and> 0 \<notin> set (cs_live s @ cs_own s) \<and>
     dom (cn_heap s) = set (cs_live s @ cs_own s)"

definition conn_wake_inv :: "'p conn_sys \<Rightarrow> bool" where
  "conn_wake_inv s \<longleftrightarrow> (cs_seen s \<noteq> cn_buf_write s \<longrightarrow> cn_work s \<or> cs_prod s = P_published)"

definition conn_inv :: "'p conn_sys \<Rightarrow> bool" where
  "conn_inv s \<longleftrightarrow> \<not> cs_fault s \<and> conn_indices_inv s \<and> prod_ok s \<and> conn_heap_inv s \<and> conn_wake_inv s \<and>
     cs_accepted s = cs_sent s @ heap_msgs s (cs_live s)"

lemmas conn_view_defs = cs_front_def cs_seen_def cs_own_def cs_live_def
lemmas conn_inv_defs = conn_inv_def conn_indices_inv_def prod_ok_def conn_heap_inv_def conn_wake_inv_def

lemma between_same [simp]: "unat i < 1024 \<Longrightarrow> unat k < 1024 \<Longrightarrow> between i i k" "unat i < 1024 \<Longrightarrow> unat k < 1024 \<Longrightarrow> between i k k"
  by (simp_all add: between_def)

lemma betweenD: "between i j k \<Longrightarrow> unat i < 1024" "between i j k \<Longrightarrow> unat j < 1024" "between i j k \<Longrightarrow> unat k < 1024"
  by (simp_all add: between_def)

text \<open>On the ring cut open at 0, the order of three indices up to rotation.\<close>

lemma between_iff:
  "between i j k \<longleftrightarrow> unat i < 1024 \<and> unat j < 1024 \<and> unat k < 1024 \<and>
     (unat i \<le> unat j \<and> unat j \<le> unat k \<or> unat k < unat i \<and> unat i \<le> unat j \<or> unat j \<le> unat k \<and> unat k < unat i)"
proof (cases "unat i < 1024 \<and> unat j < 1024 \<and> unat k < 1024")
  case True
  then show ?thesis by (simp add: between_def ring_dist_cases) linarith
qed (auto simp: between_def)

lemma between_trans: "between i j l \<Longrightarrow> between j k l \<Longrightarrow> between i k l"
  unfolding between_iff by linarith

lemma between_advance:
  assumes "between i j l" "between j k l" "j \<noteq> k"
  shows "between i (ring_next j) l" "between (ring_next j) k l"
proof -
  have j: "unat j < 1024" using assms by (simp add: between_def)
  have "unat j \<noteq> unat k" using assms by (simp add: word_unat_eq_iff)
  then show "between i (ring_next j) l" "between (ring_next j) k l"
    using assms(1,2) unfolding between_iff unat_ring_next_cases [OF j] by (simp_all split: if_split) linarith+
qed

lemma between_grow:
  assumes "between i j k" "ring_dist i k < 1023"
  shows "between i j (ring_next k)"
proof -
  have k: "unat k < 1024" "unat i < 1024" using assms by (simp_all add: between_def)
  show ?thesis
    using assms unfolding between_iff unat_ring_next_cases [OF k(1)] ring_dist_cases [OF k(2,1)]
    by (simp split: if_split_asm) linarith+
qed

lemma conn_start_inv: "conn_inv (conn_start pr)"
  by (simp add: conn_inv_defs conn_view_defs conn_start_def between_def heap_msgs_def)

section \<open>Every step keeps the invariant\<close>

lemma conn_invD:
  assumes "conn_inv s"
  shows "length (cn_msg_buf s) = 1024" "unat (cn_buf_write s) < 1024" "unat (cn_buf_read s) < 1024"
    "unat (cs_front s) < 1024" "between (cn_buf_read s) (cs_front s) (cn_buf_write s)"
    "between (cs_front s) (cs_seen s) (cn_buf_write s)"
    "ring_dist (cs_front s) (cn_buf_write s) \<le> ring_dist (cn_buf_read s) (cn_buf_write s)"
  using assms by (auto simp: conn_inv_def conn_indices_inv_def between_def)

text \<open>Steps that touch neither the indices nor the work item leave the live slots alone.\<close>

lemma inv_alloc:
  assumes "conn_inv s" "cs_prod s = P_idle" "p \<noteq> 0" "cn_heap s p = None"
  shows "conn_inv (s\<lparr>cn_heap := (cn_heap s)(p \<mapsto> m), cs_prod := P_have p\<rparr>)" (is "conn_inv ?s")
proof -
  have view: "cs_front ?s = cs_front s" "cs_seen ?s = cs_seen s" "cs_live ?s = cs_live s"
    by (simp_all add: conn_view_defs)
  have p: "p \<notin> set (cs_live s)" using assms by (auto simp: conn_inv_def conn_heap_inv_def)
  then have "heap_msgs ?s (cs_live s) = heap_msgs s (cs_live s)"
    by (simp add: heap_msgs_def heap_msgs_upd)
  then show ?thesis
    using assms p by (auto simp: conn_inv_defs view cs_own_def)
qed

lemma inv_indices:
  assumes "conn_inv s" "cs_prod s = P_have p"
  shows "conn_inv (s\<lparr>cs_prod := P_indices p (cn_buf_read s) (cn_buf_write s)\<rparr>)" (is "conn_inv ?s")
proof -
  have view: "cs_front ?s = cs_front s" "cs_seen ?s = cs_seen s" "cs_live ?s = cs_live s"
    "cs_own ?s = cs_own s" "heap_msgs ?s = heap_msgs s"
    using assms(2) by (simp_all add: conn_view_defs heap_msgs_def fun_eq_iff)
  show ?thesis
    using assms conn_invD [OF assms(1)] by (auto simp: conn_inv_defs view)
qed

lemma inv_drop:
  assumes "conn_inv s" "cs_prod s = P_indices p start stop"
  shows "conn_inv (case kfree p s of None \<Rightarrow> s\<lparr>cs_fault := True\<rparr> | Some s' \<Rightarrow> s'\<lparr>cs_prod := P_idle\<rparr>)"
proof -
  define s' where "s' = s\<lparr>cn_heap := (cn_heap s)(p := None), cs_prod := P_idle\<rparr>"
  have p: "p \<noteq> 0" "p \<in> dom (cn_heap s)" "p \<notin> set (cs_live s)"
    using assms by (auto simp: conn_inv_def conn_heap_inv_def cs_own_def)
  have view: "cs_front s' = cs_front s" "cs_seen s' = cs_seen s" "cs_live s' = cs_live s" "cs_own s' = []"
    by (simp_all add: conn_view_defs s'_def)
  have "heap_msgs s' (cs_live s) = heap_msgs s (cs_live s)"
    using p(3) by (simp add: heap_msgs_def heap_msgs_upd s'_def)
  moreover have "dom (cn_heap s') = set (cs_live s)"
    using assms p by (auto simp: conn_inv_def conn_heap_inv_def cs_own_def s'_def)
  ultimately have "conn_inv s'"
    using assms by (auto simp: conn_inv_defs view) (auto simp: s'_def)
  then show ?thesis
    by (simp add: kfree_alloc [OF p(1,2)] s'_def)
qed

lemma inv_store:
  assumes "conn_inv s" "cs_prod s = P_indices p start stop" "\<not> enqueue_drops start stop (cn_priv s)"
  shows "conn_inv (if length (cn_msg_buf s) \<le> unat stop then s\<lparr>cs_fault := True\<rparr>
      else (cn_store p stop s)\<lparr>cs_prod := P_stored p stop\<rparr>)"
proof -
  define s' where "s' = (cn_store p stop s)\<lparr>cs_prod := P_stored p stop\<rparr>"
  note d = conn_invD [OF assms(1)]
  have stop: "stop = cn_buf_write s" "between start (cn_buf_read s) stop"
    using assms(1,2) by (auto simp: conn_inv_def prod_ok_def)
  have "ring_dist start stop < 1023"
    using assms(3) stop(2) ring_full_iff [of start stop] by (auto simp: enqueue_drops_def between_def)
  then have dist: "ring_dist (cn_buf_read s) stop < 1023"
    using stop(2) by (simp add: between_def)
  have view: "cs_front s' = cs_front s" "cs_seen s' = cs_seen s" "cs_own s' = cs_own s"
    "heap_msgs s' = heap_msgs s"
    using assms(2) by (simp_all add: conn_view_defs s'_def cn_store_def heap_msgs_def fun_eq_iff)
  have live: "cs_live s' = cs_live s"
    unfolding cs_live_def view(1) using d stop(1)
    by (simp add: s'_def cn_store_def ring_slots_update)
  have "prod_ok s'"
    using dist d stop(1) by (simp add: prod_ok_def s'_def cn_store_def)
  then have "conn_inv s'"
    using assms by (auto simp: conn_inv_def conn_indices_inv_def conn_heap_inv_def conn_wake_inv_def view live)
      (auto simp: s'_def cn_store_def)
  then show ?thesis
    using d stop(1) by (simp add: s'_def)
qed

lemma inv_publish:
  assumes "conn_inv s" "cs_prod s = P_stored p stop"
  shows "conn_inv ((cn_publish stop s)\<lparr>cs_prod := P_published, cs_accepted := cs_accepted s @ [the (cn_heap s p)]\<rparr>)"
proof -
  define s' where "s' = (cn_publish stop s)\<lparr>cs_prod := P_published, cs_accepted := cs_accepted s @ [the (cn_heap s p)]\<rparr>"
  note d = conn_invD [OF assms(1)]
  have stop: "stop = cn_buf_write s" "cn_msg_buf s ! unat stop = p" "ring_dist (cn_buf_read s) stop < 1023"
    using assms by (auto simp: conn_inv_def prod_ok_def)
  have view: "cs_front s' = cs_front s" "cs_seen s' = cs_seen s" "cs_own s' = []" "cs_own s = [p]"
    "cn_buf_write s' = ring_next stop" "cn_msg_buf s' = cn_msg_buf s" "cn_buf_read s' = cn_buf_read s"
    "heap_msgs s' = heap_msgs s" "cn_heap s' = cn_heap s"
    and acc: "cs_accepted s' = cs_accepted s @ [the (cn_heap s p)]" "cs_fault s' = cs_fault s" "cs_prod s' = P_published"
      "cs_sent s' = cs_sent s"
    using assms(2) by (simp_all add: conn_view_defs cn_publish_def heap_msgs_def fun_eq_iff s'_def)
  have room: "ring_dist (cs_front s) stop < 1023" using d(7) stop by simp
  then have "ring_next stop \<noteq> cs_front s" using d stop(1) by (simp add: ring_full_iff)
  then have live: "cs_live s' = cs_live s @ [p]"
    unfolding cs_live_def view using d stop by (simp add: ring_dist_next ring_slots_snoc)
  have "between (cn_buf_read s) (cs_front s) (ring_next stop)"
    "between (cs_front s) (cs_seen s) (ring_next stop)"
    using between_grow d(5,6) stop(1,3) room by simp_all
  then have "conn_indices_inv s'" using d(1) by (simp add: conn_indices_inv_def view)
  moreover have "conn_heap_inv s'"
    using assms(1) by (simp add: conn_inv_def conn_heap_inv_def live view)
  ultimately have "conn_inv s'"
    using assms(1) by (simp add: conn_inv_def prod_ok_def conn_wake_inv_def live view acc) (simp add: heap_msgs_def)
  then show ?thesis by (simp only: s'_def)
qed

lemma inv_wake:
  assumes "conn_inv s" "cs_prod s = P_published"
  shows "conn_inv ((cn_wake s)\<lparr>cs_prod := P_idle\<rparr>)" (is "conn_inv ?s")
proof -
  have view: "cs_front ?s = cs_front s" "cs_seen ?s = cs_seen s" "cs_live ?s = cs_live s"
    "cs_own ?s = cs_own s" "heap_msgs ?s = heap_msgs s"
    using assms(2) by (simp_all add: conn_view_defs cn_wake_def heap_msgs_def fun_eq_iff)
  show ?thesis using assms by (auto simp: conn_inv_defs view) (auto simp: cn_wake_def)
qed

lemma inv_work_start:
  assumes "conn_inv s" "cs_work s = W_idle"
  shows "conn_inv (s\<lparr>cn_work := False, cs_work := W_send (cn_buf_read s) (cn_buf_write s)\<rparr>)" (is "conn_inv ?s")
proof -
  have view: "cs_front ?s = cs_front s" "cs_seen ?s = cn_buf_write s" "cs_live ?s = cs_live s"
    "cs_own ?s = cs_own s" "heap_msgs ?s = heap_msgs s"
    using assms(2) by (simp_all add: conn_view_defs heap_msgs_def fun_eq_iff)
  show ?thesis
    using assms conn_invD [OF assms(1)]
    by (simp add: conn_inv_def conn_indices_inv_def conn_wake_inv_def view)
      (simp add: prod_ok_def conn_heap_inv_def view)
qed

lemma inv_work_send:
  assumes "conn_inv s" "cs_work s = W_send i stop" "i \<noteq> stop"
  shows "conn_inv (case cn_send_slot i s of None \<Rightarrow> s\<lparr>cs_fault := True\<rparr>
      | Some (m, s') \<Rightarrow> s'\<lparr>cs_work := W_send (ring_next i) stop, cs_sent := cs_sent s @ [m]\<rparr>)"
proof -
  note d = conn_invD [OF assms(1)]
  have front: "cs_front s = i" "cs_seen s = stop" using assms(2) by (simp_all add: conn_view_defs)
  have "ring_dist i stop \<noteq> 0"
    using assms(3) d(6) ring_dist_eq_0 [of i stop] by (auto simp: front dest: betweenD)
  then have iw: "i \<noteq> cn_buf_write s" using d(6) by (auto simp: front between_def)
  define p where "p = cn_msg_buf s ! unat i"
  define ps where "ps = ring_slots (ring_dist (ring_next i) (cn_buf_write s)) (ring_next i) (cn_msg_buf s)"
  have live: "cs_live s = p # ps"
    using d(2,4) iw by (simp add: cs_live_def front ring_dist_step ring_slots_front p_def ps_def)
  have heap: "distinct (p # ps @ cs_own s)" "0 \<notin> set (p # ps @ cs_own s)"
    "dom (cn_heap s) = set (p # ps @ cs_own s)"
    using assms(1) by (simp_all add: conn_inv_def conn_heap_inv_def live)
  then obtain m where m: "cn_heap s p = Some m" by auto
  define s' where "s' = s\<lparr>cn_heap := (cn_heap s)(p := None), cs_work := W_send (ring_next i) stop,
     cs_sent := cs_sent s @ [m]\<rparr>"
  have send: "cn_send_slot i s = Some (m, s\<lparr>cn_heap := (cn_heap s)(p := None)\<rparr>)"
    unfolding p_def by (rule cn_send_slot_alloc) (use d(1,4) heap(2) m in \<open>simp_all add: front flip: p_def\<close>)
  have view: "cs_front s' = ring_next i" "cs_seen s' = stop" "cs_live s' = ps" "cs_own s' = cs_own s"
    by (simp_all add: conn_view_defs s'_def ps_def)
  have "conn_indices_inv s'"
    using between_advance [OF d(5) [unfolded front] d(6) [unfolded front] assms(3)] d(1)
    by (simp add: conn_indices_inv_def view) (simp add: s'_def)
  moreover have "dom (cn_heap s') = dom (cn_heap s) - {p}" by (simp add: s'_def)
  then have "conn_heap_inv s'"
    using heap by (auto simp: conn_heap_inv_def view)
  moreover have "heap_msgs s' ps = heap_msgs s ps"
    using heap(1) by (simp add: heap_msgs_def s'_def heap_msgs_upd)
  moreover have "prod_ok s'" "conn_wake_inv s'" "\<not> cs_fault s'"
    using assms(1) by (simp_all add: conn_inv_def prod_ok_def conn_wake_inv_def view front)
      (simp_all add: s'_def)
  ultimately have "conn_inv s'"
    using assms(1) m by (simp add: conn_inv_def live view) (simp add: s'_def heap_msgs_def)
  then show ?thesis by (simp add: send s'_def)
qed

lemma inv_work_done:
  assumes "conn_inv s" "cs_work s = W_send stop stop"
  shows "conn_inv (s\<lparr>cn_buf_read := stop, cs_work := W_idle\<rparr>)" (is "conn_inv ?s")
proof -
  note d = conn_invD [OF assms(1)]
  have front: "cs_front s = stop" "cs_seen s = stop" using assms(2) by (simp_all add: conn_view_defs)
  have view: "cs_front ?s = stop" "cs_seen ?s = stop" "cs_live ?s = cs_live s"
    "cs_own ?s = cs_own s" "heap_msgs ?s = heap_msgs s"
    using assms(2) by (simp_all add: conn_view_defs heap_msgs_def fun_eq_iff)
  have "prod_ok ?s"
    using assms(1) d(5,7)
    by (cases "cs_prod s") (auto simp: conn_inv_def prod_ok_def front intro: between_trans)
  then show ?thesis
    using assms(1) d by (simp add: conn_inv_def conn_indices_inv_def conn_heap_inv_def conn_wake_inv_def view front)
qed

lemma inv_set_priv:
  assumes "conn_inv s"
  shows "conn_inv (iwl_connector_set_priv pr s)" (is "conn_inv ?s")
proof -
  have view: "cs_front ?s = cs_front s" "cs_seen ?s = cs_seen s" "cs_live ?s = cs_live s"
    "cs_own ?s = cs_own s" "heap_msgs ?s = heap_msgs s"
    by (simp_all add: conn_view_defs iwl_connector_set_priv_def heap_msgs_def fun_eq_iff)
  show ?thesis
    using assms by (auto simp: conn_inv_defs view) (auto simp: iwl_connector_set_priv_def)
qed

lemmas conn_inv_steps = inv_alloc inv_indices inv_drop inv_store inv_publish inv_wake
  inv_work_start inv_work_send inv_work_done inv_set_priv

lemma conn_step_inv: "conn_step users s s' \<Longrightarrow> conn_inv s \<Longrightarrow> conn_inv s'"
  by (induction rule: conn_step.induct) (blast intro: conn_inv_steps)+

interpretation conn_runs: invariant_system "conn_step users" conn_inv for users
  by unfold_locales (rule conn_step_inv)

lemma reachable_inv: "(conn_step users)\<^sup>*\<^sup>* (conn_start pr) s \<Longrightarrow> conn_inv s"
  by (erule conn_runs.inv_run) (rule conn_start_inv)

section \<open>Everything accepted can be delivered\<close>

text \<open>The work item, once started, reaches the index it read, whatever the producer is doing.\<close>

lemma work_item_finishes:
  assumes "conn_inv s" "cs_work s = W_send i stop"
  shows "\<exists>s'. (conn_step users)\<^sup>*\<^sup>* s s' \<and> conn_inv s' \<and> cs_work s' = W_idle \<and> cn_buf_read s' = stop \<and>
     cn_buf_write s' = cn_buf_write s \<and> cs_accepted s' = cs_accepted s \<and> cs_prod s' = cs_prod s \<and>
     cn_work s' = cn_work s"
  using assms
proof (induction "ring_dist i stop" arbitrary: s i)
  case 0
  then have "i = stop"
    using conn_invD [OF 0(2)] ring_dist_eq_0 [of i stop]
    by (auto simp: cs_front_def cs_seen_def dest: betweenD)
  then show ?case
    using 0 conn_step.work_done [of s stop users] inv_work_done [of s stop]
    by (intro exI [of _ "s\<lparr>cn_buf_read := stop, cs_work := W_idle\<rparr>"]) auto
next
  case (Suc n)
  then have ne: "i \<noteq> stop" by auto
  have "\<not> cs_fault s" using Suc.prems(1) by (simp add: conn_inv_def)
  define s1 where "s1 = (case cn_send_slot i s of None \<Rightarrow> s\<lparr>cs_fault := True\<rparr>
      | Some (m, s') \<Rightarrow> s'\<lparr>cs_work := W_send (ring_next i) stop, cs_sent := cs_sent s @ [m]\<rparr>)"
  have step: "conn_step users s s1"
    unfolding s1_def by (rule conn_step.work_send [OF Suc.prems(2) ne])
  have inv: "conn_inv s1" unfolding s1_def by (rule inv_work_send [OF Suc.prems ne])
  then have "\<not> cs_fault s1" by (simp add: conn_inv_def)
  then obtain m s' where send: "cn_send_slot i s = Some (m, s')"
    by (auto simp: s1_def split: option.splits)
  then have fields: "cs_work s1 = W_send (ring_next i) stop" "cn_buf_write s1 = cn_buf_write s"
    "cs_accepted s1 = cs_accepted s" "cs_prod s1 = cs_prod s" "cn_work s1 = cn_work s"
    by (auto simp: s1_def cn_send_slot_def kfree_def split: if_splits option.splits)
  have "ring_dist i stop = Suc (ring_dist (ring_next i) stop)"
    using conn_invD [OF Suc.prems(1)] Suc.prems(2) ne
    by (intro ring_dist_step) (auto simp: cs_front_def cs_seen_def dest: betweenD)
  then have n: "n = ring_dist (ring_next i) stop" using Suc.hyps(2) by simp
  from Suc.hyps(1) [OF n inv fields(1)] show ?case
    using converse_rtranclp_into_rtranclp [of "conn_step users", OF step] by (auto simp: fields)
qed

lemma delivered_when_empty:
  "conn_inv s \<Longrightarrow> cs_work s = W_idle \<Longrightarrow> cn_buf_read s = cn_buf_write s \<Longrightarrow> cs_sent s = cs_accepted s"
  by (simp add: conn_inv_def cs_live_def cs_front_def heap_msgs_def)

lemma queued_work_delivers:
  assumes "conn_inv s" "cs_work s = W_idle" "cn_work s"
  shows "\<exists>s'. (conn_step users)\<^sup>*\<^sup>* s s' \<and> cs_sent s' = cs_accepted s"
proof -
  define s1 where "s1 = s\<lparr>cn_work := False, cs_work := W_send (cn_buf_read s) (cn_buf_write s)\<rparr>"
  have "conn_step users s s1" unfolding s1_def by (rule conn_step.work_start [OF assms(2,3)])
  moreover have "conn_inv s1" unfolding s1_def by (rule inv_work_start [OF assms(1,2)])
  from work_item_finishes [OF this, of "cn_buf_read s" "cn_buf_write s" users]
  obtain s' where "(conn_step users)\<^sup>*\<^sup>* s1 s'" "conn_inv s'" "cs_work s' = W_idle"
    "cn_buf_read s' = cn_buf_write s" "cn_buf_write s' = cn_buf_write s1" "cs_accepted s' = cs_accepted s1"
    by (auto simp: s1_def)
  ultimately show ?thesis
    using delivered_when_empty [of s'] by (intro exI [of _ s']) (auto simp: s1_def)
qed

lemma idle_work_delivers:
  assumes "conn_inv s" "cs_work s = W_idle"
  shows "\<exists>s'. (conn_step users)\<^sup>*\<^sup>* s s' \<and> cs_sent s' = cs_accepted s"
proof (cases "cn_buf_read s = cn_buf_write s")
  case True
  then show ?thesis using delivered_when_empty [OF assms] by (intro exI [of _ s]) simp
next
  case False
  then have wake: "cn_work s \<or> cs_prod s = P_published"
    using assms by (auto simp: conn_inv_def conn_wake_inv_def cs_seen_def)
  show ?thesis
  proof (cases "cn_work s")
    case True
    then show ?thesis by (rule queued_work_delivers [OF assms])
  next
    case False
    then have prod: "cs_prod s = P_published" using wake by simp
    define s1 where "s1 = (cn_wake s)\<lparr>cs_prod := P_idle\<rparr>"
    have "conn_step users s s1" "conn_inv s1"
      unfolding s1_def by (rule conn_step.wake [OF prod], rule inv_wake [OF assms(1) prod])
    moreover have "cs_work s1 = W_idle" "cn_work s1" "cs_accepted s1 = cs_accepted s"
      using assms(2) by (simp_all add: s1_def cn_wake_def)
    ultimately show ?thesis
      using queued_work_delivers [of s1 users] by (auto intro: converse_rtranclp_into_rtranclp)
  qed
qed

lemma accepted_delivers:
  assumes "conn_inv s"
  shows "\<exists>s'. (conn_step users)\<^sup>*\<^sup>* s s' \<and> cs_sent s' = cs_accepted s"
proof (cases "cs_work s")
  case W_idle
  then show ?thesis by (rule idle_work_delivers [OF assms])
next
  case (W_send i stop)
  from work_item_finishes [OF assms this, of users] obtain s1 where
    "(conn_step users)\<^sup>*\<^sup>* s s1" "conn_inv s1" "cs_work s1 = W_idle" "cs_accepted s1 = cs_accepted s"
    by blast
  then show ?thesis using idle_work_delivers [of s1 users] by (auto intro: rtranclp_trans)
qed

section \<open>Unloading\<close>

lemma unregister_loop_spec:
  assumes "length (cn_msg_buf st) = 1024" "unat i < 1024" "unat (cn_buf_write st) < 1024"
    and "distinct (ring_slots (ring_dist i (cn_buf_write st)) i (cn_msg_buf st))"
    and "0 \<notin> set (ring_slots (ring_dist i (cn_buf_write st)) i (cn_msg_buf st))"
    and "set (ring_slots (ring_dist i (cn_buf_write st)) i (cn_msg_buf st)) \<subseteq> dom (cn_heap st)"
    and "ring_dist i (cn_buf_write st) < fuel"
  shows "unregister_loop fuel i st =
     Some (st\<lparr>cn_heap := cn_heap st |` (- set (ring_slots (ring_dist i (cn_buf_write st)) i (cn_msg_buf st)))\<rparr>)"
  using assms
proof (induction fuel i st rule: unregister_loop.induct)
  case (2 fuel i st)
  show ?case
  proof (cases "i = cn_buf_write st")
    case False
    define p where "p = cn_msg_buf st ! unat i"
    define ps where "ps = ring_slots (ring_dist (ring_next i) (cn_buf_write st)) (ring_next i) (cn_msg_buf st)"
    have slots: "ring_slots (ring_dist i (cn_buf_write st)) i (cn_msg_buf st) = p # ps"
      using 2(3,4) False by (simp add: ring_dist_step ring_slots_front p_def ps_def)
    define st' where "st' = st\<lparr>cn_heap := (cn_heap st)(p := None)\<rparr>"
    have free: "kfree p st = Some st'"
      unfolding st'_def by (rule kfree_alloc) (use 2(6,7) in \<open>auto simp: slots\<close>)
    have buf: "cn_msg_buf st' = cn_msg_buf st" "cn_buf_write st' = cn_buf_write st" by (simp_all add: st'_def)
    have ps: "distinct ps" "0 \<notin> set ps" "p \<notin> set ps" using 2(5,6) by (auto simp: slots)
    have sub: "set ps \<subseteq> dom (cn_heap st')" using 2(7) ps(3) by (auto simp: slots st'_def)
    have d: "ring_dist (ring_next i) (cn_buf_write st) < fuel" using 2(3,4,8) False by (simp add: ring_dist_step)
    have "\<not> length (cn_msg_buf st) \<le> unat i" using 2(2,3) by simp
    from 2(1) [OF False this free [unfolded p_def]] 2(2,4) ps(1,2) sub d
    have "unregister_loop fuel (ring_next i) st' = Some (st'\<lparr>cn_heap := cn_heap st' |` (- set ps)\<rparr>)"
      by (simp add: buf flip: ps_def)
    moreover have "cn_heap st' |` (- set ps) = cn_heap st |` (- set (p # ps))"
      by (auto simp: st'_def restrict_map_def fun_eq_iff)
    moreover have "st'\<lparr>cn_heap := h\<rparr> = st\<lparr>cn_heap := h\<rparr>" for h by (simp add: st'_def)
    ultimately show ?thesis
      using False 2(2,3) free by (simp add: slots flip: p_def)
  qed simp
qed simp

lemma unregister_spec:
  assumes "cn_ok st"
  shows "iwlagn_unregister_connector st = Some (st\<lparr>cn_heap := Map.empty\<rparr>)"
proof -
  have "cn_heap st |` (- set (cn_pending st)) = Map.empty"
    using assms by (auto simp: cn_ok_def restrict_map_def domIff fun_eq_iff)
  moreover have "unregister_loop 1024 (cn_buf_read st) st =
     Some (st\<lparr>cn_heap := cn_heap st |` (- set (cn_pending st))\<rparr>)"
    unfolding cn_pending_def
    by (rule unregister_loop_spec)
      (use assms in \<open>simp_all add: cn_ok_def cn_indices_ok_def flip: cn_pending_def\<close>)
  ultimately show ?thesis by (simp add: iwlagn_unregister_connector_def CN_BUF_SIZE_def)
qed

text \<open>With the memory gone and the indices kept, the first slot cannot be read or freed again.\<close>

lemma dangling_slot:
  assumes "cn_ok st" "cn_pending st \<noteq> []"
  shows "cn_buf_read st \<noteq> cn_buf_write st" "cn_msg_buf st ! unat (cn_buf_read st) \<noteq> 0"
proof -
  show ne: "cn_buf_read st \<noteq> cn_buf_write st"
    using assms(2) by (auto simp: cn_pending_def)
  have ix: "unat (cn_buf_read st) < 1024" "unat (cn_buf_write st) < 1024"
    using assms(1) by (simp_all add: cn_ok_def cn_indices_ok_def)
  have "cn_msg_buf st ! unat (cn_buf_read st) \<in> set (cn_pending st)"
    using ne ix by (simp add: cn_pending_def ring_dist_step ring_slots_front)
  then show "cn_msg_buf st ! unat (cn_buf_read st) \<noteq> 0"
    using assms(1) by (auto simp: cn_ok_def simp flip: neq0_conv)
qed

lemma send_loop_fault: "i \<noteq> stop \<Longrightarrow> cn_send_slot i st = None \<Longrightarrow> connector_send_loop (Suc fuel) i stop st = None"
  by simp

lemma unregister_loop_fault:
  "i \<noteq> cn_buf_write st \<Longrightarrow> kfree (cn_msg_buf st ! unat i) st = None \<Longrightarrow> unregister_loop (Suc fuel) i st = None"
  by simp

text \<open>A message accepted by the queue, step by step, and the sequential state it leaves.\<close>

definition demo_msg :: cn_msg where
  "demo_msg = connector_msg 11 [7] 1 0xbb"

definition conn_demo1 :: "unit conn_sys" where
  "conn_demo1 = (conn_start (Some ()))\<lparr>cn_heap := (cn_heap (conn_start (Some ())))(1 \<mapsto> demo_msg), cs_prod := P_have 1\<rparr>"

definition conn_demo2 :: "unit conn_sys" where
  "conn_demo2 = conn_demo1\<lparr>cs_prod := P_indices 1 (cn_buf_read conn_demo1) (cn_buf_write conn_demo1)\<rparr>"

definition conn_demo3 :: "unit conn_sys" where
  "conn_demo3 = (cn_store 1 0 conn_demo2)\<lparr>cs_prod := P_stored 1 0\<rparr>"

definition conn_demo4 :: "unit conn_sys" where
  "conn_demo4 = (cn_publish 0 conn_demo3)\<lparr>cs_prod := P_published,
     cs_accepted := cs_accepted conn_demo3 @ [the (cn_heap conn_demo3 1)]\<rparr>"

lemmas conn_demo_defs = conn_demo4_def conn_demo3_def conn_demo2_def conn_demo1_def conn_start_def
  cn_publish_def cn_store_def

lemma conn_demo_run: "(conn_step 11)\<^sup>*\<^sup>* (conn_start (Some ())) conn_demo4"
proof -
  have "conn_step 11 (conn_start (Some ())) conn_demo1"
    unfolding conn_demo1_def demo_msg_def by (rule conn_step.alloc) (simp_all add: conn_start_def)
  moreover have "conn_step 11 conn_demo1 conn_demo2"
    unfolding conn_demo2_def by (rule conn_step.indices) (simp add: conn_demo1_def)
  moreover have "conn_step 11 conn_demo2 conn_demo3"
    using conn_step.store [of conn_demo2 1 0 0 11]
    by (simp add: conn_demo_defs enqueue_drops_def ring_next_def CN_BUF_SIZE_def)
  moreover have "conn_step 11 conn_demo3 conn_demo4"
    unfolding conn_demo4_def by (rule conn_step.publish) (simp add: conn_demo3_def)
  ultimately show ?thesis by (meson rtranclp.rtrancl_into_rtrancl rtranclp.rtrancl_refl)
qed

definition cn_empty :: "'p option \<Rightarrow> 'p connector" where
  "cn_empty pr = \<lparr>cn_msg_buf = replicate 1024 0, cn_buf_read = 0, cn_buf_write = 0, cn_priv = pr,
     cn_work = False, cn_heap = Map.empty\<rparr>"

lemma cn_empty_ok: "cn_ok (cn_empty pr)" "cn_contents (cn_empty pr) = []" "cn_priv (cn_empty pr) = pr"
  by (simp_all add: cn_ok_def cn_indices_ok_def cn_contents_def heap_msgs_def cn_pending_def cn_empty_def)

definition next_pointer :: "(nat \<rightharpoonup> cn_msg) \<Rightarrow> nat" where
  "next_pointer h = Suc (Max (insert 0 (dom h)))"

lemma next_pointer_fresh: "fresh_allocator next_pointer"
proof -
  have "h (next_pointer h) = None" if "finite (dom h)" for h :: "nat \<rightharpoonup> cn_msg"
  proof (rule ccontr)
    assume "h (next_pointer h) \<noteq> None"
    then have "next_pointer h \<le> Max (insert 0 (dom h))" using that by (intro Max_ge) auto
    then show False by (simp add: next_pointer_def)
  qed
  then show ?thesis by (simp add: fresh_allocator_def next_pointer_def)
qed

definition cn_one :: "unit connector" where
  "cn_one = \<lparr>cn_msg_buf = 1 # replicate 1023 0, cn_buf_read = 0, cn_buf_write = 1, cn_priv = Some (),
     cn_work = True, cn_heap = [1 \<mapsto> demo_msg]\<rparr>"

lemma cn_one_ok: "cn_pending cn_one = [1]" "cn_ok cn_one"
proof -
  show p: "cn_pending cn_one = [1]"
    by (simp add: cn_pending_def cn_one_def ring_dist_def ring_slots_def)
  show "cn_ok cn_one"
    unfolding cn_ok_def p by (simp add: cn_indices_ok_def cn_one_def)
qed

section \<open>Properties\<close>

text \<open>C11: Whatever way the producer and the work item interleave, from registration on, no message is freed twice, read after it was freed or written outside the ring; the messages handed to the netlink layer, followed by those in the queue, are exactly the messages that were accepted, in the order of acceptance; and at most 1023 messages wait.\<close>

theorem connector_interleaved_fifo:
  "(conn_step users)\<^sup>*\<^sup>* (conn_start pr) s \<Longrightarrow>
     \<not> cs_fault s \<and> cs_accepted s = cs_sent s @ heap_msgs s (cs_live s) \<and> length (cs_live s) < 1024 \<and>
     dom (cn_heap s) = set (cs_live s @ cs_own s)"
  by (drule reachable_inv) (simp add: conn_inv_def conn_heap_inv_def, simp add: cs_live_def)

lemma connector_interleaved_fifo_witness:
  "\<not> cs_fault conn_demo4 \<and> cs_accepted conn_demo4 = [demo_msg] \<and>
     cs_accepted conn_demo4 = cs_sent conn_demo4 @ heap_msgs conn_demo4 (cs_live conn_demo4) \<and>
     dom (cn_heap conn_demo4) = set (cs_live conn_demo4 @ cs_own conn_demo4)"
  using connector_interleaved_fifo [OF conn_demo_run] by (simp add: conn_demo_defs)



text \<open>C31: Run undisturbed, every sequence of \<open>connector_send_msg\<close> and work-item runs returns without a memory error and behaves as a list bounded by 1023 messages: sends append or, when the list is full, drop the new message; the work item returns the whole list in order.\<close>

theorem connector_refines_bounded_list:
  assumes "fresh_allocator km" "cn_ok st" "cn_priv st \<noteq> None"
  shows "\<exists>out st'. queue_run (cn_put users) cn_drain ops (km, st) = Some (out, st') \<and>
     bounded_run 1023 (map (op_msg (cn_put_msg users)) ops) (cn_contents st) = (out, cn_contents (snd st'))"
  using conn.run_refines [of "(km, st)" users ops] assms by (auto simp: cn_ready_def)

lemma connector_refines_bounded_list_witness:
  "\<exists>st'. queue_run (cn_put 11) cn_drain [Put ([7], 0xbb), Put ([8, 9], 0xc1), Drain, Put ([1], 0xd0)]
      (next_pointer, cn_empty (Some ())) =
     Some ([connector_msg 11 [7] 1 0xbb, connector_msg 11 [8, 9] 2 0xc1], st') \<and>
     cn_contents (snd st') = [connector_msg 11 [1] 1 0xd0]"
proof -
  define ops where "ops = [Put ([7 :: u8], 0xbb :: u8), Put ([8, 9], 0xc1), Drain, Put ([1], 0xd0)]"
  obtain out st' where
    run: "queue_run (cn_put 11) cn_drain ops (next_pointer, cn_empty (Some ())) = Some (out, st')" and
    out: "bounded_run 1023 (map (op_msg (cn_put_msg 11)) ops) [] = (out, cn_contents (snd st'))"
    using connector_refines_bounded_list [OF next_pointer_fresh cn_empty_ok(1) [of "Some ()"], of 11 ops]
    by (auto simp: cn_empty_ok)
  show ?thesis
    using run out unfolding ops_def by (intro exI [of _ st']) (simp add: cn_put_msg_def del: queue_run.simps)
qed

text \<open>Unregistering frees the waiting messages but, against its own comment, does not reset the indices: with messages waiting, a work item that runs afterwards, and a second unregistering, use the freed memory.\<close>

theorem unregister_leaves_dangling_messages:
  assumes "cn_ok st" "cn_pending st \<noteq> []"
  shows "\<exists>st'. iwlagn_unregister_connector st = Some st' \<and> cn_heap st' = Map.empty \<and>
     cn_work st' = cn_work st \<and> connector_work st' = None \<and> iwlagn_unregister_connector st' = None"
proof -
  define st' where "st' = st\<lparr>cn_heap := Map.empty\<rparr>"
  note d = dangling_slot [OF assms]
  have "cn_send_slot (cn_buf_read st) (st'\<lparr>cn_work := False\<rparr>) = None"
    by (simp add: st'_def cn_send_slot_def)
  then have "connector_send_loop (Suc 1023) (cn_buf_read st) (cn_buf_write st) (st'\<lparr>cn_work := False\<rparr>) = None"
    by (rule send_loop_fault [OF d(1)])
  then have "connector_work st' = None"
    by (simp add: connector_work_def connector_send_all_def CN_BUF_SIZE_def st'_def)
  moreover have "unregister_loop (Suc 1023) (cn_buf_read st) st' = None"
    by (rule unregister_loop_fault) (use d in \<open>simp_all add: st'_def kfree_def\<close>)
  then have "iwlagn_unregister_connector st' = None"
    by (simp add: iwlagn_unregister_connector_def CN_BUF_SIZE_def st'_def)
  ultimately show ?thesis
    using unregister_spec [OF assms(1)] by (intro exI [of _ st']) (simp add: st'_def)
qed

lemma unregister_leaves_dangling_messages_witness:
  "\<exists>st'. iwlagn_unregister_connector cn_one = Some st' \<and> connector_work st' = None"
  using unregister_leaves_dangling_messages [OF cn_one_ok(2)] by (auto simp: cn_one_ok(1))

end
