(* ===== verification/Bfee_Decode.thy ===== *)
theory Bfee_Decode
  imports Iax_Prelude
begin

text \<open>
  The decoder of the 5300 beamforming reports (\<open>read_bfee.c\<close> and its variant with the PCI address
  in \<open>read_bfee_with_pci.c\<close>): a 20-byte header and, for 30 groups of subcarriers, a bit-packed matrix
  of signed 8-bit real and imaginary parts. Shown: the decoder never reads past the length it has
  checked, the bit position of every entry, and that it inverts a bit packer.
\<close>

unbundle bit_operations_syntax

section \<open>The decoder\<close>

text \<open>A byte of an input array; \<open>None\<close> is a read outside of it.\<close>

definition byte_at :: "u8 list \<Rightarrow> nat \<Rightarrow> u8 option" where
  "byte_at bs i = (if i < length bs then Some (bs ! i) else None)"

text \<open>\<open>tmp = (payload[k] >> remainder) | (payload[k+1] << (8-remainder))\<close>, with \<open>tmp\<close> a \<open>char\<close>.\<close>

definition bfee_tmp :: "u8 list \<Rightarrow> nat \<Rightarrow> nat \<Rightarrow> int option" where
  "bfee_tmp payload k remainder =
     (case byte_at payload k of None \<Rightarrow> None
      | Some a \<Rightarrow> (case byte_at payload (k + 1) of None \<Rightarrow> None
        | Some b \<Rightarrow> Some (sint (ucast (drop_bit remainder (ucast a :: u32) OR
            push_bit (8 - remainder) (ucast b)) :: u8))))"

text \<open>The inner loop: one subcarrier group, \<open>n = Nrx * Ntx\<close> entries.\<close>

fun bfee_entries :: "u8 list \<Rightarrow> nat \<Rightarrow> nat \<Rightarrow> nat \<Rightarrow> ((int \<times> int) list \<times> nat) option" where
  "bfee_entries payload 0 index remainder = Some ([], index)"
| "bfee_entries payload (Suc n) index remainder =
     (case bfee_tmp payload (index div 8) remainder of None \<Rightarrow> None
      | Some re \<Rightarrow> (case bfee_tmp payload (index div 8 + 1) remainder of None \<Rightarrow> None
        | Some im \<Rightarrow> (case bfee_entries payload n (index + 16) remainder of None \<Rightarrow> None
          | Some (es, index') \<Rightarrow> Some ((re, im) # es, index'))))"

text \<open>The outer loop over the remaining groups.\<close>

fun bfee_groups :: "u8 list \<Rightarrow> nat \<Rightarrow> nat \<Rightarrow> nat \<Rightarrow> (int \<times> int) list option" where
  "bfee_groups payload n 0 index = Some []"
| "bfee_groups payload n (Suc i) index =
     (case bfee_entries payload n (index + 3) ((index + 3) mod 8) of None \<Rightarrow> None
      | Some (es, index') \<Rightarrow> map_option ((@) es) (bfee_groups payload n i index'))"

record bfee_cell =
  c_timestamp_low :: u32
  c_bfee_count :: u16
  c_Nrx :: nat
  c_Ntx :: nat
  c_rssi_a :: nat
  c_rssi_b :: nat
  c_rssi_c :: nat
  c_noise :: int
  c_agc :: nat
  c_perm :: "nat list"
  c_rate :: nat
  c_csi :: "(int \<times> int) list"

datatype bfee_error = Wrong_size | Wrong_nrhs | Wrong_nlhs | Not_bytes

definition bfee_calc_len :: "nat \<Rightarrow> nat \<Rightarrow> nat" where
  "bfee_calc_len Nrx Ntx = (30 * (Nrx * Ntx * 8 * 2 + 3) + 7) div 8"

text \<open>
  \<open>read_bfee\<close>. \<open>None\<close> is a read outside the array, \<open>Inl\<close> the error raised to Matlab. The real and the
  imaginary parts are the list \<open>c_csi\<close> in the column-major order of the array.
\<close>

definition read_bfee :: "u8 list \<Rightarrow> (bfee_error + bfee_cell) option" where
  "read_bfee b =
     (if length b < 20 then None
      else let
        antenna_sel = b ! 15;
        Nrx = unat (b ! 8); Ntx = unat (b ! 9);
        len = unat (b ! 16) + 256 * unat (b ! 17)
      in if len \<noteq> bfee_calc_len Nrx Ntx then Some (Inl Wrong_size)
         else case bfee_groups (drop 20 b) (Nrx * Ntx) 30 0 of None \<Rightarrow> None
         | Some csi \<Rightarrow> Some (Inr \<lparr>
             c_timestamp_low = ucast (b ! 0) + push_bit 8 (ucast (b ! 1)) + push_bit 16 (ucast (b ! 2)) +
               push_bit 24 (ucast (b ! 3)),
             c_bfee_count = ucast (b ! 4) + push_bit 8 (ucast (b ! 5)),
             c_Nrx = Nrx, c_Ntx = Ntx,
             c_rssi_a = unat (b ! 10), c_rssi_b = unat (b ! 11), c_rssi_c = unat (b ! 12),
             c_noise = sint (b ! 13), c_agc = unat (b ! 14),
             c_perm = [unat (antenna_sel AND 0x3) + 1, unat (drop_bit 2 antenna_sel AND 0x3) + 1,
               unat (drop_bit 4 antenna_sel AND 0x3) + 1],
             c_rate = unat (b ! 18) + 256 * unat (b ! 19),
             c_csi = csi\<rparr>))"

text \<open>The gateway: the argument checks, then the computation.\<close>

definition mexFunction :: "nat \<Rightarrow> nat \<Rightarrow> bool \<Rightarrow> u8 list \<Rightarrow> (bfee_error + bfee_cell) option" where
  "mexFunction nlhs nrhs is_uint8 inBytes =
     (if nrhs \<noteq> 1 then Some (Inl Wrong_nrhs)
      else if nlhs \<noteq> 1 then Some (Inl Wrong_nlhs)
      else if \<not> is_uint8 then Some (Inl Not_bytes)
      else read_bfee inBytes)"

text \<open>The variant that also returns the PCI address which the driver may store in \<open>reserved1\<close>.\<close>

definition read_bfee_with_pci :: "u8 list \<Rightarrow> (bfee_error + u16 \<times> bfee_cell) option" where
  "read_bfee_with_pci b =
     (case read_bfee b of None \<Rightarrow> None
      | Some (Inl e) \<Rightarrow> Some (Inl e)
      | Some (Inr c) \<Rightarrow> Some (Inr (ucast (b ! 6) + push_bit 8 (ucast (b ! 7)), c)))"

section \<open>Where each entry stands\<close>

definition payload_bit :: "u8 list \<Rightarrow> nat \<Rightarrow> bool" where
  "payload_bit p k = bit (p ! (k div 8)) (k mod 8)"

text \<open>The signed 8-bit number at a bit position, least significant bit first.\<close>

definition sample_word :: "u8 list \<Rightarrow> nat \<Rightarrow> u8" where
  "sample_word p k = horner_sum of_bool 2 (map (\<lambda>n. payload_bit p (k + n)) [0..<8])"

definition sample :: "u8 list \<Rightarrow> nat \<Rightarrow> int" where
  "sample p k = sint (sample_word p k)"

lemma bit_sample_word: "n < 8 \<Longrightarrow> bit (sample_word p k) n \<longleftrightarrow> payload_bit p (k + n)"
  by (simp add: sample_word_def bit_horner_sum_bit_iff del: upt_Suc)

lemma byte_position: "(x::nat) < 8 \<Longrightarrow> (8 * q + x) div 8 = q \<and> (8 * q + x) mod 8 = x"
  by simp

lemma bit_position:
  fixes k n :: nat
  shows "k mod 8 + n < 8 \<Longrightarrow> (k + n) div 8 = k div 8 \<and> (k + n) mod 8 = k mod 8 + n"
    and "\<not> k mod 8 + n < 8 \<Longrightarrow> n < 8 \<Longrightarrow> (k + n) div 8 = k div 8 + 1 \<and> (k + n) mod 8 = k mod 8 + n - 8"
proof -
  define d r where "d = k div 8" and "r = k mod 8"
  have k: "k = 8 * d + r" "k div 8 = d" "k mod 8 = r" "r < 8" by (simp_all add: d_def r_def)
  show "(k + n) div 8 = k div 8 \<and> (k + n) mod 8 = k mod 8 + n" if "k mod 8 + n < 8"
  proof -
    have x: "r + n < 8" and "k + n = 8 * d + (r + n)" using that k by simp_all
    then show ?thesis using byte_position [OF x, of d] k by (simp only:)
  qed
  show "(k + n) div 8 = k div 8 + 1 \<and> (k + n) mod 8 = k mod 8 + n - 8"
    if "\<not> k mod 8 + n < 8" "n < 8"
  proof -
    have x: "r + n - 8 < 8" and "k + n = 8 * (d + 1) + (r + n - 8)"
      using that k(4) unfolding k(3) by (linarith, simp add: k(1))
    then show ?thesis using byte_position [OF x, of "d + 1"] k by (simp only:)
  qed
qed

lemma bfee_tmp_sample:
  assumes "k div 8 + 1 < length p"
  shows "bfee_tmp p (k div 8) (k mod 8) = Some (sample p k)"
proof -
  have "(ucast (drop_bit (k mod 8) (ucast (p ! (k div 8)) :: u32) OR
      push_bit (8 - k mod 8) (ucast (p ! (k div 8 + 1)))) :: u8) = sample_word p k" (is "?w = _")
  proof (rule bit_word_eqI)
    fix n assume "n < LENGTH(8)"
    then have n: "n < 8" by simp
    have m: "k mod 8 < 8" by simp
    show "bit ?w n = bit (sample_word p k) n"
    proof (cases "k mod 8 + n < 8")
      case True
      then have "\<not> 8 - k mod 8 \<le> n" "k mod 8 + n < 32" by linarith+
      then show ?thesis
        using n m bit_imp_le_length [of "p ! (k div 8)" "k mod 8 + n"]
        by (auto simp: bit_sample_word payload_bit_def bit_simps bit_position(1) [OF True])
    next
      case False
      then show ?thesis
        using n m bit_imp_le_length [of "p ! (k div 8)" "k mod 8 + n"]
        by (auto simp: bit_sample_word payload_bit_def bit_simps bit_position(2) [OF False n]
            add.commute [of n "k mod 8"])
    qed
  qed
  then show ?thesis
    using assms by (simp add: bfee_tmp_def byte_at_def sample_def)
qed

definition entries_at :: "u8 list \<Rightarrow> nat \<Rightarrow> nat \<Rightarrow> (int \<times> int) list" where
  "entries_at p n index = map (\<lambda>j. (sample p (index + 16 * j), sample p (index + 16 * j + 8))) [0..<n]"

lemma entries_at_Suc: "entries_at p (Suc n) index = (sample p index, sample p (index + 8)) # entries_at p n (index + 16)"
  by (simp add: entries_at_def map_upt_Suc add.assoc del: upt_Suc)

lemma bfee_entries_eq:
  "index + 16 * n < 8 * length p \<Longrightarrow>
     bfee_entries p n index (index mod 8) = Some (entries_at p n index, index + 16 * n)"
proof (induction n arbitrary: index)
  case (Suc n)
  have "(index + 16) div 8 < length p"
    by (rule less_mult_imp_div_less) (use Suc.prems in simp)
  then have bound: "index div 8 + 2 < length p" by simp
  have re: "bfee_tmp p (index div 8) (index mod 8) = Some (sample p index)"
    by (rule bfee_tmp_sample) (use bound in simp)
  have "bfee_tmp p ((index + 8) div 8) ((index + 8) mod 8) = Some (sample p (index + 8))"
    by (rule bfee_tmp_sample) (use bound in simp)
  moreover have "(index + 8) div 8 = index div 8 + 1" "(index + 8) mod 8 = index mod 8" by simp_all
  ultimately have im: "bfee_tmp p (index div 8 + 1) (index mod 8) = Some (sample p (index + 8))"
    by (simp only:)
  have "bfee_entries p n (index + 16) ((index + 16) mod 8) =
      Some (entries_at p n (index + 16), index + 16 + 16 * n)"
    by (rule Suc.IH) (use Suc.prems in simp)
  moreover have "(index + 16) mod 8 = index mod 8"
    using mod_mult_self1 [of index 2 8] by simp
  ultimately show ?case
    by (simp add: re im [simplified] entries_at_Suc)
qed (simp add: entries_at_def)

text \<open>Group \<open>i\<close> starts after \<open>i + 1\<close> three-bit gaps and \<open>i\<close> groups of \<open>n\<close> entries.\<close>

definition groups_at :: "u8 list \<Rightarrow> nat \<Rightarrow> nat \<Rightarrow> nat \<Rightarrow> (int \<times> int) list" where
  "groups_at p n i index = concat (map (\<lambda>g. entries_at p n (index + 3 * (g + 1) + 16 * n * g)) [0..<i])"

lemma groups_at_Suc: "groups_at p n (Suc i) index = entries_at p n (index + 3) @ groups_at p n i (index + 3 + 16 * n)"
  by (simp add: groups_at_def map_upt_Suc add_ac distrib_left mult_ac del: upt_Suc)

lemma bfee_groups_eq:
  "index + (3 + 16 * n) * i < 8 * length p \<Longrightarrow> bfee_groups p n i index = Some (groups_at p n i index)"
proof (induction i arbitrary: index)
  case (Suc i)
  have "index + 3 + 16 * n < 8 * length p" using Suc.prems by simp
  then have "bfee_entries p n (index + 3) ((index + 3) mod 8) =
      Some (entries_at p n (index + 3), index + 3 + 16 * n)"
    by (rule bfee_entries_eq)
  moreover have "bfee_groups p n i (index + 3 + 16 * n) = Some (groups_at p n i (index + 3 + 16 * n))"
    by (rule Suc.IH) (use Suc.prems in \<open>simp add: add_ac\<close>)
  ultimately show ?case by (simp add: groups_at_Suc)
qed (simp add: groups_at_def)

lemma calc_len_bits: "30 * (3 + 16 * n) < 8 * ((30 * (n * 8 * 2 + 3) + 7) div 8 :: nat)"
proof -
  have "30 * (n * 8 * 2 + 3) + 7 = 8 * (60 * n + 12) + 1" by simp
  then have "(30 * (n * 8 * 2 + 3) + 7) div 8 = 60 * n + 12" by simp
  then show ?thesis by simp
qed


section \<open>The packer\<close>

text \<open>
  What the report contains, written as an encoder: the bits of each group, three gap bits and then
  every entry with its real and imaginary part, least significant bit first, cut into bytes.
\<close>

definition word_bits :: "int \<Rightarrow> bool list" where
  "word_bits x = map (bit (word_of_int x :: u8)) [0..<8]"

definition entry_bits :: "int \<times> int \<Rightarrow> bool list" where
  "entry_bits e = word_bits (fst e) @ word_bits (snd e)"

definition group_bits :: "(int \<times> int) list \<Rightarrow> bool list" where
  "group_bits es = [False, False, False] @ concat (map entry_bits es)"

definition pack_bits :: "bool list \<Rightarrow> u8 list" where
  "pack_bits bs = map (\<lambda>i. horner_sum of_bool 2 (take 8 (drop (8 * i) bs))) [0..<(length bs + 7) div 8]"

definition pack_csi :: "(int \<times> int) list list \<Rightarrow> u8 list" where
  "pack_csi gs = pack_bits (concat (map group_bits gs))"

lemma length_entry_bits [simp]: "length (entry_bits e) = 16"
  by (simp add: entry_bits_def word_bits_def)

lemma length_group_bits [simp]: "length (group_bits es) = 3 + 16 * length es"
  by (simp add: group_bits_def length_concat_slots [where k = 16])

lemma length_csi_bits:
  "\<forall>es\<in>set gs. length es = n \<Longrightarrow> length (concat (map group_bits gs)) = (3 + 16 * n) * length gs"
  by (intro length_concat_slots) simp

lemma payload_bit_pack:
  assumes "k < length bs"
  shows "payload_bit (pack_bits bs) k = bs ! k"
proof -
  have "k div 8 + 1 \<le> (length bs + 7) div 8"
    using div_le_mono [of "k + 8" "length bs + 7" 8] assms by simp
  then have "pack_bits bs ! (k div 8) = horner_sum of_bool 2 (take 8 (drop (8 * (k div 8)) bs))"
    by (simp add: pack_bits_def del: upt_Suc)
  moreover have k: "8 * (k div 8) + k mod 8 = k" "k mod 8 < 8" by simp_all
  then have "k mod 8 < length (take 8 (drop (8 * (k div 8)) bs))"
    using assms by (simp only: length_take length_drop min_less_iff_conj simp_thms)
  ultimately show ?thesis
    using k by (simp add: payload_bit_def bit_horner_sum_bit_iff)
qed

lemma nth_concat_blocks:
  "\<forall>xs\<in>set xss. length xs = L \<Longrightarrow> i < length xss \<Longrightarrow> j < L \<Longrightarrow> concat xss ! (L * i + j) = xss ! i ! j"
proof (induction xss arbitrary: i)
  case (Cons xs xss)
  then show ?case by (cases i) (auto simp: nth_append add.assoc)
qed simp

lemma nth_csi_bits:
  assumes "\<forall>es\<in>set gs. length es = n" "g < length gs" "j < n" "m < 16"
  shows "concat (map group_bits gs) ! (3 * (g + 1) + 16 * n * g + 16 * j + m) = entry_bits (gs ! g ! j) ! m"
proof -
  have len: "length (gs ! g) = n" using assms(1,2) by simp
  have "3 + (16 * j + m) < 3 + 16 * n" using assms(3,4) by linarith
  then have "concat (map group_bits gs) ! ((3 + 16 * n) * g + (3 + (16 * j + m))) =
      map group_bits gs ! g ! (3 + (16 * j + m))"
    by (intro nth_concat_blocks) (use assms in auto)
  also have "\<dots> = concat (map entry_bits (gs ! g)) ! (16 * j + m)"
    using assms(2) by (simp add: group_bits_def nth_append del: append_Cons append_Nil)
  also have "\<dots> = map entry_bits (gs ! g) ! j ! m"
    by (intro nth_concat_blocks) (use assms len in auto)
  finally show ?thesis
    using assms(3) len by (simp add: algebra_simps)
qed

lemma nth_entry_bits:
  "m < 8 \<Longrightarrow> entry_bits e ! m = bit (word_of_int (fst e) :: u8) m"
  "m < 8 \<Longrightarrow> entry_bits e ! (8 + m) = bit (word_of_int (snd e) :: u8) m"
  by (simp_all add: entry_bits_def word_bits_def nth_append del: upt_Suc)

lemma sample_eqI:
  assumes "\<And>m. m < 8 \<Longrightarrow> payload_bit p (k + m) = bit (word_of_int x :: u8) m" "- 128 \<le> x" "x < 128"
  shows "sample p k = x"
proof -
  have "sample_word p k = word_of_int x"
    by (rule bit_word_eqI) (use assms(1) in \<open>simp add: bit_sample_word\<close>)
  then show ?thesis
    using assms(2,3) by (simp add: sample_def sint_sbintrunc' signed_take_bit_int_eq_self)
qed

definition small_entry :: "int \<times> int \<Rightarrow> bool" where
  "small_entry e \<longleftrightarrow> fst e \<in> {-128..<128} \<and> snd e \<in> {-128..<128}"

lemma entries_at_pack:
  assumes "\<forall>es\<in>set gs. length es = n \<and> (\<forall>e\<in>set es. small_entry e)" "g < length gs"
  shows "entries_at (pack_csi gs) n (3 * (g + 1) + 16 * n * g) = gs ! g"
proof (rule nth_equalityI)
  have len: "length (gs ! g) = n" using assms by simp
  then show "length (entries_at (pack_csi gs) n (3 * (g + 1) + 16 * n * g)) = length (gs ! g)"
    by (simp add: entries_at_def)
  fix j assume "j < length (entries_at (pack_csi gs) n (3 * (g + 1) + 16 * n * g))"
  then have j: "j < n" by (simp add: entries_at_def)
  define k where "k = 3 * (g + 1) + 16 * n * g + 16 * j"
  define e where "e = gs ! g ! j"
  have "gs ! g \<in> set gs" "e \<in> set (gs ! g)" using assms j len by (simp_all add: e_def)
  then have e: "small_entry e" using assms by blast
  have lens: "\<forall>es\<in>set gs. length es = n" using assms(1) by simp
  have "g * (3 + 16 * n) + (3 + 16 * n) \<le> length gs * (3 + 16 * n)"
    using assms(2) mult_le_mono1 [of "Suc g" "length gs" "3 + 16 * n"] by simp
  then have bits: "payload_bit (pack_csi gs) (k + m) = entry_bits e ! m" if "m < 16" for m
    using payload_bit_pack [of "k + m" "concat (map group_bits gs)"] nth_csi_bits [OF lens assms(2) j that]
      that j unfolding pack_csi_def length_csi_bits [OF lens] k_def e_def by (simp add: algebra_simps)
  have "sample (pack_csi gs) k = fst e"
    by (rule sample_eqI) (use e bits in \<open>auto simp: nth_entry_bits small_entry_def\<close>)
  moreover have "sample (pack_csi gs) (k + 8) = snd e"
  proof (rule sample_eqI)
    show "payload_bit (pack_csi gs) (k + 8 + m) = bit (word_of_int (snd e) :: u8) m" if "m < 8" for m
      using bits [of "8 + m"] that by (simp add: nth_entry_bits add.assoc)
  qed (use e in \<open>auto simp: small_entry_def\<close>)
  ultimately show "entries_at (pack_csi gs) n (3 * (g + 1) + 16 * n * g) ! j = gs ! g ! j"
    using j by (simp add: entries_at_def k_def e_def)
qed

lemma groups_at_pack:
  assumes "\<forall>es\<in>set gs. length es = n \<and> (\<forall>e\<in>set es. small_entry e)"
  shows "groups_at (pack_csi gs) n (length gs) 0 = concat gs"
proof -
  have "map (\<lambda>g. entries_at (pack_csi gs) n (0 + 3 * (g + 1) + 16 * n * g)) [0..<length gs] =
      map ((!) gs) [0..<length gs]"
    using entries_at_pack [OF assms] by simp
  then show ?thesis by (simp only: groups_at_def map_nth)
qed

lemma length_pack_csi:
  "\<forall>es\<in>set gs. length es = n \<Longrightarrow> length (pack_csi gs) = ((3 + 16 * n) * length gs + 7) div 8"
  by (simp only: pack_csi_def pack_bits_def length_map length_upt length_csi_bits diff_zero)

section \<open>The report\<close>

text \<open>\<open>struct iwl_bfee_notif\<close> of the driver and of the user tools, packed to 20 bytes.\<close>

record iwl_bfee_notif =
  timestamp_low :: u32
  bf_count :: u16
  reserved1 :: u16
  Nrx :: u8
  Ntx :: u8
  rssiA :: u8
  rssiB :: u8
  rssiC :: u8
  noise :: u8
  agc :: u8
  antenna_sel :: u8
  bf_len :: u16
  fake_rate_n_flags :: u16

definition sizeof_bfee_notif :: nat where "sizeof_bfee_notif = 20"

definition bfee_bytes :: "iwl_bfee_notif \<Rightarrow> u8 list" where
  "bfee_bytes b = le_bytes 4 (timestamp_low b) @ le_bytes 2 (bf_count b) @ le_bytes 2 (reserved1 b) @
     [Nrx b, Ntx b, rssiA b, rssiB b, rssiC b, noise b, agc b, antenna_sel b] @
     le_bytes 2 (bf_len b) @ le_bytes 2 (fake_rate_n_flags b)"

lemma length_bfee_bytes [simp]: "length (bfee_bytes b) = 20"
  by (simp add: bfee_bytes_def)

lemma le_bytes_2: "le_bytes 2 w = [ucast w, ucast (drop_bit 8 w)]"
  by (simp add: numeral_2_eq_2 le_bytes_Suc) (simp add: le_bytes_def)

lemma le_bytes_4: "le_bytes 4 w = [ucast w, ucast (drop_bit 8 w), ucast (drop_bit 16 w), ucast (drop_bit 24 w)]"
  by (simp add: le_bytes_def upt_rec)

lemma unat_u16_bytes: "unat (ucast w :: u8) + 256 * unat (ucast (drop_bit 8 w) :: u8) = unat (w :: u16)"
proof -
  have "unat (drop_bit 8 w) = unat w div 256"
    by (simp add: unat_drop_bit_eq) (simp add: drop_bit_eq_div)
  moreover have "unat w div 256 < 256" using u16_less [of w] by linarith
  ultimately show ?thesis
    by (simp add: unsigned_ucast_eq take_bit_eq_mod)
qed

lemma u16_of_bytes: "ucast (ucast w :: u8) + push_bit 8 (ucast (ucast (drop_bit 8 w) :: u8)) = (w :: u16)"
proof -
  have "(ucast (ucast w :: u8) :: u16) AND push_bit 8 (ucast (ucast (drop_bit 8 w) :: u8)) = 0"
    by (rule bit_word_eqI) (auto simp: bit_simps)
  then have "ucast (ucast w :: u8) + push_bit 8 (ucast (ucast (drop_bit 8 w) :: u8)) =
      ucast (ucast w :: u8) OR push_bit 8 (ucast (ucast (drop_bit 8 w) :: u8) :: u16)"
    by (rule disjunctive_add_eq_or)
  also have "\<dots> = w" by (rule bit_word_eqI) (auto simp: bit_simps)
  finally show ?thesis .
qed

lemma u32_of_bytes:
  "ucast (ucast w :: u8) + push_bit 8 (ucast (ucast (drop_bit 8 w) :: u8)) +
     push_bit 16 (ucast (ucast (drop_bit 16 w) :: u8)) + push_bit 24 (ucast (ucast (drop_bit 24 w) :: u8)) = (w :: u32)"
  (is "?a + ?b + ?c + ?d = w")
proof -
  have ab: "?a + ?b = ?a OR ?b"
    by (rule disjunctive_add_eq_or, rule bit_word_eqI) (auto simp: bit_simps)
  have abc: "(?a OR ?b) + ?c = ?a OR ?b OR ?c"
    by (subst disjunctive_add_eq_or, rule bit_word_eqI) (auto simp: bit_simps or.assoc)
  have abcd: "(?a OR ?b OR ?c) + ?d = ?a OR ?b OR ?c OR ?d"
    by (subst disjunctive_add_eq_or, rule bit_word_eqI) (auto simp: bit_simps or.assoc)
  show ?thesis
    unfolding ab abc abcd
  proof (rule bit_word_eqI)
    fix n assume "n < LENGTH(32)"
    then consider "n < 8" | "8 \<le> n" "n < 16" | "16 \<le> n" "n < 24" | "24 \<le> n" "n < 32" by fastforce
    then show "bit (?a OR ?b OR ?c OR ?d) n = bit w n"
      by cases (auto simp: bit_simps)
  qed
qed

definition bfee_cell_of :: "iwl_bfee_notif \<Rightarrow> (int \<times> int) list \<Rightarrow> bfee_cell" where
  "bfee_cell_of b csi = \<lparr>c_timestamp_low = timestamp_low b, c_bfee_count = bf_count b,
     c_Nrx = unat (Nrx b), c_Ntx = unat (Ntx b), c_rssi_a = unat (rssiA b), c_rssi_b = unat (rssiB b),
     c_rssi_c = unat (rssiC b), c_noise = sint (noise b), c_agc = unat (agc b),
     c_perm = [unat (antenna_sel b AND 0x3) + 1, unat (drop_bit 2 (antenna_sel b) AND 0x3) + 1,
       unat (drop_bit 4 (antenna_sel b) AND 0x3) + 1],
     c_rate = unat (fake_rate_n_flags b), c_csi = csi\<rparr>"

lemma read_bfee_bytes:
  "read_bfee (bfee_bytes b @ payload) =
     (if unat (bf_len b) \<noteq> bfee_calc_len (unat (Nrx b)) (unat (Ntx b)) then Some (Inl Wrong_size)
      else map_option (\<lambda>csi. Inr (bfee_cell_of b csi))
        (bfee_groups payload (unat (Nrx b) * unat (Ntx b)) 30 0))"
  unfolding read_bfee_def Let_def
  by (simp add: bfee_bytes_def le_bytes_2 le_bytes_4 unat_u16_bytes u16_of_bytes u32_of_bytes bfee_cell_of_def
      split: option.split)

section \<open>Properties\<close>

lemma read_bfee_complete:
  assumes "unat (bf_len b) \<le> length payload"
  shows "read_bfee (bfee_bytes b @ payload) =
     (if unat (bf_len b) \<noteq> bfee_calc_len (unat (Nrx b)) (unat (Ntx b)) then Some (Inl Wrong_size)
      else Some (Inr (bfee_cell_of b (groups_at payload (unat (Nrx b) * unat (Ntx b)) 30 0))))"
proof -
  have "bfee_groups payload (unat (Nrx b) * unat (Ntx b)) 30 0 =
      Some (groups_at payload (unat (Nrx b) * unat (Ntx b)) 30 0)"
    if "unat (bf_len b) = bfee_calc_len (unat (Nrx b)) (unat (Ntx b))"
    using calc_len_bits [of "unat (Nrx b) * unat (Ntx b)"] that assms
    by (intro bfee_groups_eq) (simp add: bfee_calc_len_def mult.commute)
  then show ?thesis by (simp add: read_bfee_bytes)
qed

text \<open>C32: For every header and every payload of at least the announced length, the decoder returns without reading outside the array: with the length error when the announced length is not the one computed from the antenna counts, and otherwise with the header fields and, for entry \<open>j\<close> of subcarrier group \<open>g\<close>, the signed bytes at the bit offsets \<open>3 (g + 1) + 16 (n g + j)\<close> and 8 bits further.\<close>

theorem read_bfee_reads_in_bounds:
  assumes "unat (bf_len b) \<le> length payload"
  shows "read_bfee (bfee_bytes b @ payload) =
     (if unat (bf_len b) \<noteq> bfee_calc_len (unat (Nrx b)) (unat (Ntx b)) then Some (Inl Wrong_size)
      else Some (Inr (bfee_cell_of b (groups_at payload (unat (Nrx b) * unat (Ntx b)) 30 0))))"
  using assms by (rule read_bfee_complete)

lemma read_bfee_reads_in_bounds_witness:
  "\<exists>b. read_bfee (bfee_bytes b @ replicate 72 1) =
     Some (Inr (bfee_cell_of b (groups_at (replicate 72 1) 1 30 0)))"
  by (rule exI [of _ "\<lparr>timestamp_low = 5, bf_count = 1, reserved1 = 0, Nrx = 1, Ntx = 1, rssiA = 30, rssiB = 0,
      rssiC = 0, noise = 0xa0, agc = 40, antenna_sel = 0x24, bf_len = 72, fake_rate_n_flags = 0x100\<rparr>"])
    (subst read_bfee_reads_in_bounds, simp_all add: bfee_calc_len_def)

text \<open>C19: The decoder inverts the packer: a report whose payload packs 30 groups of \<open>Nrx * Ntx\<close> complex entries with signed 8-bit parts, with the length the packer produces, decodes to its header fields and exactly these entries, in order.\<close>

theorem read_bfee_inverts_packing:
  assumes "length gs = 30"
    and "\<forall>es\<in>set gs. length es = unat (Nrx b) * unat (Ntx b) \<and> (\<forall>e\<in>set es. small_entry e)"
    and "unat (bf_len b) = length (pack_csi gs)"
  shows "read_bfee (bfee_bytes b @ pack_csi gs) = Some (Inr (bfee_cell_of b (concat gs)))"
proof -
  define n where "n = unat (Nrx b) * unat (Ntx b)"
  have gs: "\<forall>es\<in>set gs. length es = n" using assms(2) by (simp add: n_def)
  have len: "length (pack_csi gs) = bfee_calc_len (unat (Nrx b)) (unat (Ntx b))"
    using length_pack_csi [OF gs] assms(1)
    by (simp add: bfee_calc_len_def n_def algebra_simps)
  have "0 + (3 + 16 * n) * 30 < 8 * length (pack_csi gs)"
    using calc_len_bits [of n] len by (simp add: bfee_calc_len_def n_def algebra_simps)
  then have "bfee_groups (pack_csi gs) n 30 0 = Some (groups_at (pack_csi gs) n 30 0)"
    by (rule bfee_groups_eq)
  moreover have "groups_at (pack_csi gs) n 30 0 = concat gs"
    using groups_at_pack [of gs n] assms(1,2) by (simp add: n_def)
  ultimately show ?thesis
    using assms(3) len by (simp add: read_bfee_bytes n_def)
qed

lemma read_bfee_inverts_packing_witness:
  "\<exists>b. read_bfee (bfee_bytes b @ pack_csi (replicate 30 [(-128, 127)])) =
     Some (Inr (bfee_cell_of b (concat (replicate 30 [(-128, 127)]))))"
  by (rule exI [of _ "\<lparr>timestamp_low = 5, bf_count = 1, reserved1 = 0, Nrx = 1, Ntx = 1, rssiA = 30, rssiB = 0,
      rssiC = 0, noise = 0xa0, agc = 40, antenna_sel = 0x24, bf_len = 72, fake_rate_n_flags = 0x100\<rparr>"],
    rule read_bfee_inverts_packing)
    (simp_all add: small_entry_def length_pack_csi [of _ 1])

end
