(* ===== verification/Dvm_Rx.thy ===== *)
theory Dvm_Rx
  imports Rate_N_Flags Rx_Frame Bfee_Decode Cn_Queue
begin

text \<open>
  The receive path of the 5300 driver (\<open>dvm/rx.c\<close>, \<open>dvm/lib.c\<close>): the cached PHY data, the noise
  estimate, the beamforming report that is completed from them and sent to user space, and the
  delivery of a received frame to mac80211. Calls of \<open>connector_send_msg\<close> are the list of their
  arguments; \<open>Cn_Queue\<close> models what they do.
\<close>

unbundle bit_operations_syntax

section \<open>State\<close>

text \<open>\<open>struct iwl_rx_phy_res\<close> without the fields that no code reads, and its place in the packet.\<close>

record rx_phy_res =
  cfg_phy_cnt :: u8
  phy_timestamp :: u64
  beacon_time_stamp :: u32
  phy_flags :: u16
  phy_channel :: u16
  non_cfg_phy_buf :: "u8 list"
  phy_rate_n_flags :: u32

definition sizeof_rx_phy_res :: nat where "sizeof_rx_phy_res = 60"

definition rx_phy_res_of :: "u8 list \<Rightarrow> rx_phy_res" where
  "rx_phy_res_of d = \<lparr>cfg_phy_cnt = d ! 1, phy_timestamp = of_le_bytes (get_bytes 4 8 d),
     beacon_time_stamp = of_le_bytes (get_bytes 12 4 d), phy_flags = of_le_bytes (get_bytes 16 2 d),
     phy_channel = of_le_bytes (get_bytes 18 2 d), non_cfg_phy_buf = get_bytes 20 32 d,
     phy_rate_n_flags = of_le_bytes (get_bytes 52 4 d)\<rparr>"

definition IWLAGN_MAX_CFG_PHY_CNT :: nat where "IWLAGN_MAX_CFG_PHY_CNT = 20"

text \<open>
  The parts of \<open>struct iwl_priv\<close> that the path uses, and the static counter of the report handler.
  \<open>contexts\<close> holds for every context whether it is valid and its BSSID.
\<close>

record dvm_priv =
  last_phy_res_valid :: bool
  last_phy_res :: rx_phy_res
  ampdu_ref :: u32
  last_cfg_phy_buf :: "u8 list"
  connector_log :: u32
  last_rx_noise :: int
  last_rx_noiseA :: u8
  last_rx_noiseB :: u8
  last_rx_noiseC :: u8
  bfee_count :: u16
  ucode_beacon_time :: u32
  is_open :: bool
  passive_no_rx :: bool
  bss_filter_flags :: u32
  contexts :: "(bool \<times> u8 list) list"
  transport_queue_stop :: u32

text \<open>The arguments of a call of \<open>connector_send_msg\<close>: the bytes, their number, the code.\<close>

type_synonym conn_call = "u8 list \<times> u32 \<times> u8"

definition IWL_CONN_BFEE_NOTIF :: u8 where "IWL_CONN_BFEE_NOTIF = 0xbb"
definition IWL_CONN_RX_MPDU :: u8 where "IWL_CONN_RX_MPDU = 0xc1"
definition IWL_CONN_NOISE :: u8 where "IWL_CONN_NOISE = 0xd0"
definition IWL_CONN_BFEE_NOTIF_MSK :: u32 where "IWL_CONN_BFEE_NOTIF_MSK = 0x1"
definition IWL_CONN_RX_MPDU_MSK :: u32 where "IWL_CONN_RX_MPDU_MSK = 0x4"
definition IWL_CONN_NOISE_MSK :: u32 where "IWL_CONN_NOISE_MSK = 0x10"

section \<open>PHY data and noise\<close>

text \<open>\<open>None\<close>: the copies leave the received data or the buffer of the driver.\<close>

definition iwlagn_rx_reply_rx_phy :: "dvm_priv \<Rightarrow> u8 list \<Rightarrow> dvm_priv option" where
  "iwlagn_rx_reply_rx_phy priv data =
     (if length data < sizeof_rx_phy_res then None
      else let n = unat (cfg_phy_cnt (rx_phy_res_of data)) * 4 in
        if length data < sizeof_rx_phy_res + n \<or> length (last_cfg_phy_buf priv) < n then None
        else Some (priv\<lparr>last_phy_res_valid := True, ampdu_ref := ampdu_ref priv + 1,
          last_phy_res := rx_phy_res_of data,
          last_cfg_phy_buf := put_bytes 0 (get_bytes sizeof_rx_phy_res n data) (last_cfg_phy_buf priv)\<rparr>))"

definition IN_BAND_FILTER :: u32 where "IN_BAND_FILTER = 0xFF"
definition IWL_NOISE_MEAS_NOT_AVAILABLE :: int where "IWL_NOISE_MEAS_NOT_AVAILABLE = -127"

text \<open>The arguments are the three \<open>beacon_silence_rssi\<close> fields of the statistics.\<close>

definition iwlagn_rx_calc_noise :: "dvm_priv \<Rightarrow> u32 \<Rightarrow> u32 \<Rightarrow> u32 \<Rightarrow> dvm_priv \<times> conn_call list" where
  "iwlagn_rx_calc_noise priv rssi_a rssi_b rssi_c =
     (let a = rssi_a AND IN_BAND_FILTER; b = rssi_b AND IN_BAND_FILTER; c = rssi_c AND IN_BAND_FILTER;
        active = filter (\<lambda>x. x \<noteq> 0) [a, b, c];
        num_active_rx = int (length active);
        total_silence = sum_list (map uint active);
        last = (if num_active_rx \<noteq> 0 then total_silence div num_active_rx - 107
                else IWL_NOISE_MEAS_NOT_AVAILABLE);
        calls = (if num_active_rx \<noteq> 0 \<and> tst (connector_log priv) IWL_CONN_NOISE_MSK
                 then [(le_bytes 4 (word_of_int last :: u32), 4, IWL_CONN_NOISE)] else [])
      in (priv\<lparr>last_rx_noise := last, last_rx_noiseA := ucast a, last_rx_noiseB := ucast b,
            last_rx_noiseC := ucast c\<rparr>, calls))"

section \<open>The beamforming report\<close>

definition IWLAGN_RX_RES_AGC_IDX :: nat where "IWLAGN_RX_RES_AGC_IDX = 1"
definition IWLAGN_RX_RES_RSSI_AB_IDX :: nat where "IWLAGN_RX_RES_RSSI_AB_IDX = 2"
definition IWLAGN_RX_RES_RSSI_C_IDX :: nat where "IWLAGN_RX_RES_RSSI_C_IDX = 3"
definition IWLAGN_OFDM_AGC_MSK :: u32 where "IWLAGN_OFDM_AGC_MSK = 0xfe00"
definition IWLAGN_OFDM_AGC_BIT_POS :: nat where "IWLAGN_OFDM_AGC_BIT_POS = 9"
definition IWLAGN_OFDM_RSSI_INBAND_A_BITMSK :: u32 where "IWLAGN_OFDM_RSSI_INBAND_A_BITMSK = 0x00ff"
definition IWLAGN_OFDM_RSSI_A_BIT_POS :: nat where "IWLAGN_OFDM_RSSI_A_BIT_POS = 0"
definition IWLAGN_OFDM_RSSI_INBAND_B_BITMSK :: u32 where "IWLAGN_OFDM_RSSI_INBAND_B_BITMSK = 0xff0000"
definition IWLAGN_OFDM_RSSI_B_BIT_POS :: nat where "IWLAGN_OFDM_RSSI_B_BIT_POS = 16"
definition IWLAGN_OFDM_RSSI_INBAND_C_BITMSK :: u32 where "IWLAGN_OFDM_RSSI_INBAND_C_BITMSK = 0x00ff"
definition IWLAGN_OFDM_RSSI_C_BIT_POS :: nat where "IWLAGN_OFDM_RSSI_C_BIT_POS = 0"

text \<open>A 32-bit word of the buffer, read in the byte order of the (little-endian) host.\<close>

definition non_cfg_word :: "rx_phy_res \<Rightarrow> nat \<Rightarrow> u32" where
  "non_cfg_word phy i = of_le_bytes (get_bytes (4 * i) 4 (non_cfg_phy_buf phy))"

definition phy_rssi_a :: "rx_phy_res \<Rightarrow> u32" where
  "phy_rssi_a phy = drop_bit IWLAGN_OFDM_RSSI_A_BIT_POS
     (non_cfg_word phy IWLAGN_RX_RES_RSSI_AB_IDX AND IWLAGN_OFDM_RSSI_INBAND_A_BITMSK)"

definition phy_rssi_b :: "rx_phy_res \<Rightarrow> u32" where
  "phy_rssi_b phy = drop_bit IWLAGN_OFDM_RSSI_B_BIT_POS
     (non_cfg_word phy IWLAGN_RX_RES_RSSI_AB_IDX AND IWLAGN_OFDM_RSSI_INBAND_B_BITMSK)"

definition phy_rssi_c :: "rx_phy_res \<Rightarrow> u32" where
  "phy_rssi_c phy = drop_bit IWLAGN_OFDM_RSSI_C_BIT_POS
     (non_cfg_word phy IWLAGN_RX_RES_RSSI_C_IDX AND IWLAGN_OFDM_RSSI_INBAND_C_BITMSK)"

definition phy_agc :: "rx_phy_res \<Rightarrow> u32" where
  "phy_agc phy = drop_bit IWLAGN_OFDM_AGC_BIT_POS
     (non_cfg_word phy IWLAGN_RX_RES_AGC_IDX AND IWLAGN_OFDM_AGC_MSK)"

definition bfee_from_phy :: "dvm_priv \<Rightarrow> iwl_bfee_notif \<Rightarrow> iwl_bfee_notif" where
  "bfee_from_phy priv b =
     (let phy = last_phy_res priv in
      b\<lparr>timestamp_low := ucast (phy_timestamp phy),
        rssiA := ucast (phy_rssi_a phy), rssiB := ucast (phy_rssi_b phy), rssiC := ucast (phy_rssi_c phy),
        noise := word_of_int (last_rx_noise priv), agc := ucast (phy_agc phy),
        antenna_sel := (if 0 < cfg_phy_cnt phy
          then ucast (of_le_bytes (get_bytes 0 4 (last_cfg_phy_buf priv)) :: u32) else antenna_sel b),
        fake_rate_n_flags := ucast (phy_rate_n_flags phy AND 0x3fff),
        bf_count := bfee_count priv + 1\<rparr>)"

text \<open>
  The handler. \<open>payload\<close> is what follows the header in the receive buffer; the call of
  \<open>connector_send_msg\<close> is given the header and \<open>len\<close> bytes of it.
\<close>

definition iwlagn_bfee_notif ::
  "dvm_priv \<Rightarrow> iwl_bfee_notif \<Rightarrow> u8 list \<Rightarrow> dvm_priv \<times> conn_call list" where
  "iwlagn_bfee_notif priv b payload =
     (let len = bf_len b;
        b' = (if last_phy_res_valid priv then bfee_from_phy priv b else b);
        priv' = (if last_phy_res_valid priv then priv\<lparr>bfee_count := bfee_count priv + 1\<rparr> else priv)
      in (priv', if tst (connector_log priv) IWL_CONN_BFEE_NOTIF_MSK
            then [(bfee_bytes b' @ payload, ucast len + of_nat sizeof_bfee_notif, IWL_CONN_BFEE_NOTIF)]
            else []))"

section \<open>Received frames\<close>

definition RX_RES_STATUS_NO_CRC32_ERROR :: u32 where "RX_RES_STATUS_NO_CRC32_ERROR = 0x1"
definition RX_RES_STATUS_NO_RXE_OVERFLOW :: u32 where "RX_RES_STATUS_NO_RXE_OVERFLOW = 0x2"
definition RX_RES_STATUS_SEC_TYPE_MSK :: u32 where "RX_RES_STATUS_SEC_TYPE_MSK = 0x700"
definition RX_RES_STATUS_SEC_TYPE_NONE :: u32 where "RX_RES_STATUS_SEC_TYPE_NONE = 0x000"
definition RX_RES_STATUS_SEC_TYPE_WEP :: u32 where "RX_RES_STATUS_SEC_TYPE_WEP = 0x100"
definition RX_RES_STATUS_SEC_TYPE_CCMP :: u32 where "RX_RES_STATUS_SEC_TYPE_CCMP = 0x200"
definition RX_RES_STATUS_SEC_TYPE_TKIP :: u32 where "RX_RES_STATUS_SEC_TYPE_TKIP = 0x300"
definition RX_RES_STATUS_SEC_TYPE_ERR :: u32 where "RX_RES_STATUS_SEC_TYPE_ERR = 0x700"
definition RX_RES_STATUS_STATION_FOUND :: u32 where "RX_RES_STATUS_STATION_FOUND = 0x40"
definition RX_RES_STATUS_NO_STATION_INFO_MISMATCH :: u32 where "RX_RES_STATUS_NO_STATION_INFO_MISMATCH = 0x80"
definition RX_RES_STATUS_DECRYPT_TYPE_MSK :: u32 where "RX_RES_STATUS_DECRYPT_TYPE_MSK = 0x1800"
definition RX_RES_STATUS_DECRYPT_OK :: u32 where "RX_RES_STATUS_DECRYPT_OK = 0x1800"
definition RX_RES_STATUS_BAD_ICV_MIC :: u32 where "RX_RES_STATUS_BAD_ICV_MIC = 0x800"
definition RX_RES_STATUS_BAD_KEY_TTAK :: u32 where "RX_RES_STATUS_BAD_KEY_TTAK = 0x1000"
definition RX_MPDU_RES_STATUS_ICV_OK :: u32 where "RX_MPDU_RES_STATUS_ICV_OK = 0x20"
definition RX_MPDU_RES_STATUS_MIC_OK :: u32 where "RX_MPDU_RES_STATUS_MIC_OK = 0x40"
definition RX_MPDU_RES_STATUS_TTAK_OK :: u32 where "RX_MPDU_RES_STATUS_TTAK_OK = 0x80"
definition RX_MPDU_RES_STATUS_DEC_DONE_MSK :: u32 where "RX_MPDU_RES_STATUS_DEC_DONE_MSK = 0x800"

lemmas rx_status_defs = RX_RES_STATUS_NO_CRC32_ERROR_def RX_RES_STATUS_NO_RXE_OVERFLOW_def
  RX_RES_STATUS_SEC_TYPE_MSK_def RX_RES_STATUS_SEC_TYPE_NONE_def RX_RES_STATUS_SEC_TYPE_WEP_def
  RX_RES_STATUS_SEC_TYPE_CCMP_def RX_RES_STATUS_SEC_TYPE_TKIP_def RX_RES_STATUS_SEC_TYPE_ERR_def
  RX_RES_STATUS_STATION_FOUND_def RX_RES_STATUS_NO_STATION_INFO_MISMATCH_def
  RX_RES_STATUS_DECRYPT_TYPE_MSK_def RX_RES_STATUS_DECRYPT_OK_def RX_RES_STATUS_BAD_ICV_MIC_def
  RX_RES_STATUS_BAD_KEY_TTAK_def RX_MPDU_RES_STATUS_ICV_OK_def RX_MPDU_RES_STATUS_MIC_OK_def
  RX_MPDU_RES_STATUS_TTAK_OK_def RX_MPDU_RES_STATUS_DEC_DONE_MSK_def

definition iwlagn_translate_rx_status :: "u32 \<Rightarrow> u32" where
  "iwlagn_translate_rx_status decrypt_in =
     (let out1 = (if decrypt_in AND RX_RES_STATUS_STATION_FOUND = RX_RES_STATUS_STATION_FOUND
          then RX_RES_STATUS_STATION_FOUND OR RX_RES_STATUS_NO_STATION_INFO_MISMATCH else 0);
        sec = decrypt_in AND RX_RES_STATUS_SEC_TYPE_MSK;
        out = out1 OR sec
      in if sec = RX_RES_STATUS_SEC_TYPE_NONE then out
      else if sec = RX_RES_STATUS_SEC_TYPE_ERR then out
      else if decrypt_in AND RX_MPDU_RES_STATUS_DEC_DONE_MSK \<noteq> RX_MPDU_RES_STATUS_DEC_DONE_MSK then out
      else if sec = RX_RES_STATUS_SEC_TYPE_CCMP then
        (if \<not> tst decrypt_in RX_MPDU_RES_STATUS_MIC_OK then out OR RX_RES_STATUS_BAD_ICV_MIC
         else out OR RX_RES_STATUS_DECRYPT_OK)
      else if sec = RX_RES_STATUS_SEC_TYPE_TKIP \<and> \<not> tst decrypt_in RX_MPDU_RES_STATUS_TTAK_OK then
        out OR RX_RES_STATUS_BAD_KEY_TTAK
      else if \<not> tst decrypt_in RX_MPDU_RES_STATUS_ICV_OK then out OR RX_RES_STATUS_BAD_ICV_MIC
      else out OR RX_RES_STATUS_DECRYPT_OK)"

definition RXON_FILTER_DIS_DECRYPT_MSK :: u32 where "RXON_FILTER_DIS_DECRYPT_MSK = 0x8"

text \<open>
  \<open>None\<close>: the packet must be dropped; otherwise the flags, with the mark of hardware decryption.
  The three cases of the \<open>switch\<close> fall through from TKIP to WEP to CCMP.
\<close>

definition iwlagn_set_decrypted_flag :: "dvm_priv \<Rightarrow> u16 \<Rightarrow> u32 \<Rightarrow> u32 \<Rightarrow> u32 option" where
  "iwlagn_set_decrypted_flag priv fc decrypt_res flags =
     (let sec = decrypt_res AND RX_RES_STATUS_SEC_TYPE_MSK;
        typ = decrypt_res AND RX_RES_STATUS_DECRYPT_TYPE_MSK;
        ccmp = (if typ = RX_RES_STATUS_DECRYPT_OK then flags OR RX_FLAG_DECRYPTED else flags)
      in if tst (bss_filter_flags priv) RXON_FILTER_DIS_DECRYPT_MSK then Some flags
      else if \<not> tst fc IEEE80211_FCTL_PROTECTED then Some flags
      else if sec = RX_RES_STATUS_SEC_TYPE_TKIP \<and> typ = RX_RES_STATUS_BAD_KEY_TTAK then Some flags
      else if sec = RX_RES_STATUS_SEC_TYPE_TKIP \<or> sec = RX_RES_STATUS_SEC_TYPE_WEP then
        (if typ = RX_RES_STATUS_BAD_ICV_MIC then None else Some ccmp)
      else if sec = RX_RES_STATUS_SEC_TYPE_CCMP then Some ccmp
      else Some flags)"

text \<open>The signal in dBm: the result of the unsigned subtraction is returned as an \<open>int\<close>.\<close>

definition IWLAGN_RSSI_OFFSET :: u32 where "IWLAGN_RSSI_OFFSET = 44"

definition iwlagn_calc_rssi :: "rx_phy_res \<Rightarrow> int" where
  "iwlagn_calc_rssi phy =
     (let agc = ucast (ucast (phy_agc phy) :: u8);
        max_rssi = max (max (phy_rssi_a phy) (phy_rssi_b phy)) (phy_rssi_c phy)
      in sint (max_rssi - agc - IWLAGN_RSSI_OFFSET))"

definition DVM_RATE_MCS_HT_MSK :: u32 where "DVM_RATE_MCS_HT_MSK = 0x100"
definition DVM_RATE_MCS_GF_MSK :: u32 where "DVM_RATE_MCS_GF_MSK = 0x400"
definition DVM_RATE_MCS_HT40_MSK :: u32 where "DVM_RATE_MCS_HT40_MSK = 0x800"
definition DVM_RATE_MCS_SGI_MSK :: u32 where "DVM_RATE_MCS_SGI_MSK = 0x2000"

text \<open>The \<open>plcp\<close> column of the table \<open>iwl_rates\<close>, without the 60 Mbit/s entry.\<close>

definition dvm_legacy_plcp :: "u32 list" where
  "dvm_legacy_plcp = [10, 20, 55, 110, 13, 15, 5, 7, 9, 11, 1, 3]"

definition dvm_first_ofdm_rate :: nat where "dvm_first_ofdm_rate = 4"

definition iwlagn_hwrate_to_mac80211_idx :: "u32 \<Rightarrow> nl80211_band \<Rightarrow> int" where
  "iwlagn_hwrate_to_mac80211_idx rate_n_flags band =
     (if tst rate_n_flags DVM_RATE_MCS_HT_MSK then uint (rate_n_flags AND 0xff)
      else let band_offset = (if band = NL80211_BAND_5GHZ then dvm_first_ofdm_rate else 0) in
        case find (\<lambda>idx. dvm_legacy_plcp ! idx = rate_n_flags AND 0xFF) [band_offset..<length dvm_legacy_plcp] of
          None \<Rightarrow> -1
        | Some idx \<Rightarrow> int (idx - band_offset))"

text \<open>The fields of \<open>struct ieee80211_rx_status\<close> that the driver sets, at their widths.\<close>

record dvm_rx_status =
  mactime :: u64
  st_band :: nl80211_band
  st_freq :: "13 word"
  st_rate_idx :: u8
  st_flag :: u32
  st_signal :: u8
  st_antenna :: u8
  st_shortpre :: bool
  st_ampdu_reference :: u32
  st_ht :: bool
  st_bw40 :: bool
  st_sgi :: bool
  st_gf :: bool

definition RX_RES_PHY_FLAGS_BAND_24_MSK :: u16 where "RX_RES_PHY_FLAGS_BAND_24_MSK = 0x1"
definition RX_RES_PHY_FLAGS_SHORT_PREAMBLE_MSK :: u16 where "RX_RES_PHY_FLAGS_SHORT_PREAMBLE_MSK = 0x4"
definition RX_RES_PHY_FLAGS_ANTENNA_MSK :: u16 where "RX_RES_PHY_FLAGS_ANTENNA_MSK = 0x70"
definition RX_RES_PHY_FLAGS_ANTENNA_POS :: nat where "RX_RES_PHY_FLAGS_ANTENNA_POS = 4"
definition RX_RES_PHY_FLAGS_AGG_MSK :: u16 where "RX_RES_PHY_FLAGS_AGG_MSK = 0x80"

definition dvm_fill_rx_status :: "dvm_priv \<Rightarrow> dvm_rx_status" where
  "dvm_fill_rx_status priv =
     (let phy = last_phy_res priv; rate = phy_rate_n_flags phy;
        band = (if tst (phy_flags phy) RX_RES_PHY_FLAGS_BAND_24_MSK then NL80211_BAND_2GHZ else NL80211_BAND_5GHZ);
        agg = tst (phy_flags phy) RX_RES_PHY_FLAGS_AGG_MSK
      in \<lparr>mactime = phy_timestamp phy, st_band = band,
        st_freq = word_of_int (ieee80211_channel_to_frequency (uint (phy_channel phy)) band),
        st_rate_idx = word_of_int (iwlagn_hwrate_to_mac80211_idx rate band),
        st_flag = (if agg then RX_FLAG_AMPDU_DETAILS else 0),
        st_signal = word_of_int (iwlagn_calc_rssi phy),
        st_antenna = ucast (drop_bit RX_RES_PHY_FLAGS_ANTENNA_POS (phy_flags phy AND RX_RES_PHY_FLAGS_ANTENNA_MSK)),
        st_shortpre = tst (phy_flags phy) RX_RES_PHY_FLAGS_SHORT_PREAMBLE_MSK,
        st_ampdu_reference = (if agg then ampdu_ref priv else 0),
        st_ht = tst rate DVM_RATE_MCS_HT_MSK, st_bw40 = tst rate DVM_RATE_MCS_HT40_MSK,
        st_sgi = tst rate DVM_RATE_MCS_SGI_MSK, st_gf = tst rate DVM_RATE_MCS_GF_MSK\<rparr>)"

text \<open>
  What a received packet leads to: the new state, the messages for user space, the transmit queues
  that are woken, and the frame given to mac80211 (its linear part, its page fragment, its status).
\<close>

record rx_result =
  rr_priv :: dvm_priv
  rr_calls :: "conn_call list"
  rr_wake :: "nat list"
  rr_deliver :: "(u8 list \<times> u8 list \<times> dvm_rx_status) option"

definition rx_nothing :: "dvm_priv \<Rightarrow> conn_call list \<Rightarrow> rx_result" where
  "rx_nothing priv calls = \<lparr>rr_priv = priv, rr_calls = calls, rr_wake = [], rr_deliver = None\<rparr>"

definition IWLAGN_FIRST_AMPDU_QUEUE :: nat where "IWLAGN_FIRST_AMPDU_QUEUE = 11"

definition iwlagn_lift_passive_no_rx :: "dvm_priv \<Rightarrow> dvm_priv \<times> nat list" where
  "iwlagn_lift_passive_no_rx priv =
     (if \<not> passive_no_rx priv then (priv, [])
      else (priv\<lparr>passive_no_rx := False\<rparr>,
        filter (\<lambda>mq. \<not> bit (transport_queue_stop priv) mq) [0..<IWLAGN_FIRST_AMPDU_QUEUE]))"

definition sizeof_ieee80211_hdr :: nat where "sizeof_ieee80211_hdr = 30"

text \<open>
  \<open>skb\<close> is what \<open>alloc_skb\<close> returns: \<open>None\<close>, or a buffer with the given tail room. \<open>frame\<close> is the
  receive buffer from the 802.11 header on.
\<close>

definition iwlagn_pass_packet_to_mac80211 ::
  "bool \<Rightarrow> nat option \<Rightarrow> dvm_priv \<Rightarrow> u8 list \<Rightarrow> nat \<Rightarrow> u32 \<Rightarrow> dvm_rx_status \<Rightarrow> conn_call list \<Rightarrow> rx_result"
where
  "iwlagn_pass_packet_to_mac80211 swcrypto skb priv frame len advm_status stats calls =
     (let fc = of_le_bytes (take 2 frame); addr3 = get_bytes 16 6 frame in
      if \<not> is_open priv then rx_nothing priv calls
      else case (if swcrypto then Some (st_flag stats)
                 else iwlagn_set_decrypted_flag priv fc advm_status (st_flag stats)) of
        None \<Rightarrow> rx_nothing priv calls
      | Some flags \<Rightarrow> (case skb of
          None \<Rightarrow> rx_nothing priv calls
        | Some tailroom \<Rightarrow>
            let hdrlen = (if len \<le> tailroom then len else sizeof_ieee80211_hdr);
              (priv', wake) = (if ieee80211_is_beacon fc \<and> passive_no_rx priv \<and>
                  (\<exists>c\<in>set (contexts priv). fst c \<and> snd c = addr3)
                then iwlagn_lift_passive_no_rx priv else (priv, []))
            in \<lparr>rr_priv = priv', rr_calls = calls, rr_wake = wake,
                 rr_deliver = Some (take hdrlen frame, get_bytes hdrlen (len - hdrlen) frame,
                   stats\<lparr>st_flag := flags\<rparr>)\<rparr>))"

text \<open>
  \<open>pkt_len\<close> is the length word of the packet, which counts the four bytes of its command header;
  \<open>rxb\<close> is the receive buffer behind that header. \<open>None\<close>: a read outside of it.
\<close>

definition sizeof_mpdu_res_start :: nat where "sizeof_mpdu_res_start = 4"

definition iwlagn_rx_reply_rx ::
  "bool \<Rightarrow> nat option \<Rightarrow> dvm_priv \<Rightarrow> nat \<Rightarrow> u8 list \<Rightarrow> rx_result option" where
  "iwlagn_rx_reply_rx swcrypto skb priv pkt_len rxb =
     (if \<not> last_phy_res_valid priv then Some (rx_nothing priv [])
      else if pkt_len < sizeof_mpdu_res_start then Some (rx_nothing priv [])
      else if length rxb < sizeof_mpdu_res_start then None
      else let len = unat (of_le_bytes (take 2 rxb) :: u16); header = drop sizeof_mpdu_res_start rxb in
        if pkt_len < len + sizeof_mpdu_res_start + 4 then Some (rx_nothing priv [])
        else if length rxb < len + sizeof_mpdu_res_start + 4 then None
        else let
          rx_pkt_status = of_le_bytes (get_bytes (sizeof_mpdu_res_start + len) 4 rxb) :: u32;
          advm_status = iwlagn_translate_rx_status rx_pkt_status;
          calls = (if tst (connector_log priv) IWL_CONN_RX_MPDU_MSK
                   then [(header, of_nat len, IWL_CONN_RX_MPDU)] else [])
        in if IWLAGN_MAX_CFG_PHY_CNT < unat (cfg_phy_cnt (last_phy_res priv)) then Some (rx_nothing priv calls)
        else if \<not> tst rx_pkt_status RX_RES_STATUS_NO_CRC32_ERROR \<or>
                \<not> tst rx_pkt_status RX_RES_STATUS_NO_RXE_OVERFLOW then Some (rx_nothing priv calls)
        else Some (iwlagn_pass_packet_to_mac80211 swcrypto skb
          (priv\<lparr>ucode_beacon_time := beacon_time_stamp (last_phy_res priv)\<rparr>)
          header len advm_status (dvm_fill_rx_status priv) calls))"

section \<open>Hardware decryption\<close>

text \<open>What the firmware must have reported for a frame to count as decrypted.\<close>

definition hw_decrypted :: "u32 \<Rightarrow> bool" where
  "hw_decrypted st \<longleftrightarrow> bit st 11 \<and>
     (st AND RX_RES_STATUS_SEC_TYPE_MSK = RX_RES_STATUS_SEC_TYPE_CCMP \<and> bit st 6 \<or>
      st AND RX_RES_STATUS_SEC_TYPE_MSK = RX_RES_STATUS_SEC_TYPE_TKIP \<and> bit st 7 \<and> bit st 5 \<or>
      st AND RX_RES_STATUS_SEC_TYPE_MSK = RX_RES_STATUS_SEC_TYPE_WEP \<and> bit st 5)"

definition hw_bad_icv :: "u32 \<Rightarrow> bool" where
  "hw_bad_icv st \<longleftrightarrow> bit st 11 \<and> \<not> bit st 5 \<and>
     (st AND RX_RES_STATUS_SEC_TYPE_MSK = RX_RES_STATUS_SEC_TYPE_TKIP \<and> bit st 7 \<or>
      st AND RX_RES_STATUS_SEC_TYPE_MSK = RX_RES_STATUS_SEC_TYPE_WEP)"

lemma tst_status_bits:
  "tst (st :: u32) RX_MPDU_RES_STATUS_MIC_OK \<longleftrightarrow> bit st 6"
  "tst st RX_MPDU_RES_STATUS_TTAK_OK \<longleftrightarrow> bit st 7"
  "tst st RX_MPDU_RES_STATUS_ICV_OK \<longleftrightarrow> bit st 5"
  "st AND RX_MPDU_RES_STATUS_DEC_DONE_MSK = RX_MPDU_RES_STATUS_DEC_DONE_MSK \<longleftrightarrow> bit st 11"
  by (simp_all add: tst_def rx_status_defs u32_blast)

text \<open>
  The result of the first stage is the copied bits and one of four verdicts, which depends on the
  cipher and four bits of the status; the two do not overlap.
\<close>

definition status_copied :: "u32 \<Rightarrow> u32" where
  "status_copied st = (if st AND RX_RES_STATUS_STATION_FOUND = RX_RES_STATUS_STATION_FOUND
      then RX_RES_STATUS_STATION_FOUND OR RX_RES_STATUS_NO_STATION_INFO_MISMATCH else 0) OR
     (st AND RX_RES_STATUS_SEC_TYPE_MSK)"

definition verdict :: "u32 \<Rightarrow> bool \<Rightarrow> bool \<Rightarrow> bool \<Rightarrow> bool \<Rightarrow> u32" where
  "verdict sec dec mic ttak icv =
     (if sec = RX_RES_STATUS_SEC_TYPE_NONE \<or> sec = RX_RES_STATUS_SEC_TYPE_ERR \<or> \<not> dec then 0
      else if sec = RX_RES_STATUS_SEC_TYPE_CCMP then
        (if mic then RX_RES_STATUS_DECRYPT_OK else RX_RES_STATUS_BAD_ICV_MIC)
      else if sec = RX_RES_STATUS_SEC_TYPE_TKIP \<and> \<not> ttak then RX_RES_STATUS_BAD_KEY_TTAK
      else if icv then RX_RES_STATUS_DECRYPT_OK else RX_RES_STATUS_BAD_ICV_MIC)"

lemma translate_split:
  "iwlagn_translate_rx_status st = status_copied st OR
     verdict (st AND RX_RES_STATUS_SEC_TYPE_MSK) (bit st 11) (bit st 6) (bit st 7) (bit st 5)"
  unfolding iwlagn_translate_rx_status_def status_copied_def verdict_def Let_def tst_status_bits
  by (cases "bit st 11"; cases "bit st 6"; cases "bit st 7"; cases "bit st 5") simp_all

lemma status_copied_parts:
  "status_copied st AND RX_RES_STATUS_SEC_TYPE_MSK = st AND RX_RES_STATUS_SEC_TYPE_MSK"
  "status_copied st AND RX_RES_STATUS_DECRYPT_TYPE_MSK = 0"
  by (simp_all add: status_copied_def rx_status_defs u32_blast)

lemma verdict_parts:
  "verdict sec dec mic ttak icv AND RX_RES_STATUS_SEC_TYPE_MSK = 0"
  "verdict sec dec mic ttak icv AND RX_RES_STATUS_DECRYPT_TYPE_MSK = verdict sec dec mic ttak icv"
  by (simp_all add: verdict_def rx_status_defs)

lemma translate_sec:
  "iwlagn_translate_rx_status st AND RX_RES_STATUS_SEC_TYPE_MSK = st AND RX_RES_STATUS_SEC_TYPE_MSK"
  by (simp add: translate_split bit.conj_disj_distrib2 status_copied_parts verdict_parts)

lemma translate_type:
  "iwlagn_translate_rx_status st AND RX_RES_STATUS_DECRYPT_TYPE_MSK =
     verdict (st AND RX_RES_STATUS_SEC_TYPE_MSK) (bit st 11) (bit st 6) (bit st 7) (bit st 5)"
  by (simp add: translate_split bit.conj_disj_distrib2 status_copied_parts verdict_parts)

text \<open>The second stage over the verdict.\<close>

lemma tst_flag_or:
  "tst (0 :: u32) RX_FLAG_DECRYPTED = False" "tst RX_FLAG_AMPDU_DETAILS RX_FLAG_DECRYPTED = False"
  "tst (0 OR RX_FLAG_DECRYPTED) RX_FLAG_DECRYPTED = True"
  "tst (RX_FLAG_AMPDU_DETAILS OR RX_FLAG_DECRYPTED) RX_FLAG_DECRYPTED = True"
  by (simp_all add: tst_def RX_FLAG_DECRYPTED_def RX_FLAG_AMPDU_DETAILS_def)

lemma set_decrypted_flag_spec:
  "iwlagn_set_decrypted_flag priv fc (iwlagn_translate_rx_status st) flags =
     (if tst (bss_filter_flags priv) RXON_FILTER_DIS_DECRYPT_MSK \<or> \<not> tst fc IEEE80211_FCTL_PROTECTED then Some flags
      else if hw_bad_icv st then None
      else if hw_decrypted st then Some (flags OR RX_FLAG_DECRYPTED) else Some flags)"
proof -
  define sec where "sec = st AND RX_RES_STATUS_SEC_TYPE_MSK"
  show ?thesis
    unfolding iwlagn_set_decrypted_flag_def Let_def translate_sec translate_type hw_bad_icv_def hw_decrypted_def
      sec_def [symmetric]
    by (simp add: verdict_def rx_status_defs)
qed

lemma hw_bad_not_decrypted: "hw_bad_icv st \<Longrightarrow> \<not> hw_decrypted st"
  by (auto simp: hw_bad_icv_def hw_decrypted_def rx_status_defs)

lemma st_flag_fill: "st_flag (dvm_fill_rx_status priv) \<in> {0, RX_FLAG_AMPDU_DETAILS}"
  by (simp add: dvm_fill_rx_status_def Let_def)

text \<open>The 802.11 header, the status word and the announced length in the receive buffer.\<close>

definition dvm_len :: "u8 list \<Rightarrow> nat" where
  "dvm_len rxb = unat (of_le_bytes (take 2 rxb) :: u16)"

definition dvm_fc :: "u8 list \<Rightarrow> u16" where
  "dvm_fc rxb = of_le_bytes (take 2 (drop 4 rxb))"

definition dvm_status :: "u8 list \<Rightarrow> u32" where
  "dvm_status rxb = of_le_bytes (get_bytes (4 + dvm_len rxb) 4 rxb)"

lemma pass_delivers:
  assumes "rr_deliver (iwlagn_pass_packet_to_mac80211 swcrypto (Some tailroom) priv frame len st stats calls) = Some (lin, frag, out)"
  shows "is_open priv \<and>
     (\<exists>flags hdrlen. (if swcrypto then flags = st_flag stats
        else iwlagn_set_decrypted_flag priv (of_le_bytes (take 2 frame)) st (st_flag stats) = Some flags) \<and>
       out = stats\<lparr>st_flag := flags\<rparr> \<and> lin = take hdrlen frame \<and> frag = get_bytes hdrlen (len - hdrlen) frame \<and>
       hdrlen = (if len \<le> tailroom then len else sizeof_ieee80211_hdr))"
  using assms
  by (auto simp: iwlagn_pass_packet_to_mac80211_def rx_nothing_def Let_def split_def split: if_splits option.splits)

lemma reply_rx_delivers:
  assumes "iwlagn_rx_reply_rx swcrypto skb priv pkt_len rxb = Some r" "rr_deliver r = Some d"
  shows "last_phy_res_valid priv \<and> dvm_len rxb + 8 \<le> pkt_len \<and> dvm_len rxb + 8 \<le> length rxb \<and>
     tst (dvm_status rxb) RX_RES_STATUS_NO_CRC32_ERROR \<and> tst (dvm_status rxb) RX_RES_STATUS_NO_RXE_OVERFLOW \<and>
     unat (cfg_phy_cnt (last_phy_res priv)) \<le> IWLAGN_MAX_CFG_PHY_CNT \<and>
     (\<exists>calls. r = iwlagn_pass_packet_to_mac80211 swcrypto skb
        (priv\<lparr>ucode_beacon_time := beacon_time_stamp (last_phy_res priv)\<rparr>) (drop 4 rxb) (dvm_len rxb)
        (iwlagn_translate_rx_status (dvm_status rxb)) (dvm_fill_rx_status priv) calls)"
  using assms
  by (auto simp: iwlagn_rx_reply_rx_def rx_nothing_def Let_def sizeof_mpdu_res_start_def dvm_len_def
      dvm_status_def split: if_splits)

text \<open>
  The length check compares with the whole packet length, which counts the four bytes of the
  command header: the status word of the longest frame it admits lies behind the packet's payload.
\<close>

lemma status_word_behind_payload:
  "iwlagn_rx_reply_rx swcrypto skb priv pkt_len rxb = None \<longleftrightarrow>
     last_phy_res_valid priv \<and> 4 \<le> pkt_len \<and> (length rxb < 4 \<or> dvm_len rxb + 8 \<le> pkt_len \<and> length rxb < dvm_len rxb + 8)"
  by (auto simp: iwlagn_rx_reply_rx_def Let_def sizeof_mpdu_res_start_def dvm_len_def)

text \<open>A driver state with cached PHY data, for the concrete instances below.\<close>

definition demo_phy :: rx_phy_res where
  "demo_phy = \<lparr>cfg_phy_cnt = 1, phy_timestamp = 0x1122334455, beacon_time_stamp = 7, phy_flags = 0x1,
     phy_channel = 6, non_cfg_phy_buf = [0, 0, 0, 0, 0, 80, 0, 0, 33, 0, 34, 0, 35, 0, 0, 0] @ replicate 16 0,
     phy_rate_n_flags = 0x4101\<rparr>"

definition demo_priv :: dvm_priv where
  "demo_priv = \<lparr>last_phy_res_valid = True, last_phy_res = demo_phy, ampdu_ref = 1,
     last_cfg_phy_buf = 0x24 # replicate 79 0, connector_log = 0x5, last_rx_noise = -92, last_rx_noiseA = 15,
     last_rx_noiseB = 15, last_rx_noiseC = 15, bfee_count = 3, ucode_beacon_time = 0, is_open = True,
     passive_no_rx = False, bss_filter_flags = 0, contexts = [], transport_queue_stop = 0\<rparr>"

definition demo_rxb :: "u8 list" where
  "demo_rxb = [2, 0, 0, 0, 0x08, 0x40, 0x43, 0x0A, 0, 0]"

lemma demo_rxb_parts: "dvm_len demo_rxb = 2" "dvm_fc demo_rxb = 0x4008" "dvm_status demo_rxb = 0xA43"
  by code_simp+

section \<open>Properties\<close>

text \<open>C18: A frame is given to mac80211 only with its checksum and FIFO bits good and its length within the packet; it is then complete and unchanged; it is marked as decrypted by hardware exactly when decryption is left to the hardware, the frame is protected, and the firmware reports that it was decrypted with an intact MIC or ICV (and TKIP phase-1 key); and a frame whose in-place decryption the firmware reports as destroyed is never delivered.\<close>

theorem dvm_rx_delivery_safe:
  assumes "iwlagn_rx_reply_rx swcrypto (Some tailroom) priv pkt_len rxb = Some r"
    and "rr_deliver r = Some (lin, frag, st)" and "30 \<le> tailroom"
  shows "tst (dvm_status rxb) RX_RES_STATUS_NO_CRC32_ERROR \<and> tst (dvm_status rxb) RX_RES_STATUS_NO_RXE_OVERFLOW \<and>
     dvm_len rxb + 8 \<le> pkt_len \<and> lin @ frag = take (dvm_len rxb) (drop 4 rxb) \<and>
     (tst (st_flag st) RX_FLAG_DECRYPTED \<longleftrightarrow> \<not> swcrypto \<and> \<not> tst (bss_filter_flags priv) RXON_FILTER_DIS_DECRYPT_MSK \<and>
        tst (dvm_fc rxb) IEEE80211_FCTL_PROTECTED \<and> hw_decrypted (dvm_status rxb)) \<and>
     (\<not> swcrypto \<and> \<not> tst (bss_filter_flags priv) RXON_FILTER_DIS_DECRYPT_MSK \<and>
        tst (dvm_fc rxb) IEEE80211_FCTL_PROTECTED \<longrightarrow> \<not> hw_bad_icv (dvm_status rxb))"
proof -
  define priv' where "priv' = priv\<lparr>ucode_beacon_time := beacon_time_stamp (last_phy_res priv)\<rparr>"
  note reply = reply_rx_delivers [OF assms(1,2)]
  obtain calls where r: "r = iwlagn_pass_packet_to_mac80211 swcrypto (Some tailroom) priv' (drop 4 rxb)
      (dvm_len rxb) (iwlagn_translate_rx_status (dvm_status rxb)) (dvm_fill_rx_status priv) calls"
    using reply by (auto simp: priv'_def)
  obtain flags hdrlen where
    flags: "if swcrypto then flags = st_flag (dvm_fill_rx_status priv)
      else iwlagn_set_decrypted_flag priv' (dvm_fc rxb) (iwlagn_translate_rx_status (dvm_status rxb))
        (st_flag (dvm_fill_rx_status priv)) = Some flags" and
    out: "st = (dvm_fill_rx_status priv)\<lparr>st_flag := flags\<rparr>" "lin = take hdrlen (drop 4 rxb)"
      "frag = get_bytes hdrlen (dvm_len rxb - hdrlen) (drop 4 rxb)"
      "hdrlen = (if dvm_len rxb \<le> tailroom then dvm_len rxb else sizeof_ieee80211_hdr)"
    using pass_delivers [OF assms(2) [unfolded r]] unfolding dvm_fc_def by blast
  have "hdrlen \<le> dvm_len rxb" using assms(3) by (auto simp: out(4) sizeof_ieee80211_hdr_def)
  then have l: "hdrlen + (dvm_len rxb - hdrlen) = dvm_len rxb" by simp
  have whole: "lin @ frag = take (dvm_len rxb) (drop 4 rxb)"
    unfolding out(2,3) get_bytes_def take_add [symmetric] l by (rule refl)
  have "st_flag (dvm_fill_rx_status priv) \<in> {0, RX_FLAG_AMPDU_DETAILS}" by (rule st_flag_fill)
  then have "tst flags RX_FLAG_DECRYPTED \<longleftrightarrow> \<not> swcrypto \<and> \<not> tst (bss_filter_flags priv) RXON_FILTER_DIS_DECRYPT_MSK \<and>
        tst (dvm_fc rxb) IEEE80211_FCTL_PROTECTED \<and> hw_decrypted (dvm_status rxb)"
    "\<not> swcrypto \<and> \<not> tst (bss_filter_flags priv) RXON_FILTER_DIS_DECRYPT_MSK \<and>
        tst (dvm_fc rxb) IEEE80211_FCTL_PROTECTED \<longrightarrow> \<not> hw_bad_icv (dvm_status rxb)"
    using flags tst_flag_or hw_bad_not_decrypted [of "dvm_status rxb"]
    by (auto simp: set_decrypted_flag_spec priv'_def split: if_splits)
  moreover have "st_flag st = flags" by (simp add: out(1))
  ultimately show ?thesis
    using reply whole by (simp only: simp_thms)
qed

lemma dvm_rx_delivery_safe_witness:
  "\<exists>r lin frag st. iwlagn_rx_reply_rx False (Some 128) demo_priv 14 demo_rxb = Some r \<and>
     rr_deliver r = Some (lin, frag, st) \<and> lin @ frag = [0x08, 0x40] \<and> tst (st_flag st) RX_FLAG_DECRYPTED"
proof -
  define r where "r = iwlagn_pass_packet_to_mac80211 False (Some 128) (demo_priv\<lparr>ucode_beacon_time := 7\<rparr>)
     (drop 4 demo_rxb) 2 (iwlagn_translate_rx_status 0xA43) (dvm_fill_rx_status demo_priv)
     [(drop 4 demo_rxb, 2, IWL_CONN_RX_MPDU)]"
  have dec: "hw_decrypted 0xA43" "\<not> hw_bad_icv 0xA43"
    by (simp_all add: hw_decrypted_def hw_bad_icv_def rx_status_defs)
  have reply: "iwlagn_rx_reply_rx False (Some 128) demo_priv 14 demo_rxb = Some r"
    using demo_rxb_parts
    by (simp add: iwlagn_rx_reply_rx_def Let_def dvm_len_def dvm_status_def sizeof_mpdu_res_start_def r_def)
      (simp add: demo_priv_def demo_phy_def demo_rxb_def IWLAGN_MAX_CFG_PHY_CNT_def rx_status_defs tst_def
        IWL_CONN_RX_MPDU_MSK_def)
  have fc: "of_le_bytes (take 2 (drop 4 demo_rxb)) = (0x4008 :: u16)" using demo_rxb_parts by (simp add: dvm_fc_def)
  have "\<exists>lin frag st. rr_deliver r = Some (lin, frag, st)"
    using dec fc
    by (simp add: r_def iwlagn_pass_packet_to_mac80211_def Let_def set_decrypted_flag_spec split_def
        IEEE80211_FCTL_PROTECTED_def tst_def demo_priv_def)
  then obtain lin frag st where d: "rr_deliver r = Some (lin, frag, st)" by blast
  from dvm_rx_delivery_safe [OF reply d] have "lin @ frag = [0x08, 0x40] \<and> tst (st_flag st) RX_FLAG_DECRYPTED"
    using dec by (simp add: demo_rxb_parts)
      (simp add: demo_rxb_def demo_priv_def tst_def IEEE80211_FCTL_PROTECTED_def)
  then show ?thesis using reply d by blast
qed



text \<open>The PHY notification copies its configurable words without a check: with all of them present in the packet, the copy leaves the 80-byte buffer of the driver exactly when the packet announces more than 20 words; the check for 20 comes only with the next frame, after the copy.\<close>

theorem phy_words_overflow_buffer:
  assumes "length (last_cfg_phy_buf priv) = 4 * IWLAGN_MAX_CFG_PHY_CNT"
    and "sizeof_rx_phy_res + 4 * unat (cfg_phy_cnt (rx_phy_res_of data)) \<le> length data"
  shows "iwlagn_rx_reply_rx_phy priv data = None \<longleftrightarrow>
     IWLAGN_MAX_CFG_PHY_CNT < unat (cfg_phy_cnt (rx_phy_res_of data))"
  using assms by (auto simp: iwlagn_rx_reply_rx_phy_def Let_def sizeof_rx_phy_res_def IWLAGN_MAX_CFG_PHY_CNT_def)

lemma phy_words_overflow_buffer_witness:
  "iwlagn_rx_reply_rx_phy demo_priv ([0, 21] @ replicate 142 0) = None"
  by (subst phy_words_overflow_buffer)
    (simp_all add: demo_priv_def rx_phy_res_of_def IWLAGN_MAX_CFG_PHY_CNT_def sizeof_rx_phy_res_def)

end
