(* ===== verification/Tx_Rates.thy ===== *)
theory Tx_Rates
  imports Rate_N_Flags Rx_Frame
begin

text \<open>
  The transmit-rate controls of the 5300 driver: the debugfs files of \<open>dvm/debugfs.c\<close> that set the
  beamforming flag, the receive chains, the monitor and broadcast rates and the table of rotating
  rates, and the choice of the rate for each frame in \<open>dvm/tx.c\<close>. Shown: what the rate table
  holds for every setting, that rotation stays inside it and visits it in order, and the settings
  for which entries of the table are never written.
\<close>

unbundle bit_operations_syntax

section \<open>State\<close>

text \<open>
  The fields of \<open>struct iwl_priv\<close>. An entry of the allocated table is \<open>None\<close> until it is written;
  the table itself is \<open>None\<close> for \<open>NULL\<close>.
\<close>

record tx_priv =
  bf_enabled :: bool
  monitor_tx_rate :: u32
  bcast_tx_rate :: u32
  rotate_rates :: u32
  last_rotate_rate :: u32
  rotate_rate_total :: u32
  rotate_rate_array :: "u32 option list option"
  rx_chains_num :: u8
  valid_rx_ant :: u8
  active_chains :: u32
  valid_tx_ant :: u8
  mgmt_tx_ant :: u8
  tx_wowlan :: bool
  tx_band :: nl80211_band
  bt_traffic_load :: u8

text \<open>\<open>iwl_alive_start\<close> and \<open>iwl_set_hw_params\<close> leave the experimental settings off.\<close>

definition iwl_init_drv_rates :: "tx_priv \<Rightarrow> tx_priv" where
  "iwl_init_drv_rates p = p\<lparr>bf_enabled := True, rotate_rates := 0, last_rotate_rate := 0,
     rotate_rate_total := 0, rotate_rate_array := None, monitor_tx_rate := 0, bcast_tx_rate := 0\<rparr>"

section \<open>The debugfs files\<close>

text \<open>
  The outcome of a write: the count, an error, or a text that fills the 11-byte buffer and leaves
  no terminator for the parser. \<open>kstrtoul\<close> is a parameter.
\<close>

datatype dvm_write = Wr_done nat | Wr_err errno | Wr_unterminated

definition DVM_BUFLEN :: nat where "DVM_BUFLEN = 11"

definition dvm_parse :: "(u8 list \<Rightarrow> errno + u64) \<Rightarrow> u8 list \<Rightarrow> dvm_write + u64" where
  "dvm_parse kstrtoul user =
     (if DVM_BUFLEN < length user then Inl (Wr_err EINVAL)
      else if length user = DVM_BUFLEN \<and> 0 \<notin> set user then Inl Wr_unterminated
      else case kstrtoul (takeWhile (\<lambda>c. c \<noteq> 0) user) of Inl e \<Rightarrow> Inl (Wr_err e) | Inr v \<Rightarrow> Inr v)"

definition iwl_dbgfs_bf_flag_read :: "tx_priv \<Rightarrow> string" where
  "iwl_dbgfs_bf_flag_read p = scnprintf 11 (print_dec (of_bool (bf_enabled p)))"

definition iwl_dbgfs_bf_flag_write :: "(u8 list \<Rightarrow> errno + u64) \<Rightarrow> u8 list \<Rightarrow> tx_priv \<Rightarrow> dvm_write \<times> tx_priv" where
  "iwl_dbgfs_bf_flag_write kstrtoul user p =
     (case dvm_parse kstrtoul user of Inl r \<Rightarrow> (r, p)
      | Inr val \<Rightarrow> (Wr_done (length user), p\<lparr>bf_enabled := (val \<noteq> 0)\<rparr>))"

definition iwl_dbgfs_monitor_tx_rate_read :: "tx_priv \<Rightarrow> string" where
  "iwl_dbgfs_monitor_tx_rate_read p = scnprintf 11 (''0x'' @ print_hex (unat (monitor_tx_rate p)))"

definition iwl_dbgfs_monitor_tx_rate_write ::
  "(u8 list \<Rightarrow> errno + u64) \<Rightarrow> u8 list \<Rightarrow> tx_priv \<Rightarrow> dvm_write \<times> tx_priv" where
  "iwl_dbgfs_monitor_tx_rate_write kstrtoul user p =
     (case dvm_parse kstrtoul user of Inl r \<Rightarrow> (r, p)
      | Inr val \<Rightarrow> (Wr_done (length user), p\<lparr>monitor_tx_rate := ucast val\<rparr>))"

definition iwl_dbgfs_bcast_tx_rate_read :: "tx_priv \<Rightarrow> string" where
  "iwl_dbgfs_bcast_tx_rate_read p = scnprintf 11 (''0x'' @ print_hex (unat (bcast_tx_rate p)))"

definition iwl_dbgfs_bcast_tx_rate_write ::
  "(u8 list \<Rightarrow> errno + u64) \<Rightarrow> u8 list \<Rightarrow> tx_priv \<Rightarrow> dvm_write \<times> tx_priv" where
  "iwl_dbgfs_bcast_tx_rate_write kstrtoul user p =
     (case dvm_parse kstrtoul user of Inl r \<Rightarrow> (r, p)
      | Inr val \<Rightarrow> (Wr_done (length user), p\<lparr>bcast_tx_rate := ucast val\<rparr>))"

definition ANT_A :: u8 where "ANT_A = 0x1"
definition ANT_B :: u8 where "ANT_B = 0x2"
definition ANT_C :: u8 where "ANT_C = 0x4"

definition num_of_ant :: "u8 \<Rightarrow> u8" where
  "num_of_ant msk = of_bool (tst msk ANT_A) + of_bool (tst msk ANT_B) + of_bool (tst msk ANT_C)"

definition iwl_dbgfs_rx_chains_msk_read :: "tx_priv \<Rightarrow> string" where
  "iwl_dbgfs_rx_chains_msk_read p = scnprintf 128 (''rx_chains: '' @ print_dec (unat (rx_chains_num p)) @
     '' antennas, mask 0x'' @ print_hex (unat (valid_rx_ant p)))"

text \<open>The contexts are then committed to the device; that command is not part of this state.\<close>

definition iwl_dbgfs_rx_chains_msk_write ::
  "(u8 list \<Rightarrow> errno + u64) \<Rightarrow> u8 list \<Rightarrow> tx_priv \<Rightarrow> dvm_write \<times> tx_priv" where
  "iwl_dbgfs_rx_chains_msk_write kstrtoul user p =
     (case dvm_parse kstrtoul user of Inl r \<Rightarrow> (r, p)
      | Inr val \<Rightarrow>
          if val AND ucast (ANT_A OR ANT_B OR ANT_C) \<noteq> val then (Wr_err EINVAL, p)
          else (Wr_done (length user), p\<lparr>valid_rx_ant := ucast val, rx_chains_num := num_of_ant (ucast val),
            active_chains := ucast val\<rparr>))"

section \<open>The table of rotating rates\<close>

definition ROTATE_SISO :: u64 where "ROTATE_SISO = 1"
definition ROTATE_MIMO2 :: u64 where "ROTATE_MIMO2 = 2"
definition ROTATE_MIMO3 :: u64 where "ROTATE_MIMO3 = 4"
definition ROTATE_TX_SEL :: u64 where "ROTATE_TX_SEL = 8"
definition ROTATE_HT40 :: u64 where "ROTATE_HT40 = 16"
definition ROTATE_SGI :: u64 where "ROTATE_SGI = 32"
definition ROTATE_SKIP :: u64 where "ROTATE_SKIP = 64"

definition ROT_MCS_HT40_MSK :: u32 where "ROT_MCS_HT40_MSK = 0x800"
definition ROT_MCS_SGI_MSK :: u32 where "ROT_MCS_SGI_MSK = 0x2000"

definition iwl_dbgfs_rotate_rates_read :: "tx_priv \<Rightarrow> string" where
  "iwl_dbgfs_rotate_rates_read p = scnprintf 11 (''0x'' @ print_hex (unat (rotate_rates p)))"

text \<open>The number of entries that are allocated, and the first rate of each group.\<close>

definition rotate_num_rates :: "u64 \<Rightarrow> nat" where
  "rotate_num_rates val =
     (let n = of_bool (tst val ROTATE_SISO) + of_bool (tst val ROTATE_MIMO2) + of_bool (tst val ROTATE_MIMO3);
        n = (if tst val ROTATE_TX_SEL
             then n + (if tst val ROTATE_SISO then 2 else 0) + (if tst val ROTATE_MIMO2 then 2 else 0) else n);
        n = (if tst val ROTATE_HT40 then n * 2 else n);
        n = (if tst val ROTATE_SGI then n * 2 else n)
      in if tst val ROTATE_SKIP then n * 6 else n * 8)"

definition rotate_start_rate :: "u64 \<Rightarrow> nat" where
  "rotate_start_rate val = (if tst val ROTATE_SKIP then 2 else 0)"

text \<open>
  A loop \<open>for (i = start; i < lim; ++i, ++cur) array[cur] = f(i)\<close>, as its number of turns: \<open>f\<close> may
  read the array. \<open>None\<close> is a write behind its end.
\<close>

fun fill_loop :: "(nat \<Rightarrow> u32 option list \<Rightarrow> u32 option) \<Rightarrow> nat \<Rightarrow> nat \<Rightarrow> nat \<times> u32 option list \<Rightarrow> (nat \<times> u32 option list) option" where
  "fill_loop f i 0 s = Some s"
| "fill_loop f i (Suc n) (cur, arr) =
     (if cur < length arr then fill_loop f (Suc i) n (cur + 1, arr[cur := f i arr]) else None)"

definition fill_rates :: "u32 \<Rightarrow> nat \<Rightarrow> nat \<times> u32 option list \<Rightarrow> (nat \<times> u32 option list) option" where
  "fill_rates base start s = fill_loop (\<lambda>i arr. Some (base + of_nat i)) start (8 - start) s"

definition copy_rates :: "u32 \<Rightarrow> nat \<Rightarrow> nat \<times> u32 option list \<Rightarrow> (nat \<times> u32 option list) option" where
  "copy_rates flag start s =
     fill_loop (\<lambda>i arr. map_option (\<lambda>r. r OR flag) (arr ! i)) start (fst s - start) s"

definition fill_if :: "bool \<Rightarrow> ('s \<Rightarrow> 's option) \<Rightarrow> 's \<Rightarrow> 's option" where
  "fill_if c f s = (if c then f s else Some s)"

definition rotate_fill :: "u64 \<Rightarrow> nat \<times> u32 option list \<Rightarrow> (nat \<times> u32 option list) option" where
  "rotate_fill val s0 =
     (let st = rotate_start_rate val; siso = tst val ROTATE_SISO; mimo2 = tst val ROTATE_MIMO2;
        sel = tst val ROTATE_TX_SEL in
      Option.bind (fill_if siso (fill_rates 0x4100 st) s0) (\<lambda>s.
      Option.bind (fill_if mimo2 (fill_rates 0xc108 st) s) (\<lambda>s.
      Option.bind (fill_if (tst val ROTATE_MIMO3) (fill_rates 0x1c110 st) s) (\<lambda>s.
      Option.bind (fill_if (sel \<and> siso) (fill_rates 0x8100 st) s) (\<lambda>s.
      Option.bind (fill_if (sel \<and> siso) (fill_rates 0x10100 st) s) (\<lambda>s.
      Option.bind (fill_if (sel \<and> mimo2) (fill_rates 0x14108 st) s) (\<lambda>s.
      Option.bind (fill_if (sel \<and> mimo2) (fill_rates 0x18108 st) s) (\<lambda>s.
      Option.bind (fill_if (tst val ROTATE_HT40) (copy_rates ROT_MCS_HT40_MSK st) s) (\<lambda>s.
      fill_if (tst val ROTATE_SGI) (copy_rates ROT_MCS_SGI_MSK st) s)))))))))"

text \<open>The handler; \<open>mem\<close> says whether the table can be allocated. \<open>None\<close>: a write outside it.\<close>

definition iwl_dbgfs_rotate_rates_write ::
  "(u8 list \<Rightarrow> errno + u64) \<Rightarrow> bool \<Rightarrow> u8 list \<Rightarrow> tx_priv \<Rightarrow> (dvm_write \<times> tx_priv) option" where
  "iwl_dbgfs_rotate_rates_write kstrtoul mem user p =
     (case dvm_parse kstrtoul user of Inl r \<Rightarrow> Some (r, p)
      | Inr val \<Rightarrow>
        let p = (if rotate_rates p \<noteq> 0 then p\<lparr>rotate_rate_array := None, last_rotate_rate := 0,
              rotate_rate_total := 0, rotate_rates := 0\<rparr> else p);
          num_rates = rotate_num_rates val
        in if val = 0 then Some (Wr_done (length user), p)
        else if num_rates = 0 then Some (Wr_err EINVAL, p)
        else if \<not> mem then Some (Wr_err ENOMEM, p\<lparr>rotate_rate_array := None\<rparr>)
        else map_option (\<lambda>(cur, arr). (Wr_done (length user),
            p\<lparr>rotate_rate_array := Some arr, rotate_rates := 1, last_rotate_rate := 0,
              rotate_rate_total := of_nat num_rates\<rparr>))
          (rotate_fill val (0, replicate num_rates None)))"

section \<open>The rate of a frame\<close>

record tx_cmd =
  tc_data_retry_limit :: u8
  tc_rts_retry_limit :: u8
  tc_flags :: u32
  tc_initial_rate_index :: u8
  tc_rate_n_flags :: "u32 option"

definition TX_CMD_FLG_STA_RATE_MSK :: u32 where "TX_CMD_FLG_STA_RATE_MSK = 0x10"
definition IWLAGN_DEFAULT_TX_RETRY :: u8 where "IWLAGN_DEFAULT_TX_RETRY = 15"
definition IWLAGN_MGMT_DFAULT_RETRY_LIMIT :: u8 where "IWLAGN_MGMT_DFAULT_RETRY_LIMIT = 3"
definition IWLAGN_RTS_DFAULT_RETRY_LIMIT :: u8 where "IWLAGN_RTS_DFAULT_RETRY_LIMIT = 60"
definition IWLAGN_BAR_DFAULT_RETRY_LIMIT :: u8 where "IWLAGN_BAR_DFAULT_RETRY_LIMIT = 60"
definition IWLAGN_LOW_RETRY_LIMIT :: u8 where "IWLAGN_LOW_RETRY_LIMIT = 7"

definition ieee80211_is_probe_resp :: "u16 \<Rightarrow> bool" where
  "ieee80211_is_probe_resp fc \<longleftrightarrow> fc AND (IEEE80211_FCTL_FTYPE OR IEEE80211_FCTL_STYPE) = 0x0050"

definition RATE_ANT_NUM :: nat where "RATE_ANT_NUM = 3"
definition IWL_BT_COEX_TRAFFIC_LOAD_HIGH :: u8 where "IWL_BT_COEX_TRAFFIC_LOAD_HIGH = 2"

fun toggle_ant_loop :: "nat \<Rightarrow> nat \<Rightarrow> u8 \<Rightarrow> u8 \<Rightarrow> u8" where
  "toggle_ant_loop 0 ind valid ant = ant"
| "toggle_ant_loop (Suc n) ind valid ant =
     (let ind = (if ind + 1 < RATE_ANT_NUM then ind + 1 else 0) in
      if bit valid ind then of_nat ind else toggle_ant_loop n ind valid ant)"

definition iwl_toggle_tx_ant :: "tx_priv \<Rightarrow> u8 \<Rightarrow> u8 \<Rightarrow> u8" where
  "iwl_toggle_tx_ant p ant valid =
     (if tx_band p = NL80211_BAND_2GHZ \<and> IWL_BT_COEX_TRAFFIC_LOAD_HIGH \<le> bt_traffic_load p then 0
      else toggle_ant_loop (RATE_ANT_NUM - 1) (unat ant) valid ant)"

text \<open>\<open>first_antenna\<close> of \<open>dvm/rs.h\<close>, and the \<open>plcp\<close> column of all 13 entries of \<open>iwl_rates\<close>.\<close>

definition dvm_first_antenna :: "u8 \<Rightarrow> u8" where
  "dvm_first_antenna msk = (if tst msk ANT_A then ANT_A else if tst msk ANT_B then ANT_B else ANT_C)"

definition dvm_rate_plcp :: "u32 list" where
  "dvm_rate_plcp = [10, 20, 55, 110, 13, 15, 5, 7, 9, 11, 1, 3, 3]"

definition DVM_RATE_COUNT_LEGACY :: int where "DVM_RATE_COUNT_LEGACY = 12"
definition DVM_RATE_MCS_CCK_MSK :: u32 where "DVM_RATE_MCS_CCK_MSK = 0x200"
definition DVM_RATE_MCS_ANT_POS :: nat where "DVM_RATE_MCS_ANT_POS = 14"

definition iwl_ant_idx_to_flags :: "u8 \<Rightarrow> u32" where
  "iwl_ant_idx_to_flags ant_idx = push_bit DVM_RATE_MCS_ANT_POS (push_bit (unat ant_idx) 1)"

text \<open>
  What mac80211 hands over with a frame: its first rate and whether that is an MCS, the band, the
  value of \<open>rate_lowest_index\<close>, and whether Bluetooth runs fully concurrently.
\<close>

record tx_info =
  ti_rate_idx :: int
  ti_mcs :: bool
  ti_band :: nl80211_band
  ti_lowest :: int
  ti_bt_full_concurrent :: bool

text \<open>\<open>None\<close>: a read outside one of the two tables.\<close>

definition iwlagn_tx_cmd_build_rate :: "u16 \<Rightarrow> tx_info \<Rightarrow> tx_cmd \<Rightarrow> tx_priv \<Rightarrow> (tx_cmd \<times> tx_priv) option" where
  "iwlagn_tx_cmd_build_rate fc info cmd p =
     (let (data_lim, rts_lim) =
        (if tx_wowlan p then (IWLAGN_LOW_RETRY_LIMIT, IWLAGN_LOW_RETRY_LIMIT)
         else if ieee80211_is_probe_resp fc then
           (IWLAGN_MGMT_DFAULT_RETRY_LIMIT, min IWLAGN_MGMT_DFAULT_RETRY_LIMIT IWLAGN_RTS_DFAULT_RETRY_LIMIT)
         else if ieee80211_is_back_req fc then (IWLAGN_BAR_DFAULT_RETRY_LIMIT, IWLAGN_RTS_DFAULT_RETRY_LIMIT)
         else (IWLAGN_DEFAULT_TX_RETRY, IWLAGN_RTS_DFAULT_RETRY_LIMIT));
        cmd = cmd\<lparr>tc_data_retry_limit := data_lim, tc_rts_retry_limit := rts_lim\<rparr>
      in if ieee80211_is_data fc \<and> rotate_rates p \<noteq> 0 then
        (case rotate_rate_array p of None \<Rightarrow> None
         | Some arr \<Rightarrow>
             if length arr \<le> unat (last_rotate_rate p) then None
             else Some (cmd\<lparr>tc_flags := tc_flags cmd AND NOT TX_CMD_FLG_STA_RATE_MSK,
                 tc_rate_n_flags := arr ! unat (last_rotate_rate p),
                 tc_data_retry_limit := 0, tc_rts_retry_limit := 0\<rparr>,
               p\<lparr>last_rotate_rate := (last_rotate_rate p + 1) mod rotate_rate_total p\<rparr>))
      else if ieee80211_is_data fc then
        Some (cmd\<lparr>tc_initial_rate_index := 0, tc_flags := tc_flags cmd OR TX_CMD_FLG_STA_RATE_MSK\<rparr>, p)
      else
        (let cmd = (if ieee80211_is_back_req fc then cmd\<lparr>tc_flags := tc_flags cmd OR TX_CMD_FLG_STA_RATE_MSK\<rparr> else cmd);
           idx = (if ti_mcs info \<or> ti_rate_idx info < 0 \<or> DVM_RATE_COUNT_LEGACY < ti_rate_idx info
                  then ti_lowest info else ti_rate_idx info);
           idx = (if ti_band info = NL80211_BAND_5GHZ then idx + int IWL_FIRST_OFDM_RATE else idx);
           valid = (if ti_bt_full_concurrent info then dvm_first_antenna (valid_tx_ant p) else valid_tx_ant p);
           ant = iwl_toggle_tx_ant p (mgmt_tx_ant p) valid;
           flags = (if 0 \<le> idx \<and> idx \<le> 3 then DVM_RATE_MCS_CCK_MSK else 0) OR iwl_ant_idx_to_flags ant
         in if idx < 0 \<or> int (length dvm_rate_plcp) \<le> idx then None
            else Some (cmd\<lparr>tc_rate_n_flags := Some (flags OR dvm_rate_plcp ! nat idx)\<rparr>, p\<lparr>mgmt_tx_ant := ant\<rparr>)))"

definition IWLAGN_MONITOR_ID :: u8 where "IWLAGN_MONITOR_ID = 13"
definition iwl_monitor_addr :: "u8 list" where "iwl_monitor_addr = [0x00, 0x16, 0xEA, 0x12, 0x34, 0x56]"

definition is_monitor_ether_addr :: "u8 list \<Rightarrow> bool" where
  "is_monitor_ether_addr addr = (addr = iwl_monitor_addr)"

text \<open>
  The two places of \<open>iwlagn_tx_skb\<close> that treat experimental frames: the station id of a frame to
  the monitor address, and the fixed rates of frames to that address and to the broadcast station.
\<close>

definition iwlagn_tx_skb_sta_id :: "bool \<Rightarrow> u8 list \<Rightarrow> u8 \<Rightarrow> u8" where
  "iwlagn_tx_skb_sta_id has_sta a1 sta_id =
     (if \<not> has_sta \<and> is_monitor_ether_addr a1 then IWLAGN_MONITOR_ID else sta_id)"

definition iwlagn_tx_skb_rate ::
  "u8 \<Rightarrow> u8 \<Rightarrow> u16 \<Rightarrow> tx_info \<Rightarrow> tx_cmd \<Rightarrow> tx_priv \<Rightarrow> (tx_cmd \<times> tx_priv) option" where
  "iwlagn_tx_skb_rate bcast_sta_id sta_id fc info cmd p =
     (if IWLAGN_MONITOR_ID = sta_id \<and> monitor_tx_rate p \<noteq> 0 then
        Some (cmd\<lparr>tc_flags := tc_flags cmd AND NOT TX_CMD_FLG_STA_RATE_MSK,
          tc_rate_n_flags := Some (monitor_tx_rate p)\<rparr>, p)
      else if bcast_sta_id = sta_id \<and> bcast_tx_rate p \<noteq> 0 then
        Some (cmd\<lparr>tc_flags := tc_flags cmd AND NOT TX_CMD_FLG_STA_RATE_MSK,
          tc_rate_n_flags := Some (bcast_tx_rate p)\<rparr>, p)
      else iwlagn_tx_cmd_build_rate fc info cmd p)"

section \<open>What the table holds\<close>

text \<open>The rates of each group, one list after the other, and the copies with a flag added.\<close>

definition rate_group :: "bool \<Rightarrow> u32 \<Rightarrow> nat \<Rightarrow> u32 list" where
  "rate_group c base st = (if c then map (\<lambda>i. base + of_nat i) [st..<8] else [])"

definition with_copies :: "bool \<Rightarrow> u32 \<Rightarrow> nat \<Rightarrow> u32 list \<Rightarrow> u32 list" where
  "with_copies c flag st rs = (if c then rs @ map (\<lambda>r. r OR flag) (drop st rs) else rs)"

definition rotate_base :: "u64 \<Rightarrow> u32 list" where
  "rotate_base val =
     (let st = rotate_start_rate val; siso = tst val ROTATE_SISO; mimo2 = tst val ROTATE_MIMO2;
        sel = tst val ROTATE_TX_SEL in
      rate_group siso 0x4100 st @ rate_group mimo2 0xc108 st @ rate_group (tst val ROTATE_MIMO3) 0x1c110 st @
      rate_group (sel \<and> siso) 0x8100 st @ rate_group (sel \<and> siso) 0x10100 st @
      rate_group (sel \<and> mimo2) 0x14108 st @ rate_group (sel \<and> mimo2) 0x18108 st)"

definition rotate_table :: "u64 \<Rightarrow> u32 list" where
  "rotate_table val = with_copies (tst val ROTATE_SGI) ROT_MCS_SGI_MSK (rotate_start_rate val)
     (with_copies (tst val ROTATE_HT40) ROT_MCS_HT40_MSK (rotate_start_rate val) (rotate_base val))"

text \<open>A table of which the first entries are written.\<close>

definition filled :: "u32 list \<Rightarrow> nat \<Rightarrow> nat \<times> u32 option list" where
  "filled rs n = (length rs, map Some rs @ replicate (n - length rs) None)"

lemma filled_append_one:
  assumes "length rs < n"
  shows "(map Some rs @ replicate (n - length rs) None)[length rs := Some r] =
     map Some (rs @ [r]) @ replicate (n - Suc (length rs)) None"
proof -
  have "n - length rs = Suc (n - Suc (length rs))" using assms by simp
  then show ?thesis using list_update_length [of "map Some rs"] by simp
qed

lemma fill_loop_filled:
  assumes "\<And>j zs. i \<le> j \<Longrightarrow> j < i + k \<Longrightarrow> f j (snd (filled (rs @ zs) n)) = Some (g j)" "length rs + k \<le> n"
  shows "fill_loop f i k (filled rs n) = Some (filled (rs @ map g [i..<i + k]) n)"
  using assms
proof (induction k arbitrary: i rs)
  case (Suc k)
  obtain cur arr where fl: "filled rs n = (cur, arr)" by fastforce
  then have cur: "cur = length rs" "arr = snd (filled rs n)" "length arr = n"
    using Suc.prems(2) by (auto simp: filled_def)
  have "f i arr = Some (g i)" using Suc.prems(1) [of i "[]"] cur(2) by simp
  then have "(cur + 1, arr[cur := f i arr]) = filled (rs @ [g i]) n"
    using filled_append_one [of rs n "g i"] Suc.prems(2) cur(1,2) by (simp add: filled_def)
  moreover have "fill_loop f (Suc i) k (filled (rs @ [g i]) n) =
      Some (filled ((rs @ [g i]) @ map g [Suc i..<Suc i + k]) n)"
    by (rule Suc.IH) (use Suc.prems in auto)
  moreover have "fill_loop f i (Suc k) (cur, arr) = fill_loop f (Suc i) k (cur + 1, arr[cur := f i arr])"
    using Suc.prems(2) cur(1,3) by simp
  moreover have "[i..<i + Suc k] = i # [Suc i..<Suc i + k]" by (simp add: upt_conv_Cons)
  ultimately show ?case
    by (simp only: fl append_assoc append_Cons append_Nil list.map)
qed simp

lemma fill_rates_filled:
  "st \<le> 8 \<Longrightarrow> length rs + (8 - st) \<le> n \<Longrightarrow>
     fill_rates base st (filled rs n) = Some (filled (rs @ map (\<lambda>i. base + of_nat i) [st..<8]) n)"
  using fill_loop_filled [of st "8 - st" "\<lambda>i arr. Some (base + of_nat i)" rs n "\<lambda>i. base + of_nat i"]
  by (simp add: fill_rates_def)

lemma fill_group:
  "st \<le> 8 \<Longrightarrow> length (rs @ rate_group c base st) \<le> n \<Longrightarrow>
     fill_if c (fill_rates base st) (filled rs n) = Some (filled (rs @ rate_group c base st) n)"
  by (cases c) (simp_all add: fill_if_def rate_group_def fill_rates_filled)

lemma copy_rates_filled:
  assumes "st \<le> length rs" "length rs + (length rs - st) \<le> n"
  shows "copy_rates flag st (filled rs n) = Some (filled (rs @ map (\<lambda>r. r OR flag) (drop st rs)) n)"
proof -
  have "map_option (\<lambda>r. r OR flag) (snd (filled (rs @ zs) n) ! j) = Some (rs ! j OR flag)"
    if "j < length rs" for j zs
    using that by (simp add: filled_def nth_append)
  moreover have "map (\<lambda>j. rs ! j OR flag) [st..<length rs] = map (\<lambda>r. r OR flag) (drop st rs)"
    by (rule nth_equalityI) (simp_all add: add.commute)
  ultimately show ?thesis
    using fill_loop_filled [of st "length rs - st"
        "\<lambda>i arr. map_option (\<lambda>r. r OR flag) (arr ! i)" rs n "\<lambda>j. rs ! j OR flag"] assms
    by (simp add: copy_rates_def filled_def [of rs])
qed

lemma copy_group:
  "st \<le> length rs \<Longrightarrow> length (with_copies c flag st rs) \<le> n \<Longrightarrow>
     fill_if c (copy_rates flag st) (filled rs n) = Some (filled (with_copies c flag st rs) n)"
  by (cases c) (simp_all add: fill_if_def with_copies_def copy_rates_filled)

lemma length_rate_group: "length (rate_group c base st) = (if c then 8 - st else 0)"
  by (simp add: rate_group_def)

lemma length_with_copies: "length (with_copies c flag st rs) = (if c then length rs + (length rs - st) else length rs)"
  by (simp add: with_copies_def)

text \<open>The size of the base table, per group of six or eight rates.\<close>

definition rotate_groups :: "u64 \<Rightarrow> nat" where
  "rotate_groups val = of_bool (tst val ROTATE_SISO) + of_bool (tst val ROTATE_MIMO2) + of_bool (tst val ROTATE_MIMO3) +
     (if tst val ROTATE_TX_SEL then 2 * of_bool (tst val ROTATE_SISO) + 2 * of_bool (tst val ROTATE_MIMO2) else 0)"

lemma length_rotate_base: "length (rotate_base val) = rotate_groups val * (8 - rotate_start_rate val)"
  by (simp add: rotate_base_def Let_def length_rate_group rotate_groups_def)

lemma rotate_num_rates_eq:
  "rotate_num_rates val = rotate_groups val * (8 - rotate_start_rate val) *
     (if tst val ROTATE_HT40 then 2 else 1) * (if tst val ROTATE_SGI then 2 else 1)"
  by (simp add: rotate_num_rates_def rotate_groups_def rotate_start_rate_def Let_def)

lemma rotate_start_le: "rotate_start_rate val \<le> 2"
  by (simp add: rotate_start_rate_def)

lemma length_rotate_table:
  assumes "rotate_num_rates val \<noteq> 0"
  shows "length (rotate_table val) \<le> rotate_num_rates val"
    "length (rotate_table val) = rotate_num_rates val \<longleftrightarrow>
       \<not> (tst val ROTATE_SKIP \<and> (tst val ROTATE_HT40 \<or> tst val ROTATE_SGI))"
proof -
  have "rotate_groups val \<noteq> 0" using assms by (auto simp: rotate_num_rates_eq)
  then show "length (rotate_table val) \<le> rotate_num_rates val"
    "length (rotate_table val) = rotate_num_rates val \<longleftrightarrow>
       \<not> (tst val ROTATE_SKIP \<and> (tst val ROTATE_HT40 \<or> tst val ROTATE_SGI))"
    by (auto simp: rotate_table_def length_with_copies length_rotate_base rotate_num_rates_eq rotate_start_rate_def)
qed

lemma rotate_fill_table:
  assumes "rotate_num_rates val \<noteq> 0"
  shows "rotate_fill val (0, replicate (rotate_num_rates val) None) =
     Some (filled (rotate_table val) (rotate_num_rates val))"
proof -
  define n where "n = rotate_num_rates val"
  have groups: "rotate_groups val \<noteq> 0" using assms by (auto simp: rotate_num_rates_eq)
  have st: "rotate_start_rate val \<le> 8" using rotate_start_le [of val] by simp
  have start: "(0, replicate n None) = filled [] n" by (simp add: filled_def)
  have le: "length (rotate_table val) \<le> n" unfolding n_def by (rule length_rotate_table [OF assms])
  have base: "rotate_start_rate val \<le> length (rotate_base val)"
    using groups rotate_start_le [of val] by (cases "rotate_groups val") (auto simp: length_rotate_base)
  define st where "st = rotate_start_rate val"
  define siso where "siso = tst val ROTATE_SISO"
  define mimo2 where "mimo2 = tst val ROTATE_MIMO2"
  define mimo3 where "mimo3 = tst val ROTATE_MIMO3"
  define sel where "sel = tst val ROTATE_TX_SEL"
  note flags = st_def [symmetric] siso_def [symmetric] mimo2_def [symmetric] mimo3_def [symmetric] sel_def [symmetric]
  define r1 where "r1 = rate_group siso 0x4100 st"
  define r2 where "r2 = rate_group mimo2 0xc108 st"
  define r3 where "r3 = rate_group mimo3 0x1c110 st"
  define r4 where "r4 = rate_group (sel \<and> siso) 0x8100 st"
  define r5 where "r5 = rate_group (sel \<and> siso) 0x10100 st"
  define r6 where "r6 = rate_group (sel \<and> mimo2) 0x14108 st"
  define r7 where "r7 = rate_group (sel \<and> mimo2) 0x18108 st"
  note rdefs = r1_def r2_def r3_def r4_def r5_def r6_def r7_def
  have all: "rotate_base val = r1 @ r2 @ r3 @ r4 @ r5 @ r6 @ r7"
    by (simp add: rotate_base_def Let_def flags rdefs)
  have "length (rotate_base val) \<le> n"
    using le by (simp add: rotate_table_def length_with_copies split: if_splits)
  then have len: "length r1 + length r2 + length r3 + length r4 + length r5 + length r6 + length r7 \<le> n"
    by (simp add: all)
  note group = fill_group [OF st, folded st_def]
  have f1: "fill_if siso (fill_rates 0x4100 st) (filled [] n) = Some (filled r1 n)"
    using group [of "[]" siso] len by (simp add: rdefs)
  have f2: "fill_if mimo2 (fill_rates 0xc108 st) (filled r1 n) = Some (filled (r1 @ r2) n)"
    unfolding r2_def by (rule group) (use len in \<open>simp flip: r2_def\<close>)
  have f3: "fill_if mimo3 (fill_rates 0x1c110 st) (filled (r1 @ r2) n) = Some (filled ((r1 @ r2) @ r3) n)"
    unfolding r3_def by (rule group) (use len in \<open>simp flip: r3_def\<close>)
  have f4: "fill_if (sel \<and> siso) (fill_rates 0x8100 st) (filled ((r1 @ r2) @ r3) n) =
      Some (filled (((r1 @ r2) @ r3) @ r4) n)"
    unfolding r4_def by (rule group) (use len in \<open>simp flip: r4_def\<close>)
  have f5: "fill_if (sel \<and> siso) (fill_rates 0x10100 st) (filled (((r1 @ r2) @ r3) @ r4) n) =
      Some (filled ((((r1 @ r2) @ r3) @ r4) @ r5) n)"
    unfolding r5_def by (rule group) (use len in \<open>simp flip: r5_def\<close>)
  have f6: "fill_if (sel \<and> mimo2) (fill_rates 0x14108 st) (filled ((((r1 @ r2) @ r3) @ r4) @ r5) n) =
      Some (filled (((((r1 @ r2) @ r3) @ r4) @ r5) @ r6) n)"
    unfolding r6_def by (rule group) (use len in \<open>simp flip: r6_def\<close>)
  have f7: "fill_if (sel \<and> mimo2) (fill_rates 0x18108 st) (filled (((((r1 @ r2) @ r3) @ r4) @ r5) @ r6) n) =
      Some (filled ((((((r1 @ r2) @ r3) @ r4) @ r5) @ r6) @ r7) n)"
    unfolding r7_def by (rule group) (use len in \<open>simp flip: r7_def\<close>)
  have all': "((((((r1 @ r2) @ r3) @ r4) @ r5) @ r6) @ r7) = rotate_base val" by (simp add: all)
  have f8: "fill_if (tst val ROTATE_HT40) (copy_rates ROT_MCS_HT40_MSK st) (filled (rotate_base val) n) =
      Some (filled (with_copies (tst val ROTATE_HT40) ROT_MCS_HT40_MSK st (rotate_base val)) n)"
    by (rule copy_group) (use base le in \<open>simp_all add: st_def rotate_table_def length_with_copies split: if_splits\<close>)
  have f9: "fill_if (tst val ROTATE_SGI) (copy_rates ROT_MCS_SGI_MSK st)
      (filled (with_copies (tst val ROTATE_HT40) ROT_MCS_HT40_MSK st (rotate_base val)) n) =
      Some (filled (rotate_table val) n)"
    unfolding rotate_table_def st_def [symmetric]
    by (rule copy_group) (use base le in \<open>simp_all add: st_def rotate_table_def length_with_copies split: if_splits\<close>)
  show ?thesis
    unfolding rotate_fill_def Let_def flags n_def [symmetric] start
    by (simp only: f1 f2 f3 f4 f5 f6 f7 all' f8 f9 bind.bind_lunit)
qed

section \<open>Reachable states\<close>

inductive tx_step :: "(u8 list \<Rightarrow> errno + u64) \<Rightarrow> tx_priv \<Rightarrow> tx_priv \<Rightarrow> bool" for kstrtoul where
  rotate: "iwl_dbgfs_rotate_rates_write kstrtoul mem user p = Some (r, p') \<Longrightarrow> tx_step kstrtoul p p'"
| bf: "iwl_dbgfs_bf_flag_write kstrtoul user p = (r, p') \<Longrightarrow> tx_step kstrtoul p p'"
| monitor: "iwl_dbgfs_monitor_tx_rate_write kstrtoul user p = (r, p') \<Longrightarrow> tx_step kstrtoul p p'"
| bcast: "iwl_dbgfs_bcast_tx_rate_write kstrtoul user p = (r, p') \<Longrightarrow> tx_step kstrtoul p p'"
| chains: "iwl_dbgfs_rx_chains_msk_write kstrtoul user p = (r, p') \<Longrightarrow> tx_step kstrtoul p p'"
| frame: "iwlagn_tx_skb_rate bcast_id sta_id fc info cmd p = Some (cmd', p') \<Longrightarrow> tx_step kstrtoul p p'"

text \<open>While rotation is on, there is a table, of the recorded size, and the position lies in it.\<close>

definition rotate_ok :: "tx_priv \<Rightarrow> bool" where
  "rotate_ok p \<longleftrightarrow> rotate_rates p = 0 \<or>
     (\<exists>arr. rotate_rate_array p = Some arr \<and> unat (rotate_rate_total p) = length arr \<and>
        unat (last_rotate_rate p) < length arr)"

lemma rotate_num_rates_le: "rotate_num_rates val \<le> 224"
  by (simp add: rotate_num_rates_def Let_def)

lemma rotate_zero: "rotate_num_rates 0 = 0"
  by (simp add: rotate_num_rates_def tst_def)

text \<open>The one branch of the write that installs a table.\<close>

lemma rotate_rates_write_table:
  assumes "dvm_parse kstrtoul user = Inr val" "rotate_num_rates val \<noteq> 0"
  shows "\<exists>p'. iwl_dbgfs_rotate_rates_write kstrtoul True user p = Some (Wr_done (length user), p') \<and>
     rotate_rates p' = 1 \<and> last_rotate_rate p' = 0 \<and> unat (rotate_rate_total p') = rotate_num_rates val \<and>
     rotate_rate_array p' = Some (snd (filled (rotate_table val) (rotate_num_rates val)))"
proof -
  have val: "val \<noteq> 0" using assms(2) rotate_zero by auto
  have total: "unat (of_nat (rotate_num_rates val) :: u32) = rotate_num_rates val"
    using rotate_num_rates_le [of val] by (simp add: unsigned_of_nat take_bit_nat_eq_self)
  show ?thesis
    using assms val total
    by (auto simp: iwl_dbgfs_rotate_rates_write_def Let_def rotate_fill_table filled_def)
qed

lemma length_filled: "length rs \<le> n \<Longrightarrow> length (snd (filled rs n)) = n"
  by (simp add: filled_def)

lemma rotate_write_ok:
  assumes "rotate_ok p" "iwl_dbgfs_rotate_rates_write kstrtoul mem user p = Some (r, p')"
  shows "rotate_ok p'"
proof (cases "dvm_parse kstrtoul user")
  case (Inl e)
  then show ?thesis using assms by (simp add: iwl_dbgfs_rotate_rates_write_def)
next
  case (Inr val)
  show ?thesis
  proof (cases "rotate_num_rates val \<noteq> 0 \<and> mem")
    case True
    then obtain p'' where "iwl_dbgfs_rotate_rates_write kstrtoul True user p = Some (Wr_done (length user), p'')"
      "last_rotate_rate p'' = 0" "unat (rotate_rate_total p'') = rotate_num_rates val"
      "rotate_rate_array p'' = Some (snd (filled (rotate_table val) (rotate_num_rates val)))"
      using rotate_rates_write_table [OF Inr] by blast
    moreover have "length (snd (filled (rotate_table val) (rotate_num_rates val))) = rotate_num_rates val"
      using True length_rotate_table(1) [of val] by (simp add: length_filled)
    ultimately show ?thesis
      using True assms(2) by (simp add: rotate_ok_def del: length_greater_0_conv)
  next
    case False
    then show ?thesis
      using assms by (auto simp: iwl_dbgfs_rotate_rates_write_def Inr Let_def rotate_ok_def rotate_zero split: if_splits)
  qed
qed

lemma rotate_ok_other: "rotate_ok (p\<lparr>mgmt_tx_ant := a\<rparr>) = rotate_ok p" "rotate_ok (p\<lparr>bf_enabled := b\<rparr>) = rotate_ok p"
  "rotate_ok (p\<lparr>monitor_tx_rate := m\<rparr>) = rotate_ok p" "rotate_ok (p\<lparr>bcast_tx_rate := m\<rparr>) = rotate_ok p"
  "rotate_ok (p\<lparr>valid_rx_ant := v, rx_chains_num := n, active_chains := c\<rparr>) = rotate_ok p"
  by (simp_all add: rotate_ok_def)

text \<open>A data frame while rotation is on.\<close>

lemma rotate_frame:
  assumes "ieee80211_is_data fc" "rotate_rates p \<noteq> 0" "rotate_rate_array p = Some arr"
    and "unat (last_rotate_rate p) < length arr"
  shows "\<exists>cmd'. iwlagn_tx_cmd_build_rate fc info cmd p =
       Some (cmd', p\<lparr>last_rotate_rate := (last_rotate_rate p + 1) mod rotate_rate_total p\<rparr>) \<and>
     tc_rate_n_flags cmd' = arr ! unat (last_rotate_rate p) \<and>
     tc_data_retry_limit cmd' = 0 \<and> tc_rts_retry_limit cmd' = 0 \<and> \<not> tst (tc_flags cmd') TX_CMD_FLG_STA_RATE_MSK"
proof -
  have "(f AND NOT TX_CMD_FLG_STA_RATE_MSK) AND TX_CMD_FLG_STA_RATE_MSK = 0" for f :: u32
    by (simp add: TX_CMD_FLG_STA_RATE_MSK_def u32_blast)
  then show ?thesis
    using assms by (simp add: iwlagn_tx_cmd_build_rate_def Let_def split_def tst_def)
qed

lemma next_position:
  assumes "unat (tot :: u32) = n" "unat pos < n"
  shows "unat ((pos + 1) mod tot) = (unat pos + 1) mod n"
proof -
  have "n < 2 ^ 32" using assms(1) u32_less [of tot] by simp
  then have "unat (pos + 1) = unat pos + 1" using assms(2) by (simp add: unat_plus_if_size word_size)
  then show ?thesis using assms(1) by (simp add: unat_mod_distrib)
qed

lemma build_rate_ok:
  assumes "rotate_ok p" "iwlagn_tx_cmd_build_rate fc info cmd p = Some (cmd', p')"
  shows "rotate_ok p'"
proof (cases "ieee80211_is_data fc \<and> rotate_rates p \<noteq> 0")
  case True
  then obtain arr where arr: "rotate_rate_array p = Some arr" "unat (rotate_rate_total p) = length arr"
    "unat (last_rotate_rate p) < length arr" using assms(1) by (auto simp: rotate_ok_def)
  then have "p' = p\<lparr>last_rotate_rate := (last_rotate_rate p + 1) mod rotate_rate_total p\<rparr>"
    using rotate_frame [of fc p arr info cmd] assms(2) True by auto
  moreover have "(unat (last_rotate_rate p) + 1) mod length arr < length arr"
    using arr(3) by (intro mod_less_divisor) linarith
  ultimately show ?thesis using arr next_position [OF arr(2,3)] by (simp add: rotate_ok_def)
next
  case False
  then show ?thesis
    using assms by (auto simp: iwlagn_tx_cmd_build_rate_def Let_def split_def rotate_ok_other split: if_splits)
qed

lemma tx_step_ok: "tx_step kstrtoul p p' \<Longrightarrow> rotate_ok p \<Longrightarrow> rotate_ok p'"
proof (induction rule: tx_step.induct)
  case (frame bcast_id sta_id fc info cmd p cmd' p')
  then show ?case
    by (auto simp: iwlagn_tx_skb_rate_def intro: build_rate_ok split: if_splits)
qed (auto simp: iwl_dbgfs_bf_flag_write_def iwl_dbgfs_monitor_tx_rate_write_def iwl_dbgfs_bcast_tx_rate_write_def
    iwl_dbgfs_rx_chains_msk_write_def rotate_ok_other intro: rotate_write_ok split: sum.splits if_splits)

interpretation tx_runs: invariant_system "tx_step kstrtoul" rotate_ok for kstrtoul
  by unfold_locales (rule tx_step_ok)

lemma rotate_ok_init: "rotate_ok (iwl_init_drv_rates p)"
  by (simp add: rotate_ok_def iwl_init_drv_rates_def)

text \<open>
  The check of the rate index admits one index too many and is made before the index is moved by
  four on 5 GHz: a management frame with legacy index 9 reads behind the table.
\<close>

lemma mgmt_rate_index_outside:
  "9 \<le> ti_rate_idx info \<Longrightarrow> ti_rate_idx info \<le> 12 \<Longrightarrow> \<not> ti_mcs info \<Longrightarrow> ti_band info = NL80211_BAND_5GHZ \<Longrightarrow>
     \<not> ieee80211_is_data fc \<Longrightarrow> iwlagn_tx_cmd_build_rate fc info cmd p = None"
  by (simp add: iwlagn_tx_cmd_build_rate_def Let_def split_def DVM_RATE_COUNT_LEGACY_def IWL_FIRST_OFDM_RATE_def
      dvm_rate_plcp_def)

text \<open>A driver state, and a parser that reads every text as the given number.\<close>

definition demo_tx :: tx_priv where
  "demo_tx = iwl_init_drv_rates \<lparr>bf_enabled = False, monitor_tx_rate = 0, bcast_tx_rate = 0, rotate_rates = 0,
     last_rotate_rate = 0, rotate_rate_total = 0, rotate_rate_array = None, rx_chains_num = 3, valid_rx_ant = 7,
     active_chains = 7, valid_tx_ant = 7, mgmt_tx_ant = 0, tx_wowlan = False, tx_band = NL80211_BAND_2GHZ,
     bt_traffic_load = 0\<rparr>"

definition demo_tx_text :: "u8 list" where "demo_tx_text = [56, 49, 10]"

lemma demo_tx_parse: "dvm_parse (\<lambda>_. Inr v) demo_tx_text = Inr v"
  by (simp add: dvm_parse_def demo_tx_text_def DVM_BUFLEN_def)

lemma demo_tx_flags:
  "tst (81 :: u64) ROTATE_SISO" "\<not> tst (81 :: u64) ROTATE_MIMO2" "\<not> tst (81 :: u64) ROTATE_MIMO3"
  "\<not> tst (81 :: u64) ROTATE_TX_SEL" "tst (81 :: u64) ROTATE_HT40" "\<not> tst (81 :: u64) ROTATE_SGI"
  "tst (81 :: u64) ROTATE_SKIP"
  by (simp_all add: tst_def ROTATE_SISO_def ROTATE_MIMO2_def ROTATE_MIMO3_def ROTATE_TX_SEL_def ROTATE_HT40_def
      ROTATE_SGI_def ROTATE_SKIP_def)

lemma demo_tx_table: "rotate_num_rates 81 = 12" "length (rotate_table 81) = 10"
  by (simp_all add: rotate_num_rates_def rotate_table_def length_with_copies length_rotate_base rotate_groups_def
      rotate_start_rate_def demo_tx_flags)

section \<open>Properties\<close>

text \<open>Writing a rate setting that selects at least one rate installs a table of the computed size, without a write outside it: first the rates of the selected groups in order, then their 40 MHz copies, then the short-guard-interval copies of all of these. Every entry of the table is written exactly when the setting does not combine skipping of the two lowest rates with 40 MHz or the short guard interval; for the other settings the last entries keep what the allocator left in them.\<close>

theorem rotate_rates_write_fills_table:
  assumes "dvm_parse kstrtoul user = Inr val" "rotate_num_rates val \<noteq> 0"
  shows "\<exists>p'. iwl_dbgfs_rotate_rates_write kstrtoul True user p = Some (Wr_done (length user), p') \<and>
     rotate_rate_array p' = Some (map Some (rotate_table val) @
       replicate (rotate_num_rates val - length (rotate_table val)) None) \<and>
     (rotate_num_rates val - length (rotate_table val) = 0 \<longleftrightarrow>
        \<not> (tst val ROTATE_SKIP \<and> (tst val ROTATE_HT40 \<or> tst val ROTATE_SGI)))"
  using rotate_rates_write_table [OF assms, of p] length_rotate_table [OF assms(2)]
  by (auto simp: filled_def)

lemma rotate_rates_write_fills_table_witness:
  "\<exists>p'. iwl_dbgfs_rotate_rates_write (\<lambda>_. Inr 81) True demo_tx_text demo_tx = Some (Wr_done 3, p') \<and>
     rotate_rate_array p' = Some (map Some (rotate_table 81) @ replicate 2 None)"
  using rotate_rates_write_fills_table [OF demo_tx_parse, of 81 demo_tx] demo_tx_table
  by (auto simp: demo_tx_text_def)

text \<open>C34: In every state reachable through the control files and sent frames, a data frame sent while rotation is on takes its rate from a position inside the table, is sent without retries and outside the firmware's rate table, and moves the position on by one, back to the start behind the last entry.\<close>

theorem rotation_stays_in_table:
  assumes "(tx_step kstrtoul)\<^sup>*\<^sup>* (iwl_init_drv_rates p0) p" "rotate_rates p \<noteq> 0" "ieee80211_is_data fc"
  shows "\<exists>arr cmd' p'. rotate_rate_array p = Some arr \<and> unat (last_rotate_rate p) < length arr \<and>
     iwlagn_tx_cmd_build_rate fc info cmd p = Some (cmd', p') \<and>
     tc_rate_n_flags cmd' = arr ! unat (last_rotate_rate p) \<and>
     tc_data_retry_limit cmd' = 0 \<and> tc_rts_retry_limit cmd' = 0 \<and> \<not> tst (tc_flags cmd') TX_CMD_FLG_STA_RATE_MSK \<and>
     rotate_rate_array p' = Some arr \<and> unat (last_rotate_rate p') = (unat (last_rotate_rate p) + 1) mod length arr"
proof -
  have "rotate_ok p" by (rule tx_runs.inv_run [OF assms(1) rotate_ok_init])
  then obtain arr where arr: "rotate_rate_array p = Some arr" "unat (rotate_rate_total p) = length arr"
    "unat (last_rotate_rate p) < length arr" using assms(2) by (auto simp: rotate_ok_def)
  from rotate_frame [OF assms(3,2) arr(1,3), of info cmd] next_position [OF arr(2,3)] arr
  show ?thesis by auto
qed

lemma rotation_stays_in_table_witness:
  "\<exists>p arr cmd' p'. rotate_rate_array p = Some arr \<and> unat (last_rotate_rate p) < length arr \<and>
     iwlagn_tx_cmd_build_rate 0x0008 \<lparr>ti_rate_idx = 0, ti_mcs = False, ti_band = NL80211_BAND_2GHZ, ti_lowest = 0,
         ti_bt_full_concurrent = False\<rparr>
       \<lparr>tc_data_retry_limit = 0, tc_rts_retry_limit = 0, tc_flags = 0, tc_initial_rate_index = 0,
         tc_rate_n_flags = None\<rparr> p = Some (cmd', p')"
proof -
  have "rotate_num_rates 81 \<noteq> 0" by (simp add: demo_tx_table)
  from rotate_rates_write_table [OF demo_tx_parse this, of demo_tx]
  obtain p where w: "iwl_dbgfs_rotate_rates_write (\<lambda>_. Inr 81) True demo_tx_text demo_tx =
      Some (Wr_done (length demo_tx_text), p)" and on: "rotate_rates p \<noteq> 0"
    by auto
  have "(tx_step (\<lambda>_. Inr 81))\<^sup>*\<^sup>* demo_tx p"
    by (rule r_into_rtranclp, rule tx_step.rotate [OF w])
  moreover have "ieee80211_is_data 0x0008" by (simp add: hdr_simps)
  ultimately show ?thesis
    unfolding demo_tx_def using rotation_stays_in_table on by blast
qed

end
