(* ===== verification/Csi_Log.thy ===== *)
theory Csi_Log
  imports Iax_Prelude
begin

text \<open>
  The readers of the 5300 log files (\<open>parse_log.c\<close>, \<open>print_packets.c\<close>, \<open>get_first_bfee.c\<close>). A log is a
  sequence of entries, each a big-endian 16-bit length and that many bytes, of which the first is
  the code of the connector message. The three programs share one loop; what they do with an entry
  differs. Shown: the loop ends for every file, and on a well-formed log every reader sees every
  entry, in order.
\<close>

unbundle bit_operations_syntax

section \<open>The standard input functions\<close>

text \<open>A file that is read: its bytes, the position and the end-of-file flag.\<close>

record stream =
  content :: "u8 list"
  pos :: nat
  at_eof :: bool

text \<open>\<open>fread\<close> of \<open>n\<close> bytes returns those there are and sets the flag when they are fewer.\<close>

definition fread :: "nat \<Rightarrow> stream \<Rightarrow> u8 list \<times> stream" where
  "fread n s =
     (if n = 0 then ([], s)
      else let got = take n (drop (pos s) (content s)) in
        (got, s\<lparr>pos := pos s + length got, at_eof := at_eof s \<or> length got < n\<rparr>))"

text \<open>\<open>fseek(f, n, SEEK_CUR)\<close> may go behind the end and clears the flag.\<close>

definition fseek_cur :: "nat \<Rightarrow> stream \<Rightarrow> stream" where
  "fseek_cur n s = s\<lparr>pos := pos s + n, at_eof := False\<rparr>"

section \<open>The loop\<close>

definition LOG_BUF_SIZE :: nat where "LOG_BUF_SIZE = 4096"

text \<open>
  \<open>ntohs\<close> of the two bytes read. After a shorter read the flag is set and the value is not used.
\<close>

definition log_ntohs :: "u8 list \<Rightarrow> nat" where
  "log_ntohs bs = (case bs of [a, b] \<Rightarrow> 256 * unat a + unat b | _ \<Rightarrow> 0)"

text \<open>
  What a program does with an entry of length \<open>l\<close>: the exit code when it stops there, its output,
  the file and the buffer afterwards. The result of the loop is the exit code and all the output;
  \<open>None\<close> that the fuel did not suffice.
\<close>

type_synonym 'o entry_body = "nat \<Rightarrow> stream \<Rightarrow> u8 list \<Rightarrow> int option \<times> 'o list \<times> stream \<times> u8 list"

fun log_loop :: "'o entry_body \<Rightarrow> nat \<Rightarrow> stream \<Rightarrow> nat \<Rightarrow> u8 list \<Rightarrow> (int \<times> 'o list) option" where
  "log_loop body 0 s l buf = None"
| "log_loop body (Suc fuel) s l buf =
     (if at_eof s then Some (0, [])
      else if l = 0 then Some (-1, [])
      else if LOG_BUF_SIZE < l then Some (-2, [])
      else case body l s buf of (stop, out, s1, buf1) \<Rightarrow>
        (case stop of
           Some code \<Rightarrow> Some (code, out)
         | None \<Rightarrow> (case fread 2 s1 of (l2, s2) \<Rightarrow>
             map_option (\<lambda>(code, out'). (code, out @ out')) (log_loop body fuel s2 (log_ntohs l2) buf1))))"

text \<open>Reading a file from its start; every turn takes two bytes or is the last but one.\<close>

definition log_main :: "'o entry_body \<Rightarrow> u8 list \<Rightarrow> u8 list \<Rightarrow> (int \<times> 'o list) option" where
  "log_main body flog buf =
     (case fread 2 \<lparr>content = flog, pos = 0, at_eof = False\<rparr> of
        (l2, s) \<Rightarrow> log_loop body (length flog + 2) s (log_ntohs l2) buf)"

text \<open>Bytes read to an offset of the buffer.\<close>

definition into_buf :: "nat \<Rightarrow> u8 list \<Rightarrow> u8 list \<Rightarrow> u8 list" where
  "into_buf off got buf = take off buf @ got @ drop (off + length got) buf"

section \<open>The three programs\<close>

definition sizeof_bfee_hdr :: nat where "sizeof_bfee_hdr = 20"

text \<open>\<open>parse_log\<close> prints the length and the code of every entry.\<close>

definition parse_log_entry :: "(nat \<times> u8) entry_body" where
  "parse_log_entry l s buf =
     (case fread l s of (got, s1) \<Rightarrow>
        let buf = into_buf 0 got buf in (None, [(l, buf ! 0)], s1, buf))"

text \<open>The field \<open>fake_rate_n_flags\<close> of a report that starts at the second byte of the buffer.\<close>

definition buf_rate :: "u8 list \<Rightarrow> u16" where
  "buf_rate buf = of_le_bytes [buf ! 19, buf ! 20]"

text \<open>\<open>print_packets\<close> reads at most the header and prints the rate of every beamforming report.\<close>

definition print_packets_entry :: "u16 entry_body" where
  "print_packets_entry l s buf =
     (let rd = min l (sizeof_bfee_hdr + 1) in
      case fread rd s of (got, s1) \<Rightarrow>
        let buf = into_buf 0 got buf in
        (None, if buf ! 0 = 0xBB then [buf_rate buf] else [], fseek_cur (l - rd) s1, buf))"

text \<open>
  \<open>get_first_bfee\<close> copies the first report with the given rate and, if asked for, number of receive
  antennas to a new file. \<open>out_ok\<close> says that the file could be created.
\<close>

definition bfee_matches :: "u16 \<Rightarrow> u8 option \<Rightarrow> u8 list \<Rightarrow> bool" where
  "bfee_matches rate nrx buf \<longleftrightarrow> buf ! 0 = 0xBB \<and> buf_rate buf = rate \<and> (nrx = None \<or> nrx = Some (buf ! 9))"

definition get_first_bfee_entry :: "u16 \<Rightarrow> u8 option \<Rightarrow> bool \<Rightarrow> u8 entry_body" where
  "get_first_bfee_entry rate nrx out_ok l s buf =
     (let rd = min l (sizeof_bfee_hdr + 1) in
      case fread rd s of (got, s1) \<Rightarrow>
        let buf = into_buf 0 got buf in
        if \<not> bfee_matches rate nrx buf then (None, [], fseek_cur (l - rd) s1, buf)
        else if \<not> out_ok then (Some 1, [], s1, buf)
        else case fread (l - rd) s1 of (got2, s2) \<Rightarrow>
          let buf = into_buf (sizeof_bfee_hdr + 1) got2 buf in
          (Some 0, be_bytes 2 (of_nat l :: u16) @ take l buf, s2, buf))"

section \<open>The loop ends\<close>

text \<open>An entry is consumed without moving back in the file or changing it.\<close>

definition moves_on :: "'o entry_body \<Rightarrow> bool" where
  "moves_on body \<longleftrightarrow> (\<forall>l s buf stop out s' buf'. body l s buf = (stop, out, s', buf') \<longrightarrow>
     content s' = content s \<and> pos s \<le> pos s')"

lemma fread_fields:
  "fread n s = (got, s') \<Longrightarrow> content s' = content s \<and> pos s' = pos s + length got \<and>
     (n \<noteq> 0 \<longrightarrow> at_eof s' = (at_eof s \<or> length got < n)) \<and> got = take n (drop (pos s) (content s))"
  by (auto simp: fread_def Let_def split: if_splits)

lemma fseek_fields [simp]: "content (fseek_cur n s) = content s" "pos (fseek_cur n s) = pos s + n"
  "at_eof (fseek_cur n s) = False"
  by (simp_all add: fseek_cur_def)

lemma fread_snd [simp]: "content (snd (fread n s)) = content s" "pos s \<le> pos (snd (fread n s))"
  by (simp_all add: fread_def Let_def)

lemma fread_content: "content (snd (fread m (snd (fread n s)))) = content s" "pos s \<le> pos (snd (fread m (snd (fread n s))))"
  by simp (rule order_trans [OF fread_snd(2) fread_snd(2)])

definition moves_on_result :: "stream \<Rightarrow> int option \<times> 'o list \<times> stream \<times> u8 list \<Rightarrow> bool" where
  "moves_on_result s r \<longleftrightarrow> content (fst (snd (snd r))) = content s \<and> pos s \<le> pos (fst (snd (snd r)))"

lemma moves_onI: "(\<And>l s buf. moves_on_result s (body l s buf)) \<Longrightarrow> moves_on body"
  unfolding moves_on_def moves_on_result_def by (metis fst_conv snd_conv)

lemma programs_move_on:
  "moves_on parse_log_entry" "moves_on print_packets_entry" "moves_on (get_first_bfee_entry rate nrx out_ok)"
proof -
  show "moves_on parse_log_entry"
    by (auto simp: moves_on_def parse_log_entry_def Let_def split_def)
  have skip: "pos s \<le> pos (snd (fread (min l k) s)) + l - min l k" for s l k
    by (rule order_trans [OF fread_snd(2)], rule le_diff_conv2 [THEN iffD2], simp, rule add_mono, rule order_refl, simp)
  show "moves_on print_packets_entry"
    by (rule moves_onI)
      (simp add: print_packets_entry_def Let_def split_def moves_on_result_def skip)
  show "moves_on (get_first_bfee_entry rate nrx out_ok)"
    by (rule moves_onI)
      (simp add: get_first_bfee_entry_def Let_def split_def moves_on_result_def fread_content skip)
qed

lemma log_loop_returns:
  "moves_on body \<Longrightarrow> (if at_eof s then 0 else length (content s) - pos s + 1) < fuel \<Longrightarrow>
     log_loop body fuel s l buf \<noteq> None"
proof (induction fuel arbitrary: s l buf)
  case (Suc fuel)
  show ?case
  proof (cases "at_eof s \<or> l = 0 \<or> LOG_BUF_SIZE < l")
    case False
    obtain stop out s1 buf1 where b: "body l s buf = (stop, out, s1, buf1)" by (metis prod_cases4)
    obtain l2 s2 where r: "fread 2 s1 = (l2, s2)" by fastforce
    have s1: "content s1 = content s" "pos s \<le> pos s1" using Suc.prems(1) b unfolding moves_on_def by blast+
    have s2: "content s2 = content s1" "pos s2 = pos s1 + length l2" "at_eof s2 \<or> length l2 = 2"
      "length l2 \<le> length (content s1) - pos s1"
      using fread_fields [OF r] by auto
    have "log_loop body fuel s2 (log_ntohs l2) buf1 \<noteq> None"
      by (rule Suc.IH [OF Suc.prems(1)]) (use s1 s2 Suc.prems(2) False in auto)
    then show ?thesis using False by (auto simp: b r split: option.split)
  qed auto
qed simp

text \<open>Whatever the file holds, the three programs come to an end.\<close>

lemma log_main_returns: "moves_on body \<Longrightarrow> log_main body flog buf \<noteq> None"
proof -
  assume body: "moves_on body"
  obtain l2 s where r: "fread 2 \<lparr>content = flog, pos = 0, at_eof = False\<rparr> = (l2, s)" by fastforce
  have "log_loop body (length flog + 2) s (log_ntohs l2) buf \<noteq> None"
    by (rule log_loop_returns [OF body]) (use fread_fields [OF r] in auto)
  then show ?thesis by (simp add: log_main_def r)
qed

section \<open>Well-formed logs\<close>

definition log_frame :: "u8 list \<Rightarrow> u8 list" where
  "log_frame e = be_bytes 2 (of_nat (length e) :: u16) @ e"

definition good_entry :: "u8 list \<Rightarrow> bool" where
  "good_entry e \<longleftrightarrow> 0 < length e \<and> length e \<le> LOG_BUF_SIZE"

text \<open>The state at the head of the loop when the entries \<open>es\<close> are still to be seen.\<close>

definition log_at :: "u8 list list \<Rightarrow> stream \<Rightarrow> nat \<Rightarrow> bool" where
  "log_at es s l = (case es of
     [] \<Rightarrow> at_eof s
   | e # es' \<Rightarrow> \<not> at_eof s \<and> l = length e \<and> drop (pos s) (content s) = e @ concat (map log_frame es'))"

lemma be_bytes_2: "be_bytes 2 (w :: u16) = [ucast (drop_bit 8 w), ucast w]"
  by (simp add: be_bytes_def numeral_2_eq_2 le_bytes_Suc) (simp add: le_bytes_def)

lemma log_ntohs_be:
  assumes "n < 65536"
  shows "log_ntohs (be_bytes 2 (of_nat n :: u16)) = n"
proof -
  have "unat (of_nat n :: u16) = n" using assms by (simp add: unsigned_of_nat take_bit_nat_eq_self)
  then have "unat (ucast (drop_bit 8 (of_nat n :: u16)) :: u8) = n div 256" "unat (ucast (of_nat n :: u16) :: u8) = n mod 256"
    using assms by (simp_all add: unsigned_ucast_eq unat_drop_bit_eq take_bit_eq_mod) (simp_all add: drop_bit_eq_div)
  then show ?thesis by (simp add: be_bytes_2 log_ntohs_def)
qed

text \<open>Reading the next length leads to the head of the loop with the remaining entries.\<close>

lemma log_at_next:
  assumes "drop (pos s) (content s) = concat (map log_frame es)" "\<forall>e\<in>set es. good_entry e" "\<not> at_eof s"
    and "fread 2 s = (l2, s')"
  shows "log_at es s' (log_ntohs l2)"
proof (cases es)
  case Nil
  then have "length (content s) \<le> pos s" using assms(1) by simp
  then show ?thesis using fread_fields [OF assms(4)] by (simp add: log_at_def Nil)
next
  case (Cons e es')
  have e: "length e \<le> 4096" using assms(2) by (simp add: Cons good_entry_def LOG_BUF_SIZE_def)
  have d: "drop (pos s) (content s) = be_bytes 2 (of_nat (length e) :: u16) @ e @ concat (map log_frame es')"
    using assms(1) by (simp add: Cons log_frame_def)
  note f = fread_fields [OF assms(4)]
  have l2: "l2 = be_bytes 2 (of_nat (length e) :: u16)" using f d by simp
  then have "pos s' = 2 + pos s" using f by simp
  then have "drop (pos s') (content s') = drop 2 (drop (pos s) (content s))"
    using f by (simp only: drop_drop)
  then have "drop (pos s') (content s') = e @ concat (map log_frame es')" by (simp add: d)
  moreover have "\<not> at_eof s'" using f l2 assms(3) by simp
  moreover have "log_ntohs l2 = length e" using e by (simp add: l2 log_ntohs_be)
  ultimately show ?thesis by (simp add: log_at_def Cons)
qed

text \<open>
  A program that, on a whole entry of a certain kind, goes on behind it with a known output: its
  run over entries of this kind is known.
\<close>

locale entry_reader =
  fixes body :: "'o entry_body" and kind :: "u8 list \<Rightarrow> bool" and outp :: "u8 list \<Rightarrow> 'o list"
  assumes reads: "\<And>e s rest buf. kind e \<Longrightarrow> good_entry e \<Longrightarrow> length buf = LOG_BUF_SIZE \<Longrightarrow> \<not> at_eof s \<Longrightarrow>
      drop (pos s) (content s) = e @ rest \<Longrightarrow>
      \<exists>buf' s'. body (length e) s buf = (None, outp e, s', buf') \<and> length buf' = LOG_BUF_SIZE \<and>
        content s' = content s \<and> pos s' = pos s + length e \<and> \<not> at_eof s'"
begin

lemma one:
  assumes "log_at (e # fs) s l" "kind e" "good_entry e" "\<forall>e\<in>set fs. good_entry e" "length buf = LOG_BUF_SIZE"
  shows "\<exists>s' l' buf'. log_at fs s' l' \<and> length buf' = LOG_BUF_SIZE \<and>
     log_loop body (Suc fuel) s l buf =
       map_option (\<lambda>(code, out). (code, outp e @ out)) (log_loop body fuel s' l' buf')"
proof -
  have s: "\<not> at_eof s" "l = length e" "drop (pos s) (content s) = e @ concat (map log_frame fs)"
    using assms(1) by (simp_all add: log_at_def)
  obtain buf1 s1 where b: "body (length e) s buf = (None, outp e, s1, buf1)" "length buf1 = LOG_BUF_SIZE"
    "content s1 = content s" "pos s1 = pos s + length e" "\<not> at_eof s1"
    using reads [OF assms(2,3,5) s(1,3)] by blast
  obtain l2 s2 where r: "fread 2 s1 = (l2, s2)" by fastforce
  have "drop (pos s1) (content s1) = concat (map log_frame fs)"
    using s(3) b(3,4) by (simp add: add.commute [of "pos s"] flip: drop_drop)
  then have "log_at fs s2 (log_ntohs l2)" by (rule log_at_next [OF _ assms(4) b(5) r])
  moreover have "log_loop body (Suc fuel) s l buf =
      map_option (\<lambda>(code, out). (code, outp e @ out)) (log_loop body fuel s2 (log_ntohs l2) buf1)"
    using s assms(3) b(1) by (simp add: good_entry_def r)
  ultimately show ?thesis using b(2) by blast
qed

lemma run_prefix:
  assumes "log_at (es @ fs) s l" "\<forall>e\<in>set es. kind e" "\<forall>e\<in>set (es @ fs). good_entry e"
    "length buf = LOG_BUF_SIZE"
  shows "\<exists>s' l' buf'. log_at fs s' l' \<and> length buf' = LOG_BUF_SIZE \<and>
     log_loop body (length es + fuel) s l buf =
       map_option (\<lambda>(code, out). (code, concat (map outp es) @ out)) (log_loop body fuel s' l' buf')"
  using assms
proof (induction es arbitrary: s l buf)
  case Nil
  then show ?case by (auto simp: option.map_ident intro!: exI [of _ s] exI [of _ l] exI [of _ buf])
next
  case (Cons e es)
  obtain s1 l1 buf1 where 1: "log_at (es @ fs) s1 l1" "length buf1 = LOG_BUF_SIZE"
    "log_loop body (Suc (length es + fuel)) s l buf =
       map_option (\<lambda>(code, out). (code, outp e @ out)) (log_loop body (length es + fuel) s1 l1 buf1)"
    using one [of e "es @ fs" s l buf "length es + fuel"] Cons.prems by auto
  obtain s2 l2 buf2 where 2: "log_at fs s2 l2" "length buf2 = LOG_BUF_SIZE"
    "log_loop body (length es + fuel) s1 l1 buf1 =
       map_option (\<lambda>(code, out). (code, concat (map outp es) @ out)) (log_loop body fuel s2 l2 buf2)"
    using Cons.IH [OF 1(1) _ _ 1(2)] Cons.prems by auto
  have "log_loop body (length (e # es) + fuel) s l buf =
       map_option (\<lambda>(code, out). (code, concat (map outp (e # es)) @ out)) (log_loop body fuel s2 l2 buf2)"
    using 1(3) 2(3) by (simp add: option.map_comp comp_def split_def)
  then show ?case using 2(1,2) by blast
qed

lemma main_prefix:
  assumes "\<forall>e\<in>set es. kind e" "\<forall>e\<in>set (es @ fs). good_entry e" "length buf = LOG_BUF_SIZE"
  shows "\<exists>s' l' buf' fuel. log_at fs s' l' \<and> length buf' = LOG_BUF_SIZE \<and>
     log_main body (concat (map log_frame (es @ fs))) buf =
       map_option (\<lambda>(code, out). (code, concat (map outp es) @ out)) (log_loop body (Suc fuel) s' l' buf')"
proof -
  define flog where "flog = concat (map log_frame (es @ fs))"
  have "length xs \<le> length (concat (map log_frame xs))" for xs
    by (induction xs) (auto simp: log_frame_def)
  then have "length es \<le> length flog" by (metis flog_def le_trans length_append le_add1)
  then obtain fuel where fuel: "length flog + 2 = length es + Suc fuel"
    by (metis add_2_eq_Suc' add_Suc_right le_iff_add add.assoc)
  obtain l2 s where r: "fread 2 \<lparr>content = flog, pos = 0, at_eof = False\<rparr> = (l2, s)" by fastforce
  have "log_at (es @ fs) s (log_ntohs l2)"
    by (rule log_at_next [OF _ assms(2) _ r]) (simp_all add: flog_def)
  from run_prefix [OF this assms, of "Suc fuel"] show ?thesis
    unfolding log_main_def flog_def [symmetric] r prod.case fuel by blast
qed

lemma main_all:
  assumes "\<forall>e\<in>set es. kind e \<and> good_entry e" "length buf = LOG_BUF_SIZE"
  shows "log_main body (concat (map log_frame es)) buf = Some (0, concat (map outp es))"
proof -
  obtain s l buf' fuel where "log_at [] s l" "log_main body (concat (map log_frame es)) buf =
       map_option (\<lambda>(code, out). (code, concat (map outp es) @ out)) (log_loop body (Suc fuel) s l buf')"
    using main_prefix [of es "[]" buf] assms by auto
  then show ?thesis by (simp add: log_at_def)
qed

end

section \<open>The programs on whole entries\<close>

lemma fread_entry:
  assumes "drop (pos s) (content s) = e @ rest" "\<not> at_eof s" "0 < n" "n \<le> length e"
  shows "fread n s = (take n e, s\<lparr>pos := pos s + n\<rparr>)"
  using assms by (simp add: fread_def Let_def min_def)

lemma length_into_buf [simp]: "off + length got \<le> length buf \<Longrightarrow> length (into_buf off got buf) = length buf"
  by (simp add: into_buf_def)

lemma nth_into_buf: "k < length got \<Longrightarrow> into_buf 0 got buf ! k = got ! k"
  by (simp add: into_buf_def nth_append)

text \<open>A beamforming report is at least as long as its code and header.\<close>

definition whole_report :: "u8 list \<Rightarrow> bool" where
  "whole_report e \<longleftrightarrow> (e ! 0 = 0xBB \<longrightarrow> sizeof_bfee_hdr + 1 \<le> length e)"

lemma buf_fields:
  assumes "whole_report e" "0 < length e" "e ! 0 = 0xBB"
  shows "buf_rate (into_buf 0 (take (min (length e) 21) e) buf) = buf_rate e"
    "into_buf 0 (take (min (length e) 21) e) buf ! 9 = e ! 9"
  using assms by (simp_all add: whole_report_def sizeof_bfee_hdr_def buf_rate_def nth_into_buf)

lemma buf_code: "0 < length e \<Longrightarrow> into_buf 0 (take (min (length e) 21) e) buf ! 0 = e ! 0"
  by (simp add: nth_into_buf)

lemma buf_matches:
  "whole_report e \<Longrightarrow> 0 < length e \<Longrightarrow>
     bfee_matches rate nrx (into_buf 0 (take (min (length e) 21) e) buf) = bfee_matches rate nrx e"
  using buf_fields [of e buf] by (auto simp: bfee_matches_def buf_code)

interpretation parse: entry_reader parse_log_entry "\<lambda>_. True" "\<lambda>e. [(length e, hd e)]"
proof
  fix e rest buf :: "u8 list" and s :: stream
  assume a: "good_entry e" "length buf = LOG_BUF_SIZE" "\<not> at_eof s" "drop (pos s) (content s) = e @ rest"
  then have "fread (length e) s = (e, s\<lparr>pos := pos s + length e\<rparr>)"
    using fread_entry [of s e rest "length e"] by (simp add: good_entry_def)
  then show "\<exists>buf' s'. parse_log_entry (length e) s buf = (None, [(length e, hd e)], s', buf') \<and>
      length buf' = LOG_BUF_SIZE \<and> content s' = content s \<and> pos s' = pos s + length e \<and> \<not> at_eof s'"
    using a by (auto simp: parse_log_entry_def good_entry_def nth_into_buf hd_conv_nth)
qed

lemma fread_head:
  assumes "good_entry e" "\<not> at_eof s" "drop (pos s) (content s) = e @ rest"
  shows "fread (min (length e) (sizeof_bfee_hdr + 1)) s =
     (take (min (length e) 21) e, s\<lparr>pos := pos s + min (length e) 21\<rparr>)"
  using fread_entry [OF assms(3,2), of "min (length e) 21"] assms(1)
  by (simp add: good_entry_def sizeof_bfee_hdr_def)

interpretation print: entry_reader print_packets_entry whole_report
  "\<lambda>e. if e ! 0 = 0xBB then [buf_rate e] else []"
proof
  fix e rest buf :: "u8 list" and s :: stream
  assume a: "whole_report e" "good_entry e" "length buf = LOG_BUF_SIZE" "\<not> at_eof s"
    "drop (pos s) (content s) = e @ rest"
  note r = fread_head [OF a(2,4,5)]
  have "0 < length e" "length e \<le> 4096" using a(2) by (simp_all add: good_entry_def LOG_BUF_SIZE_def)
  then show "\<exists>buf' s'. print_packets_entry (length e) s buf =
      (None, if e ! 0 = 0xBB then [buf_rate e] else [], s', buf') \<and>
      length buf' = LOG_BUF_SIZE \<and> content s' = content s \<and> pos s' = pos s + length e \<and> \<not> at_eof s'"
    unfolding print_packets_entry_def Let_def r
    using a(1,3) by (auto simp: buf_code buf_fields sizeof_bfee_hdr_def LOG_BUF_SIZE_def)
qed

interpretation skip: entry_reader "get_first_bfee_entry rate nrx out_ok"
  "\<lambda>e. whole_report e \<and> \<not> bfee_matches rate nrx e" "\<lambda>e. []" for rate nrx out_ok
proof
  fix e rest buf :: "u8 list" and s :: stream
  assume a: "whole_report e \<and> \<not> bfee_matches rate nrx e" "good_entry e" "length buf = LOG_BUF_SIZE" "\<not> at_eof s"
    "drop (pos s) (content s) = e @ rest"
  note r = fread_head [OF a(2,4,5)]
  have "0 < length e" "length e \<le> 4096" using a(2) by (simp_all add: good_entry_def LOG_BUF_SIZE_def)
  then show "\<exists>buf' s'. get_first_bfee_entry rate nrx out_ok (length e) s buf = (None, [], s', buf') \<and>
      length buf' = LOG_BUF_SIZE \<and> content s' = content s \<and> pos s' = pos s + length e \<and> \<not> at_eof s'"
    unfolding get_first_bfee_entry_def Let_def r
    using a(1,3) by (auto simp: buf_matches sizeof_bfee_hdr_def LOG_BUF_SIZE_def)
qed

text \<open>The matching report is copied with its length.\<close>

lemma first_match_copied:
  assumes "log_at (e # rest) s l" "good_entry e" "whole_report e" "bfee_matches rate nrx e" "length buf = LOG_BUF_SIZE"
  shows "log_loop (get_first_bfee_entry rate nrx True) (Suc fuel) s l buf = Some (0, log_frame e)"
proof -
  have s: "\<not> at_eof s" "l = length e" "drop (pos s) (content s) = e @ concat (map log_frame rest)"
    using assms(1) by (simp_all add: log_at_def)
  have e: "21 \<le> length e" "length e \<le> 4096" "0 < length e"
    using assms(2-4) by (auto simp: bfee_matches_def whole_report_def good_entry_def sizeof_bfee_hdr_def LOG_BUF_SIZE_def)
  note r = fread_head [OF assms(2) s(1,3)]
  define s1 where "s1 = s\<lparr>pos := pos s + min (length e) 21\<rparr>"
  have "pos s1 = 21 + pos s" "content s1 = content s" using e(1) by (simp_all add: s1_def)
  then have "drop (pos s1) (content s1) = drop 21 e @ concat (map log_frame rest)"
    using s(3) e(1) by (metis drop_append drop_drop diff_is_0_eq drop_0)
  then have r2: "fst (fread (length e - min (length e) (sizeof_bfee_hdr + 1)) s1) = drop 21 e"
    using e(1) by (simp add: fread_def Let_def sizeof_bfee_hdr_def)
  define buf1 where "buf1 = into_buf 0 (take (min (length e) 21) e) buf"
  have "take (length e) (into_buf 21 (drop 21 e) buf1) = e"
    using e assms(5) by (simp add: buf1_def into_buf_def LOG_BUF_SIZE_def)
  then have "fst (get_first_bfee_entry rate nrx True (length e) s buf) = Some 0 \<and>
      fst (snd (get_first_bfee_entry rate nrx True (length e) s buf)) = log_frame e"
    unfolding get_first_bfee_entry_def Let_def r prod.case s1_def [symmetric] buf1_def [symmetric]
    using r2 assms(3,4) e(3) by (simp add: split_def log_frame_def sizeof_bfee_hdr_def buf1_def buf_matches)
  then show ?thesis
    using s e by (auto simp: LOG_BUF_SIZE_def split: prod.splits)
qed

section \<open>Properties\<close>

text \<open>C20: On every log made of framed entries of 1 to 4096 bytes in which beamforming reports have their whole header, \<open>parse_log\<close> prints the length and code of every entry in order, \<open>print_packets\<close> prints the rate of every report in order, and \<open>get_first_bfee\<close> writes exactly the frame of the first report that matches the requested rate and antenna count; all three end with exit code 0.\<close>

theorem log_readers_see_every_entry:
  assumes "\<forall>e\<in>set (es @ e # rest). good_entry e \<and> whole_report e" "\<forall>e\<in>set es. \<not> bfee_matches rate nrx e"
    and "bfee_matches rate nrx e" "length buf = LOG_BUF_SIZE"
  shows "log_main parse_log_entry (concat (map log_frame (es @ e # rest))) buf =
       Some (0, map (\<lambda>e. (length e, hd e)) (es @ e # rest)) \<and>
     log_main print_packets_entry (concat (map log_frame (es @ e # rest))) buf =
       Some (0, map buf_rate (filter (\<lambda>e. e ! 0 = 0xBB) (es @ e # rest))) \<and>
     log_main (get_first_bfee_entry rate nrx True) (concat (map log_frame (es @ e # rest))) buf = Some (0, log_frame e)"
proof (intro conjI)
  have good: "\<forall>x\<in>set (es @ e # rest). good_entry x" using assms(1) by blast
  show "log_main parse_log_entry (concat (map log_frame (es @ e # rest))) buf =
       Some (0, map (\<lambda>e. (length e, hd e)) (es @ e # rest))"
    using parse.main_all [of "es @ e # rest" buf] assms(1,4) by simp
  have "concat (map (\<lambda>e. if e ! 0 = 0xBB then [buf_rate e] else []) xs) = map buf_rate (filter (\<lambda>e. e ! 0 = 0xBB) xs)"
    for xs by (induction xs) auto
  then show "log_main print_packets_entry (concat (map log_frame (es @ e # rest))) buf =
       Some (0, map buf_rate (filter (\<lambda>e. e ! 0 = 0xBB) (es @ e # rest)))"
    using print.main_all [of "es @ e # rest" buf] assms(1,4) by simp
  obtain s l buf' fuel where "log_at (e # rest) s l" "length buf' = LOG_BUF_SIZE"
    "log_main (get_first_bfee_entry rate nrx True) (concat (map log_frame (es @ e # rest))) buf =
       map_option (\<lambda>(code, out). (code, concat (map (\<lambda>e. []) es) @ out))
         (log_loop (get_first_bfee_entry rate nrx True) (Suc fuel) s l buf')"
    using skip.main_prefix [of es rate nrx "e # rest" buf True] assms good by fastforce
  then show "log_main (get_first_bfee_entry rate nrx True) (concat (map log_frame (es @ e # rest))) buf =
      Some (0, log_frame e)"
    using first_match_copied [of e rest s l rate nrx buf' fuel] assms by simp
qed

lemma log_readers_see_every_entry_witness:
  "log_main (get_first_bfee_entry 0x0101 None True)
     (concat (map log_frame [[0xC1, 5], 0xBB # replicate 20 1])) (replicate 4096 0) =
     Some (0, log_frame (0xBB # replicate 20 1))"
  using log_readers_see_every_entry [of "[[0xC1, 5]]" "0xBB # replicate 20 1" "[]" "0x0101" None "replicate 4096 0"]
  by (simp add: good_entry_def whole_report_def bfee_matches_def buf_rate_def LOG_BUF_SIZE_def sizeof_bfee_hdr_def)

end
