(* ===== verification/Ba_Session.thy ===== *)
theory Ba_Session
  imports Reorder_Order Csi_Config
begin

text \<open>
  The life of a receive block-ack session (mvm/sta.c): the call of mac80211 that starts or stops it,
  the command to the firmware and its answer (mvm/utils.c), the allocation of the reorder buffers,
  the synchronisation with the receive queues (mvm/mac80211.c), and the timer of an idle session. The
  properties say that a started session is one the receive handlers of \<open>Reorder_Run\<close> can work on,
  that stopping it delivers what it holds, and that the count of sessions is right.
\<close>

unbundle bit_operations_syntax

section \<open>Commands to the firmware and their status\<close>

definition CMD_ASYNC :: u32 where "CMD_ASYNC = 1"

text \<open>
  The transport answers with an error or with a response packet: the length of its payload and the
  status word in it.
\<close>

type_synonym cmd_answer = "trans_err + u32 \<times> u32"

definition sizeof_cmd_response :: u32 where "sizeof_cmd_response = 4"

definition iwl_mvm_send_cmd_status :: "bool \<Rightarrow> u32 \<Rightarrow> cmd_answer \<Rightarrow> u32 \<Rightarrow> trans_err option \<times> u32" where
  "iwl_mvm_send_cmd_status d3_test flags answer status =
     (if d3_test then (Some (Trans_err EIO), status)
      else if tst flags (CMD_ASYNC OR CMD_WANT_SKB) then (Some (Trans_err EINVAL), status)
      else case answer of
        Inl Trans_ERFKILL \<Rightarrow> (None, status)
      | Inl e \<Rightarrow> (Some e, status)
      | Inr (resp_len, resp_status) \<Rightarrow>
          if resp_len \<noteq> sizeof_cmd_response then (Some (Trans_err EIO), status) else (None, resp_status))"

definition iwl_mvm_send_cmd_pdu_status :: "bool \<Rightarrow> cmd_answer \<Rightarrow> u32 \<Rightarrow> trans_err option \<times> u32" where
  "iwl_mvm_send_cmd_pdu_status d3_test answer status = iwl_mvm_send_cmd_status d3_test 0 answer status"

section \<open>State\<close>

definition IWL_MAX_BAID_OLD :: nat where "IWL_MAX_BAID_OLD = 16"

text \<open>What the driver keeps of a station; the link stations are those of a multi-link device.\<close>

record ba_sta =
  bs_valid_links :: bool
  bs_deflink_id :: u8
  bs_link_ids :: "u8 option list"
  bs_color :: u32
  tid_to_baid :: "u8 list"

definition iwl_mvm_sta_fw_id_mask :: "ba_sta \<Rightarrow> int \<Rightarrow> u32" where
  "iwl_mvm_sta_fw_id_mask s filter_link_id =
     (if \<not> bs_valid_links s then push_bit (unat (bs_deflink_id s)) 1
      else foldl (\<lambda>result i.
          if 0 \<le> filter_link_id \<and> int i \<noteq> filter_link_id then result
          else case bs_link_ids s ! i of None \<Rightarrow> result
            | Some sta_id \<Rightarrow> result OR push_bit (unat sta_id) 1)
        0 [0..<length (bs_link_ids s)])"

text \<open>The two commands, with the fields that are not zero.\<close>

datatype ba_cmd =
    Add_ba u32 u8 u8 u16 u16
  | Remove_ba u32 u8 u8
  | Baid_alloc u32 u8 u16 u16
  | Baid_remove_v1 u32
  | Baid_remove u32 u32

text \<open>
  The device, the kernel and the memory: the capabilities of the firmware, the number of receive
  queues, the sizes that the compiler chooses, the clock, whether the allocation succeeds, the
  firmware's answer to a command, and which queues handle a synchronising message (and when) before
  the driver stops waiting.
\<close>

record ba_env =
  new_tx_api :: bool
  new_rx_api :: bool
  baid_ml :: bool
  baid_cfg_ver :: nat
  d3_test :: bool
  num_rx_queues :: nat
  sizeof_entry :: nat
  smp_cache_bytes :: nat
  env_now :: u64
  tu_to_jiffies :: "nat \<Rightarrow> u64"
  kzalloc_ok :: bool
  env_answer :: "ba_cmd \<Rightarrow> cmd_answer"
  sync_err :: "nat \<Rightarrow> trans_err option"
  sync_handled :: "nat \<Rightarrow> (rx_clock \<times> nat) list"

record 'f ba_state =
  rxm :: "'f rx_mvm"
  rx_ba_sessions :: u8
  in_hw_restart :: bool
  stas :: "ba_sta list"
  session_timer :: "u64 option list"

section \<open>Asking the firmware\<close>

definition ADD_STA_SUCCESS :: u32 where "ADD_STA_SUCCESS = 0x1"
definition ADD_STA_IMMEDIATE_BA_FAILURE :: u32 where "ADD_STA_IMMEDIATE_BA_FAILURE = 0x4"
definition IWL_ADD_STA_STATUS_MASK :: u32 where "IWL_ADD_STA_STATUS_MASK = 0xFF"
definition IWL_ADD_STA_BAID_VALID_MASK :: u32 where "IWL_ADD_STA_BAID_VALID_MASK = 0x8000"
definition IWL_ADD_STA_BAID_MASK :: u32 where "IWL_ADD_STA_BAID_MASK = 0x7F00"
definition IWL_ADD_STA_BAID_SHIFT :: nat where "IWL_ADD_STA_BAID_SHIFT = 8"

definition iwl_mvm_fw_baid_op_sta ::
  "ba_env \<Rightarrow> ba_sta \<Rightarrow> bool \<Rightarrow> u8 \<Rightarrow> u16 \<Rightarrow> u16 \<Rightarrow> trans_err + nat" where
  "iwl_mvm_fw_baid_op_sta env sta start tid ssn bsize =
     (let cmd = (if start then Add_ba (bs_color sta) (bs_deflink_id sta) tid ssn bsize
                 else Remove_ba (bs_color sta) (bs_deflink_id sta) tid)
      in case iwl_mvm_send_cmd_pdu_status (d3_test env) (env_answer env cmd) ADD_STA_SUCCESS of
        (Some e, status) \<Rightarrow> Inl e
      | (None, status) \<Rightarrow>
          if status AND IWL_ADD_STA_STATUS_MASK = ADD_STA_SUCCESS then
            (if start \<and> new_rx_api env \<and> \<not> tst status IWL_ADD_STA_BAID_VALID_MASK
             then Inl (Trans_err EINVAL)
             else Inr (unat (drop_bit IWL_ADD_STA_BAID_SHIFT (status AND IWL_ADD_STA_BAID_MASK))))
          else if status AND IWL_ADD_STA_STATUS_MASK = ADD_STA_IMMEDIATE_BA_FAILURE
          then Inl (Trans_err ENOSPC)
          else Inl (Trans_err EIO))"

text \<open>The status word of the answer is the BAID; the variable is signed and starts as \<open>-EIO\<close>.\<close>

definition minus_EIO :: u32 where "minus_EIO = - 5"

definition iwl_mvm_fw_baid_op_cmd ::
  "ba_env \<Rightarrow> ba_sta \<Rightarrow> bool \<Rightarrow> u8 \<Rightarrow> u16 \<Rightarrow> u16 \<Rightarrow> u32 \<Rightarrow> trans_err + nat" where
  "iwl_mvm_fw_baid_op_cmd env sta start tid ssn bsize baid =
     (let mask = iwl_mvm_sta_fw_id_mask sta (-1);
        cmd = (if start then Baid_alloc mask tid ssn bsize
               else if baid_cfg_ver env = 1 then Baid_remove_v1 baid
               else Baid_remove mask (ucast tid))
      in case iwl_mvm_send_cmd_pdu_status (d3_test env) (env_answer env cmd)
                (if start then minus_EIO else baid) of
        (Some e, _) \<Rightarrow> Inl e
      | (None, baid) \<Rightarrow>
          (let baid = (if start then baid else 0)
           in if sint baid < 0 \<or> int IWL_MAX_BAID \<le> sint baid then Inl (Trans_err EINVAL)
              else Inr (unat baid)))"

definition iwl_mvm_fw_baid_op ::
  "ba_env \<Rightarrow> ba_sta \<Rightarrow> bool \<Rightarrow> u8 \<Rightarrow> u16 \<Rightarrow> u16 \<Rightarrow> u32 \<Rightarrow> trans_err + nat" where
  "iwl_mvm_fw_baid_op env sta start tid ssn bsize baid =
     (if baid_ml env then iwl_mvm_fw_baid_op_cmd env sta start tid ssn bsize baid
      else iwl_mvm_fw_baid_op_sta env sta start tid ssn bsize)"

section \<open>Synchronising with the receive queues\<close>

text \<open>
  The message goes to every queue. While the driver waits, the queues of \<open>sync_handled\<close> handle it,
  in this order; the others are too late, and then find another cookie.
\<close>

fun queues_handle ::
  "rxq_notif \<Rightarrow> (rx_clock \<times> nat) list \<Rightarrow> 'f rx_mvm \<Rightarrow> ('f rx_mvm \<times> 'f rx_event list) option" where
  "queues_handle n [] mvm = Some (mvm, [])"
| "queues_handle n ((clk, q) # qs) mvm =
     (case iwl_mvm_rx_queue_notif clk q n mvm of None \<Rightarrow> None
      | Some (mvm, evs) \<Rightarrow> map_option (\<lambda>(mvm, evs'). (mvm, evs @ evs')) (queues_handle n qs mvm))"

text \<open>Nothing is handled when the command is not sent.\<close>

definition sync_answers :: "ba_env \<Rightarrow> nat \<Rightarrow> (rx_clock \<times> nat) list" where
  "sync_answers env typ =
     (if d3_test env then []
      else case sync_err env typ of Some (Trans_err e) \<Rightarrow> [] | _ \<Rightarrow> sync_handled env typ)"

definition iwl_mvm_sync_rx_queues_internal ::
  "ba_env \<Rightarrow> nat \<Rightarrow> bool \<Rightarrow> u8 list \<Rightarrow> 'f rx_mvm \<Rightarrow> ('f rx_mvm \<times> 'f rx_event list) option" where
  "iwl_mvm_sync_rx_queues_internal env typ sync data mvm =
     (if (8 + length data) mod 4 \<noteq> 0 then Some (mvm, [])
      else if \<not> new_rx_api env then Some (mvm, [])
      else
        (let cookie = (if sync then queue_sync_cookie mvm else 0);
             mvm = (if sync then mvm\<lparr>queue_sync_state := push_bit (num_rx_queues env) 1 - 1\<rparr> else mvm);
             n = \<lparr>notif_len = SIZEOF_RXQ_NOTIF + of_nat (length data), notif_type = typ, notif_sync = sync,
                   notif_cookie = cookie, notif_data = data\<rparr>
         in map_option
              (\<lambda>(mvm, evs). (if sync then mvm\<lparr>queue_sync_state := 0,
                   queue_sync_cookie := queue_sync_cookie mvm + 1\<rparr> else mvm, evs))
              (queues_handle n (sync_answers env typ) mvm)))"

definition iwl_mvm_sync_rxq_del_ba ::
  "ba_env \<Rightarrow> u8 \<Rightarrow> 'f rx_mvm \<Rightarrow> ('f rx_mvm \<times> 'f rx_event list) option" where
  "iwl_mvm_sync_rxq_del_ba env baid mvm =
     iwl_mvm_sync_rx_queues_internal env IWL_MVM_RXQ_NOTIF_DEL_BA True (le_bytes 4 (ucast baid :: u32)) mvm"

section \<open>Starting and stopping\<close>

text \<open>
  The size of the reorder buffer of one queue is computed in 16 bits and aligned to the cache line.
  The session is zeroed memory with an array of buffers (those of the \<open>num_rx_queues\<close> queues in use)
  and the entries that fit the allocation.
\<close>

definition kernel_align :: "u16 \<Rightarrow> nat \<Rightarrow> u16" where
  "kernel_align x a = (x + (of_nat a - 1)) AND NOT (of_nat a - 1)"

definition reorder_buf_bytes :: "ba_env \<Rightarrow> u16 \<Rightarrow> u16" where
  "reorder_buf_bytes env bsize =
     kernel_align (of_nat (unat bsize * sizeof_entry env)) (smp_cache_bytes env)"

definition zero_buffer :: reorder_buffer where
  "zero_buffer = \<lparr>head_sn = 0, num_stored = 0, buf_size = 0, rb_queue = 0, last_amsdu = 0,
     last_sub_index = 0, reorder_timer = None, removed = False, valid = False, consec_oldsn_drops = 0,
     consec_oldsn_ampdu_gp2 = 0, consec_oldsn_prev_drop = False\<rparr>"

definition alloc_baid_data :: "ba_env \<Rightarrow> u16 \<Rightarrow> 'f baid_data" where
  "alloc_baid_data env bsize =
     (let sz = reorder_buf_bytes env bsize in
      \<lparr>sta_mask = 0, bd_tid = 0, bd_baid = 0, bd_timeout = 0,
       entries_per_queue = of_nat (unat sz div sizeof_entry env), last_rx = 0,
       reorder_buf = replicate (num_rx_queues env) zero_buffer,
       bd_entries = replicate (num_rx_queues env * unat sz div sizeof_entry env)
         \<lparr>entry_frames = [], entry_time = 0\<rparr>\<rparr>)"

text \<open>Whether the entries that are initialised lie in the allocation.\<close>

definition entries_fit :: "ba_env \<Rightarrow> u16 \<Rightarrow> 'f baid_data \<Rightarrow> bool" where
  "entries_fit env bsize bd \<longleftrightarrow> num_rx_queues env = 0 \<or>
     (num_rx_queues env - 1) * unat (entries_per_queue bd) + unat bsize \<le> length (bd_entries bd)"

definition set_baid :: "nat \<Rightarrow> 'f baid_data option \<Rightarrow> 'f rx_mvm \<Rightarrow> 'f rx_mvm" where
  "set_baid b o' mvm = mvm\<lparr>baid_map := (baid_map mvm)[b := o']\<rparr>"

text \<open>
  The two halves of the function after the firmware has agreed. The first component of the result is
  the error that is returned; the outcome \<open>None\<close> is an access outside an array or an allocation.
\<close>

definition rx_agg_started ::
  "ba_env \<Rightarrow> nat \<Rightarrow> u8 \<Rightarrow> u16 \<Rightarrow> u16 \<Rightarrow> u16 \<Rightarrow> nat \<Rightarrow> 'f ba_state
   \<Rightarrow> (trans_err option \<times> 'f ba_state \<times> 'f rx_event list) option" where
  "rx_agg_started env i tid ssn bsize timeout baid st =
     (let st = st\<lparr>rx_ba_sessions := rx_ba_sessions st + 1\<rparr>; sta = stas st ! i;
          bd = (alloc_baid_data env bsize)\<lparr>bd_baid := of_nat baid, bd_timeout := timeout,
                 last_rx := env_now env, bd_tid := tid, sta_mask := iwl_mvm_sta_fw_id_mask sta (-1)\<rparr>
      in if \<not> new_rx_api env then Some (None, st, [])
         else if length (tid_to_baid sta) \<le> unat tid \<or> IWL_MAX_BAID \<le> baid \<or> \<not> entries_fit env bsize bd
         then None
         else Some (None,
           st\<lparr>stas := (stas st)[i := sta\<lparr>tid_to_baid := (tid_to_baid sta)[unat tid := of_nat baid]\<rparr>],
              session_timer := (session_timer st)[baid :=
                if timeout = 0 then None
                else Some (env_now env + tu_to_jiffies env (unat timeout * 2))],
              rxm := set_baid baid
                (Some (iwl_mvm_init_reorder_buffer (num_rx_queues env) ssn bsize bd)) (rxm st)\<rparr>,
           []))"

definition rx_agg_stopped ::
  "ba_env \<Rightarrow> nat \<Rightarrow> u8 \<Rightarrow> 'f ba_state
   \<Rightarrow> (trans_err option \<times> 'f ba_state \<times> 'f rx_event list) option" where
  "rx_agg_stopped env i tid st =
     (let st = (if 0 < rx_ba_sessions st then st\<lparr>rx_ba_sessions := rx_ba_sessions st - 1\<rparr> else st)
      in if length (tid_to_baid (stas st ! i)) \<le> unat tid then None
         else
           (let baid = tid_to_baid (stas st ! i) ! unat tid in
            if \<not> new_rx_api env then Some (None, st, [])
            else if unat baid = IWL_RX_REORDER_DATA_INVALID_BAID then Some (Some (Trans_err EINVAL), st, [])
            else if IWL_MAX_BAID \<le> unat baid then None
            else if baid_map (rxm st) ! unat baid = None then Some (Some (Trans_err EINVAL), st, [])
            else
              (case iwl_mvm_sync_rxq_del_ba env baid (rxm st) of None \<Rightarrow> None
               | Some (mvm, evs) \<Rightarrow>
                   (case baid_map mvm ! unat baid of None \<Rightarrow> None
                    | Some bd \<Rightarrow>
                        (let (_, evs2) = iwl_mvm_free_reorder (num_rx_queues env) bd in
                         map_option
                           (\<lambda>(mvm, evs3). (None,
                              st\<lparr>rxm := mvm, session_timer := (session_timer st)[unat baid := None]\<rparr>,
                              evs @ evs2 @ evs3))
                           (iwl_mvm_sync_rx_queues_internal env IWL_MVM_RXQ_EMPTY True []
                              (set_baid (unat baid) None mvm)))))))"

definition max_ba_id_sessions :: "ba_env \<Rightarrow> nat" where
  "max_ba_id_sessions env = (if new_tx_api env then IWL_MAX_BAID else IWL_MAX_BAID_OLD)"

definition iwl_mvm_sta_rx_agg ::
  "ba_env \<Rightarrow> nat \<Rightarrow> u8 \<Rightarrow> u16 \<Rightarrow> bool \<Rightarrow> u16 \<Rightarrow> u16 \<Rightarrow> 'f ba_state
   \<Rightarrow> (trans_err option \<times> 'f ba_state \<times> 'f rx_event list) option" where
  "iwl_mvm_sta_rx_agg env i tid ssn start bsize timeout st =
     (if start \<and> max_ba_id_sessions env \<le> unat (rx_ba_sessions st) then
        Some (Some (Trans_err ENOSPC), st, [])
      else if new_rx_api env \<and> start \<and> \<not> kzalloc_ok env then Some (Some (Trans_err ENOMEM), st, [])
      else if new_rx_api env \<and> \<not> start \<and> length (tid_to_baid (stas st ! i)) \<le> unat tid then None
      else
        (let sta = stas st ! i;
             baid = (if new_rx_api env \<and> \<not> start then ucast (tid_to_baid sta ! unat tid) else - 1 :: u32);
             op = (if start \<or> \<not> in_hw_restart st then iwl_mvm_fw_baid_op env sta start tid ssn bsize baid
                   else if sint baid < 0 then Inl (Trans_err EPERM) else Inr (unat baid))
         in case op of
              Inl e \<Rightarrow> Some (Some e, st, [])
            | Inr baid \<Rightarrow>
                if start then rx_agg_started env i tid ssn bsize timeout baid st
                else rx_agg_stopped env i tid st))"

section \<open>The timer of an idle session\<close>

text \<open>The result is the timer to arm again, or the station and TID whose session mac80211 stops.\<close>

datatype session_expiry = Rearm u64 | Ba_timer_expired nat u8 | Nothing_to_do

definition iwl_mvm_rx_agg_session_expired ::
  "(u64 \<Rightarrow> bool) \<Rightarrow> (nat \<Rightarrow> u64) \<Rightarrow> nat \<Rightarrow> 'f rx_mvm \<Rightarrow> session_expiry option" where
  "iwl_mvm_rx_agg_session_expired time_is_after_jiffies tu baid mvm =
     (case baid_map mvm ! baid of
        None \<Rightarrow> Some Nothing_to_do
      | Some bd \<Rightarrow>
          if bd_timeout bd = 0 then Some Nothing_to_do
          else
            (let timeout = last_rx bd + tu (unat (bd_timeout bd) * 2) in
             if time_is_after_jiffies timeout then Some (Rearm timeout)
             else
               (case (if sta_mask bd = 0 then None
                      else lookup_sta mvm (ffs (sta_mask bd) - 1)) of
                  None \<Rightarrow> None
                | Some None \<Rightarrow> Some Nothing_to_do
                | Some (Some _) \<Rightarrow> Some (Ba_timer_expired (ffs (sta_mask bd) - 1) (bd_tid bd)))))"

text \<open>The part of the clean-up before a restart that concerns the sessions.\<close>

definition restart_cleanup :: "'f ba_state \<Rightarrow> 'f ba_state" where
  "restart_cleanup st = st\<lparr>rx_ba_sessions := 0\<rparr>"


section \<open>The size of a session\<close>

text \<open>Aligning to a power of two rounds up.\<close>

lemma unat_and_not_mask: "unat (x AND NOT (mask k) :: u16) = unat x div 2 ^ k * 2 ^ k"
proof -
  have "unat (x AND NOT (mask k)) = push_bit k (drop_bit k (unat x))"
    by (rule bit_eqI) (auto simp: bit_simps dest: bit_imp_le_length)
  then show ?thesis by (simp add: push_bit_eq_mult drop_bit_eq_div)
qed

lemma unat_kernel_align:
  assumes "k < 16" "unat x + 2 ^ k \<le> 65536"
  shows "unat (kernel_align x (2 ^ k)) = (unat x + (2 ^ k - 1)) div 2 ^ k * 2 ^ k"
proof -
  have m: "of_nat (2 ^ k) - 1 = (mask k :: u16)" by (simp add: mask_eq_decr_exp)
  have "unat (mask k :: u16) = mask k"
    using assms(1) by (intro bit_eqI) (auto simp: bit_simps)
  then have "unat (mask k :: u16) = 2 ^ k - 1" by (simp add: mask_eq_exp_minus_1)
  then have "unat (x + mask k) = unat x + (2 ^ k - 1)"
    using assms(2) by (simp add: unat_word_ariths)
  then show ?thesis by (simp only: kernel_align_def m unat_and_not_mask)
qed

text \<open>
  What the compiler and the negotiation promise: the sizes are powers of two, the window is not empty
  and the buffers of one queue, rounded up, take less than 64 KB.
\<close>

definition sizes_ok :: "ba_env \<Rightarrow> u16 \<Rightarrow> bool" where
  "sizes_ok env bsize \<longleftrightarrow>
     (\<exists>e < 16. sizeof_entry env = 2 ^ e) \<and> (\<exists>c < 16. smp_cache_bytes env = 2 ^ c) \<and>
     bsize \<noteq> 0 \<and> unat bsize < 512 \<and>
     unat bsize * sizeof_entry env + smp_cache_bytes env \<le> 65536"

lemma reorder_buf_bytes_ok:
  assumes "sizes_ok env bsize"
  shows "unat bsize * sizeof_entry env \<le> unat (reorder_buf_bytes env bsize)"
    "sizeof_entry env dvd unat (reorder_buf_bytes env bsize)"
proof -
  obtain e c where e: "sizeof_entry env = 2 ^ e" "e < 16" and c: "smp_cache_bytes env = 2 ^ c" "c < 16"
    using assms by (auto simp: sizes_ok_def)
  define x where "x = unat bsize * 2 ^ e"
  have x: "x + 2 ^ c \<le> 65536" using assms by (simp add: sizes_ok_def e c x_def)
  moreover have "(0 :: nat) < 2 ^ c" by simp
  ultimately have "x < 65536" by linarith
  then have "unat (of_nat x :: u16) = x" by (simp add: unsigned_of_nat take_bit_nat_eq_self)
  then have "unat (kernel_align (of_nat x) (2 ^ c)) = (x + (2 ^ c - 1)) div 2 ^ c * 2 ^ c"
    using unat_kernel_align [OF c(2), of "of_nat x"] x by simp
  then have sz: "unat (reorder_buf_bytes env bsize) = (x + (2 ^ c - 1)) div 2 ^ c * 2 ^ c"
    by (simp only: reorder_buf_bytes_def e(1) c(1) x_def)
  have "x + (2 ^ c - 1) < ((x + (2 ^ c - 1)) div 2 ^ c + 1) * 2 ^ c"
    by (metis dividend_less_times_div mult.commute add.commute mult_Suc_right Suc_eq_plus1 zero_less_numeral zero_less_power)
  then show "unat bsize * sizeof_entry env \<le> unat (reorder_buf_bytes env bsize)"
    by (simp add: sz e x_def [symmetric])
  show "sizeof_entry env dvd unat (reorder_buf_bytes env bsize)"
  proof (cases "e \<le> c")
    case True
    then have "(2 :: nat) ^ e dvd 2 ^ c" by (rule le_imp_power_dvd)
    then show ?thesis by (simp add: sz e)
  next
    case False
    then have "(2 :: nat) ^ c dvd 2 ^ e" by (intro le_imp_power_dvd) simp
    then obtain m where m: "x = m * 2 ^ c" unfolding x_def by (metis dvd_def dvd_mult mult.commute)
    have "(2 :: nat) ^ c - 1 < 2 ^ c" by simp
    then have "m * 2 ^ c + (2 ^ c - 1) < 2 ^ c + m * 2 ^ c" "m * 2 ^ c \<le> m * 2 ^ c + (2 ^ c - 1)" by linarith+
    then have "(m * 2 ^ c + (2 ^ c - 1)) div 2 ^ c = m" unfolding mult.commute [of m] by (intro div_nat_eqI) simp_all
    then have "unat (reorder_buf_bytes env bsize) = x" by (simp only: sz m)
    then show ?thesis by (simp add: e x_def)
  qed
qed

section \<open>A new session\<close>

lemma init_reorder_entries:
  assumes "e \<in> set (bd_entries (iwl_mvm_init_reorder_buffer nq ssn bsize bd))"
    and "\<forall>e \<in> set (bd_entries bd). entry_frames e = []"
  shows "entry_frames e = []"
  using assms by (auto simp: iwl_mvm_init_reorder_buffer_def split: if_splits)

lemma all_frames_none: "(\<And>e. e \<in> set es \<Longrightarrow> entry_frames e = []) \<Longrightarrow> all_frames es = {#}"
  by (simp add: all_frames_def)

lemma queue_frames_none: "(\<And>e. e \<in> set es \<Longrightarrow> entry_frames e = []) \<Longrightarrow> queue_frames base n es = {#}"
  unfolding queue_frames_def by (rule all_frames_none) (meson in_set_takeD in_set_dropD)

text \<open>The session that the code allocates and initialises is one that the receive handlers accept.\<close>

lemma started_session_ok:
  assumes sz: "sizes_ok env bsize"
    and bd: "bd = iwl_mvm_init_reorder_buffer (num_rx_queues env) ssn bsize
      ((alloc_baid_data env bsize)\<lparr>bd_baid := b, bd_timeout := t, last_rx := now, bd_tid := tid, sta_mask := m\<rparr>)"
  shows "baid_ok bd" "length (reorder_buf bd) = num_rx_queues env" "bd_frames bd = {#}"
    "\<forall>q < num_rx_queues env. head_sn (reorder_buf bd ! q) = ssn \<and> buf_size (reorder_buf bd ! q) = bsize"
    "bd_baid bd = b" "bd_timeout bd = t" "bd_tid bd = tid" "sta_mask bd = m"
    "num_rx_queues env \<noteq> 0 \<Longrightarrow> entries_fit env bsize (alloc_baid_data env bsize)"
proof -
  let ?nq = "num_rx_queues env" and ?epq = "unat (reorder_buf_bytes env bsize) div sizeof_entry env"
  have "0 < sizeof_entry env" using sz by (auto simp: sizes_ok_def)
  then have epq: "unat bsize \<le> ?epq" "?nq * unat (reorder_buf_bytes env bsize) div sizeof_entry env = ?nq * ?epq"
    using reorder_buf_bytes_ok [OF sz] by (simp_all add: less_eq_div_iff_mult_less_eq div_mult_swap)
  have "?epq < 65536"
    using order.strict_trans1 [OF div_le_dividend unsigned_less [of "reorder_buf_bytes env bsize"]] by simp
  then have "unat (of_nat ?epq :: u16) = ?epq" by (simp add: unsigned_of_nat take_bit_nat_eq_self)
  then have alloc: "unat (entries_per_queue (alloc_baid_data env bsize)) = ?epq"
    "length (bd_entries (alloc_baid_data env bsize)) = ?nq * ?epq"
    using epq by (simp_all add: alloc_baid_data_def Let_def)
  then have f: "unat (entries_per_queue bd) = ?epq" "length (bd_entries bd) = ?nq * ?epq"
    by (simp_all add: bd iwl_mvm_init_reorder_buffer_def)
  have empty: "entry_frames e = []" if "e \<in> set (bd_entries bd)" for e
    using that unfolding bd by (rule init_reorder_entries) (simp add: alloc_baid_data_def Let_def)
  show len: "length (reorder_buf bd) = ?nq"
    by (simp add: bd iwl_mvm_init_reorder_buffer_def alloc_baid_data_def Let_def)
  have buf: "reorder_buf bd ! q = zero_buffer\<lparr>head_sn := ssn, buf_size := bsize, rb_queue := q\<rparr>" if "q < ?nq" for q
    using that by (simp add: bd iwl_mvm_init_reorder_buffer_def alloc_baid_data_def Let_def zero_buffer_def nth_append)
  then show "\<forall>q < ?nq. head_sn (reorder_buf bd ! q) = ssn \<and> buf_size (reorder_buf bd ! q) = bsize" by simp
  show "bd_frames bd = {#}" unfolding bd_frames_def by (rule all_frames_none) (rule empty)
  show "bd_baid bd = b" "bd_timeout bd = t" "bd_tid bd = tid" "sta_mask bd = m"
    by (simp_all add: bd iwl_mvm_init_reorder_buffer_def)
  have slice: "q * ?epq + unat bsize \<le> ?nq * ?epq" if "q < ?nq" for q
  proof -
    have "(q + 1) * ?epq \<le> ?nq * ?epq" using that by (intro mult_le_mono1) simp
    then show ?thesis using epq(1) by (simp add: add_mult_distrib)
  qed
  show "?nq \<noteq> 0 \<Longrightarrow> entries_fit env bsize (alloc_baid_data env bsize)"
    using slice [of "?nq - 1"] by (simp add: entries_fit_def alloc)
  have bok: "buf_ok (queue_base bd (reorder_buf bd ! q)) (reorder_buf bd ! q) (bd_entries bd)" if q: "q < ?nq" for q
  proof -
    have "queue_frames (q * ?epq) (unat bsize) (bd_entries bd) = {#}" by (rule queue_frames_none) (rule empty)
    moreover have "slots_ok (q * ?epq) bsize 0 0 (bd_entries bd)"
      using slice [OF q] f(2) empty by (auto simp: slots_ok_def)
    ultimately show ?thesis
      using sz slice [OF q] f buf [OF q] by (simp add: buf_ok_def queue_base_def sizes_ok_def zero_buffer_def)
  qed
  have "idle_slots bd" using empty by (simp add: idle_slots_def)
  then show "baid_ok bd" using bok buf epq(1) f(1) len by (simp add: baid_ok_def)
qed

section \<open>Removing a session\<close>

lemma purge_slots_ok:
  assumes "base + n \<le> length es" "purge_slots base n es = (es', evs)"
  shows "length es' = length es \<and> passed evs = [] \<and> all_frames es' + mset (freed evs) = all_frames es \<and>
    (\<forall>i. entry_frames (es' ! i) = (if base \<le> i \<and> i < base + n then [] else entry_frames (es ! i)))"
  using assms
proof (induction n arbitrary: es' evs)
  case 0
  then show ?case by auto
next
  case (Suc n)
  obtain es1 evs1 where r: "purge_slots base n es = (es1, evs1)" by fastforce
  then have IH: "length es1 = length es" "passed evs1 = []" "all_frames es1 + mset (freed evs1) = all_frames es"
    "\<forall>i. entry_frames (es1 ! i) = (if base \<le> i \<and> i < base + n then [] else entry_frames (es ! i))"
    using Suc.IH [OF _ r] Suc.prems(1) by simp_all
  have e: "es' = es1[base + n := (es1 ! (base + n))\<lparr>entry_frames := []\<rparr>]"
    "evs = evs1 @ map Free_skb (entry_frames (es1 ! (base + n)))"
    using Suc.prems(2) by (auto simp: r)
  have i: "base + n < length es1" using Suc.prems(1) IH(1) by simp
  have "all_frames es' + mset (entry_frames (es1 ! (base + n))) = all_frames es1"
    using all_frames_update [OF i, of "(es1 ! (base + n))\<lparr>entry_frames := []\<rparr>"] by (simp add: e)
  then have "all_frames es' + mset (freed evs) = all_frames es"
    unfolding IH(3) [symmetric] by (simp add: e(2) ac_simps)
  moreover have "entry_frames (es' ! j) = (if base \<le> j \<and> j < base + Suc n then [] else entry_frames (es ! j))" for j
    using IH(4) i by (cases "j = base + n") (auto simp: e nth_list_update)
  ultimately show ?case using IH by (simp add: e)
qed

text \<open>
  The loop over the queues frees what they hold. A queue whose counter is zero has an empty window,
  also while the loop empties the others.
\<close>

definition purge_ready :: "'f baid_data \<Rightarrow> nat list \<Rightarrow> bool" where
  "purge_ready bd qs \<longleftrightarrow> (\<forall>q \<in> set qs. q < length (reorder_buf bd) \<and>
     q * unat (entries_per_queue bd) + unat (buf_size (reorder_buf bd ! q)) \<le> length (bd_entries bd) \<and>
     (num_stored (reorder_buf bd ! q) = 0 \<longrightarrow>
       (\<forall>k < unat (buf_size (reorder_buf bd ! q)).
          entry_frames (bd_entries bd ! (q * unat (entries_per_queue bd) + k)) = [])))"

lemma free_reorder_loop_ok:
  assumes "purge_ready bd qs" "distinct qs" "free_reorder_loop qs bd = (bd', evs)"
  shows "length (bd_entries bd') = length (bd_entries bd) \<and> passed evs = [] \<and>
    bd_frames bd' + mset (freed evs) = bd_frames bd \<and>
    (\<forall>i. entry_frames (bd_entries bd' ! i) = [] \<or> entry_frames (bd_entries bd' ! i) = entry_frames (bd_entries bd ! i)) \<and>
    (\<forall>q \<in> set qs. \<forall>k < unat (buf_size (reorder_buf bd ! q)).
       entry_frames (bd_entries bd' ! (q * unat (entries_per_queue bd) + k)) = [])"
  using assms
proof (induction qs arbitrary: bd bd' evs)
  case Nil
  then show ?case by simp
next
  case (Cons q qs)
  let ?b = "reorder_buf bd ! q" and ?e = "unat (entries_per_queue bd)"
  have q: "q < length (reorder_buf bd)" "q * ?e + unat (buf_size ?b) \<le> length (bd_entries bd)"
    using Cons.prems(1) by (simp_all add: purge_ready_def)
  show ?case
  proof (cases "num_stored ?b = 0")
    case True
    then have r: "free_reorder_loop qs bd = (bd', evs)" using Cons.prems(3) by simp
    have ready: "purge_ready bd qs" using Cons.prems(1) by (simp add: purge_ready_def)
    have "\<forall>k < unat (buf_size ?b). entry_frames (bd_entries bd ! (q * ?e + k)) = []"
      using Cons.prems(1) True by (simp add: purge_ready_def)
    then show ?thesis using Cons.IH [OF ready _ r] Cons.prems(2) by (metis distinct.simps(2) set_ConsD)
  next
    case False
    obtain es evs1 where p: "purge_slots (q * ?e) (unat (buf_size ?b)) (bd_entries bd) = (es, evs1)" by fastforce
    define bd1 where "bd1 = bd\<lparr>bd_entries := es,
      reorder_buf := (reorder_buf bd)[q := ?b\<lparr>removed := True, reorder_timer := None\<rparr>]\<rparr>"
    obtain evs2 where r: "free_reorder_loop qs bd1 = (bd', evs2)" and evs: "evs = evs1 @ evs2"
      using Cons.prems(3) False p by (auto simp: Let_def bd1_def split: prod.splits)
    note s = purge_slots_ok [OF q(2) p]
    have f: "bd_entries bd1 = es" "entries_per_queue bd1 = entries_per_queue bd"
      "length (reorder_buf bd1) = length (reorder_buf bd)"
      "\<And>p. buf_size (reorder_buf bd1 ! p) = buf_size (reorder_buf bd ! p)"
      "\<And>p. num_stored (reorder_buf bd1 ! p) = num_stored (reorder_buf bd ! p)"
      using q(1) by (auto simp: bd1_def nth_list_update)
    have "purge_ready bd1 qs"
      using Cons.prems(1) s by (auto simp: purge_ready_def f)
    then have IH: "length (bd_entries bd') = length es" "passed evs2 = []" "bd_frames bd' + mset (freed evs2) = bd_frames bd1"
      "\<forall>i. entry_frames (bd_entries bd' ! i) = [] \<or> entry_frames (bd_entries bd' ! i) = entry_frames (es ! i)"
      "\<forall>q \<in> set qs. \<forall>k < unat (buf_size (reorder_buf bd ! q)). entry_frames (bd_entries bd' ! (q * ?e + k)) = []"
      using Cons.IH [OF _ _ r] Cons.prems(2) by (simp_all add: f)
    have "bd_frames bd1 + mset (freed evs1) = bd_frames bd" using s by (simp add: bd_frames_def f)
    then have fr: "bd_frames bd' + mset (freed evs) = bd_frames bd"
      using IH(3) by (simp add: evs ac_simps) (metis add.commute add.left_commute)
    have kept: "entry_frames (bd_entries bd' ! i) = [] \<or> entry_frames (bd_entries bd' ! i) = entry_frames (bd_entries bd ! i)" for i
      using IH(4) s by metis
    have "entry_frames (bd_entries bd' ! (q * ?e + k)) = []" if "k < unat (buf_size ?b)" for k
      using IH(4) s that by (metis le_add1 nat_add_left_cancel_less)
    then show ?thesis using IH s fr kept by (simp add: evs f)
  qed
qed

lemma free_reorder_ok:
  assumes ok: "baid_ok bd" and r: "iwl_mvm_free_reorder (length (reorder_buf bd)) bd = (bd', evs)"
  shows "passed evs = []" "mset (freed evs) = bd_frames bd"
proof -
  let ?e = "unat (entries_per_queue bd)"
  have base: "queue_base bd (reorder_buf bd ! q) = q * ?e" if "q < length (reorder_buf bd)" for q
    using ok that by (simp add: baid_ok_def queue_base_def)
  have "purge_ready bd [0..<length (reorder_buf bd)]"
    unfolding purge_ready_def
  proof (intro ballI conjI impI allI)
    fix q assume "q \<in> set [0..<length (reorder_buf bd)]"
    then have q: "q < length (reorder_buf bd)" by simp
    let ?b = "reorder_buf bd ! q"
    have "buf_ok (queue_base bd ?b) ?b (bd_entries bd)" using ok q by (simp add: baid_ok_def)
    then have b: "buf_ok (q * ?e) ?b (bd_entries bd)" by (simp only: base [OF q])
    show "q < length (reorder_buf bd)" "q * ?e + unat (buf_size ?b) \<le> length (bd_entries bd)"
      using q b by (simp_all add: buf_ok_def)
    fix k assume n: "num_stored ?b = 0" and k: "k < unat (buf_size ?b)"
    then have "queue_frames (q * ?e) (unat (buf_size ?b)) (bd_entries bd) = {#}"
      using b by (simp add: buf_ok_def)
    then have none: "entry_frames e = []" if "e \<in> set (take (unat (buf_size ?b)) (drop (q * ?e) (bd_entries bd)))" for e
      using that by (simp add: queue_frames_def all_frames_def)
    have "q * ?e + unat (buf_size ?b) \<le> length (bd_entries bd)" using b by (simp add: buf_ok_def)
    then have le: "k < length (bd_entries bd) - q * ?e" using k by linarith
    have "take (unat (buf_size ?b)) (drop (q * ?e) (bd_entries bd)) ! k = bd_entries bd ! (q * ?e + k)"
      "k < length (take (unat (buf_size ?b)) (drop (q * ?e) (bd_entries bd)))"
      using k le by simp_all
    then show "entry_frames (bd_entries bd ! (q * ?e + k)) = []" using none by (metis nth_mem)
  qed
  note l = free_reorder_loop_ok [OF this distinct_upt r [unfolded iwl_mvm_free_reorder_def]]
  have "entry_frames (bd_entries bd' ! i) = []" if i: "i < length (bd_entries bd)" for i
  proof (cases "\<exists>q < length (reorder_buf bd). q * ?e \<le> i \<and> i < q * ?e + unat (buf_size (reorder_buf bd ! q))")
    case True
    then obtain q where q: "q < length (reorder_buf bd)" "q * ?e \<le> i" "i < q * ?e + unat (buf_size (reorder_buf bd ! q))"
      by blast
    then obtain k where k: "i = q * ?e + k" "k < unat (buf_size (reorder_buf bd ! q))"
      by (metis le_add_diff_inverse nat_add_left_cancel_less)
    then show ?thesis using l q(1) by simp
  next
    case False
    then have "entry_frames (bd_entries bd ! i) = []"
      using ok i base by (simp add: baid_ok_def idle_slots_def) (metis not_le)
    then show ?thesis using l by metis
  qed
  then have "bd_frames bd' = {#}"
    unfolding bd_frames_def using l by (intro all_frames_none) (metis in_set_conv_nth)
  then show "passed evs = []" "mset (freed evs) = bd_frames bd" using l by simp_all
qed

text \<open>Clearing or filling a slot of the map.\<close>

lemma set_baid_frames:
  "b < length (baid_map mvm) \<Longrightarrow>
   mvm_frames (set_baid b o' mvm) + option_frames (baid_map mvm ! b) = mvm_frames mvm + option_frames o'"
  using sum_list_option_update [of b "baid_map mvm" o'] by (simp add: set_baid_def mvm_frames_def)

lemma mvm_ok_set_baid:
  "mvm_ok nq mvm \<Longrightarrow> b < IWL_MAX_BAID \<Longrightarrow> (\<And>bd. o' = Some bd \<Longrightarrow> baid_ok bd \<and> length (reorder_buf bd) = nq) \<Longrightarrow>
   mvm_ok nq (set_baid b o' mvm)"
  by (auto simp: mvm_ok_def set_baid_def nth_list_update)

section \<open>Messages to the queues\<close>

lemma handled_trans:
  assumes "handled nq {#} mvm mvm1 {#} evs1" "handled nq {#} mvm1 mvm2 {#} evs2"
  shows "handled nq {#} mvm mvm2 {#} (evs1 @ evs2)"
proof -
  have "mvm_frames mvm2 + mset (passed (evs1 @ evs2)) + mset (freed (evs1 @ evs2))
      = (mvm_frames mvm2 + mset (passed evs2) + mset (freed evs2)) + mset (passed evs1) + mset (freed evs1)"
    by (simp add: ac_simps)
  also have "\<dots> = mvm_frames mvm" using assms by (simp add: handled_def)
  finally show ?thesis using assms by (simp add: handled_def)
qed

lemma queues_handle_handled:
  "mvm_ok nq mvm \<Longrightarrow> \<forall>(clk, q) \<in> set qs. q < nq \<Longrightarrow> queues_handle n qs mvm = Some (mvm', evs) \<Longrightarrow>
   handled nq {#} mvm mvm' {#} evs"
proof (induction n qs mvm arbitrary: mvm' evs rule: queues_handle.induct)
  case (1 n mvm)
  then show ?case by (simp add: handled_same)
next
  case (2 n clk q qs mvm)
  obtain mvm1 evs1 where r: "iwl_mvm_rx_queue_notif clk q n mvm = Some (mvm1, evs1)"
    using 2(4) by (auto split: option.splits)
  obtain evs2 where r2: "queues_handle n qs mvm1 = Some (mvm', evs2)" and evs: "evs = evs1 @ evs2"
    using 2(4) by (auto simp: r)
  have h: "handled nq {#} mvm mvm1 {#} evs1" using queue_notif_handled [OF 2(2) _ r] 2(3) by simp
  then have "handled nq {#} mvm1 mvm' {#} evs2"
    using 2(1) [OF r refl] r2 2(3) by (simp add: handled_def)
  with h show ?case unfolding evs by (rule handled_trans)
qed

lemma sync_fields [simp]:
  "mvm_ok nq (mvm\<lparr>queue_sync_state := a\<rparr>) = mvm_ok nq mvm"
  "mvm_frames (mvm\<lparr>queue_sync_state := a\<rparr>) = mvm_frames mvm"
  "mvm_ok nq (mvm\<lparr>queue_sync_state := a, queue_sync_cookie := c\<rparr>) = mvm_ok nq mvm"
  "mvm_frames (mvm\<lparr>queue_sync_state := a, queue_sync_cookie := c\<rparr>) = mvm_frames mvm"
  by (simp_all add: mvm_ok_def mvm_frames_def)

lemma sync_rx_queues_handled:
  assumes "mvm_ok nq mvm" "\<forall>(clk, q) \<in> set (sync_handled env typ). q < nq"
    and "iwl_mvm_sync_rx_queues_internal env typ sync data mvm = Some (mvm', evs)"
  shows "handled nq {#} mvm mvm' {#} evs"
proof (cases "(8 + length data) mod 4 \<noteq> 0 \<or> \<not> new_rx_api env")
  case True
  then show ?thesis
    using assms by (auto simp: iwl_mvm_sync_rx_queues_internal_def handled_same split: if_splits)
next
  case False
  define mvm0 where "mvm0 = (if sync then mvm\<lparr>queue_sync_state := push_bit (num_rx_queues env) 1 - 1\<rparr> else mvm)"
  obtain n mvm1 where r: "queues_handle n (sync_answers env typ) mvm0 = Some (mvm1, evs)"
    and m: "mvm' = (if sync then mvm1\<lparr>queue_sync_state := 0, queue_sync_cookie := queue_sync_cookie mvm1 + 1\<rparr> else mvm1)"
    using assms(3) False unfolding iwl_mvm_sync_rx_queues_internal_def Let_def mvm0_def [symmetric]
    by (auto split: if_splits)
  have "handled nq {#} mvm0 mvm1 {#} evs"
    using assms(1,2) by (intro queues_handle_handled [OF _ _ r])
      (auto simp: mvm0_def sync_answers_def split: if_splits option.splits trans_err.splits)
  then show ?thesis by (simp add: handled_def m mvm0_def)
qed

text \<open>A stop that succeeds, taken apart.\<close>

lemma rx_agg_stopped_result:
  assumes "rx_agg_stopped env i tid st = Some (None, st', evs)" "new_rx_api env"
  obtains b bd mvm1 evs1 bd' evs2 mvm2 evs3 where
    "unat tid < length (tid_to_baid (stas st ! i))" "b = unat (tid_to_baid (stas st ! i) ! unat tid)"
    "b < IWL_MAX_BAID" "baid_map (rxm st) ! b \<noteq> None"
    "iwl_mvm_sync_rxq_del_ba env (tid_to_baid (stas st ! i) ! unat tid) (rxm st) = Some (mvm1, evs1)"
    "baid_map mvm1 ! b = Some bd" "iwl_mvm_free_reorder (num_rx_queues env) bd = (bd', evs2)"
    "iwl_mvm_sync_rx_queues_internal env IWL_MVM_RXQ_EMPTY True [] (set_baid b None mvm1) = Some (mvm2, evs3)"
    "st' = st\<lparr>rx_ba_sessions := (if 0 < rx_ba_sessions st then rx_ba_sessions st - 1 else rx_ba_sessions st),
       rxm := mvm2, session_timer := (session_timer st)[b := None]\<rparr>"
    "evs = evs1 @ evs2 @ evs3"
proof -
  have st: "(if 0 < rx_ba_sessions st then st\<lparr>rx_ba_sessions := rx_ba_sessions st - 1\<rparr> else st)
      = st\<lparr>rx_ba_sessions := (if 0 < rx_ba_sessions st then rx_ba_sessions st - 1 else rx_ba_sessions st)\<rparr>"
    by simp
  show thesis
    using assms unfolding rx_agg_stopped_def Let_def st
    by (auto split: if_splits option.splits prod.splits intro!: that)
qed

section \<open>Which sessions there are\<close>

text \<open>The receive handlers never add or remove a session.\<close>

definition session_ids :: "'f rx_mvm \<Rightarrow> nat set" where
  "session_ids mvm = {b. b < length (baid_map mvm) \<and> baid_map mvm ! b \<noteq> None}"

lemma session_ids_update [simp]:
  "baid_map mvm ! b = Some bd \<Longrightarrow> session_ids (update_baid b bd' mvm) = session_ids mvm"
  by (cases "b < length (baid_map mvm)") (auto simp: session_ids_def update_baid_def nth_list_update split: if_splits)

lemma session_ids_fields [simp]:
  "session_ids (mvm\<lparr>queue_sync_state := a\<rparr>) = session_ids mvm"
  "session_ids (mvm\<lparr>queue_sync_state := a, queue_sync_cookie := c\<rparr>) = session_ids mvm"
  by (simp_all add: session_ids_def)

lemma session_ids_sync_done [simp]: "session_ids (rxq_sync_done q mvm) = session_ids mvm"
  by (simp add: session_ids_def rxq_sync_done_def Let_def)

lemma session_ids_from_notif:
  "iwl_mvm_release_frames_from_notif clk b n q sy mvm = Some (mvm', evs) \<Longrightarrow> session_ids mvm' = session_ids mvm"
  by (auto simp: iwl_mvm_release_frames_from_notif_def split: if_splits option.splits)

lemma session_ids_del_ba: "iwl_mvm_del_ba clk q b mvm = Some (mvm', evs) \<Longrightarrow> session_ids mvm' = session_ids mvm"
  by (auto simp: iwl_mvm_del_ba_def Let_def split: if_splits option.splits)

lemma session_ids_queue_notif:
  assumes "iwl_mvm_rx_queue_notif clk q n mvm = Some (mvm', evs)"
  shows "session_ids mvm' = session_ids mvm"
proof (cases "notif_len n < SIZEOF_RXQ_NOTIF \<or> notif_sync n \<and> queue_sync_cookie mvm \<noteq> notif_cookie n")
  case True
  then show ?thesis using assms by (auto simp: iwl_mvm_rx_queue_notif_def split: if_splits)
next
  case False
  then obtain mvm1 where a: "rxq_notif_action clk q n mvm = Some (mvm1, evs)"
    and m: "mvm' = (if notif_sync n then rxq_sync_done q mvm1 else mvm1)"
    using assms by (auto simp: iwl_mvm_rx_queue_notif_def)
  have "session_ids mvm1 = session_ids mvm"
    using a by (auto simp: rxq_notif_action_def Let_def iwl_mvm_nssn_sync_def split: if_splits
      dest: session_ids_from_notif session_ids_del_ba)
  then show ?thesis by (simp add: m)
qed

lemma session_ids_queues_handle:
  "queues_handle n qs mvm = Some (mvm', evs) \<Longrightarrow> session_ids mvm' = session_ids mvm"
proof (induction n qs mvm arbitrary: mvm' evs rule: queues_handle.induct)
  case (2 n clk q qs mvm)
  then obtain mvm1 evs1 where r: "iwl_mvm_rx_queue_notif clk q n mvm = Some (mvm1, evs1)"
    by (auto split: option.splits)
  then obtain evs2 where "queues_handle n qs mvm1 = Some (mvm', evs2)" using 2(2) by auto
  then show ?case using 2(1) [OF r refl] session_ids_queue_notif [OF r] by simp
qed simp

lemma session_ids_sync:
  "iwl_mvm_sync_rx_queues_internal env typ sync data mvm = Some (mvm', evs) \<Longrightarrow> session_ids mvm' = session_ids mvm"
  by (auto simp: iwl_mvm_sync_rx_queues_internal_def Let_def
      dest!: session_ids_queues_handle split: if_splits)

lemma session_ids_reorder:
  "iwl_mvm_reorder clk q sta hdr gp2 desc skb mvm = Some (r, mvm', evs) \<Longrightarrow> session_ids mvm' = session_ids mvm"
  by (drule reorderE) auto

lemma session_ids_step: "reorder_step nq s s' \<Longrightarrow> session_ids (driver s') = session_ids (driver s)"
proof (induction rule: reorder_step.induct)
  case step_bar_release
  then show ?case
    by (auto simp: note_events_def iwl_mvm_rx_bar_frame_release_def Let_def
      dest: session_ids_from_notif split: if_splits option.splits)
qed (auto simp: note_events_def iwl_mvm_rx_frame_release_def
    dest: session_ids_reorder session_ids_queue_notif session_ids_from_notif split: if_splits)

lemma session_ids_set:
  "b < length (baid_map mvm) \<Longrightarrow> session_ids (set_baid b (Some bd) mvm) = insert b (session_ids mvm)"
  "session_ids (set_baid b None mvm) = session_ids mvm - {b}"
  by (cases "b < length (baid_map mvm)"; auto simp: session_ids_def set_baid_def nth_list_update split: if_splits)+

section \<open>Runs with sessions that come and go\<close>

text \<open>
  The state of a run: the driver, the pairs of a station and a TID for which mac80211 has a session
  open, whether the device has been restarted, and the frames that came in, went up and were freed.
\<close>

record 'f ba_run =
  ba :: "'f ba_state"
  open_ba :: "(nat \<times> nat) set"
  restarted :: bool
  ba_arrived :: "'f multiset"
  ba_delivered :: "'f multiset"
  ba_dropped :: "'f multiset"

definition rx_of :: "'f ba_run \<Rightarrow> 'f reorder_run" where
  "rx_of s = \<lparr>driver = rxm (ba s), arrived = ba_arrived s, delivered = ba_delivered s, dropped = ba_dropped s\<rparr>"

definition with_rx :: "'f reorder_run \<Rightarrow> 'f ba_run \<Rightarrow> 'f ba_run" where
  "with_rx r s = s\<lparr>ba := (ba s)\<lparr>rxm := driver r\<rparr>, ba_arrived := arrived r, ba_delivered := delivered r,
     ba_dropped := dropped r\<rparr>"

definition ba_did :: "'f ba_state \<Rightarrow> (nat \<times> nat) set \<Rightarrow> 'f rx_event list \<Rightarrow> 'f ba_run \<Rightarrow> 'f ba_run" where
  "ba_did st opn evs s = s\<lparr>ba := st, open_ba := opn, ba_delivered := ba_delivered s + mset (passed evs),
     ba_dropped := ba_dropped s + mset (freed evs)\<rparr>"

text \<open>
  mac80211 starts a session that is not open and stops one that is; the firmware gives a free BAID
  below the size of the map to a session it accepts. In between, the receive handlers run, and the
  device may be restarted.
\<close>

definition gives_free_baid :: "ba_env \<Rightarrow> nat \<Rightarrow> u8 \<Rightarrow> u16 \<Rightarrow> u16 \<Rightarrow> 'f ba_state \<Rightarrow> bool" where
  "gives_free_baid env i tid ssn bsize st \<longleftrightarrow>
     (\<forall>b. iwl_mvm_fw_baid_op env (stas st ! i) True tid ssn bsize (- 1) = Inr b \<longrightarrow>
        b < IWL_MAX_BAID \<and> baid_map (rxm st) ! b = None)"

inductive ba_step :: "nat \<Rightarrow> 'f ba_run \<Rightarrow> 'f ba_run \<Rightarrow> bool" for nq where
  ba_start:
    "num_rx_queues env = nq \<Longrightarrow> new_rx_api env \<Longrightarrow> sizes_ok env bsize \<Longrightarrow> i < length (stas (ba s)) \<Longrightarrow>
     (i, unat tid) \<notin> open_ba s \<Longrightarrow> gives_free_baid env i tid ssn bsize (ba s) \<Longrightarrow>
     iwl_mvm_sta_rx_agg env i tid ssn True bsize timeout (ba s) = Some (err, st', evs) \<Longrightarrow>
     ba_step nq s (ba_did st' (if err = None then insert (i, unat tid) (open_ba s) else open_ba s) evs s)"
| ba_stop:
    "num_rx_queues env = nq \<Longrightarrow> new_rx_api env \<Longrightarrow> (i, unat tid) \<in> open_ba s \<Longrightarrow>
     \<forall>typ. \<forall>(clk, q) \<in> set (sync_handled env typ). q < nq \<Longrightarrow>
     iwl_mvm_sta_rx_agg env i tid ssn False bsize timeout (ba s) = Some (err, st', evs) \<Longrightarrow>
     ba_step nq s (ba_did st' (if err = None then open_ba s - {(i, unat tid)} else open_ba s) evs s)"
| ba_rx: "reorder_step nq (rx_of s) r \<Longrightarrow> ba_step nq s (with_rx r s)"
| ba_restart: "ba_step nq s (s\<lparr>ba := (restart_cleanup (ba s))\<lparr>in_hw_restart := True\<rparr>, restarted := True\<rparr>)"
| ba_restarted: "ba_step nq s (s\<lparr>ba := (ba s)\<lparr>in_hw_restart := False\<rparr>\<rparr>)"

definition baid_of :: "'f ba_state \<Rightarrow> nat \<times> nat \<Rightarrow> nat" where
  "baid_of st = (\<lambda>(i, t). unat (tid_to_baid (stas st ! i) ! t))"

text \<open>The open sessions are those of the map, each under the BAID that its station remembers.\<close>

definition sessions_match :: "'f ba_state \<Rightarrow> (nat \<times> nat) set \<Rightarrow> bool" where
  "sessions_match st opn \<longleftrightarrow>
     (\<forall>(i, t) \<in> opn. i < length (stas st) \<and> t < length (tid_to_baid (stas st ! i))) \<and>
     bij_betw (baid_of st) opn (session_ids (rxm st))"

definition ba_inv :: "nat \<Rightarrow> 'f ba_run \<Rightarrow> bool" where
  "ba_inv nq s \<longleftrightarrow> run_ok nq (rx_of s) \<and> sessions_match (ba s) (open_ba s) \<and>
     unat (rx_ba_sessions (ba s)) \<le> card (open_ba s) \<and>
     (\<not> restarted s \<longrightarrow> unat (rx_ba_sessions (ba s)) = card (open_ba s))"

lemma sessions_match_finite: "sessions_match st opn \<Longrightarrow> finite opn"
proof -
  assume "sessions_match st opn"
  moreover have "finite (session_ids (rxm st))" by (simp add: session_ids_def)
  ultimately show ?thesis unfolding sessions_match_def using bij_betw_finite by blast
qed

lemma sessions_match_card: "sessions_match st opn \<Longrightarrow> card opn = card (session_ids (rxm st))"
  unfolding sessions_match_def using bij_betw_same_card by blast

lemma session_ids_bound: "mvm_ok nq mvm \<Longrightarrow> card (session_ids mvm) \<le> 32"
proof -
  assume "mvm_ok nq mvm"
  then have "session_ids mvm \<subseteq> {..<32}" by (auto simp: session_ids_def mvm_ok_def IWL_MAX_BAID_def)
  then show ?thesis using card_mono [of "{..<32::nat}"] by fastforce
qed

lemma unat_add_one_u8: "unat (x :: u8) < 255 \<Longrightarrow> unat (x + 1) = unat x + 1"
  by (simp add: unat_word_ariths)

lemma unat_minus_one_u8: "0 < (x :: u8) \<Longrightarrow> unat (x - 1) = unat x - 1"
  by (simp add: unat_minus_one word_greater_zero_iff)

lemma ba_start_inv:
  assumes env: "num_rx_queues env = nq" "new_rx_api env" "sizes_ok env bsize" "gives_free_baid env i tid ssn bsize (ba s)"
    and i: "i < length (stas (ba s))" "(i, unat tid) \<notin> open_ba s"
    and r: "iwl_mvm_sta_rx_agg env i tid ssn True bsize timeout (ba s) = Some (err, st', evs)"
    and inv: "ba_inv nq s"
  shows "ba_inv nq (ba_did st' (if err = None then insert (i, unat tid) (open_ba s) else open_ba s) evs s)"
proof (cases err)
  case (Some e)
  then have "st' = ba s" "evs = []"
    using r by (auto simp: iwl_mvm_sta_rx_agg_def Let_def rx_agg_started_def split: if_splits sum.splits)
  then show ?thesis using inv Some by (simp add: ba_did_def ba_inv_def rx_of_def)
next
  case None
  let ?sta = "stas (ba s) ! i"
  obtain b where op: "iwl_mvm_fw_baid_op env ?sta True tid ssn bsize (- 1) = Inr b"
    and st: "rx_agg_started env i tid ssn bsize timeout b (ba s) = Some (None, st', evs)"
    using r None env(2) by (auto simp: iwl_mvm_sta_rx_agg_def Let_def split: if_splits sum.splits)
  have b: "b < IWL_MAX_BAID" "baid_map (rxm (ba s)) ! b = None" using env(4) op by (auto simp: gives_free_baid_def)
  define bd :: "'a baid_data" where "bd = iwl_mvm_init_reorder_buffer (num_rx_queues env) ssn bsize
    ((alloc_baid_data env bsize)\<lparr>bd_baid := of_nat b, bd_timeout := timeout,
       last_rx := env_now env, bd_tid := tid, sta_mask := iwl_mvm_sta_fw_id_mask ?sta (-1)\<rparr>)"
  note new = started_session_ok [OF env(3) bd_def]
  have t: "unat tid < length (tid_to_baid ?sta)" and e: "evs = []" "rxm st' = set_baid b (Some bd) (rxm (ba s))"
    "rx_ba_sessions st' = rx_ba_sessions (ba s) + 1"
    "stas st' = (stas (ba s))[i := ?sta\<lparr>tid_to_baid := (tid_to_baid ?sta)[unat tid := of_nat b]\<rparr>]"
    using st env(2) by (auto simp: rx_agg_started_def Let_def bd_def split: if_splits)
  have ok: "mvm_ok nq (rxm (ba s))" using inv by (simp add: ba_inv_def run_ok_def rx_of_def)
  then have len: "b < length (baid_map (rxm (ba s)))" using b(1) by (simp add: mvm_ok_def)
  have "mvm_ok nq (rxm st')" using mvm_ok_set_baid [OF ok b(1), of "Some bd"] new env(1) by (simp add: e)
  moreover have "mvm_frames (rxm st') = mvm_frames (rxm (ba s))"
    using set_baid_frames [OF len, of "Some bd"] b(2) new by (simp add: e option_frames_def)
  ultimately have run: "run_ok nq (rx_of (ba_did st' (insert (i, unat tid) (open_ba s)) evs s))"
    using inv by (simp add: ba_inv_def run_ok_def rx_of_def ba_did_def e)
  have m: "sessions_match (ba s) (open_ba s)" using inv by (simp add: ba_inv_def)
  have bb: "unat (of_nat b :: u8) = b" using b(1) by (simp add: IWL_MAX_BAID_def unsigned_of_nat take_bit_nat_eq_self)
  have same: "baid_of st' p = baid_of (ba s) p" if "p \<in> open_ba s" for p
    using that i m t by (cases p) (auto simp: baid_of_def e nth_list_update sessions_match_def)
  have at: "baid_of st' (i, unat tid) = b" using i(1) t bb by (simp add: baid_of_def e)
  have "bij_betw (baid_of st') (open_ba s) (session_ids (rxm (ba s)))"
    using m same by (simp add: sessions_match_def cong: bij_betw_cong)
  moreover have "b \<notin> session_ids (rxm (ba s))" using b(2) by (simp add: session_ids_def)
  ultimately have "bij_betw (baid_of st') (insert (i, unat tid) (open_ba s)) (insert b (session_ids (rxm (ba s))))"
    using notIn_Un_bij_betw [of "(i, unat tid)" "open_ba s" "baid_of st'" "session_ids (rxm (ba s))"] i(2) at by simp
  then have match: "sessions_match st' (insert (i, unat tid) (open_ba s))"
    using m i(1) t by (auto simp: sessions_match_def e session_ids_set(1) [OF len] nth_list_update)
  have card: "card (insert (i, unat tid) (open_ba s)) = card (open_ba s) + 1"
    using sessions_match_finite [OF m] i(2) by simp
  have "unat (rx_ba_sessions (ba s)) \<le> 32"
    using inv sessions_match_card [OF m] session_ids_bound [OF ok] by (simp add: ba_inv_def)
  then have "unat (rx_ba_sessions st') = unat (rx_ba_sessions (ba s)) + 1" by (simp add: e unat_add_one_u8)
  then show ?thesis using run match card inv None by (simp add: ba_inv_def ba_did_def)
qed

lemma stas_same: "rx_agg_stopped env i tid st = Some (None, st', evs) \<Longrightarrow> new_rx_api env \<Longrightarrow> stas st' = stas st"
  by (erule rx_agg_stopped_result) simp_all

lemma ba_stop_inv:
  assumes env: "num_rx_queues env = nq" "new_rx_api env" "\<forall>typ. \<forall>(clk, q) \<in> set (sync_handled env typ). q < nq"
    and i: "(i, unat tid) \<in> open_ba s"
    and r: "iwl_mvm_sta_rx_agg env i tid ssn False bsize timeout (ba s) = Some (err, st', evs)"
    and inv: "ba_inv nq s"
  shows "ba_inv nq (ba_did st' (if err = None then open_ba s - {(i, unat tid)} else open_ba s) evs s)"
proof -
  let ?st = "ba s" and ?b = "baid_of (ba s) (i, unat tid)"
  have m: "sessions_match ?st (open_ba s)" and ok: "mvm_ok nq (rxm ?st)"
    using inv by (simp_all add: ba_inv_def run_ok_def rx_of_def)
  have "?b \<in> session_ids (rxm ?st)"
    using m i by (auto simp: sessions_match_def bij_betw_def)
  then have b: "?b < IWL_MAX_BAID" "baid_map (rxm ?st) ! ?b \<noteq> None"
    using ok by (simp_all add: session_ids_def mvm_ok_def)
  have t: "unat tid < length (tid_to_baid (stas ?st ! i))" using m i by (auto simp: sessions_match_def)
  show ?thesis
  proof (cases err)
    case (Some e)
    have "e \<noteq> e" if "rx_agg_stopped env i tid ?st = Some (Some e, st', evs)"
      using that b t env(2)
      by (auto simp: rx_agg_stopped_def Let_def baid_of_def IWL_RX_REORDER_DATA_INVALID_BAID_def IWL_MAX_BAID_def
        split: if_splits option.splits prod.splits)
    then have "st' = ?st" "evs = []"
      using r Some by (auto simp: iwl_mvm_sta_rx_agg_def Let_def split: if_splits sum.splits)
    then show ?thesis using inv Some by (simp add: ba_did_def ba_inv_def rx_of_def)
  next
    case None
    have st: "rx_agg_stopped env i tid ?st = Some (None, st', evs)"
      using r None by (auto simp: iwl_mvm_sta_rx_agg_def Let_def split: if_splits sum.splits)
    obtain bd mvm1 evs1 bd' evs2 mvm2 evs3 where
      s1: "iwl_mvm_sync_rxq_del_ba env (tid_to_baid (stas ?st ! i) ! unat tid) (rxm ?st) = Some (mvm1, evs1)"
      and bd: "baid_map mvm1 ! ?b = Some bd" "iwl_mvm_free_reorder (num_rx_queues env) bd = (bd', evs2)"
      and s2: "iwl_mvm_sync_rx_queues_internal env IWL_MVM_RXQ_EMPTY True [] (set_baid ?b None mvm1) = Some (mvm2, evs3)"
      and st': "rx_ba_sessions st' = (if 0 < rx_ba_sessions ?st then rx_ba_sessions ?st - 1 else rx_ba_sessions ?st)"
        "rxm st' = mvm2"
      and evs: "evs = evs1 @ evs2 @ evs3"
      by (rule rx_agg_stopped_result [OF st env(2)]) (simp add: baid_of_def)
    have h1: "handled nq {#} (rxm ?st) mvm1 {#} evs1"
      using s1 unfolding iwl_mvm_sync_rxq_del_ba_def by (rule sync_rx_queues_handled [OF ok spec [OF env(3)]])
    then have ok1: "mvm_ok nq mvm1" by (simp add: handled_def)
    have len: "?b < length (baid_map mvm1)" using ok1 b(1) by (simp add: mvm_ok_def)
    have "length (reorder_buf bd) = nq" "baid_ok bd" using mvm_okD [OF ok1 b(1) bd(1)] by simp_all
    then have fr: "passed evs2 = []" "mset (freed evs2) = bd_frames bd"
      using free_reorder_ok [of bd bd' evs2] bd(2) env(1) by simp_all
    have ok2: "mvm_ok nq (set_baid ?b None mvm1)" by (rule mvm_ok_set_baid [OF ok1 b(1)]) simp
    have f2: "mvm_frames (set_baid ?b None mvm1) + bd_frames bd = mvm_frames mvm1"
      using set_baid_frames [OF len, of None] bd(1) by (simp add: option_frames_def)
    have h2: "handled nq {#} mvm1 (set_baid ?b None mvm1) {#} evs2"
      using ok2 f2 fr by (simp add: handled_def)
    have h3: "handled nq {#} (set_baid ?b None mvm1) mvm2 {#} evs3"
      using s2 by (rule sync_rx_queues_handled [OF ok2 spec [OF env(3)]])
    have "handled nq {#} (rxm ?st) mvm2 {#} evs"
      unfolding evs by (rule handled_trans [OF h1 handled_trans [OF h2 h3]])
    then have "run_ok nq (note_events mvm2 {#} {#} evs (rx_of s))"
      using run_ok_handled [of nq "rx_of s" "{#}" mvm2 "{#}" evs] inv by (simp add: ba_inv_def rx_of_def)
    then have run: "run_ok nq (rx_of (ba_did st' (open_ba s - {(i, unat tid)}) evs s))"
      by (simp add: rx_of_def ba_did_def note_events_def st'(2))
    have ids: "session_ids mvm2 = session_ids (rxm ?st) - {?b}"
      using session_ids_sync [OF s2] session_ids_sync [OF s1 [unfolded iwl_mvm_sync_rxq_del_ba_def]]
      by (simp add: session_ids_set(2))
    have same: "stas st' = stas ?st" by (rule stas_same [OF st env(2)])
    have "bij_betw (baid_of ?st) (open_ba s - {(i, unat tid)}) (session_ids (rxm ?st) - {?b})"
      using m i inj_on_image_set_diff [of "baid_of ?st" "open_ba s" "open_ba s" "{(i, unat tid)}"]
      by (auto simp: sessions_match_def bij_betw_def intro: inj_on_diff)
    then have match: "sessions_match st' (open_ba s - {(i, unat tid)})"
      using m same by (auto simp: sessions_match_def ids st'(2) baid_of_def)
    have card: "card (open_ba s - {(i, unat tid)}) = card (open_ba s) - 1" "0 < card (open_ba s)"
      using sessions_match_finite [OF m] i by (auto simp: card_gt_0_iff)
    have "unat (rx_ba_sessions st') = unat (rx_ba_sessions ?st) - 1"
      by (simp add: st'(1) unat_minus_one_u8 word_greater_zero_iff)
    then show ?thesis using run match card inv None by (simp add: ba_inv_def ba_did_def diff_le_mono)
  qed
qed

lemma ba_step_inv: "ba_step nq s s' \<Longrightarrow> ba_inv nq s \<Longrightarrow> ba_inv nq s'"
proof (induction rule: ba_step.induct)
  case ba_start
  then show ?case by (intro ba_start_inv)
next
  case ba_stop
  then show ?case by (intro ba_stop_inv)
next
  case (ba_rx s r)
  have "run_ok nq (rx_of (with_rx r s))"
    using reorder_step_ok [OF ba_rx(1)] ba_rx(2) by (cases r) (simp add: ba_inv_def rx_of_def with_rx_def)
  moreover have "session_ids (driver r) = session_ids (rxm (ba s))"
    using session_ids_step [OF ba_rx(1)] by (simp add: rx_of_def)
  moreover have "baid_of (ba (with_rx r s)) = baid_of (ba s)" by (simp add: with_rx_def baid_of_def fun_eq_iff)
  ultimately show ?case using ba_rx(2) by (simp add: ba_inv_def with_rx_def sessions_match_def)
next
  case (ba_restart s)
  then show ?case by (auto simp: ba_inv_def rx_of_def restart_cleanup_def sessions_match_def baid_of_def)
next
  case (ba_restarted s)
  then show ?case by (auto simp: ba_inv_def rx_of_def sessions_match_def baid_of_def)
qed

interpretation ba_runs: invariant_system "ba_step nq" "ba_inv nq" for nq
  by unfold_locales (rule ba_step_inv)

section \<open>Stopping empties the session\<close>

text \<open>
  The messages that remove a session, handled by one queue after the other: each passes on the window
  of its queue.
\<close>

definition del_ba_notif :: "u8 \<Rightarrow> 'f rx_mvm \<Rightarrow> rxq_notif" where
  "del_ba_notif baid mvm = \<lparr>notif_len = SIZEOF_RXQ_NOTIF + 4, notif_type = IWL_MVM_RXQ_NOTIF_DEL_BA,
     notif_sync = True, notif_cookie = queue_sync_cookie mvm, notif_data = le_bytes 4 (ucast baid :: u32)\<rparr>"

lemma del_ba_notif_action:
  assumes "queue_sync_cookie mvm = notif_cookie (del_ba_notif baid m0)"
  shows "iwl_mvm_rx_queue_notif clk q (del_ba_notif baid m0) mvm =
    map_option (\<lambda>(mvm, evs). (rxq_sync_done q mvm, evs)) (iwl_mvm_del_ba clk q baid mvm)"
proof -
  have "SIZEOF_RXQ_NOTIF + 4 - SIZEOF_RXQ_NOTIF = 4" "\<not> SIZEOF_RXQ_NOTIF + 4 < SIZEOF_RXQ_NOTIF"
    by (simp_all add: SIZEOF_RXQ_NOTIF_def)
  moreover have "ucast (of_le_bytes (take 4 (le_bytes 4 (ucast baid :: u32))) :: u32) = baid"
    by (simp add: of_le_bytes_word) (rule bit_word_eqI, auto simp: bit_simps dest: bit_imp_le_length)
  ultimately show ?thesis
    using assms by (simp add: iwl_mvm_rx_queue_notif_def rxq_notif_action_def del_ba_notif_def Let_def
      IWL_MVM_RXQ_EMPTY_def IWL_MVM_RXQ_NOTIF_DEL_BA_def)
qed

lemma sync_done_maps [simp]:
  "baid_map (rxq_sync_done q mvm) = baid_map mvm" "fw_id_to_mac_id (rxq_sync_done q mvm) = fw_id_to_mac_id mvm"
  "queue_sync_cookie (rxq_sync_done q mvm) = queue_sync_cookie mvm"
  by (simp_all add: rxq_sync_done_def Let_def)

lemma update_baid_maps [simp]:
  "baid_map (update_baid b bd mvm) = (baid_map mvm)[b := Some bd]"
  "fw_id_to_mac_id (update_baid b bd mvm) = fw_id_to_mac_id mvm"
  "queue_sync_cookie (update_baid b bd mvm) = queue_sync_cookie mvm"
  by (simp_all add: update_baid_def)

lemma lookup_sta_cong: "fw_id_to_mac_id mvm = fw_id_to_mac_id mvm' \<Longrightarrow> lookup_sta mvm = lookup_sta mvm'"
  by (simp add: lookup_sta_def fun_eq_iff)

lemma queues_del_ba:
  assumes "distinct (map snd qs)" "\<forall>(clk, q) \<in> set qs. q < nq \<and> unat (buf_size (reorder_buf bd ! q)) dvd 4096"
    and "mvm_ok nq mvm" "unat baid < IWL_MAX_BAID" "baid_map mvm ! unat baid = Some bd"
    and "lookup_sta mvm (first_sta_id (sta_mask bd)) = Some (Some sta)"
    and "queue_sync_cookie mvm = notif_cookie (del_ba_notif baid m0)"
  shows "\<exists>mvm' bd' evs. queues_handle (del_ba_notif baid m0) qs mvm = Some (mvm', evs) \<and>
    passed evs = concat (map (\<lambda>(clk, q). concat (window bd q)) qs) \<and> freed evs = [] \<and>
    baid_map mvm' = (baid_map mvm)[unat baid := Some bd'] \<and> mvm_ok nq mvm' \<and>
    (\<forall>q \<in> snd ` set qs. num_stored (reorder_buf bd' ! q) = 0) \<and>
    (\<forall>q < nq. q \<notin> snd ` set qs \<longrightarrow> reorder_buf bd' ! q = reorder_buf bd ! q)"
  using assms
proof (induction qs arbitrary: mvm bd)
  case Nil
  have "(baid_map mvm)[unat baid := Some bd] = baid_map mvm" using Nil(5) by (metis list_update_id)
  then show ?case using Nil by (auto intro!: exI [of _ mvm] exI [of _ bd])
next
  case (Cons x qs)
  obtain clk q where x: "x = (clk, q)" by fastforce
  have q: "q < nq" "unat (buf_size (reorder_buf bd ! q)) dvd 4096" "q \<notin> snd ` set qs" "distinct (map snd qs)"
    using Cons.prems(1,2) by (auto simp: x)
  obtain bd1 evs1 where d: "iwl_mvm_del_ba clk q baid mvm = Some (update_baid (unat baid) bd1 mvm, evs1)"
    "passed evs1 = concat (window bd q)" "freed evs1 = []" "num_stored (reorder_buf bd1 ! q) = 0"
    "sta_mask bd1 = sta_mask bd"
    "\<forall>p < nq. p \<noteq> q \<longrightarrow> reorder_buf bd1 ! p = reorder_buf bd ! p \<and> window bd1 p = window bd p"
    using del_ba_effect [OF Cons.prems(3) q(1) Cons.prems(4,5,6) q(2), of clk] by blast
  let ?mvm = "rxq_sync_done q (update_baid (unat baid) bd1 mvm)"
  have h: "iwl_mvm_rx_queue_notif clk q (del_ba_notif baid m0) mvm = Some (?mvm, evs1)"
    using del_ba_notif_action [OF Cons.prems(7)] d(1) by simp
  have ok: "mvm_ok nq ?mvm"
    using queue_notif_handled [OF Cons.prems(3) q(1) h] by (simp add: handled_def)
  have len: "unat baid < length (baid_map mvm)" using Cons.prems(3,4) by (simp add: mvm_ok_def)
  have rest: "\<forall>(clk, p) \<in> set qs. p < nq \<and> unat (buf_size (reorder_buf bd1 ! p)) dvd 4096"
    using Cons.prems(2) d(6) q(3) by (force simp: x)
  have "lookup_sta ?mvm (first_sta_id (sta_mask bd1)) = Some (Some sta)"
    using Cons.prems(6) d(5) lookup_sta_cong [of ?mvm mvm] by simp
  then obtain mvm' bd' evs2 where IH: "queues_handle (del_ba_notif baid m0) qs ?mvm = Some (mvm', evs2)"
    "passed evs2 = concat (map (\<lambda>(clk, q). concat (window bd1 q)) qs)" "freed evs2 = []"
    "baid_map mvm' = (baid_map ?mvm)[unat baid := Some bd']" "mvm_ok nq mvm'"
    "\<forall>q \<in> snd ` set qs. num_stored (reorder_buf bd' ! q) = 0"
    "\<forall>q < nq. q \<notin> snd ` set qs \<longrightarrow> reorder_buf bd' ! q = reorder_buf bd1 ! q"
    using Cons.IH [OF q(4) rest ok Cons.prems(4), of] len Cons.prems(7) by auto
  have "map (\<lambda>(clk, q). concat (window bd1 q)) qs = map (\<lambda>(clk, q). concat (window bd q)) qs"
    using d(6) q(3) rest by (force intro!: map_cong)
  then have "passed (evs1 @ evs2) = concat (map (\<lambda>(clk, q). concat (window bd q)) (x # qs))"
    unfolding passed_append d(2) IH(2) by (simp only: x list.map concat.simps prod.case)
  moreover have "\<forall>p \<in> snd ` set (x # qs). num_stored (reorder_buf bd' ! p) = 0"
    using IH(6,7) d(4) q by (simp add: x)
  moreover have "\<forall>p < nq. p \<notin> snd ` set (x # qs) \<longrightarrow> reorder_buf bd' ! p = reorder_buf bd ! p"
    using IH(7) d(6) by (simp add: x)
  ultimately show ?case
    using h IH(1,3,4,5) d(3) by (intro exI [of _ mvm'] exI [of _ bd'] exI [of _ "evs1 @ evs2"]) (simp add: x)
qed

lemma queues_handle_empty:
  "notif_type n = IWL_MVM_RXQ_EMPTY \<Longrightarrow>
   \<exists>mvm'. queues_handle n qs mvm = Some (mvm', []) \<and> baid_map mvm' = baid_map mvm"
proof (induction qs arbitrary: mvm)
  case (Cons x qs)
  obtain clk q where x: "x = (clk, q)" by fastforce
  have "\<exists>mvm1. iwl_mvm_rx_queue_notif clk q n mvm = Some (mvm1, []) \<and> baid_map mvm1 = baid_map mvm"
    using Cons.prems by (auto simp: iwl_mvm_rx_queue_notif_def rxq_notif_action_def Let_def)
  then obtain mvm1 where "iwl_mvm_rx_queue_notif clk q n mvm = Some (mvm1, [])" "baid_map mvm1 = baid_map mvm" by blast
  then show ?case using Cons.IH [OF Cons.prems, of mvm1] by (auto simp: x)
qed simp

lemma sync_empty:
  "\<exists>mvm'. iwl_mvm_sync_rx_queues_internal env IWL_MVM_RXQ_EMPTY sync [] mvm = Some (mvm', []) \<and>
     baid_map mvm' = baid_map mvm"
proof (cases "new_rx_api env")
  case True
  define mvm0 where "mvm0 = (if sync then mvm\<lparr>queue_sync_state := push_bit (num_rx_queues env) 1 - 1\<rparr> else mvm)"
  define n where "n = \<lparr>notif_len = SIZEOF_RXQ_NOTIF + of_nat (length ([] :: u8 list)),
    notif_type = IWL_MVM_RXQ_EMPTY, notif_sync = sync,
    notif_cookie = (if sync then queue_sync_cookie mvm else 0), notif_data = []\<rparr>"
  obtain mvm1 where "queues_handle n (sync_answers env IWL_MVM_RXQ_EMPTY) mvm0 = Some (mvm1, [])" "baid_map mvm1 = baid_map mvm0"
    using queues_handle_empty [of n] by (auto simp: n_def)
  then show ?thesis
    using True unfolding iwl_mvm_sync_rx_queues_internal_def Let_def mvm0_def [symmetric] n_def [symmetric]
    by (auto simp: mvm0_def)
qed (simp add: iwl_mvm_sync_rx_queues_internal_def)

lemma free_reorder_nothing:
  "\<forall>q \<in> set qs. num_stored (reorder_buf bd ! q) = 0 \<Longrightarrow> free_reorder_loop qs bd = (bd, [])"
  by (induction qs) simp_all

section \<open>Properties\<close>

text \<open>A device with one receive queue and a station that has no session yet.\<close>

definition demo_env :: ba_env where
  "demo_env = \<lparr>new_tx_api = True, new_rx_api = True, baid_ml = True, baid_cfg_ver = 2, d3_test = False,
     num_rx_queues = 1, sizeof_entry = 32, smp_cache_bytes = 64, env_now = 100, tu_to_jiffies = of_nat,
     kzalloc_ok = True,
     env_answer = (\<lambda>cmd. case cmd of Baid_alloc m t sn sz \<Rightarrow> Inr (4, 3) | _ \<Rightarrow> Inr (4, 0)),
     sync_err = (\<lambda>typ. None), sync_handled = (\<lambda>typ. [(demo_clock, 0)])\<rparr>"

definition demo_ba :: "nat ba_state" where
  "demo_ba = \<lparr>rxm = \<lparr>baid_map = replicate 32 None, fw_id_to_mac_id = [Some demo_sta], queue_sync_cookie = 0,
       queue_sync_state = 0, sync_wakeups = 0\<rparr>,
     rx_ba_sessions = 0, in_hw_restart = False,
     stas = [\<lparr>bs_valid_links = False, bs_deflink_id = 0, bs_link_ids = [], bs_color = 0,
       tid_to_baid = replicate 8 0x7f\<rparr>],
     session_timer = replicate 32 None\<rparr>"

text \<open>The same device with the session of \<open>demo_stored\<close>, which holds one frame, open for TID 0.\<close>

definition demo_ba_open :: "nat ba_state" where
  "demo_ba_open = demo_ba\<lparr>rxm := demo_stored, rx_ba_sessions := 1,
     stas := [(hd (stas demo_ba))\<lparr>tid_to_baid := 3 # replicate 7 0x7f\<rparr>]\<rparr>"

lemma demo_env_fields [simp]:
  "new_rx_api demo_env" "num_rx_queues demo_env = 1" "max_ba_id_sessions demo_env = 32" "kzalloc_ok demo_env"
  "sizes_ok demo_env 4" "sync_answers demo_env typ = [(demo_clock, 0)]" "sync_handled demo_env typ = [(demo_clock, 0)]"
proof -
  have "(32 :: nat) = 2 ^ 5" "(64 :: nat) = 2 ^ 6" by simp_all
  then show "sizes_ok demo_env 4"
    by (auto simp: sizes_ok_def demo_env_def intro: exI [of _ 5] exI [of _ 6])
qed (simp_all add: demo_env_def max_ba_id_sessions_def IWL_MAX_BAID_def sync_answers_def)

lemma demo_ba_fields: "length (stas demo_ba) = 1" "tid_to_baid (stas demo_ba ! 0) = replicate 8 0x7f"
  "rx_ba_sessions demo_ba = 0" "baid_map (rxm demo_ba) = replicate 32 None"
  by (simp_all add: demo_ba_def)

lemma demo_fw_op:
  "iwl_mvm_fw_baid_op demo_env sta True tid ssn bsize b = Inr 3"
  "iwl_mvm_fw_baid_op demo_env sta False tid ssn bsize b = Inr 0"
  by (simp_all add: demo_env_def iwl_mvm_fw_baid_op_def iwl_mvm_fw_baid_op_cmd_def Let_def
    iwl_mvm_send_cmd_pdu_status_def iwl_mvm_send_cmd_status_def tst_def sizeof_cmd_response_def IWL_MAX_BAID_def)



lemma start_session_effect:
  assumes "new_rx_api env" "kzalloc_ok env" "sizes_ok env bsize" "num_rx_queues env \<noteq> 0"
    and "unat (rx_ba_sessions st) < max_ba_id_sessions env" "i < length (stas st)"
    and "unat tid < length (tid_to_baid (stas st ! i))"
    and "iwl_mvm_fw_baid_op env (stas st ! i) True tid ssn bsize (- 1) = Inr b" "b < IWL_MAX_BAID"
  shows "\<exists>bd st'. iwl_mvm_sta_rx_agg env i tid ssn True bsize timeout st = Some (None, st', []) \<and>
    rxm st' = set_baid b (Some bd) (rxm st) \<and> baid_ok bd \<and> length (reorder_buf bd) = num_rx_queues env \<and>
    bd_frames bd = {#} \<and> bd_tid bd = tid \<and> sta_mask bd = iwl_mvm_sta_fw_id_mask (stas st ! i) (- 1) \<and>
    (\<forall>q < num_rx_queues env. head_sn (reorder_buf bd ! q) = ssn \<and> buf_size (reorder_buf bd ! q) = bsize) \<and>
    baid_of st' (i, unat tid) = b \<and> unat (rx_ba_sessions st') = unat (rx_ba_sessions st) + 1"
proof -
  define bd :: "'a baid_data" where "bd = iwl_mvm_init_reorder_buffer (num_rx_queues env) ssn bsize
    ((alloc_baid_data env bsize)\<lparr>bd_baid := of_nat b, bd_timeout := timeout,
       last_rx := env_now env, bd_tid := tid, sta_mask := iwl_mvm_sta_fw_id_mask (stas st ! i) (-1)\<rparr>)"
  note new = started_session_ok [OF assms(3) bd_def]
  have "entries_fit env bsize ((alloc_baid_data env bsize)\<lparr>bd_baid := of_nat b, bd_timeout := timeout,
       last_rx := env_now env, bd_tid := tid, sta_mask := iwl_mvm_sta_fw_id_mask (stas st ! i) (-1)\<rparr> :: 'a baid_data)"
    using new(9) assms(4) by (simp add: entries_fit_def)
  then obtain st' where r: "rx_agg_started env i tid ssn bsize timeout b st = Some (None, st', [])"
    and st': "rxm st' = set_baid b (Some bd) (rxm st)" "rx_ba_sessions st' = rx_ba_sessions st + 1"
      "stas st' = (stas st)[i := (stas st ! i)\<lparr>tid_to_baid := (tid_to_baid (stas st ! i))[unat tid := of_nat b]\<rparr>]"
    using assms by (simp add: rx_agg_started_def Let_def bd_def)
  have "unat (of_nat b :: u8) = b"
    using assms(9) by (simp add: IWL_MAX_BAID_def unsigned_of_nat take_bit_nat_eq_self)
  moreover have "unat (rx_ba_sessions st) < 255"
    using assms(5) by (auto simp: max_ba_id_sessions_def IWL_MAX_BAID_def IWL_MAX_BAID_OLD_def split: if_splits)
  moreover have "iwl_mvm_sta_rx_agg env i tid ssn True bsize timeout st = Some (None, st', [])"
    using assms r by (simp add: iwl_mvm_sta_rx_agg_def)
  ultimately show ?thesis
    using new st' assms(6,7) by (intro exI [of _ bd] exI [of _ st']) (simp add: baid_of_def unat_add_one_u8)
qed

lemma demo_start:
  "\<exists>st'. iwl_mvm_sta_rx_agg demo_env 0 5 10 True 4 0 demo_ba = Some (None, st', [])"
proof -
  have "iwl_mvm_fw_baid_op demo_env (stas demo_ba ! 0) True 5 10 4 (- 1) = Inr 3" by (rule demo_fw_op)
  from start_session_effect [OF demo_env_fields(1,4,5) _ _ _ _ this, of 0] show ?thesis
    by (auto simp: demo_ba_fields IWL_MAX_BAID_def)
qed

text \<open>C35: Starting a session succeeds when the firmware accepts it and the sizes fit: the slot of its
  BAID then holds a session that is consistent, empty, with the agreed window on every queue, and the
  station remembers the BAID; nothing else in the map changes.
\<close>

theorem start_makes_wellformed_session:
  assumes "new_rx_api env" "kzalloc_ok env" "sizes_ok env bsize" "num_rx_queues env \<noteq> 0"
    and "unat (rx_ba_sessions st) < max_ba_id_sessions env" "i < length (stas st)"
    and "unat tid < length (tid_to_baid (stas st ! i))"
    and "iwl_mvm_fw_baid_op env (stas st ! i) True tid ssn bsize (- 1) = Inr b" "b < IWL_MAX_BAID"
  shows "\<exists>bd st'. iwl_mvm_sta_rx_agg env i tid ssn True bsize timeout st = Some (None, st', []) \<and>
    rxm st' = set_baid b (Some bd) (rxm st) \<and> baid_ok bd \<and> length (reorder_buf bd) = num_rx_queues env \<and>
    bd_frames bd = {#} \<and> bd_tid bd = tid \<and> sta_mask bd = iwl_mvm_sta_fw_id_mask (stas st ! i) (- 1) \<and>
    (\<forall>q < num_rx_queues env. head_sn (reorder_buf bd ! q) = ssn \<and> buf_size (reorder_buf bd ! q) = bsize) \<and>
    baid_of st' (i, unat tid) = b \<and> unat (rx_ba_sessions st') = unat (rx_ba_sessions st) + 1"
  using assms by (rule start_session_effect)

theorem start_makes_wellformed_session_witness:
  "\<exists>bd st'. iwl_mvm_sta_rx_agg demo_env 0 5 10 True 4 0 demo_ba = Some (None, st', []) \<and>
     rxm st' = set_baid 3 (Some bd) (rxm demo_ba) \<and> baid_ok bd \<and> baid_of st' (0, 5) = 3"
proof -
  have "iwl_mvm_fw_baid_op demo_env (stas demo_ba ! 0) True 5 10 4 (- 1) = Inr 3" by (rule demo_fw_op)
  from start_makes_wellformed_session [OF demo_env_fields(1,4,5) _ _ _ _ this, of 0]
  obtain bd st' where "iwl_mvm_sta_rx_agg demo_env 0 5 10 True 4 0 demo_ba = Some (None, st', [])"
    "rxm st' = set_baid 3 (Some bd) (rxm demo_ba)" "baid_ok bd" "baid_of st' (0, unat (5 :: u8)) = 3"
    by (auto simp: demo_ba_fields IWL_MAX_BAID_def)
  then show ?thesis by auto
qed

text \<open>C8: In every run in which mac80211 opens and closes sessions while the receive handlers work and the
  device is restarted, the sessions of the map are exactly the open ones, each under the BAID its
  station remembers; all of them are consistent; every frame that came in was delivered, dropped or is
  still held; and until the first restart the counter is the number of sessions.
\<close>

theorem session_runs_consistent:
  assumes "(ba_step nq)\<^sup>*\<^sup>* s s'" "ba_inv nq s"
  shows "bij_betw (baid_of (ba s')) (open_ba s') (session_ids (rxm (ba s'))) \<and> mvm_ok nq (rxm (ba s')) \<and>
    ba_arrived s' = ba_delivered s' + ba_dropped s' + mvm_frames (rxm (ba s')) \<and>
    unat (rx_ba_sessions (ba s')) \<le> card (session_ids (rxm (ba s'))) \<and>
    (\<not> restarted s' \<longrightarrow> unat (rx_ba_sessions (ba s')) = card (session_ids (rxm (ba s'))))"
proof -
  have inv: "ba_inv nq s'" using ba_runs.inv_run [OF assms] .
  then have m: "sessions_match (ba s') (open_ba s')" by (simp add: ba_inv_def)
  show ?thesis
    using inv sessions_match_card [OF m] by (simp add: ba_inv_def run_ok_def rx_of_def sessions_match_def)
qed

definition demo_ba_run :: "nat ba_run" where
  "demo_ba_run = \<lparr>ba = demo_ba, open_ba = {}, restarted = False, ba_arrived = {#}, ba_delivered = {#}, ba_dropped = {#}\<rparr>"

lemma demo_ba_inv: "ba_inv 1 demo_ba_run"
proof -
  have "sum_list (replicate n {#}) = ({#} :: nat multiset)" for n by (induction n) simp_all
  then show ?thesis
    by (auto simp: ba_inv_def demo_ba_run_def demo_ba_fields run_ok_def rx_of_def mvm_ok_def IWL_MAX_BAID_def
      mvm_frames_def option_frames_def sessions_match_def session_ids_def bij_betw_def)
qed

lemma demo_ba_start:
  "\<exists>st'. ba_step 1 demo_ba_run (ba_did st' {(0, 5)} [] demo_ba_run)"
proof -
  obtain st' where "iwl_mvm_sta_rx_agg demo_env 0 5 10 True 4 0 demo_ba = Some (None, st', [])"
    using demo_start by blast
  then have "ba_step 1 demo_ba_run (ba_did st' (if None = (None :: trans_err option)
      then insert (0, unat (5 :: u8)) (open_ba demo_ba_run) else open_ba demo_ba_run) [] demo_ba_run)"
    by (intro ba_step.ba_start [where env = demo_env and bsize = 4 and ssn = 10 and timeout = 0])
      (simp_all add: gives_free_baid_def demo_fw_op demo_ba_run_def demo_ba_fields IWL_MAX_BAID_def)
  then show ?thesis by (auto simp: demo_ba_run_def)
qed

theorem session_runs_consistent_witness:
  "\<exists>s'. (ba_step 1)\<^sup>*\<^sup>* demo_ba_run s' \<and> open_ba s' = {(0, 5)} \<and> card (session_ids (rxm (ba s'))) = 1"
proof -
  obtain st' where s: "ba_step 1 demo_ba_run (ba_did st' {(0, 5)} [] demo_ba_run)" using demo_ba_start by blast
  then have run: "(ba_step 1)\<^sup>*\<^sup>* demo_ba_run (ba_did st' {(0, 5)} [] demo_ba_run)" by blast
  note c = session_runs_consistent [OF run demo_ba_inv]
  have "card (open_ba (ba_did st' {(0, 5)} [] demo_ba_run)) = card (session_ids (rxm (ba (ba_did st' {(0, 5)} [] demo_ba_run))))"
    using c by (intro bij_betw_same_card) blast
  then show ?thesis using run by (intro exI [of _ "ba_did st' {(0, 5)} [] demo_ba_run"]) (simp add: ba_did_def)
qed
end
