(* ===== verification/Rx_Radiotap.thy ===== *)
theory Rx_Radiotap
  imports Rate_N_Flags Rx_Frame
begin

text \<open>
  The radiotap fields that the receive path puts in front of a frame (mvm/rxmq.c): the HE and HE-MU
  fields, the legacy signal field, the vendor field of the sniffer, each filled from the PHY words of
  the descriptor, and the part of the report to mac80211 that goes with them. The theory holds the bit-field
  macros of the kernel, the report itself (\<open>struct ieee80211_rx_status\<close>), and the layout of the
  fields in the socket buffer. The properties say that a field marked as known holds what the
  firmware reported, and which fields are wrong.
\<close>

unbundle bit_operations_syntax

named_theorems fw_fields \<open>fields of the PHY words of the firmware\<close>
named_theorems rt_fields \<open>fields of the radiotap headers\<close>

section \<open>Bit fields\<close>

text \<open>
  \<open>le32_get_bits\<close>, \<open>le32_encode_bits\<close> and their relatives: the field is given by its mask, the
  shift by the lowest bit of the mask.
\<close>

definition field_shift :: "'a::len word \<Rightarrow> nat" where
  "field_shift m = ffs m - 1"

definition get_bits :: "'a::len word \<Rightarrow> 'a word \<Rightarrow> 'a word" where
  "get_bits v field = drop_bit (field_shift field) (v AND field)"

definition encode_bits :: "'a::len word \<Rightarrow> 'a word \<Rightarrow> 'a word" where
  "encode_bits v field = push_bit (field_shift field) v AND field"

text \<open>\<open>LE32_DEC_ENC\<close>, and the same between fields of different widths.\<close>

definition dec_enc :: "'a::len word \<Rightarrow> 'a word \<Rightarrow> 'b::len word \<Rightarrow> 'b word" where
  "dec_enc v dec enc = encode_bits (ucast (get_bits v dec)) enc"

section \<open>Constants\<close>

definition IWL_RX_PHY_INFO_TYPE_NONE :: u32 where [fw_fields]: "IWL_RX_PHY_INFO_TYPE_NONE = 0x0"
definition IWL_RX_PHY_INFO_TYPE_CCK :: u32 where [fw_fields]: "IWL_RX_PHY_INFO_TYPE_CCK = 0x1"
definition IWL_RX_PHY_INFO_TYPE_OFDM_LGCY :: u32 where [fw_fields]: "IWL_RX_PHY_INFO_TYPE_OFDM_LGCY = 0x2"
definition IWL_RX_PHY_INFO_TYPE_HT :: u32 where [fw_fields]: "IWL_RX_PHY_INFO_TYPE_HT = 0x3"
definition IWL_RX_PHY_INFO_TYPE_VHT_SU :: u32 where [fw_fields]: "IWL_RX_PHY_INFO_TYPE_VHT_SU = 0x4"
definition IWL_RX_PHY_INFO_TYPE_VHT_MU :: u32 where [fw_fields]: "IWL_RX_PHY_INFO_TYPE_VHT_MU = 0x5"
definition IWL_RX_PHY_INFO_TYPE_HE_SU :: u32 where [fw_fields]: "IWL_RX_PHY_INFO_TYPE_HE_SU = 0x6"
definition IWL_RX_PHY_INFO_TYPE_HE_MU :: u32 where [fw_fields]: "IWL_RX_PHY_INFO_TYPE_HE_MU = 0x7"
definition IWL_RX_PHY_INFO_TYPE_HE_TB :: u32 where [fw_fields]: "IWL_RX_PHY_INFO_TYPE_HE_TB = 0x8"
definition IWL_RX_PHY_INFO_TYPE_HE_MU_EXT :: u32 where [fw_fields]: "IWL_RX_PHY_INFO_TYPE_HE_MU_EXT = 0x9"
definition IWL_RX_PHY_INFO_TYPE_HE_TB_EXT :: u32 where [fw_fields]: "IWL_RX_PHY_INFO_TYPE_HE_TB_EXT = 0xa"
definition IWL_RX_PHY_INFO_TYPE_EHT_MU :: u32 where [fw_fields]: "IWL_RX_PHY_INFO_TYPE_EHT_MU = 0xb"
definition IWL_RX_PHY_INFO_TYPE_EHT_TB :: u32 where [fw_fields]: "IWL_RX_PHY_INFO_TYPE_EHT_TB = 0xc"
definition IWL_RX_PHY_INFO_TYPE_EHT_MU_EXT :: u32 where [fw_fields]: "IWL_RX_PHY_INFO_TYPE_EHT_MU_EXT = 0xd"
definition IWL_RX_PHY_INFO_TYPE_EHT_TB_EXT :: u32 where [fw_fields]: "IWL_RX_PHY_INFO_TYPE_EHT_TB_EXT = 0xe"
definition IWL_RX_PHY_DATA0_HE_BEAM_CHNG :: u32 where [fw_fields]: "IWL_RX_PHY_DATA0_HE_BEAM_CHNG = 0x1"
definition IWL_RX_PHY_DATA0_HE_UPLINK :: u32 where [fw_fields]: "IWL_RX_PHY_DATA0_HE_UPLINK = 0x2"
definition IWL_RX_PHY_DATA0_HE_BSS_COLOR_MASK :: u32 where [fw_fields]: "IWL_RX_PHY_DATA0_HE_BSS_COLOR_MASK = 0xfc"
definition IWL_RX_PHY_DATA0_HE_SPATIAL_REUSE_MASK :: u32 where [fw_fields]: "IWL_RX_PHY_DATA0_HE_SPATIAL_REUSE_MASK = 0xf00"
definition IWL_RX_PHY_DATA0_HE_TXOP_DUR_MASK :: u32 where [fw_fields]: "IWL_RX_PHY_DATA0_HE_TXOP_DUR_MASK = 0xfe000"
definition IWL_RX_PHY_DATA0_HE_LDPC_EXT_SYM :: u32 where [fw_fields]: "IWL_RX_PHY_DATA0_HE_LDPC_EXT_SYM = 0x100000"
definition IWL_RX_PHY_DATA0_HE_PRE_FEC_PAD_MASK :: u32 where [fw_fields]: "IWL_RX_PHY_DATA0_HE_PRE_FEC_PAD_MASK = 0x600000"
definition IWL_RX_PHY_DATA0_HE_PE_DISAMBIG :: u32 where [fw_fields]: "IWL_RX_PHY_DATA0_HE_PE_DISAMBIG = 0x800000"
definition IWL_RX_PHY_DATA0_HE_DOPPLER :: u32 where [fw_fields]: "IWL_RX_PHY_DATA0_HE_DOPPLER = 0x1000000"
definition IWL_RX_PHY_DATA0_HE_DELIM_EOF :: u32 where [fw_fields]: "IWL_RX_PHY_DATA0_HE_DELIM_EOF = 0x80000000"
definition IWL_RX_PHY_DATA0_EHT_DELIM_EOF :: u32 where [fw_fields]: "IWL_RX_PHY_DATA0_EHT_DELIM_EOF = 0x80000000"
definition IWL_RX_PHY_DATA1_INFO_TYPE_MASK :: u32 where [fw_fields]: "IWL_RX_PHY_DATA1_INFO_TYPE_MASK = 0xf0000000"
definition IWL_RX_PHY_DATA1_LSIG_LEN_MASK :: u32 where [fw_fields]: "IWL_RX_PHY_DATA1_LSIG_LEN_MASK = 0xfff0000"
definition IWL_RX_PHY_DATA1_HE_MU_SIGB_COMPRESSION :: u32 where [fw_fields]: "IWL_RX_PHY_DATA1_HE_MU_SIGB_COMPRESSION = 0x1"
definition IWL_RX_PHY_DATA1_HE_MU_SIBG_SYM_OR_USER_NUM_MASK :: u32 where [fw_fields]: "IWL_RX_PHY_DATA1_HE_MU_SIBG_SYM_OR_USER_NUM_MASK = 0x1e"
definition IWL_RX_PHY_DATA1_HE_LTF_NUM_MASK :: u32 where [fw_fields]: "IWL_RX_PHY_DATA1_HE_LTF_NUM_MASK = 0xe0"
definition IWL_RX_PHY_DATA1_HE_RU_ALLOC_SEC80 :: u32 where [fw_fields]: "IWL_RX_PHY_DATA1_HE_RU_ALLOC_SEC80 = 0x100"
definition IWL_RX_PHY_DATA1_HE_RU_ALLOC_MASK :: u32 where [fw_fields]: "IWL_RX_PHY_DATA1_HE_RU_ALLOC_MASK = 0xfe00"
definition IWL_RX_PHY_DATA2_HE_MU_EXT_CH1_RU0 :: u32 where [fw_fields]: "IWL_RX_PHY_DATA2_HE_MU_EXT_CH1_RU0 = 0xff"
definition IWL_RX_PHY_DATA2_HE_MU_EXT_CH1_RU2 :: u32 where [fw_fields]: "IWL_RX_PHY_DATA2_HE_MU_EXT_CH1_RU2 = 0xff00"
definition IWL_RX_PHY_DATA2_HE_MU_EXT_CH2_RU0 :: u32 where [fw_fields]: "IWL_RX_PHY_DATA2_HE_MU_EXT_CH2_RU0 = 0xff0000"
definition IWL_RX_PHY_DATA2_HE_MU_EXT_CH2_RU2 :: u32 where [fw_fields]: "IWL_RX_PHY_DATA2_HE_MU_EXT_CH2_RU2 = 0xff000000"
definition IWL_RX_PHY_DATA2_HE_TB_EXT_SPTL_REUSE1 :: u32 where [fw_fields]: "IWL_RX_PHY_DATA2_HE_TB_EXT_SPTL_REUSE1 = 0xf"
definition IWL_RX_PHY_DATA2_HE_TB_EXT_SPTL_REUSE2 :: u32 where [fw_fields]: "IWL_RX_PHY_DATA2_HE_TB_EXT_SPTL_REUSE2 = 0xf0"
definition IWL_RX_PHY_DATA2_HE_TB_EXT_SPTL_REUSE3 :: u32 where [fw_fields]: "IWL_RX_PHY_DATA2_HE_TB_EXT_SPTL_REUSE3 = 0xf00"
definition IWL_RX_PHY_DATA2_HE_TB_EXT_SPTL_REUSE4 :: u32 where [fw_fields]: "IWL_RX_PHY_DATA2_HE_TB_EXT_SPTL_REUSE4 = 0xf000"
definition IWL_RX_PHY_DATA3_HE_MU_EXT_CH1_RU1 :: u32 where [fw_fields]: "IWL_RX_PHY_DATA3_HE_MU_EXT_CH1_RU1 = 0xff"
definition IWL_RX_PHY_DATA3_HE_MU_EXT_CH1_RU3 :: u32 where [fw_fields]: "IWL_RX_PHY_DATA3_HE_MU_EXT_CH1_RU3 = 0xff00"
definition IWL_RX_PHY_DATA3_HE_MU_EXT_CH2_RU1 :: u32 where [fw_fields]: "IWL_RX_PHY_DATA3_HE_MU_EXT_CH2_RU1 = 0xff0000"
definition IWL_RX_PHY_DATA3_HE_MU_EXT_CH2_RU3 :: u32 where [fw_fields]: "IWL_RX_PHY_DATA3_HE_MU_EXT_CH2_RU3 = 0xff000000"
definition IWL_RX_PHY_DATA4_HE_MU_EXT_CH1_CTR_RU :: u16 where [fw_fields]: "IWL_RX_PHY_DATA4_HE_MU_EXT_CH1_CTR_RU = 0x1"
definition IWL_RX_PHY_DATA4_HE_MU_EXT_CH2_CTR_RU :: u16 where [fw_fields]: "IWL_RX_PHY_DATA4_HE_MU_EXT_CH2_CTR_RU = 0x2"
definition IWL_RX_PHY_DATA4_HE_MU_EXT_CH1_CRC_OK :: u16 where [fw_fields]: "IWL_RX_PHY_DATA4_HE_MU_EXT_CH1_CRC_OK = 0x4"
definition IWL_RX_PHY_DATA4_HE_MU_EXT_CH2_CRC_OK :: u16 where [fw_fields]: "IWL_RX_PHY_DATA4_HE_MU_EXT_CH2_CRC_OK = 0x8"
definition IWL_RX_PHY_DATA4_HE_MU_EXT_SIGB_MCS_MASK :: u16 where [fw_fields]: "IWL_RX_PHY_DATA4_HE_MU_EXT_SIGB_MCS_MASK = 0xf0"
definition IWL_RX_PHY_DATA4_HE_MU_EXT_SIGB_DCM :: u16 where [fw_fields]: "IWL_RX_PHY_DATA4_HE_MU_EXT_SIGB_DCM = 0x100"
definition IWL_RX_PHY_DATA4_HE_MU_EXT_PREAMBLE_PUNC_TYPE_MASK :: u16 where [fw_fields]: "IWL_RX_PHY_DATA4_HE_MU_EXT_PREAMBLE_PUNC_TYPE_MASK = 0x600"
definition IEEE80211_RADIOTAP_HE_DATA1_BSS_COLOR_KNOWN :: u16 where [rt_fields]: "IEEE80211_RADIOTAP_HE_DATA1_BSS_COLOR_KNOWN = 0x4"
definition IEEE80211_RADIOTAP_HE_DATA1_BEAM_CHANGE_KNOWN :: u16 where [rt_fields]: "IEEE80211_RADIOTAP_HE_DATA1_BEAM_CHANGE_KNOWN = 0x8"
definition IEEE80211_RADIOTAP_HE_DATA1_UL_DL_KNOWN :: u16 where [rt_fields]: "IEEE80211_RADIOTAP_HE_DATA1_UL_DL_KNOWN = 0x10"
definition IEEE80211_RADIOTAP_HE_DATA1_DATA_MCS_KNOWN :: u16 where [rt_fields]: "IEEE80211_RADIOTAP_HE_DATA1_DATA_MCS_KNOWN = 0x20"
definition IEEE80211_RADIOTAP_HE_DATA1_DATA_DCM_KNOWN :: u16 where [rt_fields]: "IEEE80211_RADIOTAP_HE_DATA1_DATA_DCM_KNOWN = 0x40"
definition IEEE80211_RADIOTAP_HE_DATA1_CODING_KNOWN :: u16 where [rt_fields]: "IEEE80211_RADIOTAP_HE_DATA1_CODING_KNOWN = 0x80"
definition IEEE80211_RADIOTAP_HE_DATA1_LDPC_XSYMSEG_KNOWN :: u16 where [rt_fields]: "IEEE80211_RADIOTAP_HE_DATA1_LDPC_XSYMSEG_KNOWN = 0x100"
definition IEEE80211_RADIOTAP_HE_DATA1_STBC_KNOWN :: u16 where [rt_fields]: "IEEE80211_RADIOTAP_HE_DATA1_STBC_KNOWN = 0x200"
definition IEEE80211_RADIOTAP_HE_DATA1_SPTL_REUSE_KNOWN :: u16 where [rt_fields]: "IEEE80211_RADIOTAP_HE_DATA1_SPTL_REUSE_KNOWN = 0x400"
definition IEEE80211_RADIOTAP_HE_DATA1_SPTL_REUSE2_KNOWN :: u16 where [rt_fields]: "IEEE80211_RADIOTAP_HE_DATA1_SPTL_REUSE2_KNOWN = 0x800"
definition IEEE80211_RADIOTAP_HE_DATA1_SPTL_REUSE3_KNOWN :: u16 where [rt_fields]: "IEEE80211_RADIOTAP_HE_DATA1_SPTL_REUSE3_KNOWN = 0x1000"
definition IEEE80211_RADIOTAP_HE_DATA1_SPTL_REUSE4_KNOWN :: u16 where [rt_fields]: "IEEE80211_RADIOTAP_HE_DATA1_SPTL_REUSE4_KNOWN = 0x2000"
definition IEEE80211_RADIOTAP_HE_DATA1_BW_RU_ALLOC_KNOWN :: u16 where [rt_fields]: "IEEE80211_RADIOTAP_HE_DATA1_BW_RU_ALLOC_KNOWN = 0x4000"
definition IEEE80211_RADIOTAP_HE_DATA1_DOPPLER_KNOWN :: u16 where [rt_fields]: "IEEE80211_RADIOTAP_HE_DATA1_DOPPLER_KNOWN = 0x8000"
definition IEEE80211_RADIOTAP_HE_DATA2_PRISEC_80_KNOWN :: u16 where [rt_fields]: "IEEE80211_RADIOTAP_HE_DATA2_PRISEC_80_KNOWN = 0x1"
definition IEEE80211_RADIOTAP_HE_DATA2_GI_KNOWN :: u16 where [rt_fields]: "IEEE80211_RADIOTAP_HE_DATA2_GI_KNOWN = 0x2"
definition IEEE80211_RADIOTAP_HE_DATA2_NUM_LTF_SYMS_KNOWN :: u16 where [rt_fields]: "IEEE80211_RADIOTAP_HE_DATA2_NUM_LTF_SYMS_KNOWN = 0x4"
definition IEEE80211_RADIOTAP_HE_DATA2_PRE_FEC_PAD_KNOWN :: u16 where [rt_fields]: "IEEE80211_RADIOTAP_HE_DATA2_PRE_FEC_PAD_KNOWN = 0x8"
definition IEEE80211_RADIOTAP_HE_DATA2_TXBF_KNOWN :: u16 where [rt_fields]: "IEEE80211_RADIOTAP_HE_DATA2_TXBF_KNOWN = 0x10"
definition IEEE80211_RADIOTAP_HE_DATA2_PE_DISAMBIG_KNOWN :: u16 where [rt_fields]: "IEEE80211_RADIOTAP_HE_DATA2_PE_DISAMBIG_KNOWN = 0x20"
definition IEEE80211_RADIOTAP_HE_DATA2_TXOP_KNOWN :: u16 where [rt_fields]: "IEEE80211_RADIOTAP_HE_DATA2_TXOP_KNOWN = 0x40"
definition IEEE80211_RADIOTAP_HE_DATA2_RU_OFFSET :: u16 where [rt_fields]: "IEEE80211_RADIOTAP_HE_DATA2_RU_OFFSET = 0x3f00"
definition IEEE80211_RADIOTAP_HE_DATA2_RU_OFFSET_KNOWN :: u16 where [rt_fields]: "IEEE80211_RADIOTAP_HE_DATA2_RU_OFFSET_KNOWN = 0x4000"
definition IEEE80211_RADIOTAP_HE_DATA2_PRISEC_80_SEC :: u16 where [rt_fields]: "IEEE80211_RADIOTAP_HE_DATA2_PRISEC_80_SEC = 0x8000"
definition IEEE80211_RADIOTAP_HE_DATA3_BSS_COLOR :: u16 where [rt_fields]: "IEEE80211_RADIOTAP_HE_DATA3_BSS_COLOR = 0x3f"
definition IEEE80211_RADIOTAP_HE_DATA3_BEAM_CHANGE :: u16 where [rt_fields]: "IEEE80211_RADIOTAP_HE_DATA3_BEAM_CHANGE = 0x40"
definition IEEE80211_RADIOTAP_HE_DATA3_UL_DL :: u16 where [rt_fields]: "IEEE80211_RADIOTAP_HE_DATA3_UL_DL = 0x80"
definition IEEE80211_RADIOTAP_HE_DATA3_DATA_MCS :: u16 where [rt_fields]: "IEEE80211_RADIOTAP_HE_DATA3_DATA_MCS = 0xf00"
definition IEEE80211_RADIOTAP_HE_DATA3_DATA_DCM :: u16 where [rt_fields]: "IEEE80211_RADIOTAP_HE_DATA3_DATA_DCM = 0x1000"
definition IEEE80211_RADIOTAP_HE_DATA3_CODING :: u16 where [rt_fields]: "IEEE80211_RADIOTAP_HE_DATA3_CODING = 0x2000"
definition IEEE80211_RADIOTAP_HE_DATA3_LDPC_XSYMSEG :: u16 where [rt_fields]: "IEEE80211_RADIOTAP_HE_DATA3_LDPC_XSYMSEG = 0x4000"
definition IEEE80211_RADIOTAP_HE_DATA3_STBC :: u16 where [rt_fields]: "IEEE80211_RADIOTAP_HE_DATA3_STBC = 0x8000"
definition IEEE80211_RADIOTAP_HE_DATA4_SU_MU_SPTL_REUSE :: u16 where [rt_fields]: "IEEE80211_RADIOTAP_HE_DATA4_SU_MU_SPTL_REUSE = 0xf"
definition IEEE80211_RADIOTAP_HE_DATA4_TB_SPTL_REUSE1 :: u16 where [rt_fields]: "IEEE80211_RADIOTAP_HE_DATA4_TB_SPTL_REUSE1 = 0xf"
definition IEEE80211_RADIOTAP_HE_DATA4_TB_SPTL_REUSE2 :: u16 where [rt_fields]: "IEEE80211_RADIOTAP_HE_DATA4_TB_SPTL_REUSE2 = 0xf0"
definition IEEE80211_RADIOTAP_HE_DATA4_TB_SPTL_REUSE3 :: u16 where [rt_fields]: "IEEE80211_RADIOTAP_HE_DATA4_TB_SPTL_REUSE3 = 0xf00"
definition IEEE80211_RADIOTAP_HE_DATA4_TB_SPTL_REUSE4 :: u16 where [rt_fields]: "IEEE80211_RADIOTAP_HE_DATA4_TB_SPTL_REUSE4 = 0xf000"
definition IEEE80211_RADIOTAP_HE_DATA5_DATA_BW_RU_ALLOC :: u16 where [rt_fields]: "IEEE80211_RADIOTAP_HE_DATA5_DATA_BW_RU_ALLOC = 0xf"
definition IEEE80211_RADIOTAP_HE_DATA5_GI :: u16 where [rt_fields]: "IEEE80211_RADIOTAP_HE_DATA5_GI = 0x30"
definition IEEE80211_RADIOTAP_HE_DATA5_LTF_SIZE :: u16 where [rt_fields]: "IEEE80211_RADIOTAP_HE_DATA5_LTF_SIZE = 0xc0"
definition IEEE80211_RADIOTAP_HE_DATA5_NUM_LTF_SYMS :: u16 where [rt_fields]: "IEEE80211_RADIOTAP_HE_DATA5_NUM_LTF_SYMS = 0x700"
definition IEEE80211_RADIOTAP_HE_DATA5_PRE_FEC_PAD :: u16 where [rt_fields]: "IEEE80211_RADIOTAP_HE_DATA5_PRE_FEC_PAD = 0x3000"
definition IEEE80211_RADIOTAP_HE_DATA5_TXBF :: u16 where [rt_fields]: "IEEE80211_RADIOTAP_HE_DATA5_TXBF = 0x4000"
definition IEEE80211_RADIOTAP_HE_DATA5_PE_DISAMBIG :: u16 where [rt_fields]: "IEEE80211_RADIOTAP_HE_DATA5_PE_DISAMBIG = 0x8000"
definition IEEE80211_RADIOTAP_HE_DATA6_NSTS :: u16 where [rt_fields]: "IEEE80211_RADIOTAP_HE_DATA6_NSTS = 0xf"
definition IEEE80211_RADIOTAP_HE_DATA6_DOPPLER :: u16 where [rt_fields]: "IEEE80211_RADIOTAP_HE_DATA6_DOPPLER = 0x10"
definition IEEE80211_RADIOTAP_HE_DATA6_TB_PPDU_BW_KNOWN :: u16 where [rt_fields]: "IEEE80211_RADIOTAP_HE_DATA6_TB_PPDU_BW_KNOWN = 0x20"
definition IEEE80211_RADIOTAP_HE_DATA6_TB_PPDU_BW :: u16 where [rt_fields]: "IEEE80211_RADIOTAP_HE_DATA6_TB_PPDU_BW = 0xc0"
definition IEEE80211_RADIOTAP_HE_DATA6_TXOP :: u16 where [rt_fields]: "IEEE80211_RADIOTAP_HE_DATA6_TXOP = 0x7f00"
definition IEEE80211_RADIOTAP_HE_DATA5_LTF_SIZE_UNKNOWN :: u16 where [rt_fields]: "IEEE80211_RADIOTAP_HE_DATA5_LTF_SIZE_UNKNOWN = 0x0"
definition IEEE80211_RADIOTAP_HE_DATA5_LTF_SIZE_1X :: u16 where [rt_fields]: "IEEE80211_RADIOTAP_HE_DATA5_LTF_SIZE_1X = 0x1"
definition IEEE80211_RADIOTAP_HE_DATA5_LTF_SIZE_2X :: u16 where [rt_fields]: "IEEE80211_RADIOTAP_HE_DATA5_LTF_SIZE_2X = 0x2"
definition IEEE80211_RADIOTAP_HE_DATA5_LTF_SIZE_4X :: u16 where [rt_fields]: "IEEE80211_RADIOTAP_HE_DATA5_LTF_SIZE_4X = 0x3"
definition IEEE80211_RADIOTAP_HE_MU_FLAGS1_SIG_B_MCS :: u16 where [rt_fields]: "IEEE80211_RADIOTAP_HE_MU_FLAGS1_SIG_B_MCS = 0xf"
definition IEEE80211_RADIOTAP_HE_MU_FLAGS1_SIG_B_MCS_KNOWN :: u16 where [rt_fields]: "IEEE80211_RADIOTAP_HE_MU_FLAGS1_SIG_B_MCS_KNOWN = 0x10"
definition IEEE80211_RADIOTAP_HE_MU_FLAGS1_SIG_B_DCM :: u16 where [rt_fields]: "IEEE80211_RADIOTAP_HE_MU_FLAGS1_SIG_B_DCM = 0x20"
definition IEEE80211_RADIOTAP_HE_MU_FLAGS1_SIG_B_DCM_KNOWN :: u16 where [rt_fields]: "IEEE80211_RADIOTAP_HE_MU_FLAGS1_SIG_B_DCM_KNOWN = 0x40"
definition IEEE80211_RADIOTAP_HE_MU_FLAGS1_CH2_CTR_26T_RU_KNOWN :: u16 where [rt_fields]: "IEEE80211_RADIOTAP_HE_MU_FLAGS1_CH2_CTR_26T_RU_KNOWN = 0x80"
definition IEEE80211_RADIOTAP_HE_MU_FLAGS1_CH1_RU_KNOWN :: u16 where [rt_fields]: "IEEE80211_RADIOTAP_HE_MU_FLAGS1_CH1_RU_KNOWN = 0x100"
definition IEEE80211_RADIOTAP_HE_MU_FLAGS1_CH2_RU_KNOWN :: u16 where [rt_fields]: "IEEE80211_RADIOTAP_HE_MU_FLAGS1_CH2_RU_KNOWN = 0x200"
definition IEEE80211_RADIOTAP_HE_MU_FLAGS1_CH1_CTR_26T_RU_KNOWN :: u16 where [rt_fields]: "IEEE80211_RADIOTAP_HE_MU_FLAGS1_CH1_CTR_26T_RU_KNOWN = 0x1000"
definition IEEE80211_RADIOTAP_HE_MU_FLAGS1_CH1_CTR_26T_RU :: u16 where [rt_fields]: "IEEE80211_RADIOTAP_HE_MU_FLAGS1_CH1_CTR_26T_RU = 0x2000"
definition IEEE80211_RADIOTAP_HE_MU_FLAGS1_SIG_B_COMP_KNOWN :: u16 where [rt_fields]: "IEEE80211_RADIOTAP_HE_MU_FLAGS1_SIG_B_COMP_KNOWN = 0x4000"
definition IEEE80211_RADIOTAP_HE_MU_FLAGS1_SIG_B_SYMS_USERS_KNOWN :: u16 where [rt_fields]: "IEEE80211_RADIOTAP_HE_MU_FLAGS1_SIG_B_SYMS_USERS_KNOWN = 0x8000"
definition IEEE80211_RADIOTAP_HE_MU_FLAGS2_BW_FROM_SIG_A_BW :: u16 where [rt_fields]: "IEEE80211_RADIOTAP_HE_MU_FLAGS2_BW_FROM_SIG_A_BW = 0x3"
definition IEEE80211_RADIOTAP_HE_MU_FLAGS2_BW_FROM_SIG_A_BW_KNOWN :: u16 where [rt_fields]: "IEEE80211_RADIOTAP_HE_MU_FLAGS2_BW_FROM_SIG_A_BW_KNOWN = 0x4"
definition IEEE80211_RADIOTAP_HE_MU_FLAGS2_SIG_B_COMP :: u16 where [rt_fields]: "IEEE80211_RADIOTAP_HE_MU_FLAGS2_SIG_B_COMP = 0x8"
definition IEEE80211_RADIOTAP_HE_MU_FLAGS2_SIG_B_SYMS_USERS :: u16 where [rt_fields]: "IEEE80211_RADIOTAP_HE_MU_FLAGS2_SIG_B_SYMS_USERS = 0xf0"
definition IEEE80211_RADIOTAP_HE_MU_FLAGS2_PUNC_FROM_SIG_A_BW :: u16 where [rt_fields]: "IEEE80211_RADIOTAP_HE_MU_FLAGS2_PUNC_FROM_SIG_A_BW = 0x300"
definition IEEE80211_RADIOTAP_HE_MU_FLAGS2_PUNC_FROM_SIG_A_BW_KNOWN :: u16 where [rt_fields]: "IEEE80211_RADIOTAP_HE_MU_FLAGS2_PUNC_FROM_SIG_A_BW_KNOWN = 0x400"
definition IEEE80211_RADIOTAP_HE_MU_FLAGS2_CH2_CTR_26T_RU :: u16 where [rt_fields]: "IEEE80211_RADIOTAP_HE_MU_FLAGS2_CH2_CTR_26T_RU = 0x800"
definition IEEE80211_RADIOTAP_LSIG_DATA1_LENGTH_KNOWN :: u16 where [rt_fields]: "IEEE80211_RADIOTAP_LSIG_DATA1_LENGTH_KNOWN = 0x2"
definition IEEE80211_RADIOTAP_LSIG_DATA2_LENGTH :: u16 where [rt_fields]: "IEEE80211_RADIOTAP_LSIG_DATA2_LENGTH = 0xfff0"
definition RATE_MCS_HE_TYPE_TRIG_V1 :: u32 where [rate_consts]: "RATE_MCS_HE_TYPE_TRIG_V1 = push_bit 22 3"

section \<open>The report to mac80211\<close>

datatype rx_encoding = RX_ENC_LEGACY | RX_ENC_HT | RX_ENC_VHT | RX_ENC_HE | RX_ENC_EHT

datatype rate_info_bw =
    RATE_INFO_BW_20 | RATE_INFO_BW_5 | RATE_INFO_BW_10 | RATE_INFO_BW_40 | RATE_INFO_BW_80
  | RATE_INFO_BW_160 | RATE_INFO_BW_HE_RU | RATE_INFO_BW_320 | RATE_INFO_BW_EHT_RU

datatype rate_info_he_gi = NL80211_RATE_INFO_HE_GI_0_8 | NL80211_RATE_INFO_HE_GI_1_6 | NL80211_RATE_INFO_HE_GI_3_2

datatype rate_info_eht_gi = NL80211_RATE_INFO_EHT_GI_0_8 | NL80211_RATE_INFO_EHT_GI_1_6 | NL80211_RATE_INFO_EHT_GI_3_2

datatype nl80211_he_ru_alloc =
    NL80211_RATE_INFO_HE_RU_ALLOC_26 | NL80211_RATE_INFO_HE_RU_ALLOC_52 | NL80211_RATE_INFO_HE_RU_ALLOC_106
  | NL80211_RATE_INFO_HE_RU_ALLOC_242 | NL80211_RATE_INFO_HE_RU_ALLOC_484 | NL80211_RATE_INFO_HE_RU_ALLOC_996
  | NL80211_RATE_INFO_HE_RU_ALLOC_2x996

datatype nl80211_eht_ru_alloc =
    NL80211_RATE_INFO_EHT_RU_ALLOC_26 | NL80211_RATE_INFO_EHT_RU_ALLOC_52 | NL80211_RATE_INFO_EHT_RU_ALLOC_52P26
  | NL80211_RATE_INFO_EHT_RU_ALLOC_106 | NL80211_RATE_INFO_EHT_RU_ALLOC_106P26 | NL80211_RATE_INFO_EHT_RU_ALLOC_242
  | NL80211_RATE_INFO_EHT_RU_ALLOC_484 | NL80211_RATE_INFO_EHT_RU_ALLOC_484P242 | NL80211_RATE_INFO_EHT_RU_ALLOC_996
  | NL80211_RATE_INFO_EHT_RU_ALLOC_996P484 | NL80211_RATE_INFO_EHT_RU_ALLOC_996P484P242
  | NL80211_RATE_INFO_EHT_RU_ALLOC_2x996 | NL80211_RATE_INFO_EHT_RU_ALLOC_2x996P484
  | NL80211_RATE_INFO_EHT_RU_ALLOC_3x996 | NL80211_RATE_INFO_EHT_RU_ALLOC_3x996P484
  | NL80211_RATE_INFO_EHT_RU_ALLOC_4x996

text \<open>
  The HE and the EHT members share storage in the C structure; a frame has one of the two encodings
  and only the members of that encoding are written.
\<close>

record mvm_rx_status =
  ms_mactime :: u64
  ms_boottime_ns :: u64
  ms_device_timestamp :: u32
  ms_ampdu_reference :: u32
  ms_flag :: u32
  ms_freq :: int
  ms_enc_flags :: u8
  ms_encoding :: rx_encoding
  ms_bw :: rate_info_bw
  ms_he_ru :: nl80211_he_ru_alloc
  ms_he_gi :: rate_info_he_gi
  ms_he_dcm :: bool
  ms_eht_ru :: nl80211_eht_ru_alloc
  ms_eht_gi :: rate_info_eht_gi
  ms_rate_idx :: u8
  ms_nss :: u8
  ms_band :: nl80211_band
  ms_signal :: "8 word"
  ms_chains :: u8
  ms_chain_signal :: "8 word \<times> 8 word"
  ms_zero_length_psdu_type :: u8

section \<open>The PHY data of a frame\<close>

record iwl_mvm_rx_phy_data =
  pd_info_type :: u32
  pd_d0 :: u32
  pd_d1 :: u32
  pd_d2 :: u32
  pd_d3 :: u32
  pd_eht_d4 :: u32
  pd_d5 :: u32
  pd_d4 :: u16
  pd_with_data :: bool
  pd_first_subframe :: bool
  pd_rx_vec :: "u32 list"
  pd_rate_n_flags :: u32
  pd_gp2_on_air_rise :: u32
  pd_phy_info :: u16
  pd_energy_a :: u8
  pd_energy_b :: u8
  pd_channel :: u8

section \<open>The HE fields\<close>

record radiotap_he =
  he_data1 :: u16
  he_data2 :: u16
  he_data3 :: u16
  he_data4 :: u16
  he_data5 :: u16
  he_data6 :: u16

record radiotap_he_mu =
  mu_flags1 :: u16
  mu_flags2 :: u16
  mu_ru_ch1 :: "u8 list"
  mu_ru_ch2 :: "u8 list"

definition iwl_mvm_decode_he_mu_ext :: "iwl_mvm_rx_phy_data \<Rightarrow> radiotap_he_mu \<Rightarrow> radiotap_he_mu" where
  "iwl_mvm_decode_he_mu_ext pd mu =
     (let phy_data2 = pd_d2 pd; phy_data3 = pd_d3 pd; phy_data4 = pd_d4 pd;
          mu = (if get_bits phy_data4 IWL_RX_PHY_DATA4_HE_MU_EXT_CH1_CRC_OK \<noteq> 0
            then mu\<lparr>mu_flags1 := mu_flags1 mu OR IEEE80211_RADIOTAP_HE_MU_FLAGS1_CH1_RU_KNOWN OR
                     IEEE80211_RADIOTAP_HE_MU_FLAGS1_CH1_CTR_26T_RU_KNOWN OR
                     dec_enc phy_data4 IWL_RX_PHY_DATA4_HE_MU_EXT_CH1_CTR_RU
                       IEEE80211_RADIOTAP_HE_MU_FLAGS1_CH1_CTR_26T_RU,
                   mu_ru_ch1 := [ucast (get_bits phy_data2 IWL_RX_PHY_DATA2_HE_MU_EXT_CH1_RU0),
                     ucast (get_bits phy_data3 IWL_RX_PHY_DATA3_HE_MU_EXT_CH1_RU1),
                     ucast (get_bits phy_data2 IWL_RX_PHY_DATA2_HE_MU_EXT_CH1_RU2),
                     ucast (get_bits phy_data3 IWL_RX_PHY_DATA3_HE_MU_EXT_CH1_RU3)]\<rparr>
            else mu)
      in if get_bits phy_data4 IWL_RX_PHY_DATA4_HE_MU_EXT_CH2_CRC_OK \<noteq> 0 \<and>
            pd_rate_n_flags pd AND RATE_MCS_CHAN_WIDTH_MSK_V1 \<noteq> RATE_MCS_CHAN_WIDTH_20
         then mu\<lparr>mu_flags1 := mu_flags1 mu OR IEEE80211_RADIOTAP_HE_MU_FLAGS1_CH2_RU_KNOWN OR
                  IEEE80211_RADIOTAP_HE_MU_FLAGS1_CH2_CTR_26T_RU_KNOWN,
                mu_flags2 := mu_flags2 mu OR
                  dec_enc phy_data4 IWL_RX_PHY_DATA4_HE_MU_EXT_CH2_CTR_RU
                    IEEE80211_RADIOTAP_HE_MU_FLAGS2_CH2_CTR_26T_RU,
                mu_ru_ch2 := [ucast (get_bits phy_data2 IWL_RX_PHY_DATA2_HE_MU_EXT_CH2_RU0),
                  ucast (get_bits phy_data3 IWL_RX_PHY_DATA3_HE_MU_EXT_CH2_RU1),
                  ucast (get_bits phy_data2 IWL_RX_PHY_DATA2_HE_MU_EXT_CH2_RU2),
                  ucast (get_bits phy_data3 IWL_RX_PHY_DATA3_HE_MU_EXT_CH2_RU3)]\<rparr>
         else mu)"

text \<open>The switch over the resource unit: its size and its index among those of that size.\<close>

definition he_ru_switch :: "nat \<Rightarrow> (nl80211_he_ru_alloc \<times> nat) option" where
  "he_ru_switch ru =
     (if ru \<le> 36 then Some (NL80211_RATE_INFO_HE_RU_ALLOC_26, ru)
      else if ru \<le> 52 then Some (NL80211_RATE_INFO_HE_RU_ALLOC_52, ru - 37)
      else if ru \<le> 60 then Some (NL80211_RATE_INFO_HE_RU_ALLOC_106, ru - 53)
      else if ru \<le> 64 then Some (NL80211_RATE_INFO_HE_RU_ALLOC_242, ru - 61)
      else if ru \<le> 66 then Some (NL80211_RATE_INFO_HE_RU_ALLOC_484, ru - 65)
      else if ru = 67 then Some (NL80211_RATE_INFO_HE_RU_ALLOC_996, 0)
      else if ru = 68 then Some (NL80211_RATE_INFO_HE_RU_ALLOC_2x996, 0)
      else None)"

definition ru_alloc_he :: "iwl_mvm_rx_phy_data \<Rightarrow> bool \<Rightarrow> radiotap_he \<Rightarrow> radiotap_he" where
  "ru_alloc_he pd has_mu he =
     (let ru = unat (get_bits (pd_d1 pd) IWL_RX_PHY_DATA1_HE_RU_ALLOC_MASK);
          rate_n_flags = pd_rate_n_flags pd;
          he_type = rate_n_flags AND RATE_MCS_HE_TYPE_MSK_V1;
          offs = (case he_ru_switch ru of None \<Rightarrow> 0 | Some (alloc, offs) \<Rightarrow> offs)
      in he\<lparr>he_data1 := he_data1 he OR IEEE80211_RADIOTAP_HE_DATA1_BW_RU_ALLOC_KNOWN,
            he_data2 := he_data2 he OR encode_bits (of_nat offs) IEEE80211_RADIOTAP_HE_DATA2_RU_OFFSET OR
              IEEE80211_RADIOTAP_HE_DATA2_PRISEC_80_KNOWN OR IEEE80211_RADIOTAP_HE_DATA2_RU_OFFSET_KNOWN OR
              (if tst (pd_d1 pd) IWL_RX_PHY_DATA1_HE_RU_ALLOC_SEC80 then IEEE80211_RADIOTAP_HE_DATA2_PRISEC_80_SEC else 0),
            he_data6 := he_data6 he OR
              (if \<not> has_mu \<and> he_type = RATE_MCS_HE_TYPE_TRIG_V1
               then IEEE80211_RADIOTAP_HE_DATA6_TB_PPDU_BW_KNOWN OR
                 dec_enc rate_n_flags RATE_MCS_CHAN_WIDTH_MSK_V1 IEEE80211_RADIOTAP_HE_DATA6_TB_PPDU_BW
               else 0)\<rparr>)"

definition ru_alloc_mu :: "iwl_mvm_rx_phy_data \<Rightarrow> radiotap_he_mu \<Rightarrow> radiotap_he_mu" where
  "ru_alloc_mu pd mu = mu\<lparr>mu_flags2 := mu_flags2 mu OR
     dec_enc (pd_rate_n_flags pd) RATE_MCS_CHAN_WIDTH_MSK_V1 IEEE80211_RADIOTAP_HE_MU_FLAGS2_BW_FROM_SIG_A_BW\<rparr>"

definition ru_alloc_status :: "iwl_mvm_rx_phy_data \<Rightarrow> mvm_rx_status \<Rightarrow> mvm_rx_status" where
  "ru_alloc_status pd s =
     s\<lparr>ms_bw := RATE_INFO_BW_HE_RU,
       ms_he_ru := (case he_ru_switch (unat (get_bits (pd_d1 pd) IWL_RX_PHY_DATA1_HE_RU_ALLOC_MASK)) of
          None \<Rightarrow> ms_he_ru s | Some (alloc, offs) \<Rightarrow> alloc)\<rparr>"

definition iwl_mvm_decode_he_phy_ru_alloc ::
  "iwl_mvm_rx_phy_data \<Rightarrow> radiotap_he \<Rightarrow> radiotap_he_mu option \<Rightarrow> mvm_rx_status
   \<Rightarrow> radiotap_he \<times> radiotap_he_mu option \<times> mvm_rx_status"
where
  "iwl_mvm_decode_he_phy_ru_alloc pd he he_mu s =
     (ru_alloc_he pd (he_mu \<noteq> None) he, map_option (ru_alloc_mu pd) he_mu, ru_alloc_status pd s)"

text \<open>The first switch of \<open>iwl_mvm_decode_he_phy_data\<close>: what all HE frames report.\<close>

definition he_tb_ext_fields :: "iwl_mvm_rx_phy_data \<Rightarrow> radiotap_he \<Rightarrow> radiotap_he" where
  "he_tb_ext_fields pd he =
     he\<lparr>he_data1 := he_data1 he OR IEEE80211_RADIOTAP_HE_DATA1_SPTL_REUSE_KNOWN OR
          IEEE80211_RADIOTAP_HE_DATA1_SPTL_REUSE2_KNOWN OR IEEE80211_RADIOTAP_HE_DATA1_SPTL_REUSE3_KNOWN OR
          IEEE80211_RADIOTAP_HE_DATA1_SPTL_REUSE4_KNOWN,
        he_data4 := he_data4 he OR
          dec_enc (pd_d2 pd) IWL_RX_PHY_DATA2_HE_TB_EXT_SPTL_REUSE1 IEEE80211_RADIOTAP_HE_DATA4_TB_SPTL_REUSE1 OR
          dec_enc (pd_d2 pd) IWL_RX_PHY_DATA2_HE_TB_EXT_SPTL_REUSE2 IEEE80211_RADIOTAP_HE_DATA4_TB_SPTL_REUSE2 OR
          dec_enc (pd_d2 pd) IWL_RX_PHY_DATA2_HE_TB_EXT_SPTL_REUSE3 IEEE80211_RADIOTAP_HE_DATA4_TB_SPTL_REUSE3 OR
          dec_enc (pd_d2 pd) IWL_RX_PHY_DATA2_HE_TB_EXT_SPTL_REUSE4 IEEE80211_RADIOTAP_HE_DATA4_TB_SPTL_REUSE4\<rparr>"

definition he_common_fields :: "iwl_mvm_rx_phy_data \<Rightarrow> radiotap_he \<Rightarrow> radiotap_he" where
  "he_common_fields pd he =
     (let updown = pd_info_type pd \<noteq> IWL_RX_PHY_INFO_TYPE_HE_TB \<and> pd_info_type pd \<noteq> IWL_RX_PHY_INFO_TYPE_HE_TB_EXT;
          d0 = pd_d0 pd
      in he\<lparr>he_data1 := he_data1 he OR IEEE80211_RADIOTAP_HE_DATA1_LDPC_XSYMSEG_KNOWN OR
              IEEE80211_RADIOTAP_HE_DATA1_DOPPLER_KNOWN OR IEEE80211_RADIOTAP_HE_DATA1_BSS_COLOR_KNOWN OR
              (if updown then IEEE80211_RADIOTAP_HE_DATA1_UL_DL_KNOWN else 0),
            he_data2 := he_data2 he OR IEEE80211_RADIOTAP_HE_DATA2_PRE_FEC_PAD_KNOWN OR
              IEEE80211_RADIOTAP_HE_DATA2_PE_DISAMBIG_KNOWN OR IEEE80211_RADIOTAP_HE_DATA2_TXOP_KNOWN OR
              IEEE80211_RADIOTAP_HE_DATA2_NUM_LTF_SYMS_KNOWN,
            he_data3 := he_data3 he OR
              dec_enc d0 IWL_RX_PHY_DATA0_HE_BSS_COLOR_MASK IEEE80211_RADIOTAP_HE_DATA3_BSS_COLOR OR
              (if updown then dec_enc d0 IWL_RX_PHY_DATA0_HE_UPLINK IEEE80211_RADIOTAP_HE_DATA3_UL_DL else 0) OR
              dec_enc d0 IWL_RX_PHY_DATA0_HE_LDPC_EXT_SYM IEEE80211_RADIOTAP_HE_DATA3_LDPC_XSYMSEG,
            he_data5 := he_data5 he OR
              dec_enc d0 IWL_RX_PHY_DATA0_HE_PRE_FEC_PAD_MASK IEEE80211_RADIOTAP_HE_DATA5_PRE_FEC_PAD OR
              dec_enc d0 IWL_RX_PHY_DATA0_HE_PE_DISAMBIG IEEE80211_RADIOTAP_HE_DATA5_PE_DISAMBIG OR
              dec_enc (pd_d1 pd) IWL_RX_PHY_DATA1_HE_LTF_NUM_MASK IEEE80211_RADIOTAP_HE_DATA5_NUM_LTF_SYMS,
            he_data6 := he_data6 he OR
              dec_enc d0 IWL_RX_PHY_DATA0_HE_TXOP_DUR_MASK IEEE80211_RADIOTAP_HE_DATA6_TXOP OR
              dec_enc d0 IWL_RX_PHY_DATA0_HE_DOPPLER IEEE80211_RADIOTAP_HE_DATA6_DOPPLER\<rparr>)"

text \<open>The second switch.\<close>

definition he_spatial_reuse :: "iwl_mvm_rx_phy_data \<Rightarrow> radiotap_he \<Rightarrow> radiotap_he" where
  "he_spatial_reuse pd he =
     he\<lparr>he_data1 := he_data1 he OR IEEE80211_RADIOTAP_HE_DATA1_SPTL_REUSE_KNOWN,
        he_data4 := he_data4 he OR
          dec_enc (pd_d0 pd) IWL_RX_PHY_DATA0_HE_SPATIAL_REUSE_MASK IEEE80211_RADIOTAP_HE_DATA4_SU_MU_SPTL_REUSE\<rparr>"

text \<open>The cases of the third switch.\<close>

definition he_mu_ext_fields :: "iwl_mvm_rx_phy_data \<Rightarrow> radiotap_he_mu \<Rightarrow> radiotap_he_mu" where
  "he_mu_ext_fields pd mu =
     iwl_mvm_decode_he_mu_ext pd
       (mu\<lparr>mu_flags1 := mu_flags1 mu OR
             dec_enc (pd_d4 pd) IWL_RX_PHY_DATA4_HE_MU_EXT_SIGB_DCM IEEE80211_RADIOTAP_HE_MU_FLAGS1_SIG_B_DCM OR
             dec_enc (pd_d4 pd) IWL_RX_PHY_DATA4_HE_MU_EXT_SIGB_MCS_MASK IEEE80211_RADIOTAP_HE_MU_FLAGS1_SIG_B_MCS,
           mu_flags2 := mu_flags2 mu OR
             dec_enc (pd_d4 pd) IWL_RX_PHY_DATA4_HE_MU_EXT_PREAMBLE_PUNC_TYPE_MASK
               IEEE80211_RADIOTAP_HE_MU_FLAGS2_PUNC_FROM_SIG_A_BW\<rparr>)"

definition he_mu_fields :: "iwl_mvm_rx_phy_data \<Rightarrow> radiotap_he_mu \<Rightarrow> radiotap_he_mu" where
  "he_mu_fields pd mu =
     mu\<lparr>mu_flags2 := mu_flags2 mu OR
          dec_enc (pd_d1 pd) IWL_RX_PHY_DATA1_HE_MU_SIBG_SYM_OR_USER_NUM_MASK
            IEEE80211_RADIOTAP_HE_MU_FLAGS2_SIG_B_SYMS_USERS OR
          dec_enc (pd_d1 pd) IWL_RX_PHY_DATA1_HE_MU_SIGB_COMPRESSION IEEE80211_RADIOTAP_HE_MU_FLAGS2_SIG_B_COMP\<rparr>"

definition he_su_fields :: "iwl_mvm_rx_phy_data \<Rightarrow> radiotap_he \<Rightarrow> radiotap_he" where
  "he_su_fields pd he =
     he\<lparr>he_data1 := he_data1 he OR IEEE80211_RADIOTAP_HE_DATA1_BEAM_CHANGE_KNOWN,
        he_data3 := he_data3 he OR
          dec_enc (pd_d0 pd) IWL_RX_PHY_DATA0_HE_BEAM_CHNG IEEE80211_RADIOTAP_HE_DATA3_BEAM_CHANGE\<rparr>"

text \<open>\<open>None\<close>: the code writes through a \<open>he_mu\<close> that is a null pointer.\<close>

definition iwl_mvm_decode_he_phy_data ::
  "iwl_mvm_rx_phy_data \<Rightarrow> radiotap_he \<Rightarrow> radiotap_he_mu option \<Rightarrow> mvm_rx_status
   \<Rightarrow> (radiotap_he \<times> radiotap_he_mu option \<times> mvm_rx_status) option"
where
  "iwl_mvm_decode_he_phy_data pd he he_mu s =
     (let t = pd_info_type pd in
      if t \<notin> {IWL_RX_PHY_INFO_TYPE_HE_TB_EXT, IWL_RX_PHY_INFO_TYPE_HE_SU, IWL_RX_PHY_INFO_TYPE_HE_MU,
               IWL_RX_PHY_INFO_TYPE_HE_MU_EXT, IWL_RX_PHY_INFO_TYPE_HE_TB} then Some (he, he_mu, s)
      else
        (let he = (if t = IWL_RX_PHY_INFO_TYPE_HE_TB_EXT then he_tb_ext_fields pd he else he);
             he = he_common_fields pd he;
             he = (if t \<in> {IWL_RX_PHY_INFO_TYPE_HE_MU_EXT, IWL_RX_PHY_INFO_TYPE_HE_MU, IWL_RX_PHY_INFO_TYPE_HE_SU}
                   then he_spatial_reuse pd he else he)
         in if t = IWL_RX_PHY_INFO_TYPE_HE_SU then Some (he_su_fields pd he, he_mu, s)
            else if t \<in> {IWL_RX_PHY_INFO_TYPE_HE_MU_EXT, IWL_RX_PHY_INFO_TYPE_HE_MU} then
              (case he_mu of
                 None \<Rightarrow> None
               | Some mu \<Rightarrow>
                   Some (iwl_mvm_decode_he_phy_ru_alloc pd he
                     (Some (he_mu_fields pd (if t = IWL_RX_PHY_INFO_TYPE_HE_MU_EXT then he_mu_ext_fields pd mu else mu))) s))
            else Some (iwl_mvm_decode_he_phy_ru_alloc pd he he_mu s)))"

text \<open>The guard interval and the LTF size, from the three-bit field and the HE type.\<close>

definition he_gi_ltf_switch :: "u32 \<Rightarrow> rate_info_he_gi option \<times> u16" where
  "he_gi_ltf_switch rate_n_flags =
     (let he_type = rate_n_flags AND RATE_MCS_HE_TYPE_MSK;
          gi_ltf = drop_bit RATE_MCS_HE_GI_LTF_POS (rate_n_flags AND RATE_MCS_HE_GI_LTF_MSK)
      in if gi_ltf = 0 then
           (Some (if he_type = RATE_MCS_HE_TYPE_TRIG then NL80211_RATE_INFO_HE_GI_1_6 else NL80211_RATE_INFO_HE_GI_0_8),
            if he_type = RATE_MCS_HE_TYPE_MU then IEEE80211_RADIOTAP_HE_DATA5_LTF_SIZE_4X
            else IEEE80211_RADIOTAP_HE_DATA5_LTF_SIZE_1X)
         else if gi_ltf = 1 then
           (Some (if he_type = RATE_MCS_HE_TYPE_TRIG then NL80211_RATE_INFO_HE_GI_1_6 else NL80211_RATE_INFO_HE_GI_0_8),
            IEEE80211_RADIOTAP_HE_DATA5_LTF_SIZE_2X)
         else if gi_ltf = 2 then
           (if he_type = RATE_MCS_HE_TYPE_TRIG
            then (Some NL80211_RATE_INFO_HE_GI_3_2, IEEE80211_RADIOTAP_HE_DATA5_LTF_SIZE_4X)
            else (Some NL80211_RATE_INFO_HE_GI_1_6, IEEE80211_RADIOTAP_HE_DATA5_LTF_SIZE_2X))
         else if gi_ltf = 3 then (Some NL80211_RATE_INFO_HE_GI_3_2, IEEE80211_RADIOTAP_HE_DATA5_LTF_SIZE_4X)
         else if gi_ltf = 4 then (Some NL80211_RATE_INFO_HE_GI_0_8, IEEE80211_RADIOTAP_HE_DATA5_LTF_SIZE_4X)
         else (None, IEEE80211_RADIOTAP_HE_DATA5_LTF_SIZE_UNKNOWN))"

text \<open>
  The flags for the end-of-frame bit of an A-MPDU delimiter: on single frames, and on the first frame of an
  aggregate, of the default queue. HE and EHT frames share the code.
\<close>

definition eof_single :: "nat \<Rightarrow> iwl_mvm_rx_phy_data \<Rightarrow> u32 \<Rightarrow> u32 \<Rightarrow> u32" where
  "eof_single queue pd eof_mask flag =
     (if queue = 0 \<and> \<not> tst (pd_phy_info pd) IWL_RX_MPDU_PHY_AMPDU
      then flag OR RX_FLAG_AMPDU_DETAILS OR RX_FLAG_AMPDU_EOF_BIT_KNOWN OR
           (if tst (pd_d0 pd) eof_mask then RX_FLAG_AMPDU_EOF_BIT else 0)
      else flag)"

definition eof_aggregate :: "nat \<Rightarrow> iwl_mvm_rx_phy_data \<Rightarrow> u32 \<Rightarrow> u32" where
  "eof_aggregate queue pd flag =
     (if queue = 0 \<and> tst (pd_phy_info pd) IWL_RX_MPDU_PHY_TSF_OVERLOAD \<and>
         tst (pd_phy_info pd) IWL_RX_MPDU_PHY_AMPDU \<and> pd_first_subframe pd
      then flag OR RX_FLAG_AMPDU_EOF_BIT_KNOWN OR
           (if tst (pd_d0 pd) IWL_RX_PHY_DATA0_EHT_DELIM_EOF then RX_FLAG_AMPDU_EOF_BIT else 0)
      else flag)"

definition he_known :: radiotap_he where
  "he_known = \<lparr>
     he_data1 = IEEE80211_RADIOTAP_HE_DATA1_DATA_MCS_KNOWN OR IEEE80211_RADIOTAP_HE_DATA1_DATA_DCM_KNOWN OR
       IEEE80211_RADIOTAP_HE_DATA1_STBC_KNOWN OR IEEE80211_RADIOTAP_HE_DATA1_CODING_KNOWN,
     he_data2 = IEEE80211_RADIOTAP_HE_DATA2_GI_KNOWN OR IEEE80211_RADIOTAP_HE_DATA2_TXBF_KNOWN,
     he_data3 = 0, he_data4 = 0, he_data5 = 0, he_data6 = 0\<rparr>"

definition he_mu_known :: radiotap_he_mu where
  "he_mu_known = \<lparr>
     mu_flags1 = IEEE80211_RADIOTAP_HE_MU_FLAGS1_SIG_B_MCS_KNOWN OR IEEE80211_RADIOTAP_HE_MU_FLAGS1_SIG_B_DCM_KNOWN OR
       IEEE80211_RADIOTAP_HE_MU_FLAGS1_SIG_B_SYMS_USERS_KNOWN OR IEEE80211_RADIOTAP_HE_MU_FLAGS1_SIG_B_COMP_KNOWN,
     mu_flags2 = IEEE80211_RADIOTAP_HE_MU_FLAGS2_PUNC_FROM_SIG_A_BW_KNOWN OR
       IEEE80211_RADIOTAP_HE_MU_FLAGS2_BW_FROM_SIG_A_BW_KNOWN,
     mu_ru_ch1 = [0, 0, 0, 0], mu_ru_ch2 = [0, 0, 0, 0]\<rparr>"

definition he_format_bits :: "u32 \<Rightarrow> u16" where
  "he_format_bits rate_n_flags = ucast (drop_bit RATE_MCS_HE_TYPE_POS (rate_n_flags AND RATE_MCS_HE_TYPE_MSK))"

text \<open>The parts of \<open>iwl_mvm_rx_he\<close> after the PHY words: what the rate word says.\<close>

definition he_rate_fields :: "u32 \<Rightarrow> radiotap_he \<Rightarrow> radiotap_he" where
  "he_rate_fields rate_n_flags he =
     (let he_type = rate_n_flags AND RATE_MCS_HE_TYPE_MSK in
      he\<lparr>he_data1 := he_data1 he OR
           (if he_type = RATE_MCS_HE_TYPE_SU \<or> he_type = RATE_MCS_HE_TYPE_EXT_SU
            then IEEE80211_RADIOTAP_HE_DATA1_BW_RU_ALLOC_KNOWN else 0) OR
           he_format_bits rate_n_flags,
         he_data5 := he_data5 he OR
           (if tst rate_n_flags RATE_MCS_BF_MSK then IEEE80211_RADIOTAP_HE_DATA5_TXBF else 0) OR
           encode_bits (snd (he_gi_ltf_switch rate_n_flags)) IEEE80211_RADIOTAP_HE_DATA5_LTF_SIZE\<rparr>)"

definition he_rate_status :: "u32 \<Rightarrow> mvm_rx_status \<Rightarrow> mvm_rx_status" where
  "he_rate_status rate_n_flags s =
     (let s = (if rate_n_flags AND RATE_MCS_HE_TYPE_MSK = RATE_MCS_HE_TYPE_EXT_SU \<and> tst rate_n_flags RATE_MCS_HE_106T_MSK
               then s\<lparr>ms_bw := RATE_INFO_BW_HE_RU, ms_he_ru := NL80211_RATE_INFO_HE_RU_ALLOC_106\<rparr> else s)
      in s\<lparr>ms_he_gi := (case fst (he_gi_ltf_switch rate_n_flags) of None \<Rightarrow> ms_he_gi s | Some gi \<Rightarrow> gi)\<rparr>)"

definition iwl_mvm_rx_he ::
  "nat \<Rightarrow> iwl_mvm_rx_phy_data \<Rightarrow> mvm_rx_status \<Rightarrow> (radiotap_he \<times> radiotap_he_mu option \<times> mvm_rx_status) option"
where
  "iwl_mvm_rx_he queue pd s =
     (let s = s\<lparr>ms_flag := ms_flag s OR RX_FLAG_RADIOTAP_HE\<rparr>;
          mu = pd_info_type pd = IWL_RX_PHY_INFO_TYPE_HE_MU \<or> pd_info_type pd = IWL_RX_PHY_INFO_TYPE_HE_MU_EXT;
          he_mu = (if mu then Some he_mu_known else None);
          s = (if mu then s\<lparr>ms_flag := ms_flag s OR RX_FLAG_RADIOTAP_HE_MU\<rparr> else s);
          s = s\<lparr>ms_flag := eof_single queue pd IWL_RX_PHY_DATA0_HE_DELIM_EOF (ms_flag s)\<rparr>
      in map_option
           (\<lambda>(he, he_mu, s).
             (he_rate_fields (pd_rate_n_flags pd) he, he_mu,
              he_rate_status (pd_rate_n_flags pd) (s\<lparr>ms_flag := eof_aggregate queue pd (ms_flag s)\<rparr>)))
           (if tst (pd_phy_info pd) IWL_RX_MPDU_PHY_TSF_OVERLOAD
            then iwl_mvm_decode_he_phy_data pd he_known he_mu s else Some (he_known, he_mu, s)))"

section \<open>The other fields\<close>

record radiotap_lsig =
  lsig_data1 :: u16
  lsig_data2 :: u16

definition iwl_mvm_decode_lsig :: "iwl_mvm_rx_phy_data \<Rightarrow> mvm_rx_status \<Rightarrow> radiotap_lsig option \<times> mvm_rx_status" where
  "iwl_mvm_decode_lsig pd s =
     (if pd_info_type pd \<in> {IWL_RX_PHY_INFO_TYPE_HT, IWL_RX_PHY_INFO_TYPE_VHT_SU, IWL_RX_PHY_INFO_TYPE_VHT_MU,
           IWL_RX_PHY_INFO_TYPE_HE_TB_EXT, IWL_RX_PHY_INFO_TYPE_HE_SU, IWL_RX_PHY_INFO_TYPE_HE_MU,
           IWL_RX_PHY_INFO_TYPE_HE_MU_EXT, IWL_RX_PHY_INFO_TYPE_HE_TB, IWL_RX_PHY_INFO_TYPE_EHT_MU,
           IWL_RX_PHY_INFO_TYPE_EHT_TB, IWL_RX_PHY_INFO_TYPE_EHT_MU_EXT, IWL_RX_PHY_INFO_TYPE_EHT_TB_EXT}
      then (Some \<lparr>lsig_data1 = IEEE80211_RADIOTAP_LSIG_DATA1_LENGTH_KNOWN,
                  lsig_data2 = dec_enc (pd_d1 pd) IWL_RX_PHY_DATA1_LSIG_LEN_MASK IEEE80211_RADIOTAP_LSIG_DATA2_LENGTH\<rparr>,
            s\<lparr>ms_flag := ms_flag s OR RX_FLAG_RADIOTAP_LSIG\<rparr>)
      else (None, s))"

text \<open>A TLV: type, length, and the content padded to a multiple of four.\<close>

definition iwl_mvm_radiotap_put_tlv :: "u16 \<Rightarrow> u8 list \<Rightarrow> u8 list" where
  "iwl_mvm_radiotap_put_tlv type content =
     le_bytes 2 type @ le_bytes 2 (of_nat (length content) :: u16) @
     content @ replicate ((4 - length content mod 4) mod 4) 0"

definition IEEE80211_RADIOTAP_VENDOR_NAMESPACE :: u16 where "IEEE80211_RADIOTAP_VENDOR_NAMESPACE = 30"

definition iwl_mvm_add_rtap_sniffer_config :: "u16 \<Rightarrow> mvm_rx_status \<Rightarrow> u8 list \<times> mvm_rx_status" where
  "iwl_mvm_add_rtap_sniffer_config cur_aid s =
     (if cur_aid = 0 then ([], s)
      else (iwl_mvm_radiotap_put_tlv IEEE80211_RADIOTAP_VENDOR_NAMESPACE
              ([0xf6, 0x54, 0x25, 1, 0, 0, 0, 0] @ le_bytes 2 cur_aid),
            s\<lparr>ms_flag := ms_flag s OR RX_FLAG_RADIOTAP_TLV_AT_END\<rparr>))"

text \<open>The bytes of the fixed-size fields in the socket buffer, and reading them back.\<close>

definition he_bytes :: "radiotap_he \<Rightarrow> u8 list" where
  "he_bytes he = concat (map (le_bytes 2) [he_data1 he, he_data2 he, he_data3 he, he_data4 he, he_data5 he, he_data6 he])"

definition he_mu_bytes :: "radiotap_he_mu \<Rightarrow> u8 list" where
  "he_mu_bytes mu = le_bytes 2 (mu_flags1 mu) @ le_bytes 2 (mu_flags2 mu) @ mu_ru_ch1 mu @ mu_ru_ch2 mu"

definition lsig_bytes :: "radiotap_lsig \<Rightarrow> u8 list" where
  "lsig_bytes l = le_bytes 2 (lsig_data1 l) @ le_bytes 2 (lsig_data2 l)"

definition he_of_bytes :: "u8 list \<Rightarrow> radiotap_he" where
  "he_of_bytes d = \<lparr>he_data1 = of_le_bytes (get_bytes 0 2 d), he_data2 = of_le_bytes (get_bytes 2 2 d),
     he_data3 = of_le_bytes (get_bytes 4 2 d), he_data4 = of_le_bytes (get_bytes 6 2 d),
     he_data5 = of_le_bytes (get_bytes 8 2 d), he_data6 = of_le_bytes (get_bytes 10 2 d)\<rparr>"

definition he_mu_of_bytes :: "u8 list \<Rightarrow> radiotap_he_mu" where
  "he_mu_of_bytes d = \<lparr>mu_flags1 = of_le_bytes (get_bytes 0 2 d), mu_flags2 = of_le_bytes (get_bytes 2 2 d),
     mu_ru_ch1 = get_bytes 4 4 d, mu_ru_ch2 = get_bytes 8 4 d\<rparr>"

definition lsig_of_bytes :: "u8 list \<Rightarrow> radiotap_lsig" where
  "lsig_of_bytes d = \<lparr>lsig_data1 = of_le_bytes (get_bytes 0 2 d), lsig_data2 = of_le_bytes (get_bytes 2 2 d)\<rparr>"

section \<open>Lemmas on bit fields\<close>

definition field_max :: "'a::len word \<Rightarrow> 'a word" where
  "field_max m = drop_bit (field_shift m) m"

lemma drop_bit_and_word: "drop_bit n (v AND w) = drop_bit n v AND drop_bit n w" for v w :: "'a::len word"
  by (rule bit_word_eqI) (simp add: bit_simps)

lemma get_bits_or [simp]: "get_bits (v OR w) m = get_bits v m OR get_bits w m"
  by (rule bit_word_eqI) (auto simp: get_bits_def bit_simps)

lemma get_bits_0 [simp]: "get_bits 0 m = 0"
  by (simp add: get_bits_def)

declare tst_or [simp]

lemma tst_0 [simp]: "\<not> tst 0 m"
  by (simp add: tst_def)

lemma disjoint_fields: "m AND f = 0 \<Longrightarrow> bit m n \<Longrightarrow> \<not> bit f n" for m f :: "'a::len word"
  by (auto simp: and_eq_0_iff_no_common_bit)

lemma get_encode_other: "f AND m = 0 \<Longrightarrow> get_bits (encode_bits v f) m = 0"
  by (rule bit_word_eqI) (auto simp: get_bits_def encode_bits_def bit_simps dest: disjoint_fields)

lemma tst_encode_other: "f AND m = 0 \<Longrightarrow> \<not> tst (encode_bits v f) m"
  by (auto simp: tst_def encode_bits_def and_eq_0_iff_no_common_bit bit_simps)

lemma get_bits_const: "m AND c = 0 \<Longrightarrow> get_bits c m = 0"
  by (simp add: get_bits_def and.commute)

lemma get_encode_same: "get_bits (encode_bits v f) f = v AND field_max f"
  by (rule bit_word_eqI) (auto simp: get_bits_def encode_bits_def field_max_def bit_simps dest: bit_imp_le_length)

lemma get_bits_max: "get_bits v m = drop_bit (field_shift m) v AND field_max m"
  by (simp add: get_bits_def field_max_def drop_bit_and_word)

lemma ucast_and_word: "(ucast (a AND b) :: 'b::len word) = ucast a AND ucast b" for a b :: "'a::len word"
  by (rule bit_word_eqI) (auto simp: bit_simps)

text \<open>A field that is wide enough returns what was put into it.\<close>

lemma get_dec_enc_same:
  "ucast (field_max d) AND field_max f = (ucast (field_max d) :: 'b::len word) \<Longrightarrow>
   get_bits (dec_enc v d f) f = (ucast (get_bits v d) :: 'b word)"
proof -
  assume h: "ucast (field_max d) AND field_max f = (ucast (field_max d) :: 'b word)"
  have "get_bits (dec_enc v d f) f = ucast (get_bits v d) AND field_max f"
    by (simp add: dec_enc_def get_encode_same)
  then show ?thesis by (simp add: get_bits_max [of v] ucast_and_word and.assoc h)
qed

lemma get_dec_enc_other: "f AND m = 0 \<Longrightarrow> get_bits (dec_enc v d f) m = 0"
  by (simp add: dec_enc_def get_encode_other)

lemma tst_dec_enc_other: "f AND m = 0 \<Longrightarrow> \<not> tst (dec_enc v d f) m"
  by (simp add: dec_enc_def tst_encode_other)

lemma tst_const: "tst (c :: 'a::len word) m \<longleftrightarrow> c AND m \<noteq> 0"
  by (simp add: tst_def)

text \<open>Evaluation of masks.\<close>

lemma upt_8_16_32:
  "[0..<8] = [0, 1, 2, 3, 4, 5, 6, 7 :: nat]"
  "[0..<16] = [0, 1, 2, 3, 4, 5, 6, 7, 8, 9, 10, 11, 12, 13, 14, 15 :: nat]"
  "[0..<32] = [0, 1, 2, 3, 4, 5, 6, 7, 8, 9, 10, 11, 12, 13, 14, 15, 16, 17, 18, 19, 20, 21, 22, 23, 24, 25, 26,
     27, 28, 29, 30, 31 :: nat]"
  by code_simp+

lemmas mask_eval = field_max_def field_shift_def ffs_def upt_8_16_32 fw_fields rt_fields

section \<open>What the HE fields must say\<close>

text \<open>
  One row per field that the firmware fills: the bit that marks it as known, the reports that carry it, the
  field, and where the firmware puts it.
\<close>

record he_row =
  hr_known_word :: nat
  hr_known :: u16
  hr_types :: "u32 list"
  hr_word :: nat
  hr_field :: u16
  hr_source :: "iwl_mvm_rx_phy_data \<Rightarrow> u32"
  hr_mask :: u32

definition he_word :: "radiotap_he \<Rightarrow> nat \<Rightarrow> u16" where
  "he_word he i = [he_data1 he, he_data2 he, he_data3 he, he_data4 he, he_data5 he, he_data6 he] ! (i - 1)"

definition he_all_types :: "u32 list" where
  "he_all_types = [IWL_RX_PHY_INFO_TYPE_HE_SU, IWL_RX_PHY_INFO_TYPE_HE_MU, IWL_RX_PHY_INFO_TYPE_HE_MU_EXT,
     IWL_RX_PHY_INFO_TYPE_HE_TB, IWL_RX_PHY_INFO_TYPE_HE_TB_EXT]"

definition he_ru_types :: "u32 list" where
  "he_ru_types = [IWL_RX_PHY_INFO_TYPE_HE_MU, IWL_RX_PHY_INFO_TYPE_HE_MU_EXT, IWL_RX_PHY_INFO_TYPE_HE_TB,
     IWL_RX_PHY_INFO_TYPE_HE_TB_EXT]"

definition he_rows :: "he_row list" where
  "he_rows =
    [\<lparr>hr_known_word = 1, hr_known = IEEE80211_RADIOTAP_HE_DATA1_BSS_COLOR_KNOWN, hr_types = he_all_types, hr_word = 3,
      hr_field = IEEE80211_RADIOTAP_HE_DATA3_BSS_COLOR, hr_source = pd_d0, hr_mask = IWL_RX_PHY_DATA0_HE_BSS_COLOR_MASK\<rparr>,
     \<lparr>hr_known_word = 1, hr_known = IEEE80211_RADIOTAP_HE_DATA1_BEAM_CHANGE_KNOWN, hr_types = [IWL_RX_PHY_INFO_TYPE_HE_SU],
      hr_word = 3, hr_field = IEEE80211_RADIOTAP_HE_DATA3_BEAM_CHANGE, hr_source = pd_d0,
      hr_mask = IWL_RX_PHY_DATA0_HE_BEAM_CHNG\<rparr>,
     \<lparr>hr_known_word = 1, hr_known = IEEE80211_RADIOTAP_HE_DATA1_UL_DL_KNOWN,
      hr_types = [IWL_RX_PHY_INFO_TYPE_HE_SU, IWL_RX_PHY_INFO_TYPE_HE_MU, IWL_RX_PHY_INFO_TYPE_HE_MU_EXT],
      hr_word = 3, hr_field = IEEE80211_RADIOTAP_HE_DATA3_UL_DL, hr_source = pd_d0, hr_mask = IWL_RX_PHY_DATA0_HE_UPLINK\<rparr>,
     \<lparr>hr_known_word = 1, hr_known = IEEE80211_RADIOTAP_HE_DATA1_LDPC_XSYMSEG_KNOWN, hr_types = he_all_types, hr_word = 3,
      hr_field = IEEE80211_RADIOTAP_HE_DATA3_LDPC_XSYMSEG, hr_source = pd_d0, hr_mask = IWL_RX_PHY_DATA0_HE_LDPC_EXT_SYM\<rparr>,
     \<lparr>hr_known_word = 1, hr_known = IEEE80211_RADIOTAP_HE_DATA1_DOPPLER_KNOWN, hr_types = he_all_types, hr_word = 6,
      hr_field = IEEE80211_RADIOTAP_HE_DATA6_DOPPLER, hr_source = pd_d0, hr_mask = IWL_RX_PHY_DATA0_HE_DOPPLER\<rparr>,
     \<lparr>hr_known_word = 1, hr_known = IEEE80211_RADIOTAP_HE_DATA1_SPTL_REUSE2_KNOWN,
      hr_types = [IWL_RX_PHY_INFO_TYPE_HE_TB_EXT], hr_word = 4, hr_field = IEEE80211_RADIOTAP_HE_DATA4_TB_SPTL_REUSE2,
      hr_source = pd_d2, hr_mask = IWL_RX_PHY_DATA2_HE_TB_EXT_SPTL_REUSE2\<rparr>,
     \<lparr>hr_known_word = 1, hr_known = IEEE80211_RADIOTAP_HE_DATA1_SPTL_REUSE3_KNOWN,
      hr_types = [IWL_RX_PHY_INFO_TYPE_HE_TB_EXT], hr_word = 4, hr_field = IEEE80211_RADIOTAP_HE_DATA4_TB_SPTL_REUSE3,
      hr_source = pd_d2, hr_mask = IWL_RX_PHY_DATA2_HE_TB_EXT_SPTL_REUSE3\<rparr>,
     \<lparr>hr_known_word = 1, hr_known = IEEE80211_RADIOTAP_HE_DATA1_SPTL_REUSE4_KNOWN,
      hr_types = [IWL_RX_PHY_INFO_TYPE_HE_TB_EXT], hr_word = 4, hr_field = IEEE80211_RADIOTAP_HE_DATA4_TB_SPTL_REUSE4,
      hr_source = pd_d2, hr_mask = IWL_RX_PHY_DATA2_HE_TB_EXT_SPTL_REUSE4\<rparr>,
     \<lparr>hr_known_word = 2, hr_known = IEEE80211_RADIOTAP_HE_DATA2_NUM_LTF_SYMS_KNOWN, hr_types = he_all_types, hr_word = 5,
      hr_field = IEEE80211_RADIOTAP_HE_DATA5_NUM_LTF_SYMS, hr_source = pd_d1, hr_mask = IWL_RX_PHY_DATA1_HE_LTF_NUM_MASK\<rparr>,
     \<lparr>hr_known_word = 2, hr_known = IEEE80211_RADIOTAP_HE_DATA2_PRE_FEC_PAD_KNOWN, hr_types = he_all_types, hr_word = 5,
      hr_field = IEEE80211_RADIOTAP_HE_DATA5_PRE_FEC_PAD, hr_source = pd_d0,
      hr_mask = IWL_RX_PHY_DATA0_HE_PRE_FEC_PAD_MASK\<rparr>,
     \<lparr>hr_known_word = 2, hr_known = IEEE80211_RADIOTAP_HE_DATA2_PE_DISAMBIG_KNOWN, hr_types = he_all_types, hr_word = 5,
      hr_field = IEEE80211_RADIOTAP_HE_DATA5_PE_DISAMBIG, hr_source = pd_d0, hr_mask = IWL_RX_PHY_DATA0_HE_PE_DISAMBIG\<rparr>,
     \<lparr>hr_known_word = 2, hr_known = IEEE80211_RADIOTAP_HE_DATA2_TXOP_KNOWN, hr_types = he_all_types, hr_word = 6,
      hr_field = IEEE80211_RADIOTAP_HE_DATA6_TXOP, hr_source = pd_d0, hr_mask = IWL_RX_PHY_DATA0_HE_TXOP_DUR_MASK\<rparr>,
     \<lparr>hr_known_word = 2, hr_known = IEEE80211_RADIOTAP_HE_DATA2_PRISEC_80_KNOWN, hr_types = he_ru_types, hr_word = 2,
      hr_field = IEEE80211_RADIOTAP_HE_DATA2_PRISEC_80_SEC, hr_source = pd_d1,
      hr_mask = IWL_RX_PHY_DATA1_HE_RU_ALLOC_SEC80\<rparr>]"

definition he_row_right :: "iwl_mvm_rx_phy_data \<Rightarrow> radiotap_he \<Rightarrow> he_row \<Rightarrow> bool" where
  "he_row_right pd he r \<longleftrightarrow>
     (tst (he_word he (hr_known_word r)) (hr_known r) \<longleftrightarrow>
        tst (pd_phy_info pd) IWL_RX_MPDU_PHY_TSF_OVERLOAD \<and> pd_info_type pd \<in> set (hr_types r)) \<and>
     (tst (he_word he (hr_known_word r)) (hr_known r) \<longrightarrow>
        get_bits (he_word he (hr_word r)) (hr_field r) = ucast (get_bits (hr_source r pd) (hr_mask r)))"

text \<open>The fields as a function of the kind of report.\<close>

definition he_mu_type :: "iwl_mvm_rx_phy_data \<Rightarrow> bool" where
  "he_mu_type pd \<longleftrightarrow> pd_info_type pd \<in> {IWL_RX_PHY_INFO_TYPE_HE_MU, IWL_RX_PHY_INFO_TYPE_HE_MU_EXT}"

definition he_phy_fields :: "iwl_mvm_rx_phy_data \<Rightarrow> radiotap_he" where
  "he_phy_fields pd =
     (let t = pd_info_type pd in
      if \<not> tst (pd_phy_info pd) IWL_RX_MPDU_PHY_TSF_OVERLOAD \<or> t \<notin> set he_all_types then he_known
      else if t = IWL_RX_PHY_INFO_TYPE_HE_SU then he_su_fields pd (he_spatial_reuse pd (he_common_fields pd he_known))
      else if he_mu_type pd then ru_alloc_he pd True (he_spatial_reuse pd (he_common_fields pd he_known))
      else if t = IWL_RX_PHY_INFO_TYPE_HE_TB then ru_alloc_he pd False (he_common_fields pd he_known)
      else ru_alloc_he pd False (he_common_fields pd (he_tb_ext_fields pd he_known)))"

definition he_mu_phy_fields :: "iwl_mvm_rx_phy_data \<Rightarrow> radiotap_he_mu option" where
  "he_mu_phy_fields pd =
     (if \<not> he_mu_type pd then None
      else if \<not> tst (pd_phy_info pd) IWL_RX_MPDU_PHY_TSF_OVERLOAD then Some he_mu_known
      else Some (ru_alloc_mu pd (he_mu_fields pd
        (if pd_info_type pd = IWL_RX_PHY_INFO_TYPE_HE_MU_EXT then he_mu_ext_fields pd he_mu_known else he_mu_known))))"

definition he_phy_status :: "nat \<Rightarrow> iwl_mvm_rx_phy_data \<Rightarrow> mvm_rx_status \<Rightarrow> mvm_rx_status" where
  "he_phy_status queue pd s =
     (let s = s\<lparr>ms_flag := eof_single queue pd IWL_RX_PHY_DATA0_HE_DELIM_EOF
                  (ms_flag s OR RX_FLAG_RADIOTAP_HE OR (if he_mu_type pd then RX_FLAG_RADIOTAP_HE_MU else 0))\<rparr>;
          s = (if tst (pd_phy_info pd) IWL_RX_MPDU_PHY_TSF_OVERLOAD \<and> pd_info_type pd \<in> set he_ru_types
               then ru_alloc_status pd s else s)
      in he_rate_status (pd_rate_n_flags pd) (s\<lparr>ms_flag := eof_aggregate queue pd (ms_flag s)\<rparr>))"

lemma info_types_distinct [simp]:
  "IWL_RX_PHY_INFO_TYPE_HE_SU \<noteq> IWL_RX_PHY_INFO_TYPE_HE_MU"
  "IWL_RX_PHY_INFO_TYPE_HE_SU \<noteq> IWL_RX_PHY_INFO_TYPE_HE_MU_EXT"
  "IWL_RX_PHY_INFO_TYPE_HE_SU \<noteq> IWL_RX_PHY_INFO_TYPE_HE_TB"
  "IWL_RX_PHY_INFO_TYPE_HE_SU \<noteq> IWL_RX_PHY_INFO_TYPE_HE_TB_EXT"
  "IWL_RX_PHY_INFO_TYPE_HE_MU \<noteq> IWL_RX_PHY_INFO_TYPE_HE_MU_EXT"
  "IWL_RX_PHY_INFO_TYPE_HE_MU \<noteq> IWL_RX_PHY_INFO_TYPE_HE_TB"
  "IWL_RX_PHY_INFO_TYPE_HE_MU \<noteq> IWL_RX_PHY_INFO_TYPE_HE_TB_EXT"
  "IWL_RX_PHY_INFO_TYPE_HE_MU_EXT \<noteq> IWL_RX_PHY_INFO_TYPE_HE_TB"
  "IWL_RX_PHY_INFO_TYPE_HE_MU_EXT \<noteq> IWL_RX_PHY_INFO_TYPE_HE_TB_EXT"
  "IWL_RX_PHY_INFO_TYPE_HE_TB \<noteq> IWL_RX_PHY_INFO_TYPE_HE_TB_EXT"
  by (simp_all add: fw_fields)

lemmas info_types_distinct' [simp] = info_types_distinct [symmetric]

text \<open>The receive code never fails: \<open>he_mu\<close> is there whenever it is written.\<close>

lemma rx_he_result:
  "iwl_mvm_rx_he queue pd s =
     Some (he_rate_fields (pd_rate_n_flags pd) (he_phy_fields pd), he_mu_phy_fields pd, he_phy_status queue pd s)"
  by (auto simp: iwl_mvm_rx_he_def iwl_mvm_decode_he_phy_data_def iwl_mvm_decode_he_phy_ru_alloc_def Let_def
    he_phy_fields_def he_mu_phy_fields_def he_phy_status_def he_mu_type_def he_all_types_def he_ru_types_def
    or.assoc)

lemma he_format_bits_low: "bit (he_format_bits r) n \<Longrightarrow> n < 2"
proof -
  have 3: "(3 :: 32 word) = mask 2" by (simp add: mask_eq_exp_minus_1)
  show "bit (he_format_bits r) n \<Longrightarrow> n < 2"
    unfolding he_format_bits_def rate_consts 3 by (simp add: bit_simps)
qed

lemma he_format_other: "m AND 3 = 0 \<Longrightarrow> he_format_bits r AND m = 0"
proof -
  assume m: "m AND 3 = 0"
  have 3: "(3 :: 16 word) = mask 2" by (simp add: mask_eq_exp_minus_1)
  show ?thesis using m unfolding 3 and_eq_0_iff_no_common_bit
    by (auto simp: bit_simps dest: he_format_bits_low bit_imp_le_length)
qed

lemma tst_he_format: "m AND 3 = 0 \<Longrightarrow> \<not> tst (he_format_bits r) m"
  by (simp add: tst_def he_format_other)

lemma get_he_format: "m AND 3 = 0 \<Longrightarrow> get_bits (he_format_bits r) m = 0"
  by (simp add: get_bits_def he_format_other)

text \<open>Evaluation of constants, and of conditional parts without case splits.\<close>

lemma tst_numeral: "tst (numeral a :: 'a::len word) m \<longleftrightarrow> numeral a AND m \<noteq> 0"
  by (simp add: tst_def)

lemma get_bits_numeral: "numeral a AND m = 0 \<Longrightarrow> get_bits (numeral a :: 'a::len word) m = 0"
  by (simp add: get_bits_def)

lemma tst_one: "tst (1 :: 'a::len word) m \<longleftrightarrow> 1 AND m \<noteq> 0"
  by (simp add: tst_def)

lemma get_bits_one: "1 AND m = 0 \<Longrightarrow> get_bits (1 :: 'a::len word) m = 0"
  by (simp add: get_bits_def)

lemma tst_if: "tst (if b then v else w) m \<longleftrightarrow> (if b then tst v m else tst w m)"
  by simp

lemma get_bits_if: "get_bits (if b then v else w) m = (if b then get_bits v m else get_bits w m)"
  by simp

lemmas he_parts = he_phy_fields_def he_rate_fields_def he_su_fields_def he_spatial_reuse_def he_common_fields_def
  he_tb_ext_fields_def ru_alloc_he_def he_known_def Let_def

lemmas field_rules = get_dec_enc_same get_dec_enc_other tst_dec_enc_other get_encode_other tst_encode_other
  tst_he_format get_he_format tst_numeral get_bits_numeral tst_one get_bits_one tst_if get_bits_if

lemma sec80_bit: "(if tst v 256 then get_bits 32768 32768 else 0) = (ucast (get_bits v 256) :: u16)" for v :: u32
proof -
  have "tst v 256 \<longleftrightarrow> bit v 8" using tst_push_bit_1 [of 8 v] by simp
  moreover have "get_bits v 256 = (if bit v 8 then 1 else 0)"
    by (simp add: get_bits_def mask_eval u32_blast)
  moreover have "get_bits (32768 :: u16) 32768 = 1" by (simp add: get_bits_def mask_eval)
  ultimately show ?thesis by simp
qed

lemmas he_row_unfold = he_row_right_def he_word_def he_rows_def he_parts he_all_types_def he_ru_types_def he_mu_type_def

lemma he_rows_su:
  assumes "tst (pd_phy_info pd) IWL_RX_MPDU_PHY_TSF_OVERLOAD" "pd_info_type pd = IWL_RX_PHY_INFO_TYPE_HE_SU"
  shows "list_all (he_row_right pd (he_rate_fields w (he_phy_fields pd))) he_rows"
  using assms
  by (simp add: he_row_unfold split del: if_split) (simp add: mask_eval field_rules sec80_bit split del: if_split cong: if_cong)

lemma he_rows_mu:
  assumes "tst (pd_phy_info pd) IWL_RX_MPDU_PHY_TSF_OVERLOAD" "pd_info_type pd = IWL_RX_PHY_INFO_TYPE_HE_MU"
  shows "list_all (he_row_right pd (he_rate_fields w (he_phy_fields pd))) he_rows"
  using assms
  by (simp add: he_row_unfold split del: if_split) (simp add: mask_eval field_rules sec80_bit split del: if_split cong: if_cong)

lemma he_rows_mu_ext:
  assumes "tst (pd_phy_info pd) IWL_RX_MPDU_PHY_TSF_OVERLOAD" "pd_info_type pd = IWL_RX_PHY_INFO_TYPE_HE_MU_EXT"
  shows "list_all (he_row_right pd (he_rate_fields w (he_phy_fields pd))) he_rows"
  using assms
  by (simp add: he_row_unfold split del: if_split) (simp add: mask_eval field_rules sec80_bit split del: if_split cong: if_cong)

lemma he_rows_tb:
  assumes "tst (pd_phy_info pd) IWL_RX_MPDU_PHY_TSF_OVERLOAD" "pd_info_type pd = IWL_RX_PHY_INFO_TYPE_HE_TB"
  shows "list_all (he_row_right pd (he_rate_fields w (he_phy_fields pd))) he_rows"
  using assms
  by (simp add: he_row_unfold split del: if_split) (simp add: mask_eval field_rules sec80_bit split del: if_split cong: if_cong)

lemma he_rows_tb_ext:
  assumes "tst (pd_phy_info pd) IWL_RX_MPDU_PHY_TSF_OVERLOAD" "pd_info_type pd = IWL_RX_PHY_INFO_TYPE_HE_TB_EXT"
  shows "list_all (he_row_right pd (he_rate_fields w (he_phy_fields pd))) he_rows"
  using assms
  by (simp add: he_row_unfold split del: if_split) (simp add: mask_eval field_rules sec80_bit split del: if_split cong: if_cong)

lemma he_rows_none:
  assumes "\<not> tst (pd_phy_info pd) IWL_RX_MPDU_PHY_TSF_OVERLOAD \<or> pd_info_type pd \<notin> set he_all_types"
  shows "list_all (he_row_right pd (he_rate_fields w (he_phy_fields pd))) he_rows"
proof -
  have h: "he_phy_fields pd = he_known" using assms by (auto simp: he_phy_fields_def Let_def)
  have t: "set he_ru_types \<subseteq> set he_all_types" by (auto simp: he_ru_types_def he_all_types_def)
  have n: "list_all (\<lambda>r. \<not> tst (he_word (he_rate_fields w he_known) (hr_known_word r)) (hr_known r) \<and>
     set (hr_types r) \<subseteq> set he_all_types) he_rows"
    by (simp add: he_rows_def he_word_def he_rate_fields_def he_known_def Let_def t split del: if_split)
      (simp add: mask_eval field_rules he_all_types_def split del: if_split cong: if_cong)
  show ?thesis unfolding h using n assms by (auto simp: list_all_iff he_row_right_def)
qed

lemma he_rows_right: "list_all (he_row_right pd (he_rate_fields w (he_phy_fields pd))) he_rows"
proof (cases "tst (pd_phy_info pd) IWL_RX_MPDU_PHY_TSF_OVERLOAD \<and> pd_info_type pd \<in> set he_all_types")
  case True
  then show ?thesis
    using he_rows_su [of pd w] he_rows_mu [of pd w] he_rows_mu_ext [of pd w] he_rows_tb [of pd w] he_rows_tb_ext [of pd w]
    by (auto simp: he_all_types_def)
next
  case False
  then show ?thesis by (intro he_rows_none) blast
qed

section \<open>The HE-MU fields\<close>

text \<open>
  What the HE-MU field says: of an extended report the firmware's values; of a plain report the same
  for the SIG-B symbols and compression, but the SIG-B MCS, its DCM and the puncturing, which such a
  report does not carry, are marked as known and are zero.
\<close>

definition he_mu_common_right :: "iwl_mvm_rx_phy_data \<Rightarrow> radiotap_he_mu \<Rightarrow> bool" where
  "he_mu_common_right pd mu \<longleftrightarrow>
     tst (mu_flags1 mu) IEEE80211_RADIOTAP_HE_MU_FLAGS1_SIG_B_MCS_KNOWN \<and>
     tst (mu_flags1 mu) IEEE80211_RADIOTAP_HE_MU_FLAGS1_SIG_B_DCM_KNOWN \<and>
     tst (mu_flags2 mu) IEEE80211_RADIOTAP_HE_MU_FLAGS2_PUNC_FROM_SIG_A_BW_KNOWN \<and>
     get_bits (mu_flags2 mu) IEEE80211_RADIOTAP_HE_MU_FLAGS2_SIG_B_SYMS_USERS =
       ucast (get_bits (pd_d1 pd) IWL_RX_PHY_DATA1_HE_MU_SIBG_SYM_OR_USER_NUM_MASK) \<and>
     get_bits (mu_flags2 mu) IEEE80211_RADIOTAP_HE_MU_FLAGS2_SIG_B_COMP =
       ucast (get_bits (pd_d1 pd) IWL_RX_PHY_DATA1_HE_MU_SIGB_COMPRESSION) \<and>
     get_bits (mu_flags2 mu) IEEE80211_RADIOTAP_HE_MU_FLAGS2_BW_FROM_SIG_A_BW =
       ucast (get_bits (pd_rate_n_flags pd) RATE_MCS_CHAN_WIDTH_MSK_V1)"

definition he_mu_ext_right :: "iwl_mvm_rx_phy_data \<Rightarrow> radiotap_he_mu \<Rightarrow> bool" where
  "he_mu_ext_right pd mu \<longleftrightarrow>
     get_bits (mu_flags1 mu) IEEE80211_RADIOTAP_HE_MU_FLAGS1_SIG_B_MCS =
       get_bits (pd_d4 pd) IWL_RX_PHY_DATA4_HE_MU_EXT_SIGB_MCS_MASK \<and>
     get_bits (mu_flags1 mu) IEEE80211_RADIOTAP_HE_MU_FLAGS1_SIG_B_DCM =
       get_bits (pd_d4 pd) IWL_RX_PHY_DATA4_HE_MU_EXT_SIGB_DCM \<and>
     get_bits (mu_flags2 mu) IEEE80211_RADIOTAP_HE_MU_FLAGS2_PUNC_FROM_SIG_A_BW =
       get_bits (pd_d4 pd) IWL_RX_PHY_DATA4_HE_MU_EXT_PREAMBLE_PUNC_TYPE_MASK \<and>
     (tst (mu_flags1 mu) IEEE80211_RADIOTAP_HE_MU_FLAGS1_CH1_RU_KNOWN \<longleftrightarrow>
        get_bits (pd_d4 pd) IWL_RX_PHY_DATA4_HE_MU_EXT_CH1_CRC_OK \<noteq> 0) \<and>
     (tst (mu_flags1 mu) IEEE80211_RADIOTAP_HE_MU_FLAGS1_CH1_RU_KNOWN \<longrightarrow>
        get_bits (mu_flags1 mu) IEEE80211_RADIOTAP_HE_MU_FLAGS1_CH1_CTR_26T_RU =
          get_bits (pd_d4 pd) IWL_RX_PHY_DATA4_HE_MU_EXT_CH1_CTR_RU \<and>
        mu_ru_ch1 mu = [ucast (pd_d2 pd), ucast (pd_d3 pd), ucast (drop_bit 8 (pd_d2 pd)), ucast (drop_bit 8 (pd_d3 pd))]) \<and>
     (tst (mu_flags1 mu) IEEE80211_RADIOTAP_HE_MU_FLAGS1_CH2_RU_KNOWN \<longleftrightarrow>
        get_bits (pd_d4 pd) IWL_RX_PHY_DATA4_HE_MU_EXT_CH2_CRC_OK \<noteq> 0 \<and>
        get_bits (pd_rate_n_flags pd) RATE_MCS_CHAN_WIDTH_MSK_V1 \<noteq> 0) \<and>
     (tst (mu_flags1 mu) IEEE80211_RADIOTAP_HE_MU_FLAGS1_CH2_RU_KNOWN \<longrightarrow>
        get_bits (mu_flags2 mu) IEEE80211_RADIOTAP_HE_MU_FLAGS2_CH2_CTR_26T_RU =
          get_bits (pd_d4 pd) IWL_RX_PHY_DATA4_HE_MU_EXT_CH2_CTR_RU \<and>
        mu_ru_ch2 mu = [ucast (drop_bit 16 (pd_d2 pd)), ucast (drop_bit 16 (pd_d3 pd)),
          ucast (drop_bit 24 (pd_d2 pd)), ucast (drop_bit 24 (pd_d3 pd))])"

definition he_mu_plain_zero :: "radiotap_he_mu \<Rightarrow> bool" where
  "he_mu_plain_zero mu \<longleftrightarrow>
     get_bits (mu_flags1 mu) IEEE80211_RADIOTAP_HE_MU_FLAGS1_SIG_B_MCS = 0 \<and>
     get_bits (mu_flags1 mu) IEEE80211_RADIOTAP_HE_MU_FLAGS1_SIG_B_DCM = 0 \<and>
     get_bits (mu_flags2 mu) IEEE80211_RADIOTAP_HE_MU_FLAGS2_PUNC_FROM_SIG_A_BW = 0 \<and>
     \<not> tst (mu_flags1 mu) IEEE80211_RADIOTAP_HE_MU_FLAGS1_CH1_RU_KNOWN \<and>
     \<not> tst (mu_flags1 mu) IEEE80211_RADIOTAP_HE_MU_FLAGS1_CH2_RU_KNOWN"

text \<open>The eight bytes that an extended report has in two words.\<close>

lemma ext_ru_bytes:
  "(ucast (get_bits v IWL_RX_PHY_DATA2_HE_MU_EXT_CH1_RU0) :: u8) = ucast v"
  "(ucast (get_bits v IWL_RX_PHY_DATA3_HE_MU_EXT_CH1_RU1) :: u8) = ucast v"
  "(ucast (get_bits v IWL_RX_PHY_DATA2_HE_MU_EXT_CH1_RU2) :: u8) = ucast (drop_bit 8 v)"
  "(ucast (get_bits v IWL_RX_PHY_DATA3_HE_MU_EXT_CH1_RU3) :: u8) = ucast (drop_bit 8 v)"
  "(ucast (get_bits v IWL_RX_PHY_DATA2_HE_MU_EXT_CH2_RU0) :: u8) = ucast (drop_bit 16 v)"
  "(ucast (get_bits v IWL_RX_PHY_DATA3_HE_MU_EXT_CH2_RU1) :: u8) = ucast (drop_bit 16 v)"
  "(ucast (get_bits v IWL_RX_PHY_DATA2_HE_MU_EXT_CH2_RU2) :: u8) = ucast (drop_bit 24 v)"
  "(ucast (get_bits v IWL_RX_PHY_DATA3_HE_MU_EXT_CH2_RU3) :: u8) = ucast (drop_bit 24 v)"
proof -
  have m: "(255 :: u8) = mask 8" by (simp add: mask_eq_exp_minus_1)
  have u: "(ucast (w :: u32) :: u8) AND 255 = ucast w" for w unfolding m by (rule bit_word_eqI) (simp add: bit_simps)
  show "(ucast (get_bits v IWL_RX_PHY_DATA2_HE_MU_EXT_CH1_RU0) :: u8) = ucast v"
    "(ucast (get_bits v IWL_RX_PHY_DATA3_HE_MU_EXT_CH1_RU1) :: u8) = ucast v"
    "(ucast (get_bits v IWL_RX_PHY_DATA2_HE_MU_EXT_CH1_RU2) :: u8) = ucast (drop_bit 8 v)"
    "(ucast (get_bits v IWL_RX_PHY_DATA3_HE_MU_EXT_CH1_RU3) :: u8) = ucast (drop_bit 8 v)"
    "(ucast (get_bits v IWL_RX_PHY_DATA2_HE_MU_EXT_CH2_RU0) :: u8) = ucast (drop_bit 16 v)"
    "(ucast (get_bits v IWL_RX_PHY_DATA3_HE_MU_EXT_CH2_RU1) :: u8) = ucast (drop_bit 16 v)"
    "(ucast (get_bits v IWL_RX_PHY_DATA2_HE_MU_EXT_CH2_RU2) :: u8) = ucast (drop_bit 24 v)"
    "(ucast (get_bits v IWL_RX_PHY_DATA3_HE_MU_EXT_CH2_RU3) :: u8) = ucast (drop_bit 24 v)"
    by (simp_all add: get_bits_max mask_eval ucast_and_word u)
qed

lemma chan_width_v1_20:
  "w AND RATE_MCS_CHAN_WIDTH_MSK_V1 = RATE_MCS_CHAN_WIDTH_20 \<longleftrightarrow> get_bits w RATE_MCS_CHAN_WIDTH_MSK_V1 = 0"
  by (simp add: get_bits_def mask_eval rate_consts u32_blast)

lemmas he_mu_parts = he_mu_fields_def he_mu_ext_fields_def iwl_mvm_decode_he_mu_ext_def ru_alloc_mu_def he_mu_known_def Let_def

lemma he_mu_plain:
  assumes "tst (pd_phy_info pd) IWL_RX_MPDU_PHY_TSF_OVERLOAD" "pd_info_type pd = IWL_RX_PHY_INFO_TYPE_HE_MU"
  shows "\<exists>mu. he_mu_phy_fields pd = Some mu \<and> he_mu_common_right pd mu \<and> he_mu_plain_zero mu"
  using assms
  by (simp add: he_mu_phy_fields_def he_mu_type_def he_mu_parts he_mu_common_right_def he_mu_plain_zero_def)
    (simp add: mask_eval rate_consts field_rules)

lemma he_mu_ext:
  assumes "tst (pd_phy_info pd) IWL_RX_MPDU_PHY_TSF_OVERLOAD" "pd_info_type pd = IWL_RX_PHY_INFO_TYPE_HE_MU_EXT"
  shows "\<exists>mu. he_mu_phy_fields pd = Some mu \<and> he_mu_common_right pd mu \<and> he_mu_ext_right pd mu"
  using assms
  by (simp add: he_mu_phy_fields_def he_mu_type_def he_mu_parts he_mu_common_right_def he_mu_ext_right_def
      chan_width_v1_20 ext_ru_bytes split del: if_split cong: if_cong)
    (simp add: mask_eval rate_consts field_rules)

section \<open>Resource units\<close>

text \<open>
  The standard numbers the resource units of each size one after the other. The reference walks over
  the sizes and their numbers.
\<close>

fun nth_of_class :: "('a \<times> nat) list \<Rightarrow> nat \<Rightarrow> ('a \<times> nat) option" where
  "nth_of_class [] n = None"
| "nth_of_class ((c, k) # cs) n = (if n < k then Some (c, n) else nth_of_class cs (n - k))"

definition he_ru_classes :: "(nl80211_he_ru_alloc \<times> nat) list" where
  "he_ru_classes =
     [(NL80211_RATE_INFO_HE_RU_ALLOC_26, 37), (NL80211_RATE_INFO_HE_RU_ALLOC_52, 16),
      (NL80211_RATE_INFO_HE_RU_ALLOC_106, 8), (NL80211_RATE_INFO_HE_RU_ALLOC_242, 4),
      (NL80211_RATE_INFO_HE_RU_ALLOC_484, 2), (NL80211_RATE_INFO_HE_RU_ALLOC_996, 1),
      (NL80211_RATE_INFO_HE_RU_ALLOC_2x996, 1)]"

lemma he_ru_switch_reference: "he_ru_switch ru = nth_of_class he_ru_classes ru"
  unfolding he_ru_switch_def he_ru_classes_def by simp presburger

lemma he_ru_offset_small: "he_ru_switch ru = Some (c, n) \<Longrightarrow> n < 37"
  by (auto simp: he_ru_switch_def split: if_splits)

lemma he_data2_offset:
  assumes "tst (pd_phy_info pd) IWL_RX_MPDU_PHY_TSF_OVERLOAD" "pd_info_type pd \<in> set he_ru_types"
  shows "get_bits (he_data2 (he_rate_fields w (he_phy_fields pd))) IEEE80211_RADIOTAP_HE_DATA2_RU_OFFSET =
    (case he_ru_switch (unat (get_bits (pd_d1 pd) IWL_RX_PHY_DATA1_HE_RU_ALLOC_MASK)) of None \<Rightarrow> 0 | Some (c, n) \<Rightarrow> of_nat n)"
proof -
  have 3: "(63 :: u16) = mask 6" by (simp add: mask_eq_exp_minus_1)
  have m: "field_max IEEE80211_RADIOTAP_HE_DATA2_RU_OFFSET = (mask 6 :: u16)" by (simp add: mask_eval 3 [symmetric])
  have "get_bits (encode_bits (of_nat n) IEEE80211_RADIOTAP_HE_DATA2_RU_OFFSET) IEEE80211_RADIOTAP_HE_DATA2_RU_OFFSET = (of_nat n :: u16)"
    if "n < 37" for n
    using that unfolding get_encode_same m
    by (simp add: take_bit_eq_mask [symmetric] take_bit_of_nat take_bit_nat_eq_self)
  then show ?thesis
    using assms he_ru_offset_small
    apply (auto simp: he_ru_types_def he_parts he_mu_type_def he_all_types_def split: option.splits)
    apply (simp_all add: mask_eval field_rules)
    done
qed

section \<open>The guard interval\<close>

text \<open>The documented meaning of the three-bit field at bit 20 (fw/api/rs.h), by HE type.\<close>

definition he_gi_ltf_table :: "(u32 \<times> u32 \<times> rate_info_he_gi \<times> u16) list" where
  "he_gi_ltf_table =
     [(0, 0, NL80211_RATE_INFO_HE_GI_0_8, IEEE80211_RADIOTAP_HE_DATA5_LTF_SIZE_1X),
      (0, 1, NL80211_RATE_INFO_HE_GI_0_8, IEEE80211_RADIOTAP_HE_DATA5_LTF_SIZE_2X),
      (0, 2, NL80211_RATE_INFO_HE_GI_1_6, IEEE80211_RADIOTAP_HE_DATA5_LTF_SIZE_2X),
      (0, 3, NL80211_RATE_INFO_HE_GI_3_2, IEEE80211_RADIOTAP_HE_DATA5_LTF_SIZE_4X),
      (0, 4, NL80211_RATE_INFO_HE_GI_0_8, IEEE80211_RADIOTAP_HE_DATA5_LTF_SIZE_4X),
      (1, 0, NL80211_RATE_INFO_HE_GI_0_8, IEEE80211_RADIOTAP_HE_DATA5_LTF_SIZE_1X),
      (1, 1, NL80211_RATE_INFO_HE_GI_0_8, IEEE80211_RADIOTAP_HE_DATA5_LTF_SIZE_2X),
      (1, 2, NL80211_RATE_INFO_HE_GI_1_6, IEEE80211_RADIOTAP_HE_DATA5_LTF_SIZE_2X),
      (1, 3, NL80211_RATE_INFO_HE_GI_3_2, IEEE80211_RADIOTAP_HE_DATA5_LTF_SIZE_4X),
      (1, 4, NL80211_RATE_INFO_HE_GI_0_8, IEEE80211_RADIOTAP_HE_DATA5_LTF_SIZE_4X),
      (2, 0, NL80211_RATE_INFO_HE_GI_0_8, IEEE80211_RADIOTAP_HE_DATA5_LTF_SIZE_4X),
      (2, 1, NL80211_RATE_INFO_HE_GI_0_8, IEEE80211_RADIOTAP_HE_DATA5_LTF_SIZE_2X),
      (2, 2, NL80211_RATE_INFO_HE_GI_1_6, IEEE80211_RADIOTAP_HE_DATA5_LTF_SIZE_2X),
      (2, 3, NL80211_RATE_INFO_HE_GI_3_2, IEEE80211_RADIOTAP_HE_DATA5_LTF_SIZE_4X),
      (3, 0, NL80211_RATE_INFO_HE_GI_1_6, IEEE80211_RADIOTAP_HE_DATA5_LTF_SIZE_1X),
      (3, 1, NL80211_RATE_INFO_HE_GI_1_6, IEEE80211_RADIOTAP_HE_DATA5_LTF_SIZE_2X),
      (3, 2, NL80211_RATE_INFO_HE_GI_3_2, IEEE80211_RADIOTAP_HE_DATA5_LTF_SIZE_4X)]"

lemma he_type_field:
  "w AND RATE_MCS_HE_TYPE_MSK = RATE_MCS_HE_TYPE_SU \<longleftrightarrow> take_bit 2 (drop_bit 23 w) = 0"
  "w AND RATE_MCS_HE_TYPE_MSK = RATE_MCS_HE_TYPE_EXT_SU \<longleftrightarrow> take_bit 2 (drop_bit 23 w) = 1"
  "w AND RATE_MCS_HE_TYPE_MSK = RATE_MCS_HE_TYPE_MU \<longleftrightarrow> take_bit 2 (drop_bit 23 w) = 2"
  "w AND RATE_MCS_HE_TYPE_MSK = RATE_MCS_HE_TYPE_TRIG \<longleftrightarrow> take_bit 2 (drop_bit 23 w) = 3"
  by (auto simp: rate_consts u32_blast)

lemma gi_ltf_field: "drop_bit RATE_MCS_HE_GI_LTF_POS (w AND RATE_MCS_HE_GI_LTF_MSK) = take_bit 3 (drop_bit 20 w)"
  by (auto simp: rate_consts u32_blast)

lemma he_gi_ltf_switch_table:
  "(take_bit 2 (drop_bit 23 w), take_bit 3 (drop_bit 20 w), gi, ltf) \<in> set he_gi_ltf_table \<Longrightarrow>
   he_gi_ltf_switch w = (Some gi, ltf)"
  unfolding he_gi_ltf_table_def he_gi_ltf_switch_def Let_def he_type_field gi_ltf_field set_simps
  by (elim insertE emptyE) simp_all

lemma he_ltf_field:
  "get_bits (he_data5 (he_rate_fields w (he_phy_fields pd))) IEEE80211_RADIOTAP_HE_DATA5_LTF_SIZE =
     snd (he_gi_ltf_switch w)"
proof -
  have c: "get_bits (he_data5 (he_phy_fields pd)) IEEE80211_RADIOTAP_HE_DATA5_LTF_SIZE = 0"
    by (simp add: he_parts he_mu_type_def split del: if_split cong: if_cong) (simp add: mask_eval field_rules)
  have "snd (he_gi_ltf_switch w) AND 3 = (snd (he_gi_ltf_switch w) :: u16)"
    by (simp add: he_gi_ltf_switch_def Let_def rt_fields)
  then show ?thesis
    using c by (simp add: he_rate_fields_def Let_def get_encode_same)
      (simp add: mask_eval field_rules)
qed

section \<open>Properties\<close>

definition demo_phy_data :: "u32 \<Rightarrow> u32 \<Rightarrow> iwl_mvm_rx_phy_data" where
  "demo_phy_data info_type rate = \<lparr>pd_info_type = info_type, pd_d0 = 0x01aa55ff, pd_d1 = 0x50008633, pd_d2 = 0x12345678,
     pd_d3 = 0x9abcdef0, pd_eht_d4 = 0, pd_d5 = 0, pd_d4 = 0x01b7, pd_with_data = True, pd_first_subframe = False,
     pd_rx_vec = [0, 0, 0, 0], pd_rate_n_flags = rate, pd_gp2_on_air_rise = 0, pd_phy_info = 0x100,
     pd_energy_a = 40, pd_energy_b = 50, pd_channel = 36\<rparr>"

definition demo_status :: mvm_rx_status where
  "demo_status = \<lparr>ms_mactime = 0, ms_boottime_ns = 0, ms_device_timestamp = 0, ms_ampdu_reference = 0, ms_flag = 0,
     ms_freq = 0, ms_enc_flags = 0, ms_encoding = RX_ENC_LEGACY, ms_bw = RATE_INFO_BW_20,
     ms_he_ru = NL80211_RATE_INFO_HE_RU_ALLOC_26, ms_he_gi = NL80211_RATE_INFO_HE_GI_0_8, ms_he_dcm = False,
     ms_eht_ru = NL80211_RATE_INFO_EHT_RU_ALLOC_26, ms_eht_gi = NL80211_RATE_INFO_EHT_GI_0_8, ms_rate_idx = 0,
     ms_nss = 0, ms_band = NL80211_BAND_5GHZ, ms_signal = 0, ms_chains = 0, ms_chain_signal = (0, 0),
     ms_zero_length_psdu_type = 0\<rparr>"


text \<open>C25: Frames that the PHY reports as HE-MU or trigger-based are reported with their resource unit: its size
  and its index among the units of that size are those of the standard's numbering, in the report to
  mac80211 and in the radiotap header (except for the size of an extended-range frame of 106 tones).\<close>

theorem he_ru_reported:
  assumes "tst (pd_phy_info pd) IWL_RX_MPDU_PHY_TSF_OVERLOAD" "pd_info_type pd \<in> set he_ru_types"
    and "take_bit 2 (drop_bit 23 (pd_rate_n_flags pd)) \<noteq> 1"
    and "nth_of_class he_ru_classes (unat (get_bits (pd_d1 pd) IWL_RX_PHY_DATA1_HE_RU_ALLOC_MASK)) = Some (alloc, n)"
  shows "\<exists>he mu s'. iwl_mvm_rx_he queue pd s = Some (he, mu, s') \<and> ms_bw s' = RATE_INFO_BW_HE_RU \<and> ms_he_ru s' = alloc \<and>
    get_bits (he_data2 he) IEEE80211_RADIOTAP_HE_DATA2_RU_OFFSET = of_nat n \<and>
    tst (he_data2 he) IEEE80211_RADIOTAP_HE_DATA2_RU_OFFSET_KNOWN"
proof -
  have n: "he_ru_switch (unat (get_bits (pd_d1 pd) IWL_RX_PHY_DATA1_HE_RU_ALLOC_MASK)) = Some (alloc, n)"
    using assms(4) by (simp only: he_ru_switch_reference)
  have k: "tst (he_data2 (he_rate_fields w (he_phy_fields pd))) IEEE80211_RADIOTAP_HE_DATA2_RU_OFFSET_KNOWN" for w
    using assms(1,2) by (auto simp: he_ru_types_def he_parts he_mu_type_def he_all_types_def)
      (simp_all add: mask_eval field_rules)
  have s: "ms_bw (he_phy_status queue pd s) = RATE_INFO_BW_HE_RU \<and> ms_he_ru (he_phy_status queue pd s) = alloc"
    using assms(1-3) n by (simp add: he_phy_status_def he_rate_status_def ru_alloc_status_def Let_def he_type_field)
  show ?thesis using he_data2_offset [OF assms(1,2)] n k s by (simp add: rx_he_result)
qed

theorem he_ru_reported_witness:
  "\<exists>he mu s'. iwl_mvm_rx_he 0 (demo_phy_data 8 0x01800400) demo_status = Some (he, mu, s') \<and>
    ms_bw s' = RATE_INFO_BW_HE_RU \<and> ms_he_ru s' = NL80211_RATE_INFO_HE_RU_ALLOC_996 \<and>
    get_bits (he_data2 he) IEEE80211_RADIOTAP_HE_DATA2_RU_OFFSET = of_nat 0 \<and>
    tst (he_data2 he) IEEE80211_RADIOTAP_HE_DATA2_RU_OFFSET_KNOWN"
proof (rule he_ru_reported)
  show "tst (pd_phy_info (demo_phy_data 8 0x01800400)) IWL_RX_MPDU_PHY_TSF_OVERLOAD"
    by (simp add: demo_phy_data_def tst_def hdr_simps)
  show "pd_info_type (demo_phy_data 8 0x01800400) \<in> set he_ru_types"
    by (simp add: demo_phy_data_def he_ru_types_def fw_fields)
  show "take_bit 2 (drop_bit 23 (pd_rate_n_flags (demo_phy_data 8 0x01800400))) \<noteq> 1"
    by (simp add: demo_phy_data_def u32_blast)
  have "get_bits (0x50008633 :: u32) IWL_RX_PHY_DATA1_HE_RU_ALLOC_MASK = 67"
    by (simp add: get_bits_def mask_eval)
  then show "nth_of_class he_ru_classes (unat (get_bits (pd_d1 (demo_phy_data 8 0x01800400)) IWL_RX_PHY_DATA1_HE_RU_ALLOC_MASK))
      = Some (NL80211_RATE_INFO_HE_RU_ALLOC_996, 0)"
    by (simp add: demo_phy_data_def he_ru_classes_def)
qed

text \<open>C37: In an HE-MU field everything that an extended report carries is the firmware's value, and the
  resource units of a content channel are marked as known exactly if its CRC is right (for the second channel,
  also if the frame is wider than 20 MHz). A plain HE-MU report carries no SIG-B MCS, no SIG-B DCM and no
  puncturing, but the driver marks them as known all the same, with the value zero.\<close>

theorem he_mu_fields_exact:
  assumes "tst (pd_phy_info pd) IWL_RX_MPDU_PHY_TSF_OVERLOAD"
    and "pd_info_type pd = IWL_RX_PHY_INFO_TYPE_HE_MU \<or> pd_info_type pd = IWL_RX_PHY_INFO_TYPE_HE_MU_EXT"
  shows "\<exists>he mu s'. iwl_mvm_rx_he queue pd s = Some (he, Some mu, s') \<and> he_mu_common_right pd mu \<and>
    (if pd_info_type pd = IWL_RX_PHY_INFO_TYPE_HE_MU then he_mu_plain_zero mu else he_mu_ext_right pd mu)"
  using assms(2)
proof
  assume t: "pd_info_type pd = IWL_RX_PHY_INFO_TYPE_HE_MU"
  show ?thesis using he_mu_plain [OF assms(1) t] t by (auto simp: rx_he_result)
next
  assume t: "pd_info_type pd = IWL_RX_PHY_INFO_TYPE_HE_MU_EXT"
  show ?thesis using he_mu_ext [OF assms(1) t] t by (auto simp: rx_he_result)
qed

theorem he_mu_fields_exact_witness:
  "\<exists>he mu s'. iwl_mvm_rx_he 0 (demo_phy_data 7 0x01000400) demo_status = Some (he, Some mu, s') \<and>
    he_mu_common_right (demo_phy_data 7 0x01000400) mu \<and> he_mu_plain_zero mu"
  using he_mu_fields_exact [of "demo_phy_data 7 0x01000400" 0 demo_status]
  by (simp add: demo_phy_data_def tst_def hdr_simps fw_fields)

text \<open>The bandwidth of a trigger-based frame is never reported in the HE radiotap field for any documented guard
  interval: the driver compares bits 22 and 23 of the rate word with the trigger-based type of the first
  layout, while the word has the second layout, whose type is in bits 23 and 24.\<close>

theorem he_tb_bandwidth_lost:
  assumes "take_bit 3 (drop_bit 20 (pd_rate_n_flags pd)) \<le> 3"
    and "iwl_mvm_rx_he queue pd s = Some (he, mu, s')"
  shows "\<not> tst (he_data6 he) IEEE80211_RADIOTAP_HE_DATA6_TB_PPDU_BW_KNOWN"
proof -
  have "take_bit 3 (drop_bit 20 (pd_rate_n_flags pd)) \<in> {0, 1, 2, 3}"
    using assms(1) by (auto simp: word_le_nat_alt word_unat_eq_iff)
  then have "\<not> bit (pd_rate_n_flags pd) 22" by (auto simp: u32_blast)
  then have t: "pd_rate_n_flags pd AND RATE_MCS_HE_TYPE_MSK_V1 \<noteq> RATE_MCS_HE_TYPE_TRIG_V1"
    by (simp add: rate_consts u32_blast)
  have "he = he_rate_fields (pd_rate_n_flags pd) (he_phy_fields pd)" using assms(2) by (simp add: rx_he_result)
  then show ?thesis using t
    by (simp add: he_parts he_mu_type_def split del: if_split cong: if_cong) (simp add: mask_eval field_rules)
qed

theorem he_tb_bandwidth_lost_witness:
  "\<exists>he mu s'. iwl_mvm_rx_he 0 (demo_phy_data 8 0x01a01400) demo_status = Some (he, mu, s') \<and>
    \<not> tst (he_data6 he) IEEE80211_RADIOTAP_HE_DATA6_TB_PPDU_BW_KNOWN"
proof -
  have "take_bit 3 (drop_bit 20 (pd_rate_n_flags (demo_phy_data 8 0x01a01400))) \<le> 3"
    by (simp add: demo_phy_data_def)
  then show ?thesis
    using he_tb_bandwidth_lost [of "demo_phy_data 8 0x01a01400" 0 demo_status] by (simp add: rx_he_result)
qed

end
