(* ===== verification/Rx_Radiotap_Eht.thy ===== *)
theory Rx_Radiotap_Eht
  imports Rx_Radiotap
begin

text \<open>
  The EHT and U-SIG fields that the receive path puts in front of an EHT frame (mvm/rxmq.c:
  \<open>iwl_mvm_rx_eht\<close> and the decoders it calls). The properties say which size of resource unit is reported and
  which fields hold the wrong data.
\<close>

unbundle bit_operations_syntax

section \<open>Constants\<close>

definition IWL_RX_PHY_DATA0_EHT_UPLINK :: u32 where [fw_fields]: "IWL_RX_PHY_DATA0_EHT_UPLINK = 0x2"
definition IWL_RX_PHY_DATA0_EHT_BSS_COLOR_MASK :: u32 where [fw_fields]: "IWL_RX_PHY_DATA0_EHT_BSS_COLOR_MASK = 0xfc"
definition IWL_RX_PHY_DATA0_ETH_SPATIAL_REUSE_MASK :: u32 where [fw_fields]: "IWL_RX_PHY_DATA0_ETH_SPATIAL_REUSE_MASK = 0xf00"
definition IWL_RX_PHY_DATA0_EHT_PS160 :: u32 where [fw_fields]: "IWL_RX_PHY_DATA0_EHT_PS160 = 0x1000"
definition IWL_RX_PHY_DATA0_EHT_TXOP_DUR_MASK :: u32 where [fw_fields]: "IWL_RX_PHY_DATA0_EHT_TXOP_DUR_MASK = 0xfe000"
definition IWL_RX_PHY_DATA0_EHT_LDPC_EXT_SYM :: u32 where [fw_fields]: "IWL_RX_PHY_DATA0_EHT_LDPC_EXT_SYM = 0x100000"
definition IWL_RX_PHY_DATA0_EHT_PRE_FEC_PAD_MASK :: u32 where [fw_fields]: "IWL_RX_PHY_DATA0_EHT_PRE_FEC_PAD_MASK = 0x600000"
definition IWL_RX_PHY_DATA0_EHT_PE_DISAMBIG :: u32 where [fw_fields]: "IWL_RX_PHY_DATA0_EHT_PE_DISAMBIG = 0x800000"
definition IWL_RX_PHY_DATA0_EHT_SIGA_CRC_OK :: u32 where [fw_fields]: "IWL_RX_PHY_DATA0_EHT_SIGA_CRC_OK = 0x2000000"
definition IWL_RX_PHY_DATA0_EHT_PHY_VER :: u32 where [fw_fields]: "IWL_RX_PHY_DATA0_EHT_PHY_VER = 0x1c000000"
definition IWL_RX_PHY_DATA1_EHT_MU_NUM_SIG_SYM_USIGA2 :: u32 where [fw_fields]: "IWL_RX_PHY_DATA1_EHT_MU_NUM_SIG_SYM_USIGA2 = 0x1f"
definition IWL_RX_PHY_DATA1_EHT_SIG_LTF_NUM :: u32 where [fw_fields]: "IWL_RX_PHY_DATA1_EHT_SIG_LTF_NUM = 0xe0"
definition IWL_RX_PHY_DATA1_EHT_B0 :: u32 where [fw_fields]: "IWL_RX_PHY_DATA1_EHT_B0 = 0x100"
definition IWL_RX_PHY_DATA1_EHT_RU_B1_B7_ALLOC :: u32 where [fw_fields]: "IWL_RX_PHY_DATA1_EHT_RU_B1_B7_ALLOC = 0xfe00"
definition IWL_RX_PHY_DATA2_EHT_MU_EXT_RU_ALLOC_A1 :: u32 where [fw_fields]: "IWL_RX_PHY_DATA2_EHT_MU_EXT_RU_ALLOC_A1 = 0x1ff"
definition IWL_RX_PHY_DATA2_EHT_MU_EXT_RU_ALLOC_A2 :: u32 where [fw_fields]: "IWL_RX_PHY_DATA2_EHT_MU_EXT_RU_ALLOC_A2 = 0x3fe00"
definition IWL_RX_PHY_DATA2_EHT_MU_EXT_RU_ALLOC_B1 :: u32 where [fw_fields]: "IWL_RX_PHY_DATA2_EHT_MU_EXT_RU_ALLOC_B1 = 0x1fc0000"
definition IWL_RX_PHY_DATA3_EHT_MU_EXT_RU_ALLOC_B2 :: u32 where [fw_fields]: "IWL_RX_PHY_DATA3_EHT_MU_EXT_RU_ALLOC_B2 = 0x1ff"
definition IWL_RX_PHY_DATA3_EHT_MU_EXT_RU_ALLOC_C1 :: u32 where [fw_fields]: "IWL_RX_PHY_DATA3_EHT_MU_EXT_RU_ALLOC_C1 = 0x3fe00"
definition IWL_RX_PHY_DATA3_EHT_MU_EXT_RU_ALLOC_C2 :: u32 where [fw_fields]: "IWL_RX_PHY_DATA3_EHT_MU_EXT_RU_ALLOC_C2 = 0x1fc0000"
definition IWL_RX_PHY_DATA4_EHT_MU_EXT_RU_ALLOC_D1 :: u32 where [fw_fields]: "IWL_RX_PHY_DATA4_EHT_MU_EXT_RU_ALLOC_D1 = 0x1ff"
definition IWL_RX_PHY_DATA4_EHT_MU_EXT_RU_ALLOC_D2 :: u32 where [fw_fields]: "IWL_RX_PHY_DATA4_EHT_MU_EXT_RU_ALLOC_D2 = 0x3fe00"
definition IWL_RX_PHY_DATA4_EHT_MU_EXT_SIGB_MCS :: u32 where [fw_fields]: "IWL_RX_PHY_DATA4_EHT_MU_EXT_SIGB_MCS = 0xc0000"
definition IWL_RX_PHY_DATA5_EHT_TYPE_AND_COMP :: u32 where [fw_fields]: "IWL_RX_PHY_DATA5_EHT_TYPE_AND_COMP = 0x3"
definition IWL_RX_PHY_DATA5_EHT_TB_SPATIAL_REUSE1 :: u32 where [fw_fields]: "IWL_RX_PHY_DATA5_EHT_TB_SPATIAL_REUSE1 = 0x3c"
definition IWL_RX_PHY_DATA5_EHT_TB_SPATIAL_REUSE2 :: u32 where [fw_fields]: "IWL_RX_PHY_DATA5_EHT_TB_SPATIAL_REUSE2 = 0x3c0"
definition IWL_RX_PHY_DATA5_EHT_MU_PUNC_CH_CODE :: u32 where [fw_fields]: "IWL_RX_PHY_DATA5_EHT_MU_PUNC_CH_CODE = 0x7c"
definition IWL_RX_PHY_DATA5_EHT_MU_STA_ID_USR :: u32 where [fw_fields]: "IWL_RX_PHY_DATA5_EHT_MU_STA_ID_USR = 0x3ff80"
definition IWL_RX_PHY_DATA5_EHT_MU_NUM_USR_NON_OFDMA :: u32 where [fw_fields]: "IWL_RX_PHY_DATA5_EHT_MU_NUM_USR_NON_OFDMA = 0x1c0000"
definition IWL_RX_USIG_A1_ENHANCED_WIFI_VER_ID :: u32 where [fw_fields]: "IWL_RX_USIG_A1_ENHANCED_WIFI_VER_ID = 0x7"
definition IWL_RX_USIG_A1_UL_FLAG :: u32 where [fw_fields]: "IWL_RX_USIG_A1_UL_FLAG = 0x40"
definition IWL_RX_USIG_A1_BSS_COLOR :: u32 where [fw_fields]: "IWL_RX_USIG_A1_BSS_COLOR = 0x1f80"
definition IWL_RX_USIG_A1_TXOP_DURATION :: u32 where [fw_fields]: "IWL_RX_USIG_A1_TXOP_DURATION = 0xfe000"
definition IWL_RX_USIG_A1_DISREGARD :: u32 where [fw_fields]: "IWL_RX_USIG_A1_DISREGARD = 0x1f00000"
definition IWL_RX_USIG_A1_VALIDATE :: u32 where [fw_fields]: "IWL_RX_USIG_A1_VALIDATE = 0x2000000"
definition IWL_RX_USIG_A2_EHT_USIG2_VALIDATE_B2 :: u32 where [fw_fields]: "IWL_RX_USIG_A2_EHT_USIG2_VALIDATE_B2 = 0x4"
definition IWL_RX_USIG_A2_EHT_PUNC_CHANNEL :: u32 where [fw_fields]: "IWL_RX_USIG_A2_EHT_PUNC_CHANNEL = 0xf8"
definition IWL_RX_USIG_A2_EHT_USIG2_VALIDATE_B8 :: u32 where [fw_fields]: "IWL_RX_USIG_A2_EHT_USIG2_VALIDATE_B8 = 0x100"
definition IWL_RX_USIG_A2_EHT_SIG_MCS :: u32 where [fw_fields]: "IWL_RX_USIG_A2_EHT_SIG_MCS = 0x600"
definition IWL_RX_USIG_A2_EHT_SIG_SYM_NUM :: u32 where [fw_fields]: "IWL_RX_USIG_A2_EHT_SIG_SYM_NUM = 0xf800"
definition IWL_RX_USIG_A2_EHT_TRIG_SPATIAL_REUSE_1 :: u32 where [fw_fields]: "IWL_RX_USIG_A2_EHT_TRIG_SPATIAL_REUSE_1 = 0xf0000"
definition IWL_RX_USIG_A2_EHT_TRIG_SPATIAL_REUSE_2 :: u32 where [fw_fields]: "IWL_RX_USIG_A2_EHT_TRIG_SPATIAL_REUSE_2 = 0xf00000"
definition IWL_RX_USIG_A2_EHT_TRIG_USIG2_DISREGARD :: u32 where [fw_fields]: "IWL_RX_USIG_A2_EHT_TRIG_USIG2_DISREGARD = 0x1f000000"
definition IWL_RX_USIG_A2_EHT_CRC_OK :: u32 where [fw_fields]: "IWL_RX_USIG_A2_EHT_CRC_OK = 0x40000000"
definition IEEE80211_RADIOTAP_EHT_KNOWN_SPATIAL_REUSE :: u32 where [rt_fields]: "IEEE80211_RADIOTAP_EHT_KNOWN_SPATIAL_REUSE = 0x2"
definition IEEE80211_RADIOTAP_EHT_KNOWN_GI :: u32 where [rt_fields]: "IEEE80211_RADIOTAP_EHT_KNOWN_GI = 0x4"
definition IEEE80211_RADIOTAP_EHT_KNOWN_LTF :: u32 where [rt_fields]: "IEEE80211_RADIOTAP_EHT_KNOWN_LTF = 0x8"
definition IEEE80211_RADIOTAP_EHT_KNOWN_EHT_LTF :: u32 where [rt_fields]: "IEEE80211_RADIOTAP_EHT_KNOWN_EHT_LTF = 0x10"
definition IEEE80211_RADIOTAP_EHT_KNOWN_LDPC_EXTRA_SYM_OM :: u32 where [rt_fields]: "IEEE80211_RADIOTAP_EHT_KNOWN_LDPC_EXTRA_SYM_OM = 0x20"
definition IEEE80211_RADIOTAP_EHT_KNOWN_PRE_PADD_FACOR_OM :: u32 where [rt_fields]: "IEEE80211_RADIOTAP_EHT_KNOWN_PRE_PADD_FACOR_OM = 0x40"
definition IEEE80211_RADIOTAP_EHT_KNOWN_PE_DISAMBIGUITY_OM :: u32 where [rt_fields]: "IEEE80211_RADIOTAP_EHT_KNOWN_PE_DISAMBIGUITY_OM = 0x80"
definition IEEE80211_RADIOTAP_EHT_KNOWN_NR_NON_OFDMA_USERS_M :: u32 where [rt_fields]: "IEEE80211_RADIOTAP_EHT_KNOWN_NR_NON_OFDMA_USERS_M = 0x80000"
definition IEEE80211_RADIOTAP_EHT_KNOWN_RU_ALLOC_TB_FMT :: u32 where [rt_fields]: "IEEE80211_RADIOTAP_EHT_KNOWN_RU_ALLOC_TB_FMT = 0x1000000"
definition IEEE80211_RADIOTAP_EHT_KNOWN_PRIMARY_80 :: u32 where [rt_fields]: "IEEE80211_RADIOTAP_EHT_KNOWN_PRIMARY_80 = 0x2000000"
definition IEEE80211_RADIOTAP_EHT_DATA0_SPATIAL_REUSE :: u32 where [rt_fields]: "IEEE80211_RADIOTAP_EHT_DATA0_SPATIAL_REUSE = 0x78"
definition IEEE80211_RADIOTAP_EHT_DATA0_GI :: u32 where [rt_fields]: "IEEE80211_RADIOTAP_EHT_DATA0_GI = 0x180"
definition IEEE80211_RADIOTAP_EHT_DATA0_LTF :: u32 where [rt_fields]: "IEEE80211_RADIOTAP_EHT_DATA0_LTF = 0x600"
definition IEEE80211_RADIOTAP_EHT_DATA0_EHT_LTF :: u32 where [rt_fields]: "IEEE80211_RADIOTAP_EHT_DATA0_EHT_LTF = 0x3800"
definition IEEE80211_RADIOTAP_EHT_DATA0_LDPC_EXTRA_SYM_OM :: u32 where [rt_fields]: "IEEE80211_RADIOTAP_EHT_DATA0_LDPC_EXTRA_SYM_OM = 0x4000"
definition IEEE80211_RADIOTAP_EHT_DATA0_PRE_PADD_FACOR_OM :: u32 where [rt_fields]: "IEEE80211_RADIOTAP_EHT_DATA0_PRE_PADD_FACOR_OM = 0x18000"
definition IEEE80211_RADIOTAP_EHT_DATA0_PE_DISAMBIGUITY_OM :: u32 where [rt_fields]: "IEEE80211_RADIOTAP_EHT_DATA0_PE_DISAMBIGUITY_OM = 0x20000"
definition IEEE80211_RADIOTAP_EHT_DATA1_RU_ALLOC_CC_1_1_1 :: u32 where [rt_fields]: "IEEE80211_RADIOTAP_EHT_DATA1_RU_ALLOC_CC_1_1_1 = 0x3fe000"
definition IEEE80211_RADIOTAP_EHT_DATA1_RU_ALLOC_CC_1_1_1_KNOWN :: u32 where [rt_fields]: "IEEE80211_RADIOTAP_EHT_DATA1_RU_ALLOC_CC_1_1_1_KNOWN = 0x400000"
definition IEEE80211_RADIOTAP_EHT_DATA1_PRIMARY_80 :: u32 where [rt_fields]: "IEEE80211_RADIOTAP_EHT_DATA1_PRIMARY_80 = 0xc0000000"
definition IEEE80211_RADIOTAP_EHT_DATA2_RU_ALLOC_CC_2_1_1 :: u32 where [rt_fields]: "IEEE80211_RADIOTAP_EHT_DATA2_RU_ALLOC_CC_2_1_1 = 0x1ff"
definition IEEE80211_RADIOTAP_EHT_DATA2_RU_ALLOC_CC_2_1_1_KNOWN :: u32 where [rt_fields]: "IEEE80211_RADIOTAP_EHT_DATA2_RU_ALLOC_CC_2_1_1_KNOWN = 0x200"
definition IEEE80211_RADIOTAP_EHT_DATA2_RU_ALLOC_CC_1_1_2 :: u32 where [rt_fields]: "IEEE80211_RADIOTAP_EHT_DATA2_RU_ALLOC_CC_1_1_2 = 0x7fc00"
definition IEEE80211_RADIOTAP_EHT_DATA2_RU_ALLOC_CC_1_1_2_KNOWN :: u32 where [rt_fields]: "IEEE80211_RADIOTAP_EHT_DATA2_RU_ALLOC_CC_1_1_2_KNOWN = 0x80000"
definition IEEE80211_RADIOTAP_EHT_DATA2_RU_ALLOC_CC_2_1_2 :: u32 where [rt_fields]: "IEEE80211_RADIOTAP_EHT_DATA2_RU_ALLOC_CC_2_1_2 = 0x1ff00000"
definition IEEE80211_RADIOTAP_EHT_DATA2_RU_ALLOC_CC_2_1_2_KNOWN :: u32 where [rt_fields]: "IEEE80211_RADIOTAP_EHT_DATA2_RU_ALLOC_CC_2_1_2_KNOWN = 0x20000000"
definition IEEE80211_RADIOTAP_EHT_DATA3_RU_ALLOC_CC_1_2_1 :: u32 where [rt_fields]: "IEEE80211_RADIOTAP_EHT_DATA3_RU_ALLOC_CC_1_2_1 = 0x1ff"
definition IEEE80211_RADIOTAP_EHT_DATA3_RU_ALLOC_CC_1_2_1_KNOWN :: u32 where [rt_fields]: "IEEE80211_RADIOTAP_EHT_DATA3_RU_ALLOC_CC_1_2_1_KNOWN = 0x200"
definition IEEE80211_RADIOTAP_EHT_DATA3_RU_ALLOC_CC_2_2_1 :: u32 where [rt_fields]: "IEEE80211_RADIOTAP_EHT_DATA3_RU_ALLOC_CC_2_2_1 = 0x7fc00"
definition IEEE80211_RADIOTAP_EHT_DATA3_RU_ALLOC_CC_2_2_1_KNOWN :: u32 where [rt_fields]: "IEEE80211_RADIOTAP_EHT_DATA3_RU_ALLOC_CC_2_2_1_KNOWN = 0x80000"
definition IEEE80211_RADIOTAP_EHT_DATA3_RU_ALLOC_CC_1_2_2 :: u32 where [rt_fields]: "IEEE80211_RADIOTAP_EHT_DATA3_RU_ALLOC_CC_1_2_2 = 0x1ff00000"
definition IEEE80211_RADIOTAP_EHT_DATA3_RU_ALLOC_CC_1_2_2_KNOWN :: u32 where [rt_fields]: "IEEE80211_RADIOTAP_EHT_DATA3_RU_ALLOC_CC_1_2_2_KNOWN = 0x20000000"
definition IEEE80211_RADIOTAP_EHT_DATA4_RU_ALLOC_CC_2_2_2 :: u32 where [rt_fields]: "IEEE80211_RADIOTAP_EHT_DATA4_RU_ALLOC_CC_2_2_2 = 0x1ff"
definition IEEE80211_RADIOTAP_EHT_DATA4_RU_ALLOC_CC_2_2_2_KNOWN :: u32 where [rt_fields]: "IEEE80211_RADIOTAP_EHT_DATA4_RU_ALLOC_CC_2_2_2_KNOWN = 0x200"
definition IEEE80211_RADIOTAP_EHT_DATA4_RU_ALLOC_CC_1_2_3 :: u32 where [rt_fields]: "IEEE80211_RADIOTAP_EHT_DATA4_RU_ALLOC_CC_1_2_3 = 0x7fc00"
definition IEEE80211_RADIOTAP_EHT_DATA4_RU_ALLOC_CC_1_2_3_KNOWN :: u32 where [rt_fields]: "IEEE80211_RADIOTAP_EHT_DATA4_RU_ALLOC_CC_1_2_3_KNOWN = 0x80000"
definition IEEE80211_RADIOTAP_EHT_DATA4_RU_ALLOC_CC_2_2_3 :: u32 where [rt_fields]: "IEEE80211_RADIOTAP_EHT_DATA4_RU_ALLOC_CC_2_2_3 = 0x1ff00000"
definition IEEE80211_RADIOTAP_EHT_DATA4_RU_ALLOC_CC_2_2_3_KNOWN :: u32 where [rt_fields]: "IEEE80211_RADIOTAP_EHT_DATA4_RU_ALLOC_CC_2_2_3_KNOWN = 0x20000000"
definition IEEE80211_RADIOTAP_EHT_DATA5_RU_ALLOC_CC_1_2_4 :: u32 where [rt_fields]: "IEEE80211_RADIOTAP_EHT_DATA5_RU_ALLOC_CC_1_2_4 = 0x1ff"
definition IEEE80211_RADIOTAP_EHT_DATA5_RU_ALLOC_CC_1_2_4_KNOWN :: u32 where [rt_fields]: "IEEE80211_RADIOTAP_EHT_DATA5_RU_ALLOC_CC_1_2_4_KNOWN = 0x200"
definition IEEE80211_RADIOTAP_EHT_DATA5_RU_ALLOC_CC_2_2_4 :: u32 where [rt_fields]: "IEEE80211_RADIOTAP_EHT_DATA5_RU_ALLOC_CC_2_2_4 = 0x7fc00"
definition IEEE80211_RADIOTAP_EHT_DATA5_RU_ALLOC_CC_2_2_4_KNOWN :: u32 where [rt_fields]: "IEEE80211_RADIOTAP_EHT_DATA5_RU_ALLOC_CC_2_2_4_KNOWN = 0x80000"
definition IEEE80211_RADIOTAP_EHT_DATA7_NUM_OF_NON_OFDMA_USERS :: u32 where [rt_fields]: "IEEE80211_RADIOTAP_EHT_DATA7_NUM_OF_NON_OFDMA_USERS = 0xe0000"
definition IEEE80211_RADIOTAP_EHT_DATA8_RU_ALLOC_TB_FMT_PS_160 :: u32 where [rt_fields]: "IEEE80211_RADIOTAP_EHT_DATA8_RU_ALLOC_TB_FMT_PS_160 = 0x1"
definition IEEE80211_RADIOTAP_EHT_DATA8_RU_ALLOC_TB_FMT_B0 :: u32 where [rt_fields]: "IEEE80211_RADIOTAP_EHT_DATA8_RU_ALLOC_TB_FMT_B0 = 0x2"
definition IEEE80211_RADIOTAP_EHT_DATA8_RU_ALLOC_TB_FMT_B7_B1 :: u32 where [rt_fields]: "IEEE80211_RADIOTAP_EHT_DATA8_RU_ALLOC_TB_FMT_B7_B1 = 0x1fc"
definition IEEE80211_RADIOTAP_EHT_USER_INFO_STA_ID_KNOWN :: u32 where [rt_fields]: "IEEE80211_RADIOTAP_EHT_USER_INFO_STA_ID_KNOWN = 0x1"
definition IEEE80211_RADIOTAP_EHT_USER_INFO_MCS_KNOWN :: u32 where [rt_fields]: "IEEE80211_RADIOTAP_EHT_USER_INFO_MCS_KNOWN = 0x2"
definition IEEE80211_RADIOTAP_EHT_USER_INFO_CODING_KNOWN :: u32 where [rt_fields]: "IEEE80211_RADIOTAP_EHT_USER_INFO_CODING_KNOWN = 0x4"
definition IEEE80211_RADIOTAP_EHT_USER_INFO_NSS_KNOWN_O :: u32 where [rt_fields]: "IEEE80211_RADIOTAP_EHT_USER_INFO_NSS_KNOWN_O = 0x10"
definition IEEE80211_RADIOTAP_EHT_USER_INFO_BEAMFORMING_KNOWN_O :: u32 where [rt_fields]: "IEEE80211_RADIOTAP_EHT_USER_INFO_BEAMFORMING_KNOWN_O = 0x20"
definition IEEE80211_RADIOTAP_EHT_USER_INFO_DATA_FOR_USER :: u32 where [rt_fields]: "IEEE80211_RADIOTAP_EHT_USER_INFO_DATA_FOR_USER = 0x80"
definition IEEE80211_RADIOTAP_EHT_USER_INFO_STA_ID :: u32 where [rt_fields]: "IEEE80211_RADIOTAP_EHT_USER_INFO_STA_ID = 0x7ff00"
definition IEEE80211_RADIOTAP_EHT_USER_INFO_CODING :: u32 where [rt_fields]: "IEEE80211_RADIOTAP_EHT_USER_INFO_CODING = 0x80000"
definition IEEE80211_RADIOTAP_EHT_USER_INFO_MCS :: u32 where [rt_fields]: "IEEE80211_RADIOTAP_EHT_USER_INFO_MCS = 0xf00000"
definition IEEE80211_RADIOTAP_EHT_USER_INFO_NSS_O :: u32 where [rt_fields]: "IEEE80211_RADIOTAP_EHT_USER_INFO_NSS_O = 0xf000000"
definition IEEE80211_RADIOTAP_EHT_USER_INFO_BEAMFORMING_O :: u32 where [rt_fields]: "IEEE80211_RADIOTAP_EHT_USER_INFO_BEAMFORMING_O = 0x20000000"
definition IEEE80211_RADIOTAP_EHT_USIG_COMMON_PHY_VER_KNOWN :: u32 where [rt_fields]: "IEEE80211_RADIOTAP_EHT_USIG_COMMON_PHY_VER_KNOWN = 0x1"
definition IEEE80211_RADIOTAP_EHT_USIG_COMMON_BW_KNOWN :: u32 where [rt_fields]: "IEEE80211_RADIOTAP_EHT_USIG_COMMON_BW_KNOWN = 0x2"
definition IEEE80211_RADIOTAP_EHT_USIG_COMMON_UL_DL_KNOWN :: u32 where [rt_fields]: "IEEE80211_RADIOTAP_EHT_USIG_COMMON_UL_DL_KNOWN = 0x4"
definition IEEE80211_RADIOTAP_EHT_USIG_COMMON_BSS_COLOR_KNOWN :: u32 where [rt_fields]: "IEEE80211_RADIOTAP_EHT_USIG_COMMON_BSS_COLOR_KNOWN = 0x8"
definition IEEE80211_RADIOTAP_EHT_USIG_COMMON_TXOP_KNOWN :: u32 where [rt_fields]: "IEEE80211_RADIOTAP_EHT_USIG_COMMON_TXOP_KNOWN = 0x10"
definition IEEE80211_RADIOTAP_EHT_USIG_COMMON_BAD_USIG_CRC :: u32 where [rt_fields]: "IEEE80211_RADIOTAP_EHT_USIG_COMMON_BAD_USIG_CRC = 0x20"
definition IEEE80211_RADIOTAP_EHT_USIG_COMMON_PHY_VER :: u32 where [rt_fields]: "IEEE80211_RADIOTAP_EHT_USIG_COMMON_PHY_VER = 0x7000"
definition IEEE80211_RADIOTAP_EHT_USIG_COMMON_BW :: u32 where [rt_fields]: "IEEE80211_RADIOTAP_EHT_USIG_COMMON_BW = 0x38000"
definition IEEE80211_RADIOTAP_EHT_USIG_COMMON_UL_DL :: u32 where [rt_fields]: "IEEE80211_RADIOTAP_EHT_USIG_COMMON_UL_DL = 0x40000"
definition IEEE80211_RADIOTAP_EHT_USIG_COMMON_BSS_COLOR :: u32 where [rt_fields]: "IEEE80211_RADIOTAP_EHT_USIG_COMMON_BSS_COLOR = 0x1f80000"
definition IEEE80211_RADIOTAP_EHT_USIG_COMMON_TXOP :: u32 where [rt_fields]: "IEEE80211_RADIOTAP_EHT_USIG_COMMON_TXOP = 0xfe000000"
definition IEEE80211_RADIOTAP_EHT_USIG1_MU_B0_B24_DISREGARD :: u32 where [rt_fields]: "IEEE80211_RADIOTAP_EHT_USIG1_MU_B0_B24_DISREGARD = 0x1f"
definition IEEE80211_RADIOTAP_EHT_USIG1_MU_B25_VALIDATE :: u32 where [rt_fields]: "IEEE80211_RADIOTAP_EHT_USIG1_MU_B25_VALIDATE = 0x20"
definition IEEE80211_RADIOTAP_EHT_USIG2_MU_B0_B1_PPDU_TYPE :: u32 where [rt_fields]: "IEEE80211_RADIOTAP_EHT_USIG2_MU_B0_B1_PPDU_TYPE = 0xc0"
definition IEEE80211_RADIOTAP_EHT_USIG2_MU_B2_VALIDATE :: u32 where [rt_fields]: "IEEE80211_RADIOTAP_EHT_USIG2_MU_B2_VALIDATE = 0x100"
definition IEEE80211_RADIOTAP_EHT_USIG2_MU_B3_B7_PUNCTURED_INFO :: u32 where [rt_fields]: "IEEE80211_RADIOTAP_EHT_USIG2_MU_B3_B7_PUNCTURED_INFO = 0x3e00"
definition IEEE80211_RADIOTAP_EHT_USIG2_MU_B8_VLIDATE :: u32 where [rt_fields]: "IEEE80211_RADIOTAP_EHT_USIG2_MU_B8_VLIDATE = 0x4000"
definition IEEE80211_RADIOTAP_EHT_USIG2_MU_B9_B10_SIG_MCS :: u32 where [rt_fields]: "IEEE80211_RADIOTAP_EHT_USIG2_MU_B9_B10_SIG_MCS = 0x18000"
definition IEEE80211_RADIOTAP_EHT_USIG2_MU_B11_B15_EHT_SIG_SIMBOLS :: u32 where [rt_fields]: "IEEE80211_RADIOTAP_EHT_USIG2_MU_B11_B15_EHT_SIG_SIMBOLS = 0x3e0000"
definition IEEE80211_RADIOTAP_EHT_USIG2_MU_B16_B19_CRC :: u32 where [rt_fields]: "IEEE80211_RADIOTAP_EHT_USIG2_MU_B16_B19_CRC = 0x3c00000"
definition IEEE80211_RADIOTAP_EHT_USIG1_TB_B0_B25_DISREGARD :: u32 where [rt_fields]: "IEEE80211_RADIOTAP_EHT_USIG1_TB_B0_B25_DISREGARD = 0x1f"
definition IEEE80211_RADIOTAP_EHT_USIG2_TB_B0_B1_PPDU_TYPE :: u32 where [rt_fields]: "IEEE80211_RADIOTAP_EHT_USIG2_TB_B0_B1_PPDU_TYPE = 0xc0"
definition IEEE80211_RADIOTAP_EHT_USIG2_TB_B2_VALIDATE :: u32 where [rt_fields]: "IEEE80211_RADIOTAP_EHT_USIG2_TB_B2_VALIDATE = 0x100"
definition IEEE80211_RADIOTAP_EHT_USIG2_TB_B3_B6_SPATIAL_REUSE_1 :: u32 where [rt_fields]: "IEEE80211_RADIOTAP_EHT_USIG2_TB_B3_B6_SPATIAL_REUSE_1 = 0x1e00"
definition IEEE80211_RADIOTAP_EHT_USIG2_TB_B7_B10_SPATIAL_REUSE_2 :: u32 where [rt_fields]: "IEEE80211_RADIOTAP_EHT_USIG2_TB_B7_B10_SPATIAL_REUSE_2 = 0x1e000"
definition IEEE80211_RADIOTAP_EHT_USIG2_TB_B11_B15_DISREGARD :: u32 where [rt_fields]: "IEEE80211_RADIOTAP_EHT_USIG2_TB_B11_B15_DISREGARD = 0x3e0000"
definition IEEE80211_RADIOTAP_EHT_USIG2_TB_B16_B19_CRC :: u32 where [rt_fields]: "IEEE80211_RADIOTAP_EHT_USIG2_TB_B16_B19_CRC = 0x3c00000"

section \<open>The fields\<close>

record radiotap_eht_usig =
  us_common :: u32
  us_value :: u32
  us_mask :: u32

text \<open>The field for one user, as the driver allocates it.\<close>

record radiotap_eht =
  eht_known :: u32
  eht_data :: "u32 list"
  eht_user_info :: u32

definition IEEE80211_RADIOTAP_EHT_USIG :: u16 where "IEEE80211_RADIOTAP_EHT_USIG = 33"
definition IEEE80211_RADIOTAP_EHT :: u16 where "IEEE80211_RADIOTAP_EHT = 34"

definition usig_bytes :: "radiotap_eht_usig \<Rightarrow> u8 list" where
  "usig_bytes us = le_bytes 4 (us_common us) @ le_bytes 4 (us_value us) @ le_bytes 4 (us_mask us)"

definition eht_bytes :: "radiotap_eht \<Rightarrow> u8 list" where
  "eht_bytes e = le_bytes 4 (eht_known e) @ concat (map (le_bytes 4) (eht_data e)) @ le_bytes 4 (eht_user_info e)"

definition usig_zero :: radiotap_eht_usig where
  "usig_zero = \<lparr>us_common = 0, us_value = 0, us_mask = 0\<rparr>"

definition eht_zero :: radiotap_eht where
  "eht_zero = \<lparr>eht_known = 0, eht_data = replicate 9 0, eht_user_info = 0\<rparr>"

text \<open>\<open>eht->data[i] |= x\<close>, and the two macros of the decoders.\<close>

definition eht_or :: "nat \<Rightarrow> u32 \<Rightarrow> radiotap_eht \<Rightarrow> radiotap_eht" where
  "eht_or i x e = e\<lparr>eht_data := (eht_data e)[i := eht_data e ! i OR x]\<rparr>"

definition usig_value_mask :: "u32 \<Rightarrow> u32 \<Rightarrow> u32 \<Rightarrow> radiotap_eht_usig \<Rightarrow> radiotap_eht_usig" where
  "usig_value_mask in_value dec_bits enc_bits us =
     us\<lparr>us_mask := us_mask us OR enc_bits, us_value := us_value us OR dec_enc in_value dec_bits enc_bits\<rparr>"

definition eht_ru_alloc :: "nat \<Rightarrow> u32 \<Rightarrow> u32 \<Rightarrow> u32 \<Rightarrow> u32 \<Rightarrow> radiotap_eht \<Rightarrow> radiotap_eht" where
  "eht_ru_alloc rt_data known rt_ru fw_data fw_ru e = eht_or rt_data (known OR dec_enc fw_data fw_ru rt_ru) e"

section \<open>The decoders\<close>

definition eht_mu_usig_data :: "iwl_mvm_rx_phy_data \<Rightarrow> radiotap_eht_usig \<Rightarrow> radiotap_eht_usig" where
  "eht_mu_usig_data pd us =
     (let us = usig_value_mask (pd_d5 pd) IWL_RX_PHY_DATA5_EHT_TYPE_AND_COMP IEEE80211_RADIOTAP_EHT_USIG2_MU_B0_B1_PPDU_TYPE us;
          us = usig_value_mask (pd_d5 pd) IWL_RX_PHY_DATA5_EHT_MU_PUNC_CH_CODE IEEE80211_RADIOTAP_EHT_USIG2_MU_B3_B7_PUNCTURED_INFO us;
          us = usig_value_mask (pd_eht_d4 pd) IWL_RX_PHY_DATA4_EHT_MU_EXT_SIGB_MCS IEEE80211_RADIOTAP_EHT_USIG2_MU_B9_B10_SIG_MCS us;
          us = usig_value_mask (pd_d1 pd) IWL_RX_PHY_DATA1_EHT_MU_NUM_SIG_SYM_USIGA2 IEEE80211_RADIOTAP_EHT_USIG2_MU_B11_B15_EHT_SIG_SIMBOLS us
      in us)"

definition eht_mu_usig_vector :: "iwl_mvm_rx_phy_data \<Rightarrow> radiotap_eht_usig \<Rightarrow> radiotap_eht_usig" where
  "eht_mu_usig_vector pd us =
     (let us = usig_value_mask (pd_rx_vec pd ! 0) IWL_RX_USIG_A1_DISREGARD IEEE80211_RADIOTAP_EHT_USIG1_MU_B0_B24_DISREGARD us;
          us = usig_value_mask (pd_rx_vec pd ! 0) IWL_RX_USIG_A1_VALIDATE IEEE80211_RADIOTAP_EHT_USIG1_MU_B25_VALIDATE us;
          us = usig_value_mask (pd_rx_vec pd ! 0) IWL_RX_USIG_A1_ENHANCED_WIFI_VER_ID IEEE80211_RADIOTAP_EHT_USIG2_MU_B0_B1_PPDU_TYPE us;
          us = usig_value_mask (pd_rx_vec pd ! 1) IWL_RX_USIG_A2_EHT_USIG2_VALIDATE_B2 IEEE80211_RADIOTAP_EHT_USIG2_MU_B2_VALIDATE us;
          us = usig_value_mask (pd_rx_vec pd ! 1) IWL_RX_USIG_A2_EHT_PUNC_CHANNEL IEEE80211_RADIOTAP_EHT_USIG2_MU_B3_B7_PUNCTURED_INFO us;
          us = usig_value_mask (pd_rx_vec pd ! 1) IWL_RX_USIG_A2_EHT_USIG2_VALIDATE_B8 IEEE80211_RADIOTAP_EHT_USIG2_MU_B8_VLIDATE us;
          us = usig_value_mask (pd_rx_vec pd ! 1) IWL_RX_USIG_A2_EHT_SIG_MCS IEEE80211_RADIOTAP_EHT_USIG2_MU_B9_B10_SIG_MCS us;
          us = usig_value_mask (pd_rx_vec pd ! 1) IWL_RX_USIG_A2_EHT_SIG_SYM_NUM IEEE80211_RADIOTAP_EHT_USIG2_MU_B11_B15_EHT_SIG_SIMBOLS us;
          us = usig_value_mask (pd_rx_vec pd ! 1) IWL_RX_USIG_A2_EHT_CRC_OK IEEE80211_RADIOTAP_EHT_USIG2_MU_B16_B19_CRC us
      in us)"

text \<open>The resource units of the content channels: the invocations of the macro in order, by bandwidth.\<close>

definition eht_mu_rus :: "iwl_mvm_rx_phy_data \<Rightarrow> (nat \<times> u32 \<times> u32 \<times> u32 \<times> u32) list" where
  "eht_mu_rus pd =
     (let phy_bw = pd_rate_n_flags pd AND RATE_MCS_CHAN_WIDTH_MSK in
      [(1, IEEE80211_RADIOTAP_EHT_DATA1_RU_ALLOC_CC_1_1_1_KNOWN,
               IEEE80211_RADIOTAP_EHT_DATA1_RU_ALLOC_CC_1_1_1, pd_d2 pd, IWL_RX_PHY_DATA2_EHT_MU_EXT_RU_ALLOC_A1)] @
      (if RATE_MCS_CHAN_WIDTH_80 \<le> phy_bw then
         [(2, IEEE80211_RADIOTAP_EHT_DATA2_RU_ALLOC_CC_2_1_1_KNOWN,
               IEEE80211_RADIOTAP_EHT_DATA2_RU_ALLOC_CC_2_1_1, pd_d3 pd, IWL_RX_PHY_DATA3_EHT_MU_EXT_RU_ALLOC_C1)] else []) @
      (if RATE_MCS_CHAN_WIDTH_160 \<le> phy_bw then
         [(2, IEEE80211_RADIOTAP_EHT_DATA2_RU_ALLOC_CC_1_1_2_KNOWN,
               IEEE80211_RADIOTAP_EHT_DATA2_RU_ALLOC_CC_1_1_2, pd_d2 pd, IWL_RX_PHY_DATA2_EHT_MU_EXT_RU_ALLOC_A2),
          (2, IEEE80211_RADIOTAP_EHT_DATA2_RU_ALLOC_CC_2_1_2_KNOWN,
               IEEE80211_RADIOTAP_EHT_DATA2_RU_ALLOC_CC_2_1_2, pd_d3 pd, IWL_RX_PHY_DATA3_EHT_MU_EXT_RU_ALLOC_C2)] else []) @
      (if phy_bw = RATE_MCS_CHAN_WIDTH_40 then
         [(2, IEEE80211_RADIOTAP_EHT_DATA2_RU_ALLOC_CC_2_1_1_KNOWN,
               IEEE80211_RADIOTAP_EHT_DATA2_RU_ALLOC_CC_2_1_1, pd_d2 pd, IWL_RX_PHY_DATA2_EHT_MU_EXT_RU_ALLOC_B1)]
       else if phy_bw = RATE_MCS_CHAN_WIDTH_80 then
         [(2, IEEE80211_RADIOTAP_EHT_DATA2_RU_ALLOC_CC_1_1_2_KNOWN,
               IEEE80211_RADIOTAP_EHT_DATA2_RU_ALLOC_CC_1_1_2, pd_d2 pd, IWL_RX_PHY_DATA2_EHT_MU_EXT_RU_ALLOC_B1),
          (2, IEEE80211_RADIOTAP_EHT_DATA2_RU_ALLOC_CC_2_1_2_KNOWN,
               IEEE80211_RADIOTAP_EHT_DATA2_RU_ALLOC_CC_2_1_2, pd_eht_d4 pd, IWL_RX_PHY_DATA4_EHT_MU_EXT_RU_ALLOC_D1)]
       else if phy_bw = RATE_MCS_CHAN_WIDTH_160 then
         [(3, IEEE80211_RADIOTAP_EHT_DATA3_RU_ALLOC_CC_1_2_1_KNOWN,
               IEEE80211_RADIOTAP_EHT_DATA3_RU_ALLOC_CC_1_2_1, pd_d2 pd, IWL_RX_PHY_DATA2_EHT_MU_EXT_RU_ALLOC_B1),
          (3, IEEE80211_RADIOTAP_EHT_DATA3_RU_ALLOC_CC_2_2_1_KNOWN,
               IEEE80211_RADIOTAP_EHT_DATA3_RU_ALLOC_CC_2_2_1, pd_eht_d4 pd, IWL_RX_PHY_DATA4_EHT_MU_EXT_RU_ALLOC_D1),
          (3, IEEE80211_RADIOTAP_EHT_DATA3_RU_ALLOC_CC_1_2_2_KNOWN,
               IEEE80211_RADIOTAP_EHT_DATA3_RU_ALLOC_CC_1_2_2, pd_d3 pd, IWL_RX_PHY_DATA3_EHT_MU_EXT_RU_ALLOC_B2),
          (4, IEEE80211_RADIOTAP_EHT_DATA4_RU_ALLOC_CC_2_2_2_KNOWN,
               IEEE80211_RADIOTAP_EHT_DATA4_RU_ALLOC_CC_2_2_2, pd_eht_d4 pd, IWL_RX_PHY_DATA4_EHT_MU_EXT_RU_ALLOC_D2)]
       else if phy_bw = RATE_MCS_CHAN_WIDTH_320 then
         [(4, IEEE80211_RADIOTAP_EHT_DATA4_RU_ALLOC_CC_1_2_3_KNOWN,
               IEEE80211_RADIOTAP_EHT_DATA4_RU_ALLOC_CC_1_2_3, pd_d2 pd, IWL_RX_PHY_DATA2_EHT_MU_EXT_RU_ALLOC_B1),
          (4, IEEE80211_RADIOTAP_EHT_DATA4_RU_ALLOC_CC_2_2_3_KNOWN,
               IEEE80211_RADIOTAP_EHT_DATA4_RU_ALLOC_CC_2_2_3, pd_eht_d4 pd, IWL_RX_PHY_DATA4_EHT_MU_EXT_RU_ALLOC_D1),
          (5, IEEE80211_RADIOTAP_EHT_DATA5_RU_ALLOC_CC_1_2_4_KNOWN,
               IEEE80211_RADIOTAP_EHT_DATA5_RU_ALLOC_CC_1_2_4, pd_d3 pd, IWL_RX_PHY_DATA3_EHT_MU_EXT_RU_ALLOC_B2),
          (5, IEEE80211_RADIOTAP_EHT_DATA5_RU_ALLOC_CC_2_2_4_KNOWN,
               IEEE80211_RADIOTAP_EHT_DATA5_RU_ALLOC_CC_2_2_4, pd_eht_d4 pd, IWL_RX_PHY_DATA4_EHT_MU_EXT_RU_ALLOC_D2)]
       else []))"

definition eht_mu_ru :: "iwl_mvm_rx_phy_data \<Rightarrow> radiotap_eht \<Rightarrow> radiotap_eht" where
  "eht_mu_ru pd e = fold (\<lambda>(i, known, field, data, m). eht_ru_alloc i known field data m) (eht_mu_rus pd) e"

definition iwl_mvm_decode_eht_ext_mu ::
  "iwl_mvm_rx_phy_data \<Rightarrow> radiotap_eht \<times> radiotap_eht_usig \<Rightarrow> radiotap_eht \<times> radiotap_eht_usig"
where
  "iwl_mvm_decode_eht_ext_mu pd =
     (\<lambda>(e, us). if pd_with_data pd then
        (let e = e\<lparr>eht_user_info := eht_user_info e OR IEEE80211_RADIOTAP_EHT_USER_INFO_STA_ID_KNOWN OR
                    dec_enc (pd_d5 pd) IWL_RX_PHY_DATA5_EHT_MU_STA_ID_USR IEEE80211_RADIOTAP_EHT_USER_INFO_STA_ID,
                  eht_known := eht_known e OR IEEE80211_RADIOTAP_EHT_KNOWN_NR_NON_OFDMA_USERS_M\<rparr>;
             e = eht_or 7 (dec_enc (pd_d5 pd) IWL_RX_PHY_DATA5_EHT_MU_NUM_USR_NON_OFDMA
                    IEEE80211_RADIOTAP_EHT_DATA7_NUM_OF_NON_OFDMA_USERS) e
         in (eht_mu_ru pd e, eht_mu_usig_data pd us))
      else (e, eht_mu_usig_vector pd us))"

definition iwl_mvm_decode_eht_ext_tb :: "iwl_mvm_rx_phy_data \<Rightarrow> radiotap_eht_usig \<Rightarrow> radiotap_eht_usig" where
  "iwl_mvm_decode_eht_ext_tb pd us =
     (if pd_with_data pd then
        (let us = usig_value_mask (pd_d5 pd) IWL_RX_PHY_DATA5_EHT_TYPE_AND_COMP IEEE80211_RADIOTAP_EHT_USIG2_TB_B0_B1_PPDU_TYPE us;
             us = usig_value_mask (pd_d5 pd) IWL_RX_PHY_DATA5_EHT_TB_SPATIAL_REUSE1 IEEE80211_RADIOTAP_EHT_USIG2_TB_B3_B6_SPATIAL_REUSE_1 us;
             us = usig_value_mask (pd_d5 pd) IWL_RX_PHY_DATA5_EHT_TB_SPATIAL_REUSE2 IEEE80211_RADIOTAP_EHT_USIG2_TB_B7_B10_SPATIAL_REUSE_2 us
         in us)
      else
        (let us = usig_value_mask (pd_rx_vec pd ! 0) IWL_RX_USIG_A1_DISREGARD IEEE80211_RADIOTAP_EHT_USIG1_TB_B0_B25_DISREGARD us;
             us = usig_value_mask (pd_rx_vec pd ! 0) IWL_RX_USIG_A1_ENHANCED_WIFI_VER_ID IEEE80211_RADIOTAP_EHT_USIG2_TB_B0_B1_PPDU_TYPE us;
             us = usig_value_mask (pd_rx_vec pd ! 1) IWL_RX_USIG_A2_EHT_USIG2_VALIDATE_B2 IEEE80211_RADIOTAP_EHT_USIG2_TB_B2_VALIDATE us;
             us = usig_value_mask (pd_rx_vec pd ! 1) IWL_RX_USIG_A2_EHT_TRIG_SPATIAL_REUSE_1 IEEE80211_RADIOTAP_EHT_USIG2_TB_B3_B6_SPATIAL_REUSE_1 us;
             us = usig_value_mask (pd_rx_vec pd ! 1) IWL_RX_USIG_A2_EHT_TRIG_SPATIAL_REUSE_2 IEEE80211_RADIOTAP_EHT_USIG2_TB_B7_B10_SPATIAL_REUSE_2 us;
             us = usig_value_mask (pd_rx_vec pd ! 1) IWL_RX_USIG_A2_EHT_TRIG_USIG2_DISREGARD IEEE80211_RADIOTAP_EHT_USIG2_TB_B11_B15_DISREGARD us;
             us = usig_value_mask (pd_rx_vec pd ! 1) IWL_RX_USIG_A2_EHT_CRC_OK IEEE80211_RADIOTAP_EHT_USIG2_TB_B16_B19_CRC us
         in us))"

text \<open>The switch over the resource unit of a trigger-based frame.\<close>

definition eht_ru_switch :: "nat \<Rightarrow> nl80211_eht_ru_alloc option" where
  "eht_ru_switch ru =
     (if ru \<le> 36 then Some NL80211_RATE_INFO_EHT_RU_ALLOC_26
      else if ru \<le> 52 then Some NL80211_RATE_INFO_EHT_RU_ALLOC_52
      else if ru \<le> 60 then Some NL80211_RATE_INFO_EHT_RU_ALLOC_106
      else if ru \<le> 64 then Some NL80211_RATE_INFO_EHT_RU_ALLOC_242
      else if ru \<le> 66 then Some NL80211_RATE_INFO_EHT_RU_ALLOC_484
      else if ru = 67 then Some NL80211_RATE_INFO_EHT_RU_ALLOC_996
      else if ru = 68 then Some NL80211_RATE_INFO_EHT_RU_ALLOC_2x996
      else if ru = 69 then Some NL80211_RATE_INFO_EHT_RU_ALLOC_4x996
      else if ru \<le> 81 then Some NL80211_RATE_INFO_EHT_RU_ALLOC_52P26
      else if ru \<le> 89 then Some NL80211_RATE_INFO_EHT_RU_ALLOC_106P26
      else if ru \<le> 93 then Some NL80211_RATE_INFO_EHT_RU_ALLOC_484P242
      else if ru \<le> 95 then Some NL80211_RATE_INFO_EHT_RU_ALLOC_996P484
      else if ru \<le> 99 then Some NL80211_RATE_INFO_EHT_RU_ALLOC_996P484P242
      else if ru \<le> 103 then Some NL80211_RATE_INFO_EHT_RU_ALLOC_2x996P484
      else if ru = 104 then Some NL80211_RATE_INFO_EHT_RU_ALLOC_3x996
      else if ru \<le> 106 then Some NL80211_RATE_INFO_EHT_RU_ALLOC_3x996P484
      else None)"

definition iwl_mvm_decode_eht_ru :: "radiotap_eht \<Rightarrow> mvm_rx_status \<Rightarrow> mvm_rx_status" where
  "iwl_mvm_decode_eht_ru e s =
     (case eht_ru_switch (unat (get_bits (eht_data e ! 8) IEEE80211_RADIOTAP_EHT_DATA8_RU_ALLOC_TB_FMT_B7_B1)) of
        None \<Rightarrow> s | Some nl_ru \<Rightarrow> s\<lparr>ms_bw := RATE_INFO_BW_EHT_RU, ms_eht_ru := nl_ru\<rparr>)"

text \<open>
  The common part of \<open>iwl_mvm_decode_eht_phy_data\<close>: the fields of the EHT header and those of the U-SIG
  header. The primary 80 MHz channel is that of the monitor interface.
\<close>

definition eht_common_fields :: "iwl_mvm_rx_phy_data \<Rightarrow> u8 \<Rightarrow> radiotap_eht \<Rightarrow> radiotap_eht" where
  "eht_common_fields pd monitor_p80 e =
     (let data0 = pd_d0 pd; data1 = pd_d1 pd;
          e = e\<lparr>eht_known := eht_known e OR IEEE80211_RADIOTAP_EHT_KNOWN_SPATIAL_REUSE OR
                 IEEE80211_RADIOTAP_EHT_KNOWN_RU_ALLOC_TB_FMT OR IEEE80211_RADIOTAP_EHT_KNOWN_PRIMARY_80 OR
                 IEEE80211_RADIOTAP_EHT_KNOWN_LDPC_EXTRA_SYM_OM OR IEEE80211_RADIOTAP_EHT_KNOWN_PRE_PADD_FACOR_OM OR
                 IEEE80211_RADIOTAP_EHT_KNOWN_PE_DISAMBIGUITY_OM OR IEEE80211_RADIOTAP_EHT_KNOWN_EHT_LTF\<rparr>;
          e = eht_or 0 (dec_enc data0 IWL_RX_PHY_DATA0_ETH_SPATIAL_REUSE_MASK IEEE80211_RADIOTAP_EHT_DATA0_SPATIAL_REUSE OR
                dec_enc data0 IWL_RX_PHY_DATA0_EHT_LDPC_EXT_SYM IEEE80211_RADIOTAP_EHT_DATA0_LDPC_EXTRA_SYM_OM OR
                dec_enc data0 IWL_RX_PHY_DATA0_EHT_PRE_FEC_PAD_MASK IEEE80211_RADIOTAP_EHT_DATA0_PRE_PADD_FACOR_OM OR
                dec_enc data0 IWL_RX_PHY_DATA0_EHT_PE_DISAMBIG IEEE80211_RADIOTAP_EHT_DATA0_PE_DISAMBIGUITY_OM OR
                dec_enc data1 IWL_RX_PHY_DATA1_EHT_SIG_LTF_NUM IEEE80211_RADIOTAP_EHT_DATA0_EHT_LTF) e;
          e = eht_or 8 (dec_enc data0 IWL_RX_PHY_DATA0_EHT_PS160 IEEE80211_RADIOTAP_EHT_DATA8_RU_ALLOC_TB_FMT_PS_160 OR
                dec_enc data1 IWL_RX_PHY_DATA1_EHT_B0 IEEE80211_RADIOTAP_EHT_DATA8_RU_ALLOC_TB_FMT_B0 OR
                dec_enc data1 IWL_RX_PHY_DATA1_EHT_RU_B1_B7_ALLOC IEEE80211_RADIOTAP_EHT_DATA8_RU_ALLOC_TB_FMT_B7_B1) e
      in eht_or 1 (encode_bits (ucast monitor_p80) IEEE80211_RADIOTAP_EHT_DATA1_PRIMARY_80) e)"

definition usig_common_fields :: "iwl_mvm_rx_phy_data \<Rightarrow> radiotap_eht_usig \<Rightarrow> radiotap_eht_usig" where
  "usig_common_fields pd us =
     (let data0 = pd_d0 pd; usig_a1 = pd_rx_vec pd ! 0
      in us\<lparr>us_common := us_common us OR IEEE80211_RADIOTAP_EHT_USIG_COMMON_UL_DL_KNOWN OR
              IEEE80211_RADIOTAP_EHT_USIG_COMMON_BSS_COLOR_KNOWN OR
              (if pd_with_data pd
               then dec_enc data0 IWL_RX_PHY_DATA0_EHT_UPLINK IEEE80211_RADIOTAP_EHT_USIG_COMMON_UL_DL OR
                 dec_enc data0 IWL_RX_PHY_DATA0_EHT_BSS_COLOR_MASK IEEE80211_RADIOTAP_EHT_USIG_COMMON_BSS_COLOR
               else dec_enc usig_a1 IWL_RX_USIG_A1_UL_FLAG IEEE80211_RADIOTAP_EHT_USIG_COMMON_UL_DL OR
                 dec_enc data0 IWL_RX_USIG_A1_BSS_COLOR IEEE80211_RADIOTAP_EHT_USIG_COMMON_BSS_COLOR_KNOWN) OR
              IEEE80211_RADIOTAP_EHT_USIG_COMMON_TXOP_KNOWN OR
              (if pd_with_data pd
               then dec_enc data0 IWL_RX_PHY_DATA0_EHT_TXOP_DUR_MASK IEEE80211_RADIOTAP_EHT_USIG_COMMON_TXOP
               else dec_enc usig_a1 IWL_RX_USIG_A1_TXOP_DURATION IEEE80211_RADIOTAP_EHT_USIG_COMMON_TXOP) OR
              (if get_bits data0 IWL_RX_PHY_DATA0_EHT_SIGA_CRC_OK \<noteq> 0
               then IEEE80211_RADIOTAP_EHT_USIG_COMMON_BAD_USIG_CRC else 0) OR
              IEEE80211_RADIOTAP_EHT_USIG_COMMON_PHY_VER_KNOWN OR
              dec_enc data0 IWL_RX_PHY_DATA0_EHT_PHY_VER IEEE80211_RADIOTAP_EHT_USIG_COMMON_PHY_VER\<rparr>)"

definition iwl_mvm_decode_eht_phy_data ::
  "iwl_mvm_rx_phy_data \<Rightarrow> u8 \<Rightarrow> radiotap_eht \<times> radiotap_eht_usig \<times> mvm_rx_status
   \<Rightarrow> radiotap_eht \<times> radiotap_eht_usig \<times> mvm_rx_status"
where
  "iwl_mvm_decode_eht_phy_data pd monitor_p80 =
     (\<lambda>(e, us, s).
        let info_type = pd_info_type pd in
        if info_type < IWL_RX_PHY_INFO_TYPE_EHT_MU \<or> IWL_RX_PHY_INFO_TYPE_EHT_TB_EXT < info_type then (e, us, s)
        else
          (let e = eht_common_fields pd monitor_p80 e;
               us = usig_common_fields pd us;
               s = iwl_mvm_decode_eht_ru e s;
               us = (if info_type = IWL_RX_PHY_INFO_TYPE_EHT_TB_EXT \<or> info_type = IWL_RX_PHY_INFO_TYPE_EHT_TB
                     then iwl_mvm_decode_eht_ext_tb pd us else us);
               (e, us) = (if info_type = IWL_RX_PHY_INFO_TYPE_EHT_MU_EXT \<or> info_type = IWL_RX_PHY_INFO_TYPE_EHT_MU
                     then iwl_mvm_decode_eht_ext_mu pd (e, us) else (e, us))
           in (e, us, s)))"

definition eht_gi_ltf_switch :: "u32 \<Rightarrow> (rate_info_eht_gi \<times> u16) option" where
  "eht_gi_ltf_switch rate_n_flags =
     (let he_type = rate_n_flags AND RATE_MCS_HE_TYPE_MSK;
          gi_ltf = get_bits rate_n_flags RATE_MCS_HE_GI_LTF_MSK
      in if gi_ltf = 0 then
           (if he_type = RATE_MCS_HE_TYPE_TRIG
            then Some (NL80211_RATE_INFO_EHT_GI_1_6, IEEE80211_RADIOTAP_HE_DATA5_LTF_SIZE_1X)
            else Some (NL80211_RATE_INFO_EHT_GI_0_8, IEEE80211_RADIOTAP_HE_DATA5_LTF_SIZE_2X))
         else if gi_ltf = 1 then Some (NL80211_RATE_INFO_EHT_GI_1_6, IEEE80211_RADIOTAP_HE_DATA5_LTF_SIZE_2X)
         else if gi_ltf = 2 then
           Some (if he_type = RATE_MCS_HE_TYPE_TRIG then NL80211_RATE_INFO_EHT_GI_3_2 else NL80211_RATE_INFO_EHT_GI_0_8,
                 IEEE80211_RADIOTAP_HE_DATA5_LTF_SIZE_4X)
         else if gi_ltf = 3 \<and> he_type \<noteq> RATE_MCS_HE_TYPE_TRIG
         then Some (NL80211_RATE_INFO_EHT_GI_3_2, IEEE80211_RADIOTAP_HE_DATA5_LTF_SIZE_4X)
         else None)"

text \<open>The numbers of the enumeration \<open>nl80211_eht_gi\<close>.\<close>

definition eht_gi_code :: "rate_info_eht_gi \<Rightarrow> u32" where
  "eht_gi_code gi = (case gi of NL80211_RATE_INFO_EHT_GI_0_8 \<Rightarrow> 0 | NL80211_RATE_INFO_EHT_GI_1_6 \<Rightarrow> 1 | NL80211_RATE_INFO_EHT_GI_3_2 \<Rightarrow> 2)"

text \<open>The last part of \<open>iwl_mvm_rx_eht\<close>: what the rate word says.\<close>

definition eht_rate_fields :: "u32 \<Rightarrow> radiotap_eht \<times> radiotap_eht_usig \<times> mvm_rx_status \<Rightarrow> radiotap_eht \<times> radiotap_eht_usig \<times> mvm_rx_status" where
  "eht_rate_fields rate_n_flags =
     (\<lambda>(e, us, s).
        let (e, s) = (case eht_gi_ltf_switch rate_n_flags of None \<Rightarrow> (e, s)
              | Some (gi, ltf) \<Rightarrow>
                  (eht_or 0 (encode_bits (ucast ltf) IEEE80211_RADIOTAP_EHT_DATA0_LTF OR
                       encode_bits (eht_gi_code gi) IEEE80211_RADIOTAP_EHT_DATA0_GI)
                     (e\<lparr>eht_known := eht_known e OR IEEE80211_RADIOTAP_EHT_KNOWN_GI OR IEEE80211_RADIOTAP_EHT_KNOWN_LTF\<rparr>),
                   s\<lparr>ms_eht_gi := gi\<rparr>))
        in (e\<lparr>eht_user_info := eht_user_info e OR IEEE80211_RADIOTAP_EHT_USER_INFO_MCS_KNOWN OR
                IEEE80211_RADIOTAP_EHT_USER_INFO_CODING_KNOWN OR IEEE80211_RADIOTAP_EHT_USER_INFO_NSS_KNOWN_O OR
                IEEE80211_RADIOTAP_EHT_USER_INFO_BEAMFORMING_KNOWN_O OR IEEE80211_RADIOTAP_EHT_USER_INFO_DATA_FOR_USER OR
                (if tst rate_n_flags RATE_MCS_BF_MSK then IEEE80211_RADIOTAP_EHT_USER_INFO_BEAMFORMING_O else 0) OR
                (if tst rate_n_flags RATE_MCS_LDPC_MSK then IEEE80211_RADIOTAP_EHT_USER_INFO_CODING else 0) OR
                dec_enc rate_n_flags RATE_VHT_MCS_RATE_CODE_MSK IEEE80211_RADIOTAP_EHT_USER_INFO_MCS OR
                dec_enc rate_n_flags RATE_MCS_NSS_MSK IEEE80211_RADIOTAP_EHT_USER_INFO_NSS_O\<rparr>, us, s))"

definition iwl_mvm_rx_eht ::
  "nat \<Rightarrow> u8 \<Rightarrow> iwl_mvm_rx_phy_data \<Rightarrow> mvm_rx_status \<Rightarrow> radiotap_eht \<times> radiotap_eht_usig \<times> mvm_rx_status"
where
  "iwl_mvm_rx_eht queue monitor_p80 pd s =
     (let rate_n_flags = pd_rate_n_flags pd;
          s = s\<lparr>ms_flag := eof_aggregate queue pd
                 (eof_single queue pd IWL_RX_PHY_DATA0_EHT_DELIM_EOF (ms_flag s OR RX_FLAG_RADIOTAP_TLV_AT_END))\<rparr>;
          us = usig_zero\<lparr>us_common := IEEE80211_RADIOTAP_EHT_USIG_COMMON_BW_KNOWN OR
                 dec_enc rate_n_flags RATE_MCS_CHAN_WIDTH_MSK IEEE80211_RADIOTAP_EHT_USIG_COMMON_BW\<rparr>;
          r = (if tst (pd_phy_info pd) IWL_RX_MPDU_PHY_TSF_OVERLOAD
               then iwl_mvm_decode_eht_phy_data pd monitor_p80 (eht_zero, us, s) else (eht_zero, us, s))
      in eht_rate_fields rate_n_flags r)"


section \<open>Lemmas\<close>

lemma eht_or_simps [simp]:
  "eht_known (eht_or i x e) = eht_known e" "eht_user_info (eht_or i x e) = eht_user_info e"
  "length (eht_data (eht_or i x e)) = length (eht_data e)"
  "j \<noteq> i \<Longrightarrow> eht_data (eht_or i x e) ! j = eht_data e ! j"
  "i < length (eht_data e) \<Longrightarrow> eht_data (eht_or i x e) ! i = eht_data e ! i OR x"
  by (simp_all add: eht_or_def)

lemma eht_ru_alloc_simps [simp]:
  "eht_known (eht_ru_alloc i k r d f e) = eht_known e" "eht_user_info (eht_ru_alloc i k r d f e) = eht_user_info e"
  "length (eht_data (eht_ru_alloc i k r d f e)) = length (eht_data e)"
  "j \<noteq> i \<Longrightarrow> eht_data (eht_ru_alloc i k r d f e) ! j = eht_data e ! j"
  "i < length (eht_data e) \<Longrightarrow> eht_data (eht_ru_alloc i k r d f e) ! i = eht_data e ! i OR (k OR dec_enc d f r)"
  by (simp_all add: eht_ru_alloc_def)

text \<open>What a sequence of macro invocations writes to one word.\<close>

fun rus_word :: "nat \<Rightarrow> (nat \<times> u32 \<times> u32 \<times> u32 \<times> u32) list \<Rightarrow> u32 \<Rightarrow> u32" where
  "rus_word j [] w = w"
| "rus_word j ((i, known, field, data, m) # rus) w =
     rus_word j rus (if i = j then w OR (known OR dec_enc data m field) else w)"

lemma fold_ru_alloc:
  "list_all (\<lambda>r. fst r < length (eht_data e)) rus \<Longrightarrow>
   (let e' = fold (\<lambda>(i, known, field, data, m). eht_ru_alloc i known field data m) rus e
    in eht_known e' = eht_known e \<and> eht_user_info e' = eht_user_info e \<and> length (eht_data e') = length (eht_data e) \<and>
       eht_data e' ! j = rus_word j rus (eht_data e ! j))"
  by (induction rus arbitrary: e) (auto simp: Let_def)

lemma rus_word_other: "list_all (\<lambda>r. fst r \<noteq> j) rus \<Longrightarrow> rus_word j rus w = w"
  by (induction rus arbitrary: w) auto

lemma eht_mu_rus_index: "list_all (\<lambda>r. fst r \<in> {1, 2, 3, 4, 5}) (eht_mu_rus pd)"
  by (simp add: eht_mu_rus_def Let_def)

lemma eht_mu_rus_small: "5 < n \<Longrightarrow> list_all (\<lambda>r. fst r < n) (eht_mu_rus pd)"
  by (rule list.pred_mono_strong [OF eht_mu_rus_index]) auto

lemma eht_mu_rus_other: "j = 0 \<or> 5 < j \<Longrightarrow> list_all (\<lambda>r. fst r \<noteq> j) (eht_mu_rus pd)"
  by (rule list.pred_mono_strong [OF eht_mu_rus_index]) auto

lemma rus_word_mu: "j = 0 \<or> 5 < j \<Longrightarrow> rus_word j (eht_mu_rus pd) w = w"
  by (rule rus_word_other [OF eht_mu_rus_other])

lemma eht_mu_ru_simps [simp]:
  assumes "5 < length (eht_data e)"
  shows "eht_known (eht_mu_ru pd e) = eht_known e" "eht_user_info (eht_mu_ru pd e) = eht_user_info e"
    "length (eht_data (eht_mu_ru pd e)) = length (eht_data e)"
    "eht_data (eht_mu_ru pd e) ! j = rus_word j (eht_mu_rus pd) (eht_data e ! j)"
  using fold_ru_alloc [OF eht_mu_rus_small [OF assms], of pd j] by (simp_all add: eht_mu_ru_def Let_def)

lemma usig_value_mask_simps [simp]: "us_common (usig_value_mask v d f us) = us_common us"
  by (simp add: usig_value_mask_def)

lemma eht_usig_others [simp]:
  "us_common (eht_mu_usig_data pd us) = us_common us" "us_common (eht_mu_usig_vector pd us) = us_common us"
  "us_common (iwl_mvm_decode_eht_ext_tb pd us) = us_common us"
  by (simp_all add: eht_mu_usig_data_def eht_mu_usig_vector_def iwl_mvm_decode_eht_ext_tb_def Let_def)

section \<open>What the EHT fields must say\<close>

definition eht_report :: "iwl_mvm_rx_phy_data \<Rightarrow> bool" where
  "eht_report pd \<longleftrightarrow> tst (pd_phy_info pd) IWL_RX_MPDU_PHY_TSF_OVERLOAD \<and>
     pd_info_type pd \<in> {IWL_RX_PHY_INFO_TYPE_EHT_MU, IWL_RX_PHY_INFO_TYPE_EHT_TB, IWL_RX_PHY_INFO_TYPE_EHT_MU_EXT,
       IWL_RX_PHY_INFO_TYPE_EHT_TB_EXT}"

text \<open>A field of the EHT header, and where the firmware puts it.\<close>

definition eht_rows :: "(nat \<times> u32 \<times> (iwl_mvm_rx_phy_data \<Rightarrow> u32) \<times> u32) list" where
  "eht_rows =
     [(0, IEEE80211_RADIOTAP_EHT_DATA0_SPATIAL_REUSE, pd_d0, IWL_RX_PHY_DATA0_ETH_SPATIAL_REUSE_MASK),
      (0, IEEE80211_RADIOTAP_EHT_DATA0_LDPC_EXTRA_SYM_OM, pd_d0, IWL_RX_PHY_DATA0_EHT_LDPC_EXT_SYM),
      (0, IEEE80211_RADIOTAP_EHT_DATA0_PRE_PADD_FACOR_OM, pd_d0, IWL_RX_PHY_DATA0_EHT_PRE_FEC_PAD_MASK),
      (0, IEEE80211_RADIOTAP_EHT_DATA0_PE_DISAMBIGUITY_OM, pd_d0, IWL_RX_PHY_DATA0_EHT_PE_DISAMBIG),
      (0, IEEE80211_RADIOTAP_EHT_DATA0_EHT_LTF, pd_d1, IWL_RX_PHY_DATA1_EHT_SIG_LTF_NUM),
      (8, IEEE80211_RADIOTAP_EHT_DATA8_RU_ALLOC_TB_FMT_PS_160, pd_d0, IWL_RX_PHY_DATA0_EHT_PS160),
      (8, IEEE80211_RADIOTAP_EHT_DATA8_RU_ALLOC_TB_FMT_B0, pd_d1, IWL_RX_PHY_DATA1_EHT_B0),
      (8, IEEE80211_RADIOTAP_EHT_DATA8_RU_ALLOC_TB_FMT_B7_B1, pd_d1, IWL_RX_PHY_DATA1_EHT_RU_B1_B7_ALLOC)]"

text \<open>A field of the U-SIG header of a frame with data.\<close>

definition usig_rows :: "(u32 \<times> u32 \<times> u32) list" where
  "usig_rows =
     [(IEEE80211_RADIOTAP_EHT_USIG_COMMON_UL_DL_KNOWN, IEEE80211_RADIOTAP_EHT_USIG_COMMON_UL_DL, IWL_RX_PHY_DATA0_EHT_UPLINK),
      (IEEE80211_RADIOTAP_EHT_USIG_COMMON_BSS_COLOR_KNOWN, IEEE80211_RADIOTAP_EHT_USIG_COMMON_BSS_COLOR,
         IWL_RX_PHY_DATA0_EHT_BSS_COLOR_MASK),
      (IEEE80211_RADIOTAP_EHT_USIG_COMMON_TXOP_KNOWN, IEEE80211_RADIOTAP_EHT_USIG_COMMON_TXOP, IWL_RX_PHY_DATA0_EHT_TXOP_DUR_MASK),
      (IEEE80211_RADIOTAP_EHT_USIG_COMMON_PHY_VER_KNOWN, IEEE80211_RADIOTAP_EHT_USIG_COMMON_PHY_VER, IWL_RX_PHY_DATA0_EHT_PHY_VER)]"

definition eht_rows_right :: "iwl_mvm_rx_phy_data \<Rightarrow> radiotap_eht \<Rightarrow> bool" where
  "eht_rows_right pd e \<longleftrightarrow>
     list_all (\<lambda>(i, field, source, m). get_bits (eht_data e ! i) field = get_bits (source pd) m) eht_rows"

definition usig_rows_right :: "iwl_mvm_rx_phy_data \<Rightarrow> radiotap_eht_usig \<Rightarrow> bool" where
  "usig_rows_right pd us \<longleftrightarrow>
     list_all (\<lambda>(known, field, m). tst (us_common us) known \<and> get_bits (us_common us) field = get_bits (pd_d0 pd) m) usig_rows"

lemma ucast_u32 [simp]: "(ucast (w :: u32) :: u32) = w"
  by (rule bit_word_eqI) (simp add: bit_simps)

lemma eht_range: "info \<in> {IWL_RX_PHY_INFO_TYPE_EHT_MU, IWL_RX_PHY_INFO_TYPE_EHT_TB, IWL_RX_PHY_INFO_TYPE_EHT_MU_EXT,
    IWL_RX_PHY_INFO_TYPE_EHT_TB_EXT} \<longleftrightarrow> \<not> (info < IWL_RX_PHY_INFO_TYPE_EHT_MU \<or> IWL_RX_PHY_INFO_TYPE_EHT_TB_EXT < info)"
  by (auto simp: fw_fields word_less_nat_alt word_le_nat_alt word_unat_eq_iff)

text \<open>The words of the two headers that do not depend on the kind of EHT report.\<close>

lemma eht_zero_simps [simp]:
  "eht_known eht_zero = 0" "length (eht_data eht_zero) = 9" "i < 9 \<Longrightarrow> eht_data eht_zero ! i = 0" "eht_user_info eht_zero = 0"
  by (simp_all add: eht_zero_def)

lemma eht_common_length [simp]: "length (eht_data (eht_common_fields pd p80 e)) = length (eht_data e)"
  by (simp add: eht_common_fields_def Let_def)

lemma eht_ext_mu_data:
  "fst (iwl_mvm_decode_eht_ext_mu pd (e, us)) = e' \<Longrightarrow> 8 < length (eht_data e) \<Longrightarrow> eht_data e' ! 0 = eht_data e ! 0 \<and> eht_data e' ! 8 = eht_data e ! 8 \<and>
    length (eht_data e') = length (eht_data e) \<and> us_common (snd (iwl_mvm_decode_eht_ext_mu pd (e, us))) = us_common us"
  by (auto simp: iwl_mvm_decode_eht_ext_mu_def Let_def rus_word_mu)

lemma eht_types_distinct:
  "IWL_RX_PHY_INFO_TYPE_EHT_MU \<noteq> IWL_RX_PHY_INFO_TYPE_EHT_TB" "IWL_RX_PHY_INFO_TYPE_EHT_MU \<noteq> IWL_RX_PHY_INFO_TYPE_EHT_TB_EXT"
  "IWL_RX_PHY_INFO_TYPE_EHT_MU_EXT \<noteq> IWL_RX_PHY_INFO_TYPE_EHT_TB" "IWL_RX_PHY_INFO_TYPE_EHT_MU_EXT \<noteq> IWL_RX_PHY_INFO_TYPE_EHT_TB_EXT"
  by (simp_all add: fw_fields)

text \<open>The decoder of an EHT report, by kind.\<close>

lemma eht_phy_data_cases:
  assumes "eht_report pd"
  shows "iwl_mvm_decode_eht_phy_data pd p80 (e, us, s) =
    (let e = eht_common_fields pd p80 e; us = usig_common_fields pd us; s = iwl_mvm_decode_eht_ru e s
     in if pd_info_type pd = IWL_RX_PHY_INFO_TYPE_EHT_MU \<or> pd_info_type pd = IWL_RX_PHY_INFO_TYPE_EHT_MU_EXT
        then (fst (iwl_mvm_decode_eht_ext_mu pd (e, us)), snd (iwl_mvm_decode_eht_ext_mu pd (e, us)), s)
        else (e, iwl_mvm_decode_eht_ext_tb pd us, s))"
  using assms eht_range [of "pd_info_type pd"] eht_types_distinct
  by (auto simp: iwl_mvm_decode_eht_phy_data_def eht_report_def Let_def case_prod_unfold)

lemma eht_phy_words:
  assumes "eht_report pd" "length (eht_data e0) = 9" "r = iwl_mvm_decode_eht_phy_data pd p80 (e0, us0, s0)"
  shows "eht_data (fst r) ! 0 = eht_data (eht_common_fields pd p80 e0) ! 0"
    "eht_data (fst r) ! 8 = eht_data (eht_common_fields pd p80 e0) ! 8"
    "length (eht_data (fst r)) = 9" "us_common (fst (snd r)) = us_common (usig_common_fields pd us0)"
    "snd (snd r) = iwl_mvm_decode_eht_ru (eht_common_fields pd p80 e0) s0"
  using assms(2) eht_ext_mu_data [of pd "eht_common_fields pd p80 e0" "usig_common_fields pd us0", OF refl]
  unfolding assms(3) eht_phy_data_cases [OF assms(1)] Let_def by (auto simp only: fst_conv snd_conv split: if_splits) simp_all


lemma eht_common_words:
  "length (eht_data e) = 9 \<Longrightarrow> eht_data (eht_common_fields pd p80 e) ! 0 = eht_data e ! 0 OR
     (dec_enc (pd_d0 pd) IWL_RX_PHY_DATA0_ETH_SPATIAL_REUSE_MASK IEEE80211_RADIOTAP_EHT_DATA0_SPATIAL_REUSE OR
      dec_enc (pd_d0 pd) IWL_RX_PHY_DATA0_EHT_LDPC_EXT_SYM IEEE80211_RADIOTAP_EHT_DATA0_LDPC_EXTRA_SYM_OM OR
      dec_enc (pd_d0 pd) IWL_RX_PHY_DATA0_EHT_PRE_FEC_PAD_MASK IEEE80211_RADIOTAP_EHT_DATA0_PRE_PADD_FACOR_OM OR
      dec_enc (pd_d0 pd) IWL_RX_PHY_DATA0_EHT_PE_DISAMBIG IEEE80211_RADIOTAP_EHT_DATA0_PE_DISAMBIGUITY_OM OR
      dec_enc (pd_d1 pd) IWL_RX_PHY_DATA1_EHT_SIG_LTF_NUM IEEE80211_RADIOTAP_EHT_DATA0_EHT_LTF)"
  "length (eht_data e) = 9 \<Longrightarrow> eht_data (eht_common_fields pd p80 e) ! 8 = eht_data e ! 8 OR
     (dec_enc (pd_d0 pd) IWL_RX_PHY_DATA0_EHT_PS160 IEEE80211_RADIOTAP_EHT_DATA8_RU_ALLOC_TB_FMT_PS_160 OR
      dec_enc (pd_d1 pd) IWL_RX_PHY_DATA1_EHT_B0 IEEE80211_RADIOTAP_EHT_DATA8_RU_ALLOC_TB_FMT_B0 OR
      dec_enc (pd_d1 pd) IWL_RX_PHY_DATA1_EHT_RU_B1_B7_ALLOC IEEE80211_RADIOTAP_EHT_DATA8_RU_ALLOC_TB_FMT_B7_B1)"
  by (simp_all add: eht_common_fields_def Let_def)

text \<open>The rate word adds the LTF size and the guard interval to the first word and nothing to the last.\<close>

definition eht_rate_word :: "u32 \<Rightarrow> u32" where
  "eht_rate_word w = (case eht_gi_ltf_switch w of None \<Rightarrow> 0
     | Some (gi, ltf) \<Rightarrow> encode_bits (ucast ltf) IEEE80211_RADIOTAP_EHT_DATA0_LTF OR encode_bits (eht_gi_code gi) IEEE80211_RADIOTAP_EHT_DATA0_GI)"

lemma eht_rate_words:
  assumes "length (eht_data (fst r)) = 9"
  shows "eht_data (fst (eht_rate_fields w r)) ! 0 = eht_data (fst r) ! 0 OR eht_rate_word w"
    "eht_data (fst (eht_rate_fields w r)) ! 8 = eht_data (fst r) ! 8"
    "fst (snd (eht_rate_fields w r)) = fst (snd r)" "length (eht_data (fst (eht_rate_fields w r))) = 9"
    "ms_bw (snd (snd (eht_rate_fields w r))) = ms_bw (snd (snd r))"
    "ms_eht_ru (snd (snd (eht_rate_fields w r))) = ms_eht_ru (snd (snd r))"
  using assms by (auto simp: eht_rate_fields_def eht_rate_word_def Let_def split: prod.splits option.splits)

lemma eht_rate_word_other:
  "IEEE80211_RADIOTAP_EHT_DATA0_LTF AND f = 0 \<Longrightarrow> IEEE80211_RADIOTAP_EHT_DATA0_GI AND f = 0 \<Longrightarrow> get_bits (eht_rate_word w) f = 0"
  by (simp add: eht_rate_word_def get_encode_other split: option.splits prod.splits)

text \<open>The words of the result for an EHT report.\<close>

lemma rx_eht_words:
  assumes "eht_report pd" "(e, us, s') = iwl_mvm_rx_eht queue p80 pd s"
  shows "eht_data e ! 0 = eht_data (eht_common_fields pd p80 eht_zero) ! 0 OR eht_rate_word (pd_rate_n_flags pd)"
    "eht_data e ! 8 = eht_data (eht_common_fields pd p80 eht_zero) ! 8"
    "us_common us = us_common (usig_common_fields pd (usig_zero\<lparr>us_common := IEEE80211_RADIOTAP_EHT_USIG_COMMON_BW_KNOWN OR
       dec_enc (pd_rate_n_flags pd) RATE_MCS_CHAN_WIDTH_MSK IEEE80211_RADIOTAP_EHT_USIG_COMMON_BW\<rparr>))"
    "ms_bw s' = ms_bw (iwl_mvm_decode_eht_ru (eht_common_fields pd p80 eht_zero) s)"
    "ms_eht_ru s' = ms_eht_ru (iwl_mvm_decode_eht_ru (eht_common_fields pd p80 eht_zero) s)"
proof -
  let ?us = "usig_zero\<lparr>us_common := IEEE80211_RADIOTAP_EHT_USIG_COMMON_BW_KNOWN OR
       dec_enc (pd_rate_n_flags pd) RATE_MCS_CHAN_WIDTH_MSK IEEE80211_RADIOTAP_EHT_USIG_COMMON_BW\<rparr>"
  let ?s = "s\<lparr>ms_flag := eof_aggregate queue pd
                 (eof_single queue pd IWL_RX_PHY_DATA0_EHT_DELIM_EOF (ms_flag s OR RX_FLAG_RADIOTAP_TLV_AT_END))\<rparr>"
  let ?r = "iwl_mvm_decode_eht_phy_data pd p80 (eht_zero, ?us, ?s)"
  have t: "tst (pd_phy_info pd) IWL_RX_MPDU_PHY_TSF_OVERLOAD" using assms(1) by (simp add: eht_report_def)
  have r: "eht_rate_fields (pd_rate_n_flags pd) ?r = (e, us, s')"
    using assms(2) t by (simp add: iwl_mvm_rx_eht_def Let_def)
  note w = eht_phy_words [OF assms(1), of eht_zero ?r p80 ?us ?s, simplified]
  note f = eht_rate_words [OF w(3), of "pd_rate_n_flags pd", unfolded r, simplified]
  show "eht_data e ! 0 = eht_data (eht_common_fields pd p80 eht_zero) ! 0 OR eht_rate_word (pd_rate_n_flags pd)"
    "eht_data e ! 8 = eht_data (eht_common_fields pd p80 eht_zero) ! 8" "us_common us = us_common (usig_common_fields pd ?us)"
    using w f by simp_all
  show "ms_bw s' = ms_bw (iwl_mvm_decode_eht_ru (eht_common_fields pd p80 eht_zero) s)"
    "ms_eht_ru s' = ms_eht_ru (iwl_mvm_decode_eht_ru (eht_common_fields pd p80 eht_zero) s)"
    using f(5,6) by (simp_all add: w(5) iwl_mvm_decode_eht_ru_def split: option.splits)
qed

lemmas eht_eval = mask_eval fw_fields rt_fields

lemma eht_rows_hold:
  assumes "eht_report pd" "(e, us, s') = iwl_mvm_rx_eht queue p80 pd s"
  shows "eht_rows_right pd e"
  unfolding eht_rows_right_def eht_rows_def
  by (simp add: rx_eht_words [OF assms] eht_common_words)
    (simp add: eht_eval field_rules eht_rate_word_other)

lemma usig_rows_hold:
  assumes "eht_report pd" "(e, us, s') = iwl_mvm_rx_eht queue p80 pd s" "pd_with_data pd"
  shows "usig_rows_right pd us"
  using assms(3) unfolding usig_rows_right_def usig_rows_def
  by (simp add: rx_eht_words [OF assms(1,2)] usig_common_fields_def Let_def split del: if_split)
    (simp add: eht_eval rate_consts field_rules split del: if_split cong: if_cong)

section \<open>Resource units\<close>

definition eht_ru_classes :: "(nl80211_eht_ru_alloc \<times> nat) list" where
  "eht_ru_classes =
     [(NL80211_RATE_INFO_EHT_RU_ALLOC_26, 37), (NL80211_RATE_INFO_EHT_RU_ALLOC_52, 16),
      (NL80211_RATE_INFO_EHT_RU_ALLOC_106, 8), (NL80211_RATE_INFO_EHT_RU_ALLOC_242, 4),
      (NL80211_RATE_INFO_EHT_RU_ALLOC_484, 2), (NL80211_RATE_INFO_EHT_RU_ALLOC_996, 1),
      (NL80211_RATE_INFO_EHT_RU_ALLOC_2x996, 1), (NL80211_RATE_INFO_EHT_RU_ALLOC_4x996, 1),
      (NL80211_RATE_INFO_EHT_RU_ALLOC_52P26, 12), (NL80211_RATE_INFO_EHT_RU_ALLOC_106P26, 8),
      (NL80211_RATE_INFO_EHT_RU_ALLOC_484P242, 4), (NL80211_RATE_INFO_EHT_RU_ALLOC_996P484, 2),
      (NL80211_RATE_INFO_EHT_RU_ALLOC_996P484P242, 4), (NL80211_RATE_INFO_EHT_RU_ALLOC_2x996P484, 4),
      (NL80211_RATE_INFO_EHT_RU_ALLOC_3x996, 1), (NL80211_RATE_INFO_EHT_RU_ALLOC_3x996P484, 2)]"

lemma eht_ru_switch_below: "list_all (\<lambda>ru. eht_ru_switch ru = map_option fst (nth_of_class eht_ru_classes ru)) [0..<107]"
  by code_simp

lemma eht_ru_switch_reference: "eht_ru_switch ru = map_option fst (nth_of_class eht_ru_classes ru)"
proof (cases "ru < 107")
  case True
  then show ?thesis using eht_ru_switch_below by (simp add: list_all_iff)
next
  case False
  then have "\<not> ru - k < m" if "k + m \<le> 107" for k m using that by arith
  with False show ?thesis by (simp add: eht_ru_switch_def eht_ru_classes_def)
qed


text \<open>The second word, which only the resource units of the content channels use.\<close>

lemma rx_eht_word_2:
  assumes "eht_report pd" "pd_info_type pd = IWL_RX_PHY_INFO_TYPE_EHT_MU \<or> pd_info_type pd = IWL_RX_PHY_INFO_TYPE_EHT_MU_EXT"
    "pd_with_data pd" "(e, us, s') = iwl_mvm_rx_eht queue p80 pd s"
  shows "eht_data e ! 2 = rus_word 2 (eht_mu_rus pd) 0"
proof -
  have c: "eht_data (eht_common_fields pd p80 eht_zero) ! 2 = 0" by (simp add: eht_common_fields_def Let_def)
  have m: "eht_data (fst (iwl_mvm_decode_eht_ext_mu pd (eht_common_fields pd p80 eht_zero, v))) ! 2 = rus_word 2 (eht_mu_rus pd) 0" for v
    using assms(3) c by (simp add: iwl_mvm_decode_eht_ext_mu_def Let_def)
  have r: "eht_data (fst (eht_rate_fields w r)) ! 2 = eht_data (fst r) ! 2" for w r
    by (auto simp: eht_rate_fields_def Let_def split: prod.splits option.splits)
  have e: "e = fst (iwl_mvm_rx_eht queue p80 pd s)" using assms(4) by (metis fst_conv)
  have t: "tst (pd_phy_info pd) IWL_RX_MPDU_PHY_TSF_OVERLOAD" using assms(1) by (simp add: eht_report_def)
  show ?thesis unfolding e iwl_mvm_rx_eht_def Let_def r using t assms(2) m
    by (simp add: eht_phy_data_cases [OF assms(1)] Let_def)
qed

lemma mu_rus_40:
  assumes "pd_rate_n_flags pd AND RATE_MCS_CHAN_WIDTH_MSK = RATE_MCS_CHAN_WIDTH_40"
  shows "rus_word 2 (eht_mu_rus pd) 0 = IEEE80211_RADIOTAP_EHT_DATA2_RU_ALLOC_CC_2_1_1_KNOWN OR
    dec_enc (pd_d2 pd) IWL_RX_PHY_DATA2_EHT_MU_EXT_RU_ALLOC_B1 IEEE80211_RADIOTAP_EHT_DATA2_RU_ALLOC_CC_2_1_1"
proof -
  have "\<not> RATE_MCS_CHAN_WIDTH_80 \<le> RATE_MCS_CHAN_WIDTH_40" "\<not> RATE_MCS_CHAN_WIDTH_160 \<le> RATE_MCS_CHAN_WIDTH_40"
    by (simp_all add: rate_consts)
  then show ?thesis by (simp add: eht_mu_rus_def assms)
qed

section \<open>Properties\<close>


definition demo_eht_data :: "u32 \<Rightarrow> bool \<Rightarrow> u32 \<Rightarrow> iwl_mvm_rx_phy_data" where
  "demo_eht_data info_type with_data rate = (demo_phy_data info_type rate)\<lparr>pd_with_data := with_data, pd_d2 := 0x05540000\<rparr>"

lemma demo_eht_report: "t = 11 \<or> t = 12 \<Longrightarrow> eht_report (demo_eht_data t b w)"
  by (auto simp: eht_report_def demo_eht_data_def demo_phy_data_def tst_def hdr_simps fw_fields)


text \<open>The resource unit of an EHT frame is reported as the standard numbers the units, size after size, including the
  units put together from two or three; a number that the standard does not use leaves the bandwidth as the
  rate word gave it.\<close>

theorem eht_ru_reported:
  assumes "eht_report pd"
  shows "case iwl_mvm_rx_eht queue p80 pd s of (e, us, s') \<Rightarrow>
    (case nth_of_class eht_ru_classes (unat (get_bits (pd_d1 pd) IWL_RX_PHY_DATA1_EHT_RU_B1_B7_ALLOC)) of
       None \<Rightarrow> ms_bw s' = ms_bw s \<and> ms_eht_ru s' = ms_eht_ru s
     | Some (alloc, n) \<Rightarrow> ms_bw s' = RATE_INFO_BW_EHT_RU \<and> ms_eht_ru s' = alloc)"
proof -
  obtain e us s' where r: "(e, us, s') = iwl_mvm_rx_eht queue p80 pd s" by (metis prod_cases3)
  have "get_bits (eht_data (eht_common_fields pd p80 eht_zero) ! 8) IEEE80211_RADIOTAP_EHT_DATA8_RU_ALLOC_TB_FMT_B7_B1 =
      get_bits (pd_d1 pd) IWL_RX_PHY_DATA1_EHT_RU_B1_B7_ALLOC"
    by (simp add: eht_common_words) (simp add: eht_eval field_rules)
  then show ?thesis
    using rx_eht_words(4,5) [OF assms r]
    by (auto simp: r [symmetric] iwl_mvm_decode_eht_ru_def eht_ru_switch_reference split: option.splits)
qed

theorem eht_ru_reported_witness:
  "case iwl_mvm_rx_eht 0 0 (demo_eht_data 12 True 0x01800d00) demo_status of (e, us, s') \<Rightarrow>
    ms_bw s' = RATE_INFO_BW_EHT_RU \<and> ms_eht_ru s' = NL80211_RATE_INFO_EHT_RU_ALLOC_996"
proof -
  have "get_bits (pd_d1 (demo_eht_data 12 True 0x01800d00)) IWL_RX_PHY_DATA1_EHT_RU_B1_B7_ALLOC = 67"
    by (simp add: demo_eht_data_def demo_phy_data_def get_bits_def eht_eval)
  then show ?thesis
    using eht_ru_reported [of "demo_eht_data 12 True 0x01800d00" demo_status 0 0, OF demo_eht_report]
    by (simp add: eht_ru_classes_def)
qed

text \<open>For an EHT frame without data the BSS color is marked as known in the U-SIG field and is always zero: the driver
  takes the color from the wrong word and writes it at the place of the mark.\<close>

theorem usig_color_lost:
  assumes "eht_report pd" "\<not> pd_with_data pd"
  shows "case iwl_mvm_rx_eht queue p80 pd s of (e, us, s') \<Rightarrow>
    tst (us_common us) IEEE80211_RADIOTAP_EHT_USIG_COMMON_BSS_COLOR_KNOWN \<and>
    get_bits (us_common us) IEEE80211_RADIOTAP_EHT_USIG_COMMON_BSS_COLOR = 0"
proof -
  obtain e us s' where r: "(e, us, s') = iwl_mvm_rx_eht queue p80 pd s" by (metis prod_cases3)
  have "tst (us_common us) IEEE80211_RADIOTAP_EHT_USIG_COMMON_BSS_COLOR_KNOWN \<and>
    get_bits (us_common us) IEEE80211_RADIOTAP_EHT_USIG_COMMON_BSS_COLOR = 0"
    using assms(2) by (simp add: rx_eht_words(3) [OF assms(1) r] usig_common_fields_def Let_def split del: if_split)
      (simp add: eht_eval rate_consts field_rules split del: if_split cong: if_cong)
  then show ?thesis by (simp add: r [symmetric])
qed

theorem usig_color_lost_witness:
  "case iwl_mvm_rx_eht 0 0 (demo_eht_data 11 False 0x00000d00) demo_status of (e, us, s') \<Rightarrow>
    tst (us_common us) IEEE80211_RADIOTAP_EHT_USIG_COMMON_BSS_COLOR_KNOWN \<and>
    get_bits (us_common us) IEEE80211_RADIOTAP_EHT_USIG_COMMON_BSS_COLOR = 0"
  by (rule usig_color_lost [OF demo_eht_report]) (simp_all add: demo_eht_data_def)

text \<open>The resource unit of the second content channel of a 40 MHz EHT frame is nine bits wide, but only its low seven
  bits are reported: the driver's mask for it is two bits short.\<close>

theorem eht_second_channel_ru_truncated:
  assumes "eht_report pd" "pd_info_type pd = IWL_RX_PHY_INFO_TYPE_EHT_MU \<or> pd_info_type pd = IWL_RX_PHY_INFO_TYPE_EHT_MU_EXT"
    "pd_with_data pd" "pd_rate_n_flags pd AND RATE_MCS_CHAN_WIDTH_MSK = RATE_MCS_CHAN_WIDTH_40"
  shows "case iwl_mvm_rx_eht queue p80 pd s of (e, us, s') \<Rightarrow>
    tst (eht_data e ! 2) IEEE80211_RADIOTAP_EHT_DATA2_RU_ALLOC_CC_2_1_1_KNOWN \<and>
    get_bits (eht_data e ! 2) IEEE80211_RADIOTAP_EHT_DATA2_RU_ALLOC_CC_2_1_1 = take_bit 7 (drop_bit 18 (pd_d2 pd))"
proof -
  obtain e us s' where r: "(e, us, s') = iwl_mvm_rx_eht queue p80 pd s" by (metis prod_cases3)
  have "get_bits (pd_d2 pd) IWL_RX_PHY_DATA2_EHT_MU_EXT_RU_ALLOC_B1 = take_bit 7 (drop_bit 18 (pd_d2 pd))"
    by (simp add: get_bits_def eht_eval u32_blast)
  then show ?thesis
    unfolding r [symmetric] prod.case rx_eht_word_2 [OF assms(1-3) r] mu_rus_40 [OF assms(4)]
    by (simp add: eht_eval field_rules)
qed

theorem eht_second_channel_ru_truncated_witness:
  "case iwl_mvm_rx_eht 0 0 (demo_eht_data 11 True 0x00000d00) demo_status of (e, us, s') \<Rightarrow>
    tst (eht_data e ! 2) IEEE80211_RADIOTAP_EHT_DATA2_RU_ALLOC_CC_2_1_1_KNOWN \<and>
    get_bits (eht_data e ! 2) IEEE80211_RADIOTAP_EHT_DATA2_RU_ALLOC_CC_2_1_1 = 0x55"
proof -
  let ?pd = "demo_eht_data 11 True 0x00000d00"
  have "take_bit 7 (drop_bit 18 (pd_d2 ?pd)) = 0x55" by (simp add: demo_eht_data_def)
  then show ?thesis
    using eht_second_channel_ru_truncated [of ?pd 0 0 demo_status, OF demo_eht_report]
    by (simp add: demo_eht_data_def demo_phy_data_def fw_fields rate_consts)
qed

end
