(* ===== verification/Rx_Check.thy ===== *)
theory Rx_Check
  imports Rx_Frame
begin

text \<open>
  The checks that a received frame passes in the multi-queue receive path (mvm/rxmq.c): the verdict of
  the hardware on its encryption, duplicate detection, the check of the packet number against replays,
  and the construction of the socket buffer. The header length comes from net/wireless/util.c, the
  counters of a new key from mvm/mac80211.c and the duplicate data of a new station from mvm/sta.c.
\<close>

unbundle bit_operations_syntax

section \<open>State\<close>

definition IWL_MAX_TID_COUNT :: nat where "IWL_MAX_TID_COUNT = 8"
definition IEEE80211_CCMP_PN_LEN :: nat where "IEEE80211_CCMP_PN_LEN = 6"

text \<open>
  The data kept for a station: for each of the four key indices the last packet number per queue and
  TID, if a key is installed, and for every queue the last sequence number and subframe per TID, with
  a slot for frames without QoS. The beacon-protection keys belong to the interface.
\<close>

record dup_data =
  last_seq :: "u16 list"
  last_sub_frame :: "u8 list"

type_synonym key_pn = "u8 list list list"

record bcn_key =
  key_keyidx :: int
  key_icv_len :: u8

record rx_station =
  ptk_pn :: "key_pn option list"
  dup_data :: "dup_data list"
  bcn_keys :: "bcn_key option list"
  vif_rxcsum :: bool

text \<open>A new station, and the counters of a new pairwise key, taken from the key itself.\<close>

definition new_dup_data :: dup_data where
  "new_dup_data =
     \<lparr>last_seq = replicate (IWL_MAX_TID_COUNT + 1) 0xffff, last_sub_frame = replicate (IWL_MAX_TID_COUNT + 1) 0\<rparr>"

definition sta_init_dup_data :: "nat \<Rightarrow> rx_station \<Rightarrow> rx_station" where
  "sta_init_dup_data nq s = s\<lparr>dup_data := replicate nq new_dup_data\<rparr>"

definition set_key_pn :: "nat \<Rightarrow> nat \<Rightarrow> (nat \<Rightarrow> u8 list) \<Rightarrow> rx_station \<Rightarrow> rx_station" where
  "set_key_pn nq keyidx seq s =
     s\<lparr>ptk_pn := (ptk_pn s)[keyidx := Some (replicate nq (map seq [0..<IWL_MAX_TID_COUNT]))]\<rparr>"

definition disable_key_pn :: "nat \<Rightarrow> rx_station \<Rightarrow> rx_station" where
  "disable_key_pn keyidx s = s\<lparr>ptk_pn := (ptk_pn s)[keyidx := None]\<rparr>"

section \<open>Packet numbers\<close>

fun memcmp :: "u8 list \<Rightarrow> u8 list \<Rightarrow> int" where
  "memcmp (a # as) (b # bs) = (if a = b then memcmp as bs else uint a - uint b)"
| "memcmp _ _ = 0"

text \<open>
  The frame is the data of the socket buffer from the MAC header on. The result is whether the frame
  may be passed on, with the flags and the station; \<open>None\<close> is a read outside the data or the counters.
\<close>

definition extiv_pn :: "u8 list \<Rightarrow> u8 list" where
  "extiv_pn e = [e ! 7, e ! 6, e ! 5, e ! 4, e ! 1, e ! 0]"

definition iwl_mvm_check_pn ::
  "nat \<Rightarrow> rx_station option \<Rightarrow> u8 list \<Rightarrow> u32 \<Rightarrow> (bool \<times> u32 \<times> rx_station option) option"
where
  "iwl_mvm_check_pn queue sta frame flag =
     (let hdr = hdr_of_bytes frame; fc = frame_control hdr in
      if \<not> ieee80211_is_data fc \<or> is_multicast_ether_addr (addr1 hdr) then Some (True, flag, sta)
      else if \<not> tst flag RX_FLAG_DECRYPTED then Some (True, flag, sta)
      else if queue = 0 then Some (True, flag, sta)
      else case sta of None \<Rightarrow> Some (False, flag, sta)
      | Some s \<Rightarrow>
          (let extiv = drop (ieee80211_hdrlen fc) frame in
           if length extiv < 4 then None
           else
             (let keyidx = unat (drop_bit 6 (extiv ! 3)) in
              case ptk_pn s ! keyidx of None \<Rightarrow> Some (False, flag, sta)
              | Some q \<Rightarrow>
                  (let tid = (if ieee80211_is_data_qos fc then unat (ieee80211_get_tid hdr) else 0) in
                   if IWL_MAX_TID_COUNT \<le> tid then Some (False, flag, sta)
                   else if length extiv < 8 \<or> length q \<le> queue then None
                   else
                     (let pn = extiv_pn extiv; res = memcmp pn (q ! queue ! tid) in
                      if res < 0 then Some (False, flag, sta)
                      else if res = 0 \<and> \<not> tst flag RX_FLAG_ALLOW_SAME_PN then Some (False, flag, sta)
                      else Some (True, flag OR RX_FLAG_PN_VALIDATED,
                             Some (s\<lparr>ptk_pn := (ptk_pn s)[keyidx :=
                               Some (q[queue := (q ! queue)[tid := pn]])]\<rparr>)))))))"

section \<open>Duplicates\<close>

text \<open>Whether the frame is a duplicate; \<open>None\<close> is an access outside the duplicate data.\<close>

definition iwl_mvm_is_dup ::
  "nat \<Rightarrow> rx_station option \<Rightarrow> ieee80211_hdr \<Rightarrow> iwl_rx_mpdu_desc \<Rightarrow> u32 \<Rightarrow> (bool \<times> u32 \<times> rx_station option) option"
where
  "iwl_mvm_is_dup queue sta hdr desc flag =
     (case sta of None \<Rightarrow> Some (False, flag, sta)
      | Some s \<Rightarrow>
          if length (dup_data s) \<le> queue then None
          else
            (let d = dup_data s ! queue; fc = frame_control hdr in
             if ieee80211_is_ctl fc \<or> ieee80211_is_qos_nullfunc fc \<or> is_multicast_ether_addr (addr1 hdr)
             then Some (False, flag OR RX_FLAG_DUP_VALIDATED, sta)
             else
               (let tid = (if ieee80211_is_data_qos fc then unat (ieee80211_get_tid hdr) else IWL_MAX_TID_COUNT);
                  sub_frame_idx = amsdu_info desc AND IWL_RX_MPDU_AMSDU_SUBFRAME_IDX_MASK
                in if length (last_seq d) \<le> tid \<or> length (last_sub_frame d) \<le> tid then None
                else if ieee80211_has_retry fc \<and> last_seq d ! tid = seq_ctrl hdr \<and>
                        sub_frame_idx \<le> last_sub_frame d ! tid
                then Some (True, flag, sta)
                else
                  (let flag = (if last_seq d ! tid = seq_ctrl hdr \<and> last_sub_frame d ! tid < sub_frame_idx \<and>
                                  tst (mac_flags2 desc) IWL_RX_MPDU_MFLG2_AMSDU
                               then flag OR RX_FLAG_ALLOW_SAME_PN else flag);
                     d = d\<lparr>last_seq := (last_seq d)[tid := seq_ctrl hdr],
                            last_sub_frame := (last_sub_frame d)[tid := sub_frame_idx]\<rparr>
                   in Some (False, flag OR RX_FLAG_DUP_VALIDATED,
                        Some (s\<lparr>dup_data := (dup_data s)[queue := d]\<rparr>))))))"

section \<open>The verdict on the encryption\<close>

definition IWL_RX_MPDU_STATUS_KEY_VALID :: u32 where [hdr_simps]: "IWL_RX_MPDU_STATUS_KEY_VALID = 0x8"
definition IWL_RX_MPDU_STATUS_ICV_OK :: u32 where [hdr_simps]: "IWL_RX_MPDU_STATUS_ICV_OK = 0x20"
definition IWL_RX_MPDU_STATUS_MIC_OK :: u32 where [hdr_simps]: "IWL_RX_MPDU_STATUS_MIC_OK = 0x40"
definition IWL_RX_MPDU_RES_STATUS_TTAK_OK :: u32 where [hdr_simps]: "IWL_RX_MPDU_RES_STATUS_TTAK_OK = 0x80"
definition IWL_RX_MPDU_STATUS_REPLAY_ERROR :: u32 where [hdr_simps]: "IWL_RX_MPDU_STATUS_REPLAY_ERROR = 0x80"
definition IWL_RX_MPDU_STATUS_SEC_MASK :: u32 where [hdr_simps]: "IWL_RX_MPDU_STATUS_SEC_MASK = 0x700"
definition IWL_RX_MPDU_STATUS_SEC_UNKNOWN :: u32 where [hdr_simps]: "IWL_RX_MPDU_STATUS_SEC_UNKNOWN = 0x700"
definition IWL_RX_MPDU_STATUS_SEC_NONE :: u32 where [hdr_simps]: "IWL_RX_MPDU_STATUS_SEC_NONE = 0x000"
definition IWL_RX_MPDU_STATUS_SEC_WEP :: u32 where [hdr_simps]: "IWL_RX_MPDU_STATUS_SEC_WEP = 0x100"
definition IWL_RX_MPDU_STATUS_SEC_CCM :: u32 where [hdr_simps]: "IWL_RX_MPDU_STATUS_SEC_CCM = 0x200"
definition IWL_RX_MPDU_STATUS_SEC_TKIP :: u32 where [hdr_simps]: "IWL_RX_MPDU_STATUS_SEC_TKIP = 0x300"
definition IWL_RX_MPDU_STATUS_SEC_EXT_ENC :: u32 where [hdr_simps]: "IWL_RX_MPDU_STATUS_SEC_EXT_ENC = 0x400"
definition IWL_RX_MPDU_STATUS_SEC_GCM :: u32 where [hdr_simps]: "IWL_RX_MPDU_STATUS_SEC_GCM = 0x500"
definition FH_RSCSR_RPA_EN :: u32 where [hdr_simps]: "FH_RSCSR_RPA_EN = 0x2000000"
definition FH_RSCSR_RADA_EN :: u32 where [hdr_simps]: "FH_RSCSR_RADA_EN = 0x4000000"
definition IEEE80211_GMAC_PN_LEN :: nat where [hdr_simps]: "IEEE80211_GMAC_PN_LEN = 6"
definition IEEE80211_CCMP_HDR_LEN :: u8 where [hdr_simps]: "IEEE80211_CCMP_HDR_LEN = 8"
definition IEEE80211_TKIP_IV_LEN :: u8 where [hdr_simps]: "IEEE80211_TKIP_IV_LEN = 8"
definition IEEE80211_WEP_IV_LEN :: u8 where [hdr_simps]: "IEEE80211_WEP_IV_LEN = 4"

text \<open>What mac80211 is told about a key.\<close>

datatype key_event = Key_mic_failure int | Key_replay int

text \<open>
  Frames are the bytes from the MAC header to the end of the receive buffer. The first component says
  whether the frame is kept (the code returns 0); \<open>None\<close> is a read behind the buffer.
\<close>

definition iwl_mvm_rx_mgmt_prot ::
  "rx_station option \<Rightarrow> u8 list \<Rightarrow> u16 \<Rightarrow> u32 \<Rightarrow> (bool \<times> key_event list) option"
where
  "iwl_mvm_rx_mgmt_prot sta frame flen status =
     (let len = unat flen; fc = frame_control (hdr_of_bytes frame) in
      if status AND IWL_RX_MPDU_STATUS_SEC_MASK = IWL_RX_MPDU_STATUS_SEC_NONE then Some (True, [])
      else if \<not> ieee80211_is_beacon fc then Some (True, [])
      else if \<not> tst status IWL_RX_MPDU_STATUS_KEY_VALID then Some (False, [])
      else if tst status IWL_RX_MPDU_STATUS_MIC_OK \<and> \<not> tst status IWL_RX_MPDU_STATUS_REPLAY_ERROR
      then Some (True, [])
      else case sta of None \<Rightarrow> Some (False, [])
      | Some s \<Rightarrow>
          (case (case bcn_keys s ! 0 of Some k \<Rightarrow> Some k | None \<Rightarrow> bcn_keys s ! 1) of
             None \<Rightarrow> Some (False, [])
           | Some key \<Rightarrow>
               if len < unat (key_icv_len key) + IEEE80211_GMAC_PN_LEN + 2 then Some (False, [])
               else
                 (let i = len - unat (key_icv_len key) - IEEE80211_GMAC_PN_LEN - 2; keyid = frame ! i in
                  if length frame \<le> i then None
                  else
                    (case (if uint keyid = key_keyidx key then Some key
                           else if keyid \<noteq> 6 \<and> keyid \<noteq> 7 then None
                           else bcn_keys s ! (unat keyid - 6)) of
                       None \<Rightarrow> Some (False, [])
                     | Some key \<Rightarrow>
                         Some (False,
                           if \<not> tst status IWL_RX_MPDU_STATUS_MIC_OK then [Key_mic_failure (key_keyidx key)]
                           else if tst status IWL_RX_MPDU_STATUS_REPLAY_ERROR then [Key_replay (key_keyidx key)]
                           else [])))))"

text \<open>What the path asks about the device and the driver.\<close>

record rx_device =
  monitor_on :: bool
  deprecate_ttak :: bool
  gen2 :: bool
  ax210 :: bool
  before_bz :: bool
  rx_includes_fcs :: bool

text \<open>The result: whether the frame is kept, the flags and the length of the cipher header.\<close>

definition iwl_mvm_rx_crypto ::
  "rx_device \<Rightarrow> rx_station option \<Rightarrow> u8 list \<Rightarrow> iwl_rx_mpdu_desc \<Rightarrow> u32 \<Rightarrow> u32
   \<Rightarrow> (bool \<times> u32 \<times> u8 \<times> key_event list) option"
where
  "iwl_mvm_rx_crypto dev sta frame desc pkt_flags flag =
     (let status = rx_status_word desc; sec = status AND IWL_RX_MPDU_STATUS_SEC_MASK;
          fc = frame_control (hdr_of_bytes frame);
          icv = (\<lambda>flag crypt_len.
            if \<not> tst status IWL_RX_MPDU_STATUS_ICV_OK then (False, flag, crypt_len, [])
            else
              (True,
               (let flag = flag OR RX_FLAG_DECRYPTED in
                if tst pkt_flags FH_RSCSR_RADA_EN
                then (if gen2 dev then flag OR RX_FLAG_ICV_STRIPPED OR RX_FLAG_MMIC_STRIPPED
                      else flag OR RX_FLAG_ICV_STRIPPED)
                else flag),
               if sec = IWL_RX_MPDU_STATUS_SEC_WEP then IEEE80211_WEP_IV_LEN else crypt_len, []))
      in if tst (phy_info desc) IWL_RX_MPDU_PHY_AMPDU \<and> sec = IWL_RX_MPDU_STATUS_SEC_UNKNOWN \<and> \<not> monitor_on dev
         then Some (False, flag, 0, [])
         else if ieee80211_is_mgmt fc \<and> \<not> ieee80211_has_protected fc then
           map_option (\<lambda>(ok, evs). (ok, flag, 0, evs)) (iwl_mvm_rx_mgmt_prot sta frame (mpdu_len desc) status)
         else if \<not> ieee80211_has_protected fc \<or> sec = IWL_RX_MPDU_STATUS_SEC_NONE then Some (True, flag, 0, [])
         else if sec = IWL_RX_MPDU_STATUS_SEC_CCM \<or> sec = IWL_RX_MPDU_STATUS_SEC_GCM then
           (if \<not> tst status IWL_RX_MPDU_STATUS_MIC_OK then Some (False, flag, 0, [])
            else Some (True, flag OR RX_FLAG_DECRYPTED OR RX_FLAG_MIC_STRIPPED, IEEE80211_CCMP_HDR_LEN, []))
         else if sec = IWL_RX_MPDU_STATUS_SEC_TKIP then
           (if \<not> deprecate_ttak dev \<and> \<not> tst status IWL_RX_MPDU_RES_STATUS_TTAK_OK then Some (True, flag, 0, [])
            else Some (icv (if gen2 dev \<and> \<not> tst status IWL_RX_MPDU_STATUS_MIC_OK
                            then flag OR RX_FLAG_MMIC_ERROR else flag) IEEE80211_TKIP_IV_LEN))
         else if sec = IWL_RX_MPDU_STATUS_SEC_WEP then Some (icv flag 0)
         else if sec = IWL_RX_MPDU_STATUS_SEC_EXT_ENC then
           (if \<not> tst status IWL_RX_MPDU_STATUS_MIC_OK then Some (False, flag, 0, [])
            else Some (True, flag OR RX_FLAG_DECRYPTED, 0, []))
         else Some (True, flag, 0, []))"

section \<open>The socket buffer\<close>

datatype ip_summed = CHECKSUM_NONE | CHECKSUM_UNNECESSARY | CHECKSUM_COMPLETE

text \<open>
  The part of a socket buffer that the path fills: the bytes in the head, and the rest of the frame as
  a fragment of the receive buffer (its offset from the MAC header and its length).
\<close>

record rx_skb =
  skb_head :: "u8 list"
  skb_frag :: "(nat \<times> nat) option"
  skb_ip_summed :: ip_summed
  skb_csum :: u32

definition IWL_RX_MPDU_MFLG1_MIC_CRC_LEN_MASK :: u8 where [hdr_simps]: "IWL_RX_MPDU_MFLG1_MIC_CRC_LEN_MASK = 0xf0"
definition IWL_RX_MPDU_MFLG2_PAD :: u8 where [hdr_simps]: "IWL_RX_MPDU_MFLG2_PAD = 0x20"
definition IWL_RX_L3L4_IP_HDR_CSUM_OK :: u16 where [hdr_simps]: "IWL_RX_L3L4_IP_HDR_CSUM_OK = 0x1"
definition IWL_RX_L3L4_TCP_UDP_CSUM_OK :: u16 where [hdr_simps]: "IWL_RX_L3L4_TCP_UDP_CSUM_OK = 0x2"
definition IWL_RX_L3L4_L3_PROTO_MASK :: u16 where [hdr_simps]: "IWL_RX_L3L4_L3_PROTO_MASK = 0xf0"
definition IWL_RX_L3_PROTO_POS :: nat where [hdr_simps]: "IWL_RX_L3_PROTO_POS = 4"
definition IWL_RX_L3_TYPE_IPV6_FRAG :: u8 where [hdr_simps]: "IWL_RX_L3_TYPE_IPV6_FRAG = 3"
definition IWL_RX_L3_TYPE_IPV6 :: u8 where [hdr_simps]: "IWL_RX_L3_TYPE_IPV6 = 4"

definition iwl_mvm_rx_csum ::
  "rx_device \<Rightarrow> rx_station \<Rightarrow> u32 \<Rightarrow> iwl_rx_mpdu_desc \<Rightarrow> rx_skb \<Rightarrow> rx_skb"
where
  "iwl_mvm_rx_csum dev s pkt_flags desc skb =
     (if ax210 dev then
        (if tst pkt_flags FH_RSCSR_RPA_EN
         then skb\<lparr>skb_ip_summed := CHECKSUM_COMPLETE, skb_csum := ucast (NOT (raw_xsum desc))\<rparr> else skb)
      else
        (let flags = l3l4_flags desc;
             l3_prot = ucast (drop_bit IWL_RX_L3_PROTO_POS (flags AND IWL_RX_L3L4_L3_PROTO_MASK)) :: u8
         in if vif_rxcsum s \<and> tst flags IWL_RX_L3L4_TCP_UDP_CSUM_OK \<and>
               (tst flags IWL_RX_L3L4_IP_HDR_CSUM_OK \<or> l3_prot = IWL_RX_L3_TYPE_IPV6 \<or>
                l3_prot = IWL_RX_L3_TYPE_IPV6_FRAG)
            then skb\<lparr>skb_ip_summed := CHECKSUM_UNNECESSARY\<rparr> else skb))"

text \<open>The SNAP header and the protocols for which the sum of the hardware is right.\<close>

definition rfc1042_header :: "u8 list" where "rfc1042_header = [0xaa, 0xaa, 0x03, 0, 0, 0]"

definition csum_ethertypes :: "u8 list list" where
  "csum_ethertypes = [[0x08, 0x00], [0x08, 0x06], [0x86, 0xdd], [0x81, 0x00], [0x88, 0x8e], [0x89, 0x0d]]"

text \<open>
  The buffer has \<open>room\<close> bytes; \<open>csum_push\<close> is \<open>skb_postpush_rcsum\<close>. The length is 16 bits wide and
  wraps. \<open>None\<close>: the copy leaves the buffer of the frame or the room of the socket buffer;
  \<open>Some None\<close>: the code returns \<open>-EINVAL\<close>.
\<close>

definition skb_len :: "rx_device \<Rightarrow> iwl_rx_mpdu_desc \<Rightarrow> u16 \<Rightarrow> u16" where
  "skb_len dev desc len =
     (let mic_crc_len = push_bit 1 (drop_bit 4 (mac_flags1 desc AND IWL_RX_MPDU_MFLG1_MIC_CRC_LEN_MASK));
        len = (if tst (mac_flags2 desc) IWL_RX_MPDU_MFLG2_PAD then len - 2 else len)
      in if ucast mic_crc_len < len \<and> \<not> rx_includes_fcs dev then len - ucast mic_crc_len else len)"

definition iwl_mvm_create_skb ::
  "rx_device \<Rightarrow> (u32 \<Rightarrow> u8 list \<Rightarrow> u32) \<Rightarrow> nat \<Rightarrow> u8 list \<Rightarrow> u16 \<Rightarrow> u8 \<Rightarrow> iwl_rx_mpdu_desc \<Rightarrow> rx_skb
   \<Rightarrow> rx_skb option option"
where
  "iwl_mvm_create_skb dev csum_push room frame flen crypt_len desc skb =
     (let pad_len = (if tst (mac_flags2 desc) IWL_RX_MPDU_MFLG2_PAD then 2 else 0);
          len = unat (skb_len dev desc flen);
          hdrlen = ieee80211_hdrlen (frame_control (hdr_of_bytes frame)) + unat crypt_len;
          headlen = (if len \<le> room then len else hdrlen + 8)
      in if headlen < hdrlen then Some None
         else if room < headlen \<or> length frame < headlen + pad_len then None
         else
           (let skb = skb\<lparr>skb_head := get_bytes 0 hdrlen frame @ get_bytes (hdrlen + pad_len) (headlen - hdrlen) frame\<rparr>;
                shdr = get_bytes (hdrlen + pad_len) 8 frame;
                skb = (if skb_ip_summed skb \<noteq> CHECKSUM_COMPLETE then skb
                       else if headlen - hdrlen < 8 \<or> take 6 shdr \<noteq> rfc1042_header \<or>
                               drop 6 shdr \<notin> set csum_ethertypes
                       then skb\<lparr>skb_ip_summed := CHECKSUM_NONE\<rparr>
                       else if before_bz dev then skb\<lparr>skb_csum := csum_push (skb_csum skb) shdr\<rparr> else skb)
            in Some (Some (skb\<lparr>skb_frag := (if len = headlen then None else Some (headlen + pad_len, len - headlen))\<rparr>))))"

text \<open>The bytes that mac80211 reads through the socket buffer.\<close>

definition skb_bytes :: "u8 list \<Rightarrow> rx_skb \<Rightarrow> u8 list" where
  "skb_bytes frame skb =
     skb_head skb @ (case skb_frag skb of None \<Rightarrow> [] | Some (off, n) \<Rightarrow> get_bytes off n frame)"

section \<open>Packet numbers as numbers\<close>

primrec pn_val :: "u8 list \<Rightarrow> nat" where
  "pn_val [] = 0"
| "pn_val (b # bs) = unat b * 256 ^ length bs + pn_val bs"

lemma pn_val_less: "pn_val bs < 256 ^ length bs"
proof (induction bs)
  case (Cons b bs)
  have "(unat b + 1) * 256 ^ length bs \<le> 256 * 256 ^ length bs"
    using u8_less [of b] by (intro mult_right_mono) simp_all
  then have "unat b * 256 ^ length bs + 256 ^ length bs \<le> 256 ^ length (b # bs)"
    by (simp only: distrib_right mult_1 list.size power_Suc add_0_right add_Suc_right One_nat_def [symmetric]) simp
  with Cons show ?case unfolding pn_val.simps by linarith
qed simp

lemma pn_val_Cons_less:
  assumes "length as = length bs" "unat a < unat b"
  shows "pn_val (a # as) < pn_val (b # bs)"
proof -
  have "(unat a + 1) * 256 ^ length bs \<le> unat b * 256 ^ length bs"
    using assms(2) by (intro mult_right_mono) simp_all
  then show ?thesis using pn_val_less [of as] assms(1) by simp
qed

text \<open>The byte-wise comparison of the code is the comparison of the numbers.\<close>

lemma memcmp_pn_val:
  "length as = length bs \<Longrightarrow> (memcmp as bs < 0 \<longleftrightarrow> pn_val as < pn_val bs) \<and> (memcmp as bs = 0 \<longleftrightarrow> pn_val as = pn_val bs)"
proof (induction as bs rule: memcmp.induct)
  case (1 a as b bs)
  then have l: "length as = length bs" by simp
  show ?case
  proof (cases "a = b")
    case True
    then show ?thesis using 1 l by simp
  next
    case False
    then have "unat a < unat b \<or> unat b < unat a" by (metis linorder_neqE_nat word_unat_eq_iff)
    moreover have "memcmp (a # as) (b # bs) = uint a - uint b" "uint a \<noteq> uint b"
      using False by (simp_all add: word_uint_eq_iff)
    moreover have "uint a < uint b \<longleftrightarrow> unat a < unat b"
      by (auto simp flip: nat_uint_eq intro: le_less_trans [of 0 "uint a"])
    ultimately show ?thesis
      using pn_val_Cons_less [OF l, of a b] pn_val_Cons_less [OF l [symmetric], of b a] by auto
  qed
qed simp_all

section \<open>Runs of the packet-number check\<close>

text \<open>A frame whose packet number is checked, and what the check looks at.\<close>

definition pn_checked :: "nat \<Rightarrow> u8 list \<Rightarrow> u32 \<Rightarrow> bool" where
  "pn_checked queue frame flag \<longleftrightarrow>
     ieee80211_is_data (frame_control (hdr_of_bytes frame)) \<and>
     \<not> is_multicast_ether_addr (addr1 (hdr_of_bytes frame)) \<and> tst flag RX_FLAG_DECRYPTED \<and> queue \<noteq> 0"

definition frame_extiv :: "u8 list \<Rightarrow> u8 list" where
  "frame_extiv frame = drop (ieee80211_hdrlen (frame_control (hdr_of_bytes frame))) frame"

definition frame_keyidx :: "u8 list \<Rightarrow> nat" where
  "frame_keyidx frame = unat (drop_bit 6 (frame_extiv frame ! 3))"

definition frame_tid :: "u8 list \<Rightarrow> nat" where
  "frame_tid frame = (if ieee80211_is_data_qos (frame_control (hdr_of_bytes frame))
     then unat (ieee80211_get_tid (hdr_of_bytes frame)) else 0)"

definition frame_pn :: "u8 list \<Rightarrow> nat" where
  "frame_pn frame = pn_val (extiv_pn (frame_extiv frame))"

text \<open>The counters of a station for \<open>nq\<close> queues are complete.\<close>

definition key_pn_ok :: "nat \<Rightarrow> key_pn \<Rightarrow> bool" where
  "key_pn_ok nq Q \<longleftrightarrow> length Q = nq \<and> (\<forall>q < nq. length (Q ! q) = IWL_MAX_TID_COUNT \<and>
     (\<forall>t < IWL_MAX_TID_COUNT. length (Q ! q ! t) = IEEE80211_CCMP_PN_LEN))"

definition keys_ok :: "nat \<Rightarrow> rx_station \<Rightarrow> bool" where
  "keys_ok nq s \<longleftrightarrow> length (ptk_pn s) = 4 \<and> (\<forall>k < 4. \<forall>Q. ptk_pn s ! k = Some Q \<longrightarrow> key_pn_ok nq Q)"

text \<open>The packet number in a counter of an installed key.\<close>

definition pn_at :: "rx_station \<Rightarrow> nat \<Rightarrow> nat \<Rightarrow> nat \<Rightarrow> nat" where
  "pn_at s k q t = (case ptk_pn s ! k of None \<Rightarrow> 0 | Some Q \<Rightarrow> pn_val (Q ! q ! t))"

lemma nth_update_if: "xs[i := x] ! j = (if i = j \<and> i < length xs then x else xs ! j)"
  by (cases "i < length xs") (auto simp: nth_list_update list_update_beyond)

lemma frame_keyidx_less: "frame_keyidx frame < 4"
proof -
  have "unat (drop_bit 6 (frame_extiv frame ! 3)) = unat (frame_extiv frame ! 3) div 64"
    by (simp add: drop_bit_eq_div unat_div)
  moreover have "unat (frame_extiv frame ! 3) < 256"
    by (rule u8_less)
  ultimately show ?thesis by (simp add: frame_keyidx_def)
qed

lemma length_extiv_pn [simp]: "length (extiv_pn e) = IEEE80211_CCMP_PN_LEN"
  by (simp add: extiv_pn_def IEEE80211_CCMP_PN_LEN_def)

text \<open>The check on a complete station: which frames pass, and what it leaves.\<close>

lemma check_pn_not_checked:
  "\<not> pn_checked queue frame flag \<Longrightarrow> iwl_mvm_check_pn queue sta frame flag = Some (True, flag, sta)"
  by (auto simp: pn_checked_def iwl_mvm_check_pn_def Let_def)

lemma check_pn_checked:
  assumes "pn_checked queue frame flag" "keys_ok nq s" "queue < nq" "8 \<le> length (frame_extiv frame)"
  shows "iwl_mvm_check_pn queue (Some s) frame flag =
     (case ptk_pn s ! frame_keyidx frame of None \<Rightarrow> Some (False, flag, Some s)
      | Some Q \<Rightarrow>
          if IWL_MAX_TID_COUNT \<le> frame_tid frame \<or> frame_pn frame < pn_val (Q ! queue ! frame_tid frame) \<or>
             frame_pn frame = pn_val (Q ! queue ! frame_tid frame) \<and> \<not> tst flag RX_FLAG_ALLOW_SAME_PN
          then Some (False, flag, Some s)
          else Some (True, flag OR RX_FLAG_PN_VALIDATED, Some (s\<lparr>ptk_pn := (ptk_pn s)[frame_keyidx frame :=
             Some (Q[queue := (Q ! queue)[frame_tid frame := extiv_pn (frame_extiv frame)]])]\<rparr>)))"
proof (cases "ptk_pn s ! frame_keyidx frame")
  case None
  then show ?thesis using assms(1,4)
    by (simp add: pn_checked_def iwl_mvm_check_pn_def Let_def frame_extiv_def frame_keyidx_def)
next
  case (Some Q)
  have Q: "length Q = nq" "\<And>t. t < IWL_MAX_TID_COUNT \<Longrightarrow> length (Q ! queue ! t) = IEEE80211_CCMP_PN_LEN"
    using assms(2,3) Some frame_keyidx_less [of frame] by (auto simp: keys_ok_def key_pn_ok_def)
  show ?thesis
  proof (cases "IWL_MAX_TID_COUNT \<le> frame_tid frame")
    case True
    then show ?thesis using assms(1,4) Some
      by (simp add: pn_checked_def iwl_mvm_check_pn_def Let_def frame_extiv_def frame_keyidx_def frame_tid_def)
  next
    case False
    let ?last = "Q ! queue ! frame_tid frame"
    have m: "memcmp (extiv_pn (frame_extiv frame)) ?last < 0 \<longleftrightarrow> frame_pn frame < pn_val ?last"
      "memcmp (extiv_pn (frame_extiv frame)) ?last = 0 \<longleftrightarrow> frame_pn frame = pn_val ?last"
      using memcmp_pn_val [of "extiv_pn (frame_extiv frame)" ?last] Q(2) False by (simp_all add: frame_pn_def)
    show ?thesis using assms(1,3,4) Some False Q(1) m
      unfolding pn_checked_def iwl_mvm_check_pn_def Let_def frame_extiv_def frame_keyidx_def frame_tid_def
      by (simp add: not_le)
  qed
qed

lemma check_pn_short:
  assumes "pn_checked queue frame flag" "length (frame_extiv frame) < 8"
    and "iwl_mvm_check_pn queue (Some s) frame flag = Some (ok, flag', s')"
  shows "\<not> ok" "s' = Some s"
  using assms by (auto simp: pn_checked_def iwl_mvm_check_pn_def Let_def frame_extiv_def
      split: if_splits option.splits)

lemma check_pn_result:
  assumes "keys_ok nq s" "queue < nq" "iwl_mvm_check_pn queue (Some s) frame flag = Some (ok, flag', Some s')"
  obtains (same) "s' = s" "\<not> (ok \<and> pn_checked queue frame flag)"
  | (counted) Q where "ok" "pn_checked queue frame flag" "ptk_pn s ! frame_keyidx frame = Some Q"
      "frame_tid frame < IWL_MAX_TID_COUNT"
      "pn_val (Q ! queue ! frame_tid frame) \<le> frame_pn frame"
      "tst flag RX_FLAG_ALLOW_SAME_PN \<or> pn_val (Q ! queue ! frame_tid frame) < frame_pn frame"
      "s' = s\<lparr>ptk_pn := (ptk_pn s)[frame_keyidx frame :=
         Some (Q[queue := (Q ! queue)[frame_tid frame := extiv_pn (frame_extiv frame)]])]\<rparr>"
proof (cases "pn_checked queue frame flag")
  case False
  then show thesis using assms(3) same check_pn_not_checked [OF False, of "Some s"] by simp
next
  case True
  show thesis
  proof (cases "8 \<le> length (frame_extiv frame)")
    case False
    then show thesis using check_pn_short [OF True _ assms(3)] same by simp
  next
    case long: True
    note * = check_pn_checked [OF True assms(1,2) long, unfolded assms(3)]
    show thesis
    proof (cases "ptk_pn s ! frame_keyidx frame")
      case None
      then show thesis using * same by simp
    next
      case (Some Q)
      with * show thesis using same counted [of Q] True by (auto split: if_splits)
    qed
  qed
qed

lemma key_pn_ok_update:
  "key_pn_ok nq Q \<Longrightarrow> length pn = IEEE80211_CCMP_PN_LEN \<Longrightarrow> key_pn_ok nq (Q[q := (Q ! q)[t := pn]])"
  by (auto simp: key_pn_ok_def nth_update_if)

lemma counted:
  assumes "keys_ok nq s" "ptk_pn s ! k = Some Q" "k < 4" "length pn = IEEE80211_CCMP_PN_LEN" "q < nq" "t < IWL_MAX_TID_COUNT"
  defines "s' \<equiv> s\<lparr>ptk_pn := (ptk_pn s)[k := Some (Q[q := (Q ! q)[t := pn]])]\<rparr>"
  shows "keys_ok nq s'" "pn_at s k q t = pn_val (Q ! q ! t)"
    "pn_at s' k' q' t' = (if k' = k \<and> q' = q \<and> t' = t then pn_val pn else pn_at s k' q' t')"
    "ptk_pn s' ! k' = None \<longleftrightarrow> ptk_pn s ! k' = None"
proof -
  have Q: "key_pn_ok nq Q" "length (ptk_pn s) = 4" using assms(1-3) by (auto simp: keys_ok_def)
  then have l: "length Q = nq" "length (Q ! q) = IWL_MAX_TID_COUNT" using assms(5) by (simp_all add: key_pn_ok_def)
  show "keys_ok nq s'" using assms(1) key_pn_ok_update [OF Q(1) assms(4)]
    by (auto simp: keys_ok_def s'_def nth_update_if split: if_splits)
  show "pn_at s k q t = pn_val (Q ! q ! t)" by (simp add: pn_at_def assms(2))
  show "pn_at s' k' q' t' = (if k' = k \<and> q' = q \<and> t' = t then pn_val pn else pn_at s k' q' t')"
    using assms(2,3,5,6) l Q(2) by (cases "k' = k"; cases "q' = q"; cases "t' = t") (simp_all add: pn_at_def s'_def)
  show "ptk_pn s' ! k' = None \<longleftrightarrow> ptk_pn s ! k' = None"
    using assms(2,3) Q(2) by (cases "k' = k") (simp_all add: s'_def)
qed

lemma dup_keeps_keys:
  "iwl_mvm_is_dup q (Some s) hdr desc flag = Some (d, flag', Some s') \<Longrightarrow> ptk_pn s' = ptk_pn s"
  by (auto simp: iwl_mvm_is_dup_def Let_def split: if_splits)

text \<open>
  A run of one station: frames are checked on the queues, for duplicates and for their packet number,
  in any order, while keys are installed and removed. An installation starts a new epoch of its key
  index. The log holds the frames that passed the check of the packet number.
\<close>

record pn_entry =
  e_key :: nat
  e_epoch :: nat
  e_queue :: nat
  e_tid :: nat
  e_pn :: nat
  e_same :: bool

record pn_run =
  pn_sta :: rx_station
  pn_epoch :: "nat \<Rightarrow> nat"
  pn_log :: "pn_entry list"

definition pn_entry_of :: "nat \<Rightarrow> u8 list \<Rightarrow> u32 \<Rightarrow> pn_run \<Rightarrow> pn_entry" where
  "pn_entry_of queue frame flag r =
     \<lparr>e_key = frame_keyidx frame, e_epoch = pn_epoch r (frame_keyidx frame), e_queue = queue,
      e_tid = frame_tid frame, e_pn = frame_pn frame, e_same = tst flag RX_FLAG_ALLOW_SAME_PN\<rparr>"

definition same_counter :: "pn_entry \<Rightarrow> pn_entry \<Rightarrow> bool" where
  "same_counter e e' \<longleftrightarrow> e_key e = e_key e' \<and> e_epoch e = e_epoch e' \<and> e_queue e = e_queue e' \<and> e_tid e = e_tid e'"

inductive pn_step :: "nat \<Rightarrow> pn_run \<Rightarrow> pn_run \<Rightarrow> bool" for nq where
  check: "queue < nq \<Longrightarrow> iwl_mvm_check_pn queue (Some (pn_sta r)) frame flag = Some (ok, flag', Some s) \<Longrightarrow>
    pn_step nq r (r\<lparr>pn_sta := s, pn_log := pn_log r @
      (if ok \<and> pn_checked queue frame flag then [pn_entry_of queue frame flag r] else [])\<rparr>)"
| dup: "iwl_mvm_is_dup queue (Some (pn_sta r)) hdr desc flag = Some (d, flag', Some s) \<Longrightarrow>
    pn_step nq r (r\<lparr>pn_sta := s\<rparr>)"
| install: "\<forall>t < IWL_MAX_TID_COUNT. length (seq t) = IEEE80211_CCMP_PN_LEN \<Longrightarrow>
    pn_step nq r (r\<lparr>pn_sta := set_key_pn nq k seq (pn_sta r), pn_epoch := (pn_epoch r)(k := pn_epoch r k + 1)\<rparr>)"
| remove: "pn_step nq r (r\<lparr>pn_sta := disable_key_pn k (pn_sta r)\<rparr>)"

text \<open>An entry of the log is covered by the counter as long as its key stays installed.\<close>

definition entry_covered :: "nat \<Rightarrow> pn_run \<Rightarrow> pn_entry \<Rightarrow> bool" where
  "entry_covered nq r e \<longleftrightarrow> e_key e < 4 \<and> e_queue e < nq \<and> e_tid e < IWL_MAX_TID_COUNT \<and>
     e_epoch e \<le> pn_epoch r (e_key e) \<and>
     (e_epoch e = pn_epoch r (e_key e) \<and> ptk_pn (pn_sta r) ! e_key e \<noteq> None \<longrightarrow>
        e_pn e \<le> pn_at (pn_sta r) (e_key e) (e_queue e) (e_tid e))"

definition pn_grows :: "pn_entry \<Rightarrow> pn_entry \<Rightarrow> bool" where
  "pn_grows e e' \<longleftrightarrow> (same_counter e e' \<longrightarrow> e_pn e \<le> e_pn e' \<and> (e_same e' \<or> e_pn e < e_pn e'))"

definition pn_inv :: "nat \<Rightarrow> pn_run \<Rightarrow> bool" where
  "pn_inv nq r \<longleftrightarrow> keys_ok nq (pn_sta r) \<and> (\<forall>e \<in> set (pn_log r). entry_covered nq r e) \<and>
     sorted_wrt pn_grows (pn_log r)"

lemma pn_check_inv:
  assumes "pn_inv nq r" "queue < nq" "iwl_mvm_check_pn queue (Some (pn_sta r)) frame flag = Some (ok, flag', Some s)"
  shows "pn_inv nq (r\<lparr>pn_sta := s, pn_log := pn_log r @
      (if ok \<and> pn_checked queue frame flag then [pn_entry_of queue frame flag r] else [])\<rparr>)"
proof -
  have k: "keys_ok nq (pn_sta r)" using assms(1) by (simp add: pn_inv_def)
  show ?thesis
  proof (rule check_pn_result [OF k assms(2,3)])
    assume "s = pn_sta r" "\<not> (ok \<and> pn_checked queue frame flag)"
    then show ?thesis using assms(1) by (auto simp: pn_inv_def entry_covered_def)
  next
    fix Q
    let ?k = "frame_keyidx frame" and ?t = "frame_tid frame" and ?e = "pn_entry_of queue frame flag r"
    assume ok: "ok" "pn_checked queue frame flag" and Q: "ptk_pn (pn_sta r) ! ?k = Some Q"
      and t: "?t < IWL_MAX_TID_COUNT"
      and le: "pn_val (Q ! queue ! ?t) \<le> frame_pn frame"
        "tst flag RX_FLAG_ALLOW_SAME_PN \<or> pn_val (Q ! queue ! ?t) < frame_pn frame"
      and s: "s = (pn_sta r)\<lparr>ptk_pn := (ptk_pn (pn_sta r))[?k :=
         Some (Q[queue := (Q ! queue)[?t := extiv_pn (frame_extiv frame)]])]\<rparr>"
    note c = counted [OF k Q frame_keyidx_less _ assms(2) t, of "extiv_pn (frame_extiv frame)", folded s, simplified]
    have below: "e_pn e \<le> pn_val (Q ! queue ! ?t)" if "e \<in> set (pn_log r)" "same_counter e ?e" for e
      using assms(1) that Q c(2) by (auto simp: pn_inv_def entry_covered_def same_counter_def pn_entry_of_def)
    have "entry_covered nq (r\<lparr>pn_sta := s\<rparr>) e" if e: "e \<in> set (pn_log r)" for e
      using assms(1) e below [OF e] le(1)
      by (auto simp: pn_inv_def entry_covered_def c(3,4) same_counter_def pn_entry_of_def frame_pn_def)
    moreover have "entry_covered nq (r\<lparr>pn_sta := s\<rparr>) ?e"
      using assms(2) t frame_keyidx_less [of frame] by (simp add: entry_covered_def pn_entry_of_def c(3) frame_pn_def)
    moreover have "pn_grows e ?e" if "e \<in> set (pn_log r)" for e
      using below [OF that] le by (auto simp: pn_grows_def pn_entry_of_def)
    ultimately show ?thesis using ok assms(1) c(1)
      by (auto simp: pn_inv_def sorted_wrt_append entry_covered_def)
  qed
qed

lemma length_set_key_pn [simp]: "length (ptk_pn (set_key_pn nq k seq s)) = length (ptk_pn s)"
  by (simp add: set_key_pn_def)

lemma keys_ok_set_key:
  assumes "keys_ok nq s" "\<forall>t < IWL_MAX_TID_COUNT. length (seq t) = IEEE80211_CCMP_PN_LEN"
  shows "keys_ok nq (set_key_pn nq k seq s)"
proof -
  have "key_pn_ok nq (replicate nq (map seq [0..<IWL_MAX_TID_COUNT]))" using assms(2) by (simp add: key_pn_ok_def)
  then show ?thesis using assms(1) by (auto simp: keys_ok_def set_key_pn_def nth_update_if split: if_splits)
qed

lemma pn_step_inv: "pn_step nq r r' \<Longrightarrow> pn_inv nq r \<Longrightarrow> pn_inv nq r'"
proof (induction rule: pn_step.induct)
  case check
  then show ?case by (intro pn_check_inv)
next
  case (dup queue r hdr desc flag d flag' s)
  then show ?case using dup_keeps_keys [OF dup(1)] by (auto simp: pn_inv_def keys_ok_def entry_covered_def pn_at_def)
next
  case (install seq r k)
  have "keys_ok nq (set_key_pn nq k seq (pn_sta r))"
    using install by (intro keys_ok_set_key) (simp_all add: pn_inv_def)
  moreover have "entry_covered nq (r\<lparr>pn_sta := set_key_pn nq k seq (pn_sta r), pn_epoch := (pn_epoch r)(k := pn_epoch r k + 1)\<rparr>) e"
    if "e \<in> set (pn_log r)" for e
    using install(2) that by (cases "e_key e = k") (auto simp: pn_inv_def entry_covered_def set_key_pn_def pn_at_def)
  ultimately show ?case using install(2) by (auto simp: pn_inv_def entry_covered_def)
next
  case (remove r k)
  then show ?case
    by (auto simp: pn_inv_def keys_ok_def disable_key_pn_def nth_update_if entry_covered_def pn_at_def)
qed

interpretation pn_runs: invariant_system "pn_step nq" "pn_inv nq" for nq
  by unfold_locales (rule pn_step_inv)

section \<open>Duplicates over a history\<close>

text \<open>
  The reference: what counts as a duplicate, judged by the history of the frames that were taken
  before on the queue, each with its slot, sequence control and subframe index.
\<close>

type_synonym dup_history = "(nat \<times> u16 \<times> u8) list"

definition dup_exempt :: "ieee80211_hdr \<Rightarrow> bool" where
  "dup_exempt hdr \<longleftrightarrow> ieee80211_is_ctl (frame_control hdr) \<or> ieee80211_is_qos_nullfunc (frame_control hdr) \<or>
     is_multicast_ether_addr (addr1 hdr)"

definition dup_slot :: "ieee80211_hdr \<Rightarrow> nat" where
  "dup_slot hdr = (if ieee80211_is_data_qos (frame_control hdr) then unat (ieee80211_get_tid hdr) else IWL_MAX_TID_COUNT)"

definition sub_frame :: "iwl_rx_mpdu_desc \<Rightarrow> u8" where
  "sub_frame desc = amsdu_info desc AND IWL_RX_MPDU_AMSDU_SUBFRAME_IDX_MASK"

definition last_taken :: "dup_history \<Rightarrow> nat \<Rightarrow> u16 \<times> u8" where
  "last_taken h t = (case filter (\<lambda>e. fst e = t) (rev h) of [] \<Rightarrow> (0xffff, 0) | e # _ \<Rightarrow> snd e)"

fun dup_reference :: "dup_history \<Rightarrow> (ieee80211_hdr \<times> iwl_rx_mpdu_desc) list \<Rightarrow> bool list" where
  "dup_reference h [] = []"
| "dup_reference h ((hdr, desc) # fs) =
     (if dup_exempt hdr then False # dup_reference h fs
      else
        (let (seq, sub) = last_taken h (dup_slot hdr);
             d = (ieee80211_has_retry (frame_control hdr) \<and> seq_ctrl hdr = seq \<and> sub_frame desc \<le> sub)
         in d # dup_reference (if d then h else h @ [(dup_slot hdr, seq_ctrl hdr, sub_frame desc)]) fs))"

text \<open>The verdicts of the code on the same frames.\<close>

fun dup_verdicts :: "nat \<Rightarrow> rx_station \<Rightarrow> (ieee80211_hdr \<times> iwl_rx_mpdu_desc) list \<Rightarrow> bool list option" where
  "dup_verdicts q s [] = Some []"
| "dup_verdicts q s ((hdr, desc) # fs) =
     (case iwl_mvm_is_dup q (Some s) hdr desc 0 of
        Some (d, _, Some s) \<Rightarrow> map_option ((#) d) (dup_verdicts q s fs)
      | _ \<Rightarrow> None)"

definition dup_matches :: "dup_data \<Rightarrow> dup_history \<Rightarrow> bool" where
  "dup_matches d h \<longleftrightarrow> length (last_seq d) = 9 \<and> length (last_sub_frame d) = 9 \<and>
     (\<forall>t < 9. (last_seq d ! t, last_sub_frame d ! t) = last_taken h t)"

lemma last_taken_append:
  "last_taken (h @ [(t, e)]) t' = (if t = t' then e else last_taken h t')"
  by (simp add: last_taken_def)

lemma last_taken_Nil [simp]: "last_taken [] t = (0xffff, 0)"
  by (simp add: last_taken_def)

lemma dup_matches_take:
  "dup_matches d h \<Longrightarrow> t < 9 \<Longrightarrow>
   dup_matches (d\<lparr>last_seq := (last_seq d)[t := seq], last_sub_frame := (last_sub_frame d)[t := sub]\<rparr>) (h @ [(t, seq, sub)])"
  by (auto simp: dup_matches_def last_taken_append nth_update_if)

lemma dup_slot_less: "dup_slot hdr < 9 \<longleftrightarrow> \<not> (ieee80211_is_data_qos (frame_control hdr) \<and> 9 \<le> unat (ieee80211_get_tid hdr))"
  by (auto simp: dup_slot_def IWL_MAX_TID_COUNT_def)

lemma is_dup_step:
  assumes "q < length (dup_data s)" "dup_matches (dup_data s ! q) h" "dup_exempt hdr \<or> dup_slot hdr < 9"
  shows "\<exists>d flag' s'. iwl_mvm_is_dup q (Some s) hdr desc flag = Some (d, flag', Some s') \<and>
     length (dup_data s') = length (dup_data s) \<and>
     (if dup_exempt hdr then \<not> d \<and> s' = s
      else (d \<longleftrightarrow> ieee80211_has_retry (frame_control hdr) \<and> seq_ctrl hdr = fst (last_taken h (dup_slot hdr)) \<and>
                   sub_frame desc \<le> snd (last_taken h (dup_slot hdr))) \<and>
           dup_matches (dup_data s' ! q) (if d then h else h @ [(dup_slot hdr, seq_ctrl hdr, sub_frame desc)]))"
proof (cases "dup_exempt hdr")
  case True
  then show ?thesis using assms(1) by (auto simp: iwl_mvm_is_dup_def dup_exempt_def Let_def)
next
  case False
  then have t: "dup_slot hdr < 9" using assms(3) by simp
  have m: "last_taken h (dup_slot hdr) = (last_seq (dup_data s ! q) ! dup_slot hdr, last_sub_frame (dup_data s ! q) ! dup_slot hdr)"
    "length (last_seq (dup_data s ! q)) = 9" "length (last_sub_frame (dup_data s ! q)) = 9"
    using assms(2) t by (auto simp: dup_matches_def)
  show ?thesis
    using False assms(1) t m dup_matches_take [where seq = "seq_ctrl hdr" and sub = "sub_frame desc", OF assms(2) t] assms(2)
    unfolding iwl_mvm_is_dup_def dup_exempt_def Let_def sub_frame_def [symmetric] dup_slot_def [symmetric]
    by (auto simp: not_le)
qed

lemma dup_verdicts_reference:
  "q < length (dup_data s) \<Longrightarrow> dup_matches (dup_data s ! q) h \<Longrightarrow>
   \<forall>(hdr, desc) \<in> set fs. dup_exempt hdr \<or> dup_slot hdr < 9 \<Longrightarrow>
   dup_verdicts q s fs = Some (dup_reference h fs)"
proof (induction fs arbitrary: s h)
  case (Cons f fs)
  obtain hdr desc where f: "f = (hdr, desc)" by (cases f)
  obtain d flag' s' where s': "iwl_mvm_is_dup q (Some s) hdr desc 0 = Some (d, flag', Some s')"
    "length (dup_data s') = length (dup_data s)"
    and v: "if dup_exempt hdr then \<not> d \<and> s' = s
      else (d \<longleftrightarrow> ieee80211_has_retry (frame_control hdr) \<and> seq_ctrl hdr = fst (last_taken h (dup_slot hdr)) \<and>
                   sub_frame desc \<le> snd (last_taken h (dup_slot hdr))) \<and>
           dup_matches (dup_data s' ! q) (if d then h else h @ [(dup_slot hdr, seq_ctrl hdr, sub_frame desc)])"
    using is_dup_step [of q s h hdr desc 0] Cons.prems by (auto simp: f)
  have q: "q < length (dup_data s')" using s'(2) Cons.prems(1) by simp
  have r: "\<forall>(hdr, desc) \<in> set fs. dup_exempt hdr \<or> dup_slot hdr < 9" using Cons.prems(3) by simp
  show ?case
  proof (cases "dup_exempt hdr")
    case True
    then show ?thesis using v Cons.IH [OF q _ r, of h] Cons.prems(2) by (simp add: f s'(1))
  next
    case False
    then have "dup_matches (dup_data s' ! q) (if d then h else h @ [(dup_slot hdr, seq_ctrl hdr, sub_frame desc)])"
      using v unfolding if_not_P [OF False] by blast
    then have "dup_verdicts q s' fs = Some (dup_reference (if d then h else h @ [(dup_slot hdr, seq_ctrl hdr, sub_frame desc)]) fs)"
      by (rule Cons.IH [OF q _ r])
    then show ?thesis using v False by (cases d) (auto simp: f s'(1) case_prod_beta)
  qed
qed simp

lemma new_dup_data_matches: "dup_matches new_dup_data []"
  by (simp add: dup_matches_def new_dup_data_def IWL_MAX_TID_COUNT_def nth_Cons')

text \<open>When subframes may repeat a packet number.\<close>

lemma is_dup_allows_same_pn:
  assumes "iwl_mvm_is_dup q (Some s) hdr desc flag = Some (d, flag', s')" "\<not> tst flag RX_FLAG_ALLOW_SAME_PN"
    "tst flag' RX_FLAG_ALLOW_SAME_PN"
  shows "tst (mac_flags2 desc) IWL_RX_MPDU_MFLG2_AMSDU" "0 < sub_frame desc" "\<not> d"
    "last_seq (dup_data s ! q) ! dup_slot hdr = seq_ctrl hdr"
    "last_sub_frame (dup_data s ! q) ! dup_slot hdr < sub_frame desc"
proof -
  have "\<not> tst (flag OR RX_FLAG_DUP_VALIDATED) RX_FLAG_ALLOW_SAME_PN"
    using assms(2) by (simp add: tst_def bit.conj_disj_distrib2 RX_FLAG_DUP_VALIDATED_def RX_FLAG_ALLOW_SAME_PN_def)
  then show "tst (mac_flags2 desc) IWL_RX_MPDU_MFLG2_AMSDU" "0 < sub_frame desc" "\<not> d"
    "last_seq (dup_data s ! q) ! dup_slot hdr = seq_ctrl hdr"
    "last_sub_frame (dup_data s ! q) ! dup_slot hdr < sub_frame desc"
    using assms unfolding iwl_mvm_is_dup_def Let_def sub_frame_def [symmetric] dup_slot_def [symmetric]
    by (auto split: if_splits intro: le_less_trans [OF word_zero_le])
qed

section \<open>The socket buffer holds the frame\<close>

lemma unat_ucast_u8_u16: "unat (ucast (x :: u8) :: u16) = unat x"
  by (simp add: unsigned_ucast_eq take_bit_nat_eq_self u8_less [THEN less_trans])

lemma unat_skb_len:
  assumes "tst (mac_flags2 desc) IWL_RX_MPDU_MFLG2_PAD \<Longrightarrow> 2 \<le> unat flen"
  defines "pad \<equiv> (if tst (mac_flags2 desc) IWL_RX_MPDU_MFLG2_PAD then 2 else 0 :: nat)"
    and "mic \<equiv> unat (push_bit 1 (drop_bit 4 (mac_flags1 desc AND IWL_RX_MPDU_MFLG1_MIC_CRC_LEN_MASK)))"
  shows "unat (skb_len dev desc flen) =
     (if mic < unat flen - pad \<and> \<not> rx_includes_fcs dev then unat flen - pad - mic else unat flen - pad)"
proof -
  define l :: u16 where "l = (if tst (mac_flags2 desc) IWL_RX_MPDU_MFLG2_PAD then flen - 2 else flen)"
  have l: "unat l = unat flen - pad"
    using assms(1) unat_sub [of 2 flen] by (auto simp: l_def pad_def word_le_nat_alt)
  define m :: u16 where "m = ucast (push_bit 1 (drop_bit 4 (mac_flags1 desc AND IWL_RX_MPDU_MFLG1_MIC_CRC_LEN_MASK)))"
  have m: "unat m = mic" unfolding m_def mic_def by (rule unat_ucast_u8_u16)
  show ?thesis
    unfolding skb_len_def Let_def l_def [symmetric] m_def [symmetric]
    using l m unat_sub [of m l] by (auto simp: word_less_nat_alt word_le_nat_alt)
qed

lemma get_bytes_split: "a \<le> b \<Longrightarrow> get_bytes i a d @ get_bytes (i + a) (b - a) d = get_bytes i b d"
proof -
  assume "a \<le> b"
  then obtain c where "b = a + c" by (metis le_add_diff_inverse)
  then show ?thesis by (simp add: get_bytes_def take_add add.commute)
qed

lemma create_skb_bytes:
  assumes n: "n = unat (skb_len dev desc flen)" and h: "h = ieee80211_hdrlen (frame_control (hdr_of_bytes frame)) + unat crypt_len"
    and pad: "pad = (if tst (mac_flags2 desc) IWL_RX_MPDU_MFLG2_PAD then 2 else 0)"
    and room: "h + 8 \<le> room" and len: "n + pad \<le> length frame"
  shows "if n < h then iwl_mvm_create_skb dev csum_push room frame flen crypt_len desc skb = Some None
    else \<exists>skb'. iwl_mvm_create_skb dev csum_push room frame flen crypt_len desc skb = Some (Some skb') \<and>
      skb_bytes frame skb' = get_bytes 0 h frame @ get_bytes (h + pad) (n - h) frame \<and>
      length (skb_head skb') \<le> room"
proof (cases "n < h")
  case True
  then have "n \<le> room" using room by simp
  then show ?thesis using True
    unfolding iwl_mvm_create_skb_def Let_def n [symmetric] h [symmetric] pad [symmetric] by simp
next
  case False
  define hl where "hl = (if n \<le> room then n else h + 8)"
  have hl: "h \<le> hl" "hl \<le> room" "hl \<le> n" "hl + pad \<le> length frame"
    using False room len by (auto simp: hl_def)
  obtain skb' where c: "iwl_mvm_create_skb dev csum_push room frame flen crypt_len desc skb = Some (Some skb')"
    and s: "skb_head skb' = get_bytes 0 h frame @ get_bytes (h + pad) (hl - h) frame"
      "skb_frag skb' = (if n = hl then None else Some (hl + pad, n - hl))"
    using hl unfolding iwl_mvm_create_skb_def Let_def n [symmetric] h [symmetric] pad [symmetric] hl_def [symmetric]
    by (auto simp: not_less split: if_splits)
  have "length (skb_head skb') = hl" using hl by (simp add: s get_bytes_def)
  moreover have "skb_bytes frame skb' = get_bytes 0 h frame @ get_bytes (h + pad) (n - h) frame"
  proof (cases "n = hl")
    case False
    then have "skb_bytes frame skb' = get_bytes 0 h frame @ (get_bytes (h + pad) (hl - h) frame @ get_bytes (h + pad + (hl - h)) (n - h - (hl - h)) frame)"
      using hl by (simp add: skb_bytes_def s add.commute)
    then show ?thesis using hl get_bytes_split [of "hl - h" "n - h" "h + pad" frame] by simp
  qed (simp add: skb_bytes_def s)
  ultimately show ?thesis using False c hl(2) by auto
qed

section \<open>The verdict on the encryption\<close>

text \<open>Whether the hardware has verified the integrity of a frame, and whether it has found it forged.\<close>

definition integrity_ok :: "rx_device \<Rightarrow> u32 \<Rightarrow> bool" where
  "integrity_ok dev status \<longleftrightarrow>
     (let sec = status AND IWL_RX_MPDU_STATUS_SEC_MASK in
      sec \<in> {IWL_RX_MPDU_STATUS_SEC_CCM, IWL_RX_MPDU_STATUS_SEC_GCM, IWL_RX_MPDU_STATUS_SEC_EXT_ENC} \<and>
        tst status IWL_RX_MPDU_STATUS_MIC_OK \<or>
      sec = IWL_RX_MPDU_STATUS_SEC_WEP \<and> tst status IWL_RX_MPDU_STATUS_ICV_OK \<or>
      sec = IWL_RX_MPDU_STATUS_SEC_TKIP \<and> tst status IWL_RX_MPDU_STATUS_ICV_OK \<and>
        (deprecate_ttak dev \<or> tst status IWL_RX_MPDU_RES_STATUS_TTAK_OK))"

definition integrity_bad :: "rx_device \<Rightarrow> u32 \<Rightarrow> bool" where
  "integrity_bad dev status \<longleftrightarrow>
     (let sec = status AND IWL_RX_MPDU_STATUS_SEC_MASK in
      sec \<in> {IWL_RX_MPDU_STATUS_SEC_CCM, IWL_RX_MPDU_STATUS_SEC_GCM, IWL_RX_MPDU_STATUS_SEC_EXT_ENC} \<and>
        \<not> tst status IWL_RX_MPDU_STATUS_MIC_OK \<or>
      sec = IWL_RX_MPDU_STATUS_SEC_WEP \<and> \<not> tst status IWL_RX_MPDU_STATUS_ICV_OK \<or>
      sec = IWL_RX_MPDU_STATUS_SEC_TKIP \<and> \<not> tst status IWL_RX_MPDU_STATUS_ICV_OK \<and>
        (deprecate_ttak dev \<or> tst status IWL_RX_MPDU_RES_STATUS_TTAK_OK))"

definition cipher_header_len :: "u32 \<Rightarrow> u8" where
  "cipher_header_len status =
     (let sec = status AND IWL_RX_MPDU_STATUS_SEC_MASK in
      if sec = IWL_RX_MPDU_STATUS_SEC_WEP then 4 else if sec = IWL_RX_MPDU_STATUS_SEC_EXT_ENC then 0 else 8)"

lemma sec_values:
  "IWL_RX_MPDU_STATUS_SEC_CCM = 0x200" "IWL_RX_MPDU_STATUS_SEC_GCM = 0x500" "IWL_RX_MPDU_STATUS_SEC_EXT_ENC = 0x400"
  "IWL_RX_MPDU_STATUS_SEC_WEP = 0x100" "IWL_RX_MPDU_STATUS_SEC_TKIP = 0x300" "IWL_RX_MPDU_STATUS_SEC_NONE = 0"
  "IWL_RX_MPDU_STATUS_SEC_UNKNOWN = 0x700"
  by (simp_all add: hdr_simps)

lemma decrypted_flags:
  "tst RX_FLAG_DECRYPTED RX_FLAG_DECRYPTED" "\<not> tst RX_FLAG_MIC_STRIPPED RX_FLAG_DECRYPTED"
  "\<not> tst RX_FLAG_MMIC_ERROR RX_FLAG_DECRYPTED" "\<not> tst RX_FLAG_ICV_STRIPPED RX_FLAG_DECRYPTED"
  "\<not> tst RX_FLAG_MMIC_STRIPPED RX_FLAG_DECRYPTED" "\<not> tst RX_FLAG_DUP_VALIDATED RX_FLAG_DECRYPTED"
  "\<not> tst RX_FLAG_ALLOW_SAME_PN RX_FLAG_DECRYPTED" "\<not> tst RX_FLAG_DUP_VALIDATED RX_FLAG_ALLOW_SAME_PN"
  "tst RX_FLAG_ALLOW_SAME_PN RX_FLAG_ALLOW_SAME_PN"
  by (simp_all add: tst_def RX_FLAG_DECRYPTED_def RX_FLAG_MIC_STRIPPED_def RX_FLAG_MMIC_ERROR_def
      RX_FLAG_ICV_STRIPPED_def RX_FLAG_MMIC_STRIPPED_def RX_FLAG_DUP_VALIDATED_def RX_FLAG_ALLOW_SAME_PN_def)

lemmas flag_simps = tst_or decrypted_flags

lemma mgmt_prot_result:
  assumes "unat flen \<le> length frame"
  shows "\<exists>ok evs. iwl_mvm_rx_mgmt_prot sta frame flen status = Some (ok, evs) \<and>
    (evs \<noteq> [] \<longrightarrow> \<not> ok \<and> ieee80211_is_beacon (frame_control (hdr_of_bytes frame)) \<and>
       tst status IWL_RX_MPDU_STATUS_KEY_VALID)"
proof -
  have "\<not> length frame \<le> unat flen - a - IEEE80211_GMAC_PN_LEN - 2" if "a + IEEE80211_GMAC_PN_LEN + 2 \<le> unat flen" for a
    using that assms by (simp add: IEEE80211_GMAC_PN_LEN_def)
  then show ?thesis
    unfolding iwl_mvm_rx_mgmt_prot_def Let_def
    by (auto split: option.splits simp: not_less simp del: add_2_eq_Suc' diff_diff_left)
qed

lemma rx_crypto_protected:
  fixes desc :: iwl_rx_mpdu_desc
  assumes "ieee80211_has_protected (frame_control (hdr_of_bytes frame))" "\<not> tst flag RX_FLAG_DECRYPTED"
  defines "status \<equiv> rx_status_word desc"
  shows "\<exists>ok flag' n. iwl_mvm_rx_crypto dev sta frame desc pkt_flags flag = Some (ok, flag', n, []) \<and>
    (ok \<longleftrightarrow> \<not> integrity_bad dev status \<and> \<not> (tst (phy_info desc) IWL_RX_MPDU_PHY_AMPDU \<and>
       status AND IWL_RX_MPDU_STATUS_SEC_MASK = IWL_RX_MPDU_STATUS_SEC_UNKNOWN \<and> \<not> monitor_on dev)) \<and>
    (tst flag' RX_FLAG_DECRYPTED \<longleftrightarrow> integrity_ok dev status) \<and>
    (integrity_ok dev status \<longrightarrow> ok \<and> n = cipher_header_len status)"
proof -
  define sec where "sec = status AND IWL_RX_MPDU_STATUS_SEC_MASK"
  consider "sec = 0x200 \<or> sec = 0x500" | "sec = 0x300" | "sec = 0x100" | "sec = 0x400" |
    "sec \<noteq> 0x200" "sec \<noteq> 0x500" "sec \<noteq> 0x300" "sec \<noteq> 0x100" "sec \<noteq> 0x400" by blast
  then show ?thesis
    unfolding iwl_mvm_rx_crypto_def integrity_bad_def integrity_ok_def cipher_header_len_def Let_def
      status_def [symmetric] sec_def [symmetric] sec_values
    by cases (use assms(1,2) in \<open>auto simp: flag_simps IEEE80211_CCMP_HDR_LEN_def IEEE80211_TKIP_IV_LEN_def
      IEEE80211_WEP_IV_LEN_def\<close>)
qed

lemma rx_crypto_unprotected:
  fixes desc :: iwl_rx_mpdu_desc
  assumes "\<not> ieee80211_has_protected (frame_control (hdr_of_bytes frame))" "unat (mpdu_len desc) \<le> length frame"
  shows "\<exists>ok n evs. iwl_mvm_rx_crypto dev sta frame desc pkt_flags flag = Some (ok, flag, n, evs) \<and> (evs \<noteq> [] \<longrightarrow> \<not> ok)"
proof -
  obtain ok evs where "iwl_mvm_rx_mgmt_prot sta frame (mpdu_len desc) (rx_status_word desc) = Some (ok, evs)"
    "evs \<noteq> [] \<longrightarrow> \<not> ok"
    using mgmt_prot_result [OF assms(2)] by blast
  then show ?thesis using assms(1) unfolding iwl_mvm_rx_crypto_def Let_def by auto
qed

section \<open>A repeated aggregate\<close>

lemma is_dup_taken:
  fixes s :: rx_station
  defines "d \<equiv> \<lambda>q. dup_data s ! q"
  assumes "q < length (dup_data s)" "\<not> dup_exempt hdr" "dup_slot hdr < length (last_seq (d q))"
    "dup_slot hdr < length (last_sub_frame (d q))"
    "\<not> (last_seq (d q) ! dup_slot hdr = seq_ctrl hdr \<and> sub_frame desc \<le> last_sub_frame (d q) ! dup_slot hdr)"
  shows "iwl_mvm_is_dup q (Some s) hdr desc flag =
    Some (False,
      (if last_seq (d q) ! dup_slot hdr = seq_ctrl hdr \<and> tst (mac_flags2 desc) IWL_RX_MPDU_MFLG2_AMSDU
       then flag OR RX_FLAG_ALLOW_SAME_PN else flag) OR RX_FLAG_DUP_VALIDATED,
      Some (s\<lparr>dup_data := (dup_data s)[q := (d q)\<lparr>last_seq := (last_seq (d q))[dup_slot hdr := seq_ctrl hdr],
        last_sub_frame := (last_sub_frame (d q))[dup_slot hdr := sub_frame desc]\<rparr>]\<rparr>))"
  using assms(2-) unfolding iwl_mvm_is_dup_def dup_exempt_def Let_def sub_frame_def [symmetric]
    dup_slot_def [symmetric] d_def
  by (auto simp: not_le)

text \<open>The two subframes of a recorded aggregate, sent again under another sequence number.\<close>

definition replayed_subframes ::
  "nat \<Rightarrow> rx_station \<Rightarrow> u8 list \<Rightarrow> iwl_rx_mpdu_desc \<Rightarrow> u8 list \<Rightarrow> iwl_rx_mpdu_desc \<Rightarrow> bool"
where
  "replayed_subframes q s f0 desc0 f1 desc1 \<longleftrightarrow>
     (\<forall>f \<in> {f0, f1}. pn_checked q f RX_FLAG_DECRYPTED \<and> \<not> dup_exempt (hdr_of_bytes f) \<and>
        ieee80211_is_data_qos (frame_control (hdr_of_bytes f)) \<and> 8 \<le> length (frame_extiv f) \<and>
        frame_keyidx f = frame_keyidx f0 \<and> frame_tid f = frame_tid f0 \<and> frame_tid f < IWL_MAX_TID_COUNT \<and>
        seq_ctrl (hdr_of_bytes f) = seq_ctrl (hdr_of_bytes f0) \<and>
        ptk_pn s ! frame_keyidx f \<noteq> None \<and> frame_pn f = pn_at s (frame_keyidx f) q (frame_tid f)) \<and>
     sub_frame desc0 = 0 \<and> 0 < sub_frame desc1 \<and> tst (mac_flags2 desc1) IWL_RX_MPDU_MFLG2_AMSDU"

definition dup_data_ok :: "nat \<Rightarrow> rx_station \<Rightarrow> bool" where
  "dup_data_ok nq s \<longleftrightarrow> length (dup_data s) = nq \<and>
     (\<forall>d \<in> set (dup_data s). length (last_seq d) = 9 \<and> length (last_sub_frame d) = 9)"

lemma pn_checked_flag: "pn_checked q f RX_FLAG_DECRYPTED \<Longrightarrow> tst flag RX_FLAG_DECRYPTED \<Longrightarrow> pn_checked q f flag"
  by (simp add: pn_checked_def)

lemma check_pn_same:
  assumes "pn_checked q f flag" "keys_ok nq s" "q < nq" "8 \<le> length (frame_extiv f)" "ptk_pn s ! frame_keyidx f \<noteq> None"
    "frame_tid f < IWL_MAX_TID_COUNT" "frame_pn f = pn_at s (frame_keyidx f) q (frame_tid f)"
  shows "\<exists>flag' s'. iwl_mvm_check_pn q (Some s) f flag = Some (tst flag RX_FLAG_ALLOW_SAME_PN, flag', Some s')"
  using check_pn_checked [OF assms(1-4)] assms(5-7) by (auto simp: pn_at_def)

section \<open>Properties\<close>

definition demo_rx_frame :: "u8 \<Rightarrow> u8 \<Rightarrow> u8 \<Rightarrow> u8 list" where
  "demo_rx_frame fc1 seq pn =
     [0x88, fc1, 0, 0, 2, 0, 0, 0, 0, 1, 2, 0, 0, 0, 0, 2, 2, 0, 0, 0, 0, 3, seq, 0, 0, 0,
      pn, 0, 0, 0x20, 0, 0, 0, 0, 1, 2, 3, 4]"

definition demo_mpdu_desc :: "u8 \<Rightarrow> u8 \<Rightarrow> iwl_rx_mpdu_desc" where
  "demo_mpdu_desc flags2 amsdu =
     \<lparr>mpdu_len = 38, mac_flags1 = 0, mac_flags2 = flags2, amsdu_info = amsdu, phy_info = 0, l3l4_flags = 0,
      rx_status_word = 0x260, reorder_data = 0x7f000000, raw_xsum = 0\<rparr>"

definition demo_rx_station :: rx_station where
  "demo_rx_station = set_key_pn 2 0 (\<lambda>t. replicate 6 0)
     (sta_init_dup_data 2 \<lparr>ptk_pn = replicate 4 None, dup_data = [], bcn_keys = [None, None], vif_rxcsum = False\<rparr>)"

lemma demo_rx_station_ok: "keys_ok 2 demo_rx_station" "dup_data_ok 2 demo_rx_station"
proof -
  show "keys_ok 2 demo_rx_station" unfolding demo_rx_station_def
    by (rule keys_ok_set_key) (simp_all add: keys_ok_def sta_init_dup_data_def IEEE80211_CCMP_PN_LEN_def)
  show "dup_data_ok 2 demo_rx_station"
    by (simp add: demo_rx_station_def dup_data_ok_def set_key_pn_def sta_init_dup_data_def new_dup_data_def
        IWL_MAX_TID_COUNT_def)
qed

text \<open>The packet-number check stops replays. While the station's keys are installed and removed and its
  frames checked on all queues in any order, the packet numbers of the frames that pass under one
  installed key, on one queue and TID, never decrease; and a frame that does not carry the permission for
  later subframes of an aggregate passes only with a number greater than all before.\<close>

theorem pn_never_replayed:
  assumes "(pn_step nq)\<^sup>*\<^sup>* r r'" "keys_ok nq (pn_sta r)" "pn_log r = []"
    and "i < j" "j < length (pn_log r')" "same_counter (pn_log r' ! i) (pn_log r' ! j)"
  shows "e_pn (pn_log r' ! i) \<le> e_pn (pn_log r' ! j) \<and>
    (\<not> e_same (pn_log r' ! j) \<longrightarrow> e_pn (pn_log r' ! i) < e_pn (pn_log r' ! j))"
proof -
  have "pn_inv nq r" using assms(2,3) by (simp add: pn_inv_def)
  then have "pn_inv nq r'" by (rule pn_runs.inv_run [OF assms(1)])
  then have "pn_grows (pn_log r' ! i) (pn_log r' ! j)"
    using assms(4,5) by (auto simp: pn_inv_def intro: sorted_wrt_nth_less)
  then show ?thesis using assms(6) by (auto simp: pn_grows_def)
qed

definition demo_pn_run :: pn_run where
  "demo_pn_run = \<lparr>pn_sta = demo_rx_station, pn_epoch = \<lambda>k. 1, pn_log = []\<rparr>"

definition demo_counted :: "u8 \<Rightarrow> rx_station" where
  "demo_counted n = demo_rx_station\<lparr>ptk_pn := (ptk_pn demo_rx_station)
     [0 := Some [replicate 8 (replicate 6 0), [0, 0, 0, 0, 0, n] # replicate 7 (replicate 6 0)]]\<rparr>"

lemma demo_check:
  "iwl_mvm_check_pn 1 (Some demo_rx_station) (demo_rx_frame 0x40 16 1) RX_FLAG_DECRYPTED = Some (True, 0x402, Some (demo_counted 1))"
  "iwl_mvm_check_pn 1 (Some (demo_counted 1)) (demo_rx_frame 0x40 32 2) RX_FLAG_DECRYPTED = Some (True, 0x402, Some (demo_counted 2))"
  "pn_checked 1 (demo_rx_frame 0x40 16 1) RX_FLAG_DECRYPTED" "pn_checked 1 (demo_rx_frame 0x40 32 2) RX_FLAG_DECRYPTED"
  by code_simp+

lemma demo_frame_facts:
  "frame_keyidx (demo_rx_frame 0x40 16 1) = 0" "frame_keyidx (demo_rx_frame 0x40 32 2) = 0"
  "frame_tid (demo_rx_frame 0x40 16 1) = 0" "frame_tid (demo_rx_frame 0x40 32 2) = 0"
  "\<not> tst RX_FLAG_DECRYPTED RX_FLAG_ALLOW_SAME_PN"
  by code_simp+

lemma pn_step_counted:
  "queue < nq \<Longrightarrow> iwl_mvm_check_pn queue (Some (pn_sta r)) frame flag = Some (True, flag', Some s) \<Longrightarrow>
   pn_checked queue frame flag \<Longrightarrow>
   r' = r\<lparr>pn_sta := s, pn_log := pn_log r @ [pn_entry_of queue frame flag r]\<rparr> \<Longrightarrow> pn_step nq r r'"
  using pn_step.check [of queue nq r frame flag True flag' s] by simp

theorem pn_never_replayed_witness:
  "\<exists>r. (pn_step 2)\<^sup>*\<^sup>* demo_pn_run r \<and> length (pn_log r) = 2 \<and> e_pn (pn_log r ! 0) < e_pn (pn_log r ! 1)"
proof -
  let ?e = "\<lambda>seq n. pn_entry_of 1 (demo_rx_frame 0x40 seq n) RX_FLAG_DECRYPTED demo_pn_run"
  have "pn_step 2 demo_pn_run (demo_pn_run\<lparr>pn_sta := demo_counted 1, pn_log := [?e 16 1]\<rparr>)"
    using demo_check(1,3) 
    by (intro pn_step_counted [where queue = 1 and flag = RX_FLAG_DECRYPTED and flag' = "0x402" and
          frame = "demo_rx_frame 0x40 16 1"])
      (simp_all add: demo_pn_run_def)
  moreover have "pn_step 2 (demo_pn_run\<lparr>pn_sta := demo_counted 1, pn_log := [?e 16 1]\<rparr>)
      (demo_pn_run\<lparr>pn_sta := demo_counted 2, pn_log := [?e 16 1, ?e 32 2]\<rparr>)"
    using demo_check(2,4) 
    by (intro pn_step_counted [where queue = 1 and flag = RX_FLAG_DECRYPTED and flag' = "0x402" and
          frame = "demo_rx_frame 0x40 32 2"])
      (simp_all add: demo_pn_run_def pn_entry_of_def)
  ultimately have run: "(pn_step 2)\<^sup>*\<^sup>* demo_pn_run (demo_pn_run\<lparr>pn_sta := demo_counted 2, pn_log := [?e 16 1, ?e 32 2]\<rparr>)"
    by (meson rtranclp.rtrancl_into_rtrancl rtranclp.rtrancl_refl)
  have "same_counter (?e 16 1) (?e 32 2)" "\<not> e_same (?e 32 2)"
    by (simp_all add: same_counter_def pn_entry_of_def demo_frame_facts)
  then have "e_pn (?e 16 1) < e_pn (?e 32 2)"
    using pn_never_replayed [OF run, of 0 1] demo_rx_station_ok(1) by (simp add: demo_pn_run_def)
  with run show ?thesis by (intro exI [of _ "demo_pn_run\<lparr>pn_sta := demo_counted 2, pn_log := [?e 16 1, ?e 32 2]\<rparr>"] conjI) simp_all
qed

text \<open>C14: Duplicate detection is exact: for any frames that arrive on a queue of a new station, with TIDs below
  nine, the verdicts of the code are those of the reference, which drops a retransmission precisely when
  the frame last taken in the same slot has the same sequence control and no smaller subframe index.\<close>

theorem dup_verdicts_match_history:
  assumes "q < nq" "\<forall>(hdr, desc) \<in> set fs. dup_exempt hdr \<or> dup_slot hdr < 9"
  shows "dup_verdicts q (sta_init_dup_data nq s) fs = Some (dup_reference [] fs)"
  using assms by (intro dup_verdicts_reference) (simp_all add: sta_init_dup_data_def new_dup_data_matches)

theorem dup_verdicts_match_history_witness:
  "dup_verdicts 1 (sta_init_dup_data 2 demo_rx_station)
     (map (\<lambda>f. (hdr_of_bytes f, demo_mpdu_desc 0 0)) [demo_rx_frame 0x48 16 1, demo_rx_frame 0x48 16 1, demo_rx_frame 0x48 32 2]) =
   Some [False, True, False]"
proof -
  let ?fs = "map (\<lambda>f. (hdr_of_bytes f, demo_mpdu_desc 0 0)) [demo_rx_frame 0x48 16 1, demo_rx_frame 0x48 16 1, demo_rx_frame 0x48 32 2]"
  have "\<forall>(hdr, desc) \<in> set ?fs. dup_exempt hdr \<or> dup_slot hdr < 9" by code_simp
  moreover have "dup_reference [] ?fs = [False, True, False]" by code_simp
  ultimately show ?thesis using dup_verdicts_match_history [of 1 2 ?fs demo_rx_station] by simp
qed

text \<open>The duplicate data have nine slots, but the TID of a QoS frame is not checked against them: the
  detection accesses memory outside the two arrays exactly for unicast QoS frames that carry data and have
  a TID of nine or more.\<close>

theorem dup_tid_outside:
  assumes "dup_data_ok nq s" "q < nq"
  shows "iwl_mvm_is_dup q (Some s) hdr desc flag = None \<longleftrightarrow>
    \<not> dup_exempt hdr \<and> ieee80211_is_data_qos (frame_control hdr) \<and> 9 \<le> unat (ieee80211_get_tid hdr)"
proof -
  have "length (last_seq (dup_data s ! q)) = 9" "length (last_sub_frame (dup_data s ! q)) = 9" "q < length (dup_data s)"
    using assms by (auto simp: dup_data_ok_def)
  then have "iwl_mvm_is_dup q (Some s) hdr desc flag = None \<longleftrightarrow> \<not> dup_exempt hdr \<and> \<not> dup_slot hdr < 9"
    unfolding iwl_mvm_is_dup_def dup_exempt_def Let_def dup_slot_def [symmetric] by (auto simp: not_less not_le)
  then show ?thesis by (simp add: dup_slot_less)
qed

theorem dup_tid_outside_witness:
  "iwl_mvm_is_dup 0 (Some demo_rx_station) ((hdr_of_bytes (demo_rx_frame 0x40 16 1))\<lparr>qos_ctl := 9\<rparr>) (demo_mpdu_desc 0 0) 0 = None"
proof -
  let ?hdr = "(hdr_of_bytes (demo_rx_frame 0x40 16 1))\<lparr>qos_ctl := 9\<rparr>"
  have "\<not> dup_exempt ?hdr \<and> ieee80211_is_data_qos (frame_control ?hdr) \<and> 9 \<le> unat (ieee80211_get_tid ?hdr)"
    by code_simp
  then show ?thesis using dup_tid_outside [OF demo_rx_station_ok(2)] by simp
qed

text \<open>C36: A repeated aggregate is only half stopped. When two subframes of an aggregate whose packet number
  was the last one accepted are sent again under a new sequence number, the first fails the check of the
  packet number; but it was recorded for duplicate detection before, so that the second is taken for a later
  subframe of the same aggregate, may repeat the number, and passes.\<close>

theorem replayed_aggregate_passes:
  assumes "keys_ok nq s" "dup_data_ok nq s" "q < nq" "replayed_subframes q s f0 desc0 f1 desc1"
    and "last_seq (dup_data s ! q) ! frame_tid f0 \<noteq> seq_ctrl (hdr_of_bytes f0)"
  shows "\<exists>fl0 fl0' s0 fl1 s1 fl2 s2.
    iwl_mvm_is_dup q (Some s) (hdr_of_bytes f0) desc0 RX_FLAG_DECRYPTED = Some (False, fl0, Some s0) \<and>
    iwl_mvm_check_pn q (Some s0) f0 fl0 = Some (False, fl0', Some s0) \<and>
    iwl_mvm_is_dup q (Some s0) (hdr_of_bytes f1) desc1 RX_FLAG_DECRYPTED = Some (False, fl1, Some s1) \<and>
    iwl_mvm_check_pn q (Some s1) f1 fl1 = Some (True, fl2, Some s2)"
proof -
  let ?t = "frame_tid f0" and ?d = "dup_data s ! q" and ?seq = "seq_ctrl (hdr_of_bytes f0)"
  have len: "q < length (dup_data s)" "length (last_seq ?d) = 9" "length (last_sub_frame ?d) = 9"
    using assms(2,3) by (auto simp: dup_data_ok_def)
  have f: "\<And>f. f \<in> {f0, f1} \<Longrightarrow> pn_checked q f RX_FLAG_DECRYPTED \<and> \<not> dup_exempt (hdr_of_bytes f) \<and>
      dup_slot (hdr_of_bytes f) = ?t \<and> seq_ctrl (hdr_of_bytes f) = ?seq \<and> 8 \<le> length (frame_extiv f) \<and>
      frame_keyidx f = frame_keyidx f0 \<and> frame_tid f = ?t \<and> ptk_pn s ! frame_keyidx f0 \<noteq> None \<and>
      frame_pn f = pn_at s (frame_keyidx f0) q ?t" and t: "?t < 8"
    and sub: "sub_frame desc0 = 0" "0 < sub_frame desc1" "tst (mac_flags2 desc1) IWL_RX_MPDU_MFLG2_AMSDU"
    using assms(4) unfolding replayed_subframes_def by (auto simp: dup_slot_def frame_tid_def IWL_MAX_TID_COUNT_def)
  define s0 where "s0 = s\<lparr>dup_data := (dup_data s)[q := ?d\<lparr>last_seq := (last_seq ?d)[?t := ?seq],
    last_sub_frame := (last_sub_frame ?d)[?t := 0]\<rparr>]\<rparr>"
  let ?d0 = "dup_data s0 ! q"
  have d0: "q < length (dup_data s0)" "length (last_seq ?d0) = 9" "length (last_sub_frame ?d0) = 9"
    "last_seq ?d0 ! ?t = ?seq" "last_sub_frame ?d0 ! ?t = 0"
    using len t by (simp_all add: s0_def)
  define fl where "fl = RX_FLAG_DECRYPTED OR RX_FLAG_DUP_VALIDATED"
  define fl1 where "fl1 = (RX_FLAG_DECRYPTED OR RX_FLAG_ALLOW_SAME_PN) OR RX_FLAG_DUP_VALIDATED"
  have fl: "tst fl RX_FLAG_DECRYPTED" "\<not> tst fl RX_FLAG_ALLOW_SAME_PN" "tst fl1 RX_FLAG_DECRYPTED" "tst fl1 RX_FLAG_ALLOW_SAME_PN"
    using demo_frame_facts(5) by (simp_all add: fl_def fl1_def flag_simps)
  have 1: "iwl_mvm_is_dup q (Some s) (hdr_of_bytes f0) desc0 RX_FLAG_DECRYPTED = Some (False, fl, Some s0)"
    using is_dup_taken [of q s "hdr_of_bytes f0" desc0] f [of f0] len t sub(1) assms(5) by (simp add: fl_def s0_def)
  obtain s1 where 2: "iwl_mvm_is_dup q (Some s0) (hdr_of_bytes f1) desc1 RX_FLAG_DECRYPTED = Some (False, fl1, Some s1)"
    using is_dup_taken [of q s0 "hdr_of_bytes f1" desc1] f [of f1] d0 t sub(2,3) by (simp add: fl1_def not_le)
  have keys: "ptk_pn s0 = ptk_pn s" "ptk_pn s1 = ptk_pn s" using dup_keeps_keys [OF 2] by (simp_all add: s0_def)
  have ok: "keys_ok nq s0" "keys_ok nq s1" "pn_at s0 = pn_at s" "pn_at s1 = pn_at s"
    using assms(1) by (simp_all add: keys_ok_def keys pn_at_def fun_eq_iff)
  obtain fl0' s0' where 3: "iwl_mvm_check_pn q (Some s0) f0 fl = Some (False, fl0', Some s0')"
    using check_pn_same [OF pn_checked_flag [OF _ fl(1)] ok(1) assms(3), of f0] f [of f0] t fl(2)
    by (auto simp: ok(3) keys IWL_MAX_TID_COUNT_def)
  then have "s0' = s0" using check_pn_result [OF ok(1) assms(3) 3] by blast
  moreover obtain fl2 s2 where "iwl_mvm_check_pn q (Some s1) f1 fl1 = Some (True, fl2, Some s2)"
    using check_pn_same [OF pn_checked_flag [OF _ fl(3)] ok(2) assms(3), of f1] f [of f1] t fl(4)
    by (auto simp: ok(4) keys IWL_MAX_TID_COUNT_def)
  ultimately show ?thesis using 1 2 3 by blast
qed

lemma demo_counted_ok:
  "keys_ok 2 (demo_counted 1)" "dup_data_ok 2 (demo_counted 1)"
  "last_seq (dup_data (demo_counted 1) ! 1) ! 0 = 0xffff" "ptk_pn (demo_counted 1) ! 0 \<noteq> None"
  "pn_at (demo_counted 1) 0 1 0 = 1"
proof -
  show "keys_ok 2 (demo_counted 1)"
    using demo_rx_station_ok(1)
    by (auto simp: demo_counted_def keys_ok_def key_pn_ok_def nth_update_if nth_Cons' IWL_MAX_TID_COUNT_def
        IEEE80211_CCMP_PN_LEN_def less_Suc_eq numeral_2_eq_2 split: if_splits)
  show "dup_data_ok 2 (demo_counted 1)" "last_seq (dup_data (demo_counted 1) ! 1) ! 0 = 0xffff"
    using demo_rx_station_ok(2)
    by (simp_all add: dup_data_ok_def demo_counted_def demo_rx_station_def set_key_pn_def sta_init_dup_data_def
        new_dup_data_def IWL_MAX_TID_COUNT_def)
  show "ptk_pn (demo_counted 1) ! 0 \<noteq> None" "pn_at (demo_counted 1) 0 1 0 = 1"
    using demo_rx_station_ok(1) by (simp_all add: pn_at_def demo_counted_def keys_ok_def)
qed

lemma demo_replayed:
  "replayed_subframes 1 (demo_counted 1) (demo_rx_frame 0x40 32 1) (demo_mpdu_desc 0x40 0)
     (demo_rx_frame 0x40 32 1) (demo_mpdu_desc 0x40 1)"
proof -
  let ?f = "demo_rx_frame 0x40 32 1"
  have "extiv_pn (frame_extiv ?f) = [0, 0, 0, 0, 0, 1]" by code_simp
  then have "frame_pn ?f = 1" by (simp add: frame_pn_def)
  moreover have "pn_checked 1 ?f RX_FLAG_DECRYPTED" "\<not> dup_exempt (hdr_of_bytes ?f)"
    "ieee80211_is_data_qos (frame_control (hdr_of_bytes ?f))" "8 \<le> length (frame_extiv ?f)"
    "frame_keyidx ?f = 0" "frame_tid ?f = 0" "frame_tid ?f < IWL_MAX_TID_COUNT"
    by code_simp+
  moreover have "sub_frame (demo_mpdu_desc 0x40 0) = 0" "0 < sub_frame (demo_mpdu_desc 0x40 1)"
    "tst (mac_flags2 (demo_mpdu_desc 0x40 1)) IWL_RX_MPDU_MFLG2_AMSDU"
    by code_simp+
  ultimately show ?thesis using demo_counted_ok(4,5) by (simp add: replayed_subframes_def)
qed

theorem replayed_aggregate_passes_witness:
  "\<exists>fl1 s1 fl2 s2. iwl_mvm_check_pn 1 (Some s1) (demo_rx_frame 0x40 32 1) fl1 = Some (True, fl2, Some s2)"
proof -
  have "last_seq (dup_data (demo_counted 1) ! 1) ! frame_tid (demo_rx_frame 0x40 32 1) \<noteq> seq_ctrl (hdr_of_bytes (demo_rx_frame 0x40 32 1))"
  proof -
    have "frame_tid (demo_rx_frame 0x40 32 1) = 0" "seq_ctrl (hdr_of_bytes (demo_rx_frame 0x40 32 1)) = 32" by code_simp+
    then show ?thesis using demo_counted_ok(3) by simp
  qed
  from replayed_aggregate_passes [OF demo_counted_ok(1,2) _ demo_replayed this] show ?thesis by auto
qed

lemma rx_crypto_result:
  fixes desc :: iwl_rx_mpdu_desc
  assumes "\<not> tst flag RX_FLAG_DECRYPTED" "unat (mpdu_len desc) \<le> length frame"
  shows "\<exists>ok flag' n evs. iwl_mvm_rx_crypto dev sta frame desc pkt_flags flag = Some (ok, flag', n, evs) \<and>
    (tst flag' RX_FLAG_DECRYPTED \<longleftrightarrow>
       ieee80211_has_protected (frame_control (hdr_of_bytes frame)) \<and> integrity_ok dev (rx_status_word desc)) \<and>
    (tst flag' RX_FLAG_DECRYPTED \<longrightarrow> ok \<and> n = cipher_header_len (rx_status_word desc)) \<and>
    (ieee80211_has_protected (frame_control (hdr_of_bytes frame)) \<and> integrity_bad dev (rx_status_word desc) \<longrightarrow> \<not> ok) \<and>
    (evs \<noteq> [] \<longrightarrow> \<not> ok)"
proof (cases "ieee80211_has_protected (frame_control (hdr_of_bytes frame))")
  case True
  then show ?thesis using rx_crypto_protected [OF True assms(1), of dev sta desc pkt_flags] by fastforce
next
  case False
  then show ?thesis using rx_crypto_unprotected [OF False assms(2), of dev sta pkt_flags flag] assms(1) by fastforce
qed


definition demo_rx_device :: rx_device where
  "demo_rx_device = \<lparr>monitor_on = False, deprecate_ttak = True, gen2 = True, ax210 = True, before_bz = True, rx_includes_fcs = False\<rparr>"


text \<open>C15: The socket buffer holds the frame: with room for the header, no copy leaves the receive buffer or
  the socket buffer; a frame shorter than its header is refused; otherwise mac80211 reads through head and
  fragment exactly the header with the cipher header and then the bytes behind the padding, up to the length
  without padding and, unless the device keeps the checksum, without the MIC.\<close>

theorem skb_holds_frame:
  assumes "h = ieee80211_hdrlen (frame_control (hdr_of_bytes frame)) + unat crypt_len" "h + 8 \<le> room"
    and "pad = (if tst (mac_flags2 desc) IWL_RX_MPDU_MFLG2_PAD then 2 else 0)"
    and "mic = unat (push_bit 1 (drop_bit 4 (mac_flags1 desc AND IWL_RX_MPDU_MFLG1_MIC_CRC_LEN_MASK)))"
    and "pad \<le> unat flen" "unat flen \<le> length frame"
    and "n = (if mic < unat flen - pad \<and> \<not> rx_includes_fcs dev then unat flen - pad - mic else unat flen - pad)"
  shows "if n < h then iwl_mvm_create_skb dev csum_push room frame flen crypt_len desc skb = Some None
    else \<exists>skb'. iwl_mvm_create_skb dev csum_push room frame flen crypt_len desc skb = Some (Some skb') \<and>
      skb_bytes frame skb' = get_bytes 0 h frame @ get_bytes (h + pad) (n - h) frame \<and>
      length (skb_head skb') \<le> room"
proof -
  have "n = unat (skb_len dev desc flen)"
    using unat_skb_len [of desc flen dev] assms(3,4,5,7) by (simp split: if_splits)
  moreover have "n + pad \<le> length frame" unfolding assms(7) using assms(5,6) by auto
  ultimately show ?thesis using create_skb_bytes [OF _ assms(1,3,2)] by blast
qed

theorem skb_holds_frame_witness:
  "\<exists>skb'. iwl_mvm_create_skb demo_rx_device (\<lambda>c _. c) 126 (demo_rx_frame 0x40 16 1) 38 8 (demo_mpdu_desc 0x20 0)
     \<lparr>skb_head = [], skb_frag = None, skb_ip_summed = CHECKSUM_NONE, skb_csum = 0\<rparr> = Some (Some skb') \<and>
     skb_bytes (demo_rx_frame 0x40 16 1) skb' = take 34 (demo_rx_frame 0x40 16 1) @ drop 36 (demo_rx_frame 0x40 16 1)"
proof -
  let ?f = "demo_rx_frame 0x40 16 1" and ?d = "demo_mpdu_desc 0x20 0"
  have h: "34 = ieee80211_hdrlen (frame_control (hdr_of_bytes ?f)) + unat (8 :: u8)" and len: "length ?f = 38"
    and pad: "2 = (if tst (mac_flags2 ?d) IWL_RX_MPDU_MFLG2_PAD then 2 else 0 :: nat)"
    and mic: "0 = unat (push_bit 1 (drop_bit 4 (mac_flags1 ?d AND IWL_RX_MPDU_MFLG1_MIC_CRC_LEN_MASK)))"
    and bytes: "get_bytes 0 34 ?f @ get_bytes (34 + 2) (36 - 34) ?f = take 34 ?f @ drop 36 ?f"
    by code_simp+
  have n: "36 = (if 0 < unat (38 :: u16) - 2 \<and> \<not> rx_includes_fcs demo_rx_device
      then unat (38 :: u16) - 2 - 0 else unat (38 :: u16) - 2)" by (simp add: demo_rx_device_def)
  have "(2 :: nat) \<le> unat (38 :: u16)" "unat (38 :: u16) \<le> length ?f" "34 + 8 \<le> (126 :: nat)" by (simp_all add: len)
  from skb_holds_frame [OF h this(3) pad mic this(1,2) n] show ?thesis unfolding bytes by auto
qed
end
