(* ===== verification/Rx_Status.thy ===== *)
theory Rx_Status
  imports Rx_Radiotap_Eht Rx_Check
begin

text \<open>
  What the multi-queue receive path reports to mac80211 about the rate and the signal of a frame
  (mvm/rxmq.c: \<open>iwl_mvm_rx_fill_status\<close> and \<open>iwl_mvm_get_signal_strength\<close>), with the radiotap fields it
  puts in front of the frame. The properties say that the report is the documented meaning of the rate
  word of the firmware, in both its layouts, and that the fields and the head of the frame fit into the
  socket buffer.
\<close>

unbundle bit_operations_syntax

section \<open>The signal\<close>

definition RX_ENC_FLAG_SHORTPRE :: u8 where "RX_ENC_FLAG_SHORTPRE = 0x1"
definition RX_ENC_FLAG_SHORT_GI :: u8 where "RX_ENC_FLAG_SHORT_GI = 0x4"
definition RX_ENC_FLAG_LDPC :: u8 where "RX_ENC_FLAG_LDPC = 0x40"
definition RX_ENC_FLAG_STBC_SHIFT :: nat where "RX_ENC_FLAG_STBC_SHIFT = 4"

definition S8_MIN :: int where "S8_MIN = - 128"

definition iwl_mvm_get_signal_strength :: "u32 \<Rightarrow> u8 \<Rightarrow> u8 \<Rightarrow> mvm_rx_status \<Rightarrow> mvm_rx_status" where
  "iwl_mvm_get_signal_strength rate_n_flags ea eb s =
     (let energy_a = (if ea \<noteq> 0 then - uint ea else S8_MIN); energy_b = (if eb \<noteq> 0 then - uint eb else S8_MIN);
          max_energy = max energy_a energy_b
      in s\<lparr>ms_signal := word_of_int max_energy,
           ms_chains := ucast (drop_bit RATE_MCS_ANT_POS (rate_n_flags AND RATE_MCS_ANT_AB_MSK)),
           ms_chain_signal := (word_of_int energy_a, word_of_int energy_b)\<rparr>)"

section \<open>The rate\<close>

definition rx_fill_bw :: "u32 \<Rightarrow> mvm_rx_status \<Rightarrow> mvm_rx_status" where
  "rx_fill_bw rate_n_flags s =
     (let width = rate_n_flags AND RATE_MCS_CHAN_WIDTH_MSK in
      if width = RATE_MCS_CHAN_WIDTH_20 then s
      else if width = RATE_MCS_CHAN_WIDTH_40 then s\<lparr>ms_bw := RATE_INFO_BW_40\<rparr>
      else if width = RATE_MCS_CHAN_WIDTH_80 then s\<lparr>ms_bw := RATE_INFO_BW_80\<rparr>
      else if width = RATE_MCS_CHAN_WIDTH_160 then s\<lparr>ms_bw := RATE_INFO_BW_160\<rparr>
      else if width = RATE_MCS_CHAN_WIDTH_320 then s\<lparr>ms_bw := RATE_INFO_BW_320\<rparr>
      else s)"

text \<open>The last part of the function: guard interval flag, coding, encoding, and the index of the rate.\<close>

definition rx_fill_encoding :: "u32 \<Rightarrow> mvm_rx_status \<Rightarrow> mvm_rx_status" where
  "rx_fill_encoding rate_n_flags s =
     (let format = rate_n_flags AND RATE_MCS_MOD_TYPE_MSK;
          is_sgi = (if format = RATE_MCS_HE_MSK then iwl_he_is_sgi rate_n_flags else tst rate_n_flags RATE_MCS_SGI_MSK);
          s = (if format \<noteq> RATE_MCS_CCK_MSK \<and> is_sgi then s\<lparr>ms_enc_flags := ms_enc_flags s OR RX_ENC_FLAG_SHORT_GI\<rparr> else s);
          s = (if tst rate_n_flags RATE_MCS_LDPC_MSK then s\<lparr>ms_enc_flags := ms_enc_flags s OR RX_ENC_FLAG_LDPC\<rparr> else s)
      in if format = RATE_MCS_VHT_MSK then s\<lparr>ms_encoding := RX_ENC_VHT\<rparr>
         else if format = RATE_MCS_HE_MSK
         then s\<lparr>ms_encoding := RX_ENC_HE, ms_he_dcm := tst rate_n_flags RATE_HE_DUAL_CARRIER_MODE_MSK\<rparr>
         else if format = RATE_MCS_EHT_MSK then s\<lparr>ms_encoding := RX_ENC_EHT\<rparr> else s)"

definition rx_fill_rate :: "u32 \<Rightarrow> mvm_rx_status \<Rightarrow> mvm_rx_status" where
  "rx_fill_rate rate_n_flags s =
     (let stbc = ucast (get_bits rate_n_flags RATE_MCS_STBC_MSK) :: u8;
          format = rate_n_flags AND RATE_MCS_MOD_TYPE_MSK
      in if format = RATE_MCS_HT_MSK then
           s\<lparr>ms_encoding := RX_ENC_HT, ms_rate_idx := ucast (RATE_HT_MCS_INDEX rate_n_flags),
             ms_enc_flags := ms_enc_flags s OR push_bit RX_ENC_FLAG_STBC_SHIFT stbc\<rparr>
         else if format \<in> {RATE_MCS_VHT_MSK, RATE_MCS_HE_MSK, RATE_MCS_EHT_MSK} then
           s\<lparr>ms_nss := ucast (get_bits rate_n_flags RATE_MCS_NSS_MSK + 1),
             ms_rate_idx := ucast (rate_n_flags AND RATE_MCS_CODE_MSK),
             ms_enc_flags := ms_enc_flags s OR push_bit RX_ENC_FLAG_STBC_SHIFT stbc\<rparr>
         else
           (let rate = iwl_mvm_legacy_hw_idx_to_mac80211_idx rate_n_flags (ms_band s)
            in s\<lparr>ms_rate_idx := (if rate < 0 \<or> 0xFF < rate then 0 else word_of_int rate)\<rparr>))"

section \<open>The whole report\<close>

text \<open>The bytes of the HE fields and of the EHT fields, in the order in which they are put.\<close>

definition he_part :: "radiotap_he \<Rightarrow> radiotap_he_mu option \<Rightarrow> u8 list" where
  "he_part he mu = he_bytes he @ (case mu of None \<Rightarrow> [] | Some m \<Rightarrow> he_mu_bytes m)"

definition eht_part :: "radiotap_eht \<Rightarrow> radiotap_eht_usig \<Rightarrow> u8 list" where
  "eht_part e us = iwl_mvm_radiotap_put_tlv IEEE80211_RADIOTAP_EHT (eht_bytes e) @
     iwl_mvm_radiotap_put_tlv IEEE80211_RADIOTAP_EHT_USIG (usig_bytes us)"

text \<open>
  The result: the bytes put into the socket buffer, the PHY data with the kind of the report, and the
  status. \<open>cur_aid\<close> and \<open>monitor_p80\<close> are settings of the monitor interface.
\<close>

definition iwl_mvm_rx_fill_status ::
  "rx_device \<Rightarrow> u16 \<Rightarrow> u8 \<Rightarrow> nat \<Rightarrow> iwl_mvm_rx_phy_data \<Rightarrow> mvm_rx_status
   \<Rightarrow> (u8 list \<times> iwl_mvm_rx_phy_data \<times> mvm_rx_status) option"
where
  "iwl_mvm_rx_fill_status dev cur_aid monitor_p80 queue pd s =
     (let rate_n_flags = pd_rate_n_flags pd;
          format = rate_n_flags AND RATE_MCS_MOD_TYPE_MSK;
          pd = pd\<lparr>pd_info_type := (if tst (pd_phy_info pd) IWL_RX_MPDU_PHY_TSF_OVERLOAD
                 then get_bits (pd_d1 pd) IWL_RX_PHY_DATA1_INFO_TYPE_MASK else IWL_RX_PHY_INFO_TYPE_NONE)\<rparr>;
          s = rx_fill_bw rate_n_flags s
      in map_option
           (\<lambda>(he, s).
             let (lsig, s) = iwl_mvm_decode_lsig pd s;
                 s = s\<lparr>ms_device_timestamp := pd_gp2_on_air_rise pd,
                       ms_freq := ieee80211_channel_to_frequency (uint (pd_channel pd)) (ms_band s)\<rparr>;
                 s = iwl_mvm_get_signal_strength rate_n_flags (pd_energy_a pd) (pd_energy_b pd) s;
                 (eht, s) = (if format = RATE_MCS_EHT_MSK
                   then (case iwl_mvm_rx_eht queue monitor_p80 pd s of (e, us, s) \<Rightarrow> (eht_part e us, s)) else ([], s));
                 (sniffer, s) = (if monitor_on dev then iwl_mvm_add_rtap_sniffer_config cur_aid s else ([], s))
             in (he @ (case lsig of None \<Rightarrow> [] | Some l \<Rightarrow> lsig_bytes l) @ eht @ sniffer, pd,
                 rx_fill_rate rate_n_flags (rx_fill_encoding rate_n_flags s)))
           (if format = RATE_MCS_HE_MSK
            then map_option (\<lambda>(he, mu, s). (he_part he mu, s)) (iwl_mvm_rx_he queue pd s) else Some ([], s)))"

text \<open>The rate word in the layout of the second version, as \<open>iwl_mvm_rx_mpdu_mq\<close> converts it.\<close>

definition mpdu_rate :: "nat \<Rightarrow> u32 \<Rightarrow> u32" where
  "mpdu_rate notif_ver rate = (if notif_ver < 4 then iwl_new_rate_from_v1 rate else rate)"

section \<open>The meaning of a rate\<close>

text \<open>The report that the documented properties of a rate call for.\<close>

definition rate_view_of :: "nat \<Rightarrow> u32 \<Rightarrow> rate_view" where
  "rate_view_of notif_ver rate = (if notif_ver < 4 then rate_view_v1 rate else rate_view_v2 rate)"

definition view_encoding :: "rate_fmt \<Rightarrow> rx_encoding" where
  "view_encoding f = (case f of Fmt_HT \<Rightarrow> RX_ENC_HT | Fmt_VHT \<Rightarrow> RX_ENC_VHT | Fmt_HE \<Rightarrow> RX_ENC_HE
     | Fmt_EHT \<Rightarrow> RX_ENC_EHT | _ \<Rightarrow> RX_ENC_LEGACY)"

definition width_bw :: "u32 \<Rightarrow> rate_info_bw" where
  "width_bw w = [RATE_INFO_BW_20, RATE_INFO_BW_40, RATE_INFO_BW_80, RATE_INFO_BW_160, RATE_INFO_BW_320] ! unat w"

definition view_bw :: "rate_view \<Rightarrow> rate_info_bw" where
  "view_bw v = (case rv_he v of
     Some h \<Rightarrow> if hv_type h = 1 \<and> hv_106t h then RATE_INFO_BW_HE_RU else width_bw (rv_width v)
   | None \<Rightarrow> width_bw (rv_width v))"

text \<open>A legacy rate is numbered from the slowest of the band: four CCK rates come first on 2.4 GHz.\<close>

definition view_rate_idx :: "nl80211_band \<Rightarrow> rate_view \<Rightarrow> u8" where
  "view_rate_idx band v =
     (case rv_fmt v of
        Fmt_HT \<Rightarrow> ucast (8 * rv_nss v + rv_mcs v)
      | Fmt_CCK \<Rightarrow> if band = NL80211_BAND_2GHZ then ucast (rv_mcs v) else 0
      | Fmt_OFDM \<Rightarrow> ucast (rv_mcs v) + (if band = NL80211_BAND_2GHZ then 4 else 0)
      | _ \<Rightarrow> ucast (rv_mcs v))"

definition reports_rate :: "rate_view \<Rightarrow> mvm_rx_status \<Rightarrow> bool" where
  "reports_rate v s \<longleftrightarrow>
     ms_encoding s = view_encoding (rv_fmt v) \<and> ms_bw s = view_bw v \<and> ms_rate_idx s = view_rate_idx (ms_band s) v \<and>
     (rv_fmt v \<in> {Fmt_VHT, Fmt_HE, Fmt_EHT} \<longrightarrow> ms_nss s = ucast (rv_nss v) + 1) \<and>
     (tst (ms_enc_flags s) RX_ENC_FLAG_SHORT_GI \<longleftrightarrow> rv_fmt v \<noteq> Fmt_CCK \<and> rv_sgi v) \<and>
     (tst (ms_enc_flags s) RX_ENC_FLAG_LDPC \<longleftrightarrow> rv_ldpc v) \<and>
     (tst (ms_enc_flags s) (push_bit RX_ENC_FLAG_STBC_SHIFT 1) \<longleftrightarrow> rv_fmt v \<notin> {Fmt_CCK, Fmt_OFDM} \<and> rv_stbc v) \<and>
     ms_chains s = ucast (rv_ant v) \<and>
     (case rv_he v of None \<Rightarrow> True
      | Some h \<Rightarrow> (\<exists>ltf. (hv_type h, hv_gi_ltf h, ms_he_gi s, ltf) \<in> set he_gi_ltf_table) \<and> (ms_he_dcm s \<longleftrightarrow> hv_dcm h))"

text \<open>A status before the report, and the rate words with a documented meaning.\<close>

definition blank_status :: "mvm_rx_status \<Rightarrow> bool" where
  "blank_status s \<longleftrightarrow> ms_enc_flags s AND NOT RX_ENC_FLAG_SHORTPRE = 0 \<and> ms_encoding s = RX_ENC_LEGACY \<and>
     ms_bw s = RATE_INFO_BW_20"

definition rate_documented :: "rate_view \<Rightarrow> bool" where
  "rate_documented v \<longleftrightarrow> rv_fmt v \<noteq> Fmt_Unknown \<and> rv_width v \<le> 4 \<and>
     (case rv_he v of None \<Rightarrow> True
      | Some h \<Rightarrow> list_ex (\<lambda>(t, g, _). t = hv_type h \<and> g = hv_gi_ltf h) he_gi_ltf_table)"

section \<open>Fields of the rate word\<close>

lemma format_is:
  "w AND RATE_MCS_MOD_TYPE_MSK = RATE_MCS_CCK_MSK \<longleftrightarrow> rate_fmt_v2 w = Fmt_CCK"
  "w AND RATE_MCS_MOD_TYPE_MSK = RATE_MCS_LEGACY_OFDM_MSK \<longleftrightarrow> rate_fmt_v2 w = Fmt_OFDM"
  "w AND RATE_MCS_MOD_TYPE_MSK = RATE_MCS_HT_MSK \<longleftrightarrow> rate_fmt_v2 w = Fmt_HT"
  "w AND RATE_MCS_MOD_TYPE_MSK = RATE_MCS_VHT_MSK \<longleftrightarrow> rate_fmt_v2 w = Fmt_VHT"
  "w AND RATE_MCS_MOD_TYPE_MSK = RATE_MCS_HE_MSK \<longleftrightarrow> rate_fmt_v2 w = Fmt_HE"
  "w AND RATE_MCS_MOD_TYPE_MSK = RATE_MCS_EHT_MSK \<longleftrightarrow> rate_fmt_v2 w = Fmt_EHT"
  by (auto simp: rate_fmt_v2_bits rate_consts u32_blast)

lemma width_is:
  "w AND RATE_MCS_CHAN_WIDTH_MSK = RATE_MCS_CHAN_WIDTH_20 \<longleftrightarrow> take_bit 3 (drop_bit 11 w) = 0"
  "w AND RATE_MCS_CHAN_WIDTH_MSK = RATE_MCS_CHAN_WIDTH_40 \<longleftrightarrow> take_bit 3 (drop_bit 11 w) = 1"
  "w AND RATE_MCS_CHAN_WIDTH_MSK = RATE_MCS_CHAN_WIDTH_80 \<longleftrightarrow> take_bit 3 (drop_bit 11 w) = 2"
  "w AND RATE_MCS_CHAN_WIDTH_MSK = RATE_MCS_CHAN_WIDTH_160 \<longleftrightarrow> take_bit 3 (drop_bit 11 w) = 3"
  "w AND RATE_MCS_CHAN_WIDTH_MSK = RATE_MCS_CHAN_WIDTH_320 \<longleftrightarrow> take_bit 3 (drop_bit 11 w) = 4"
  by (auto simp: rate_consts u32_blast)

lemma field_is:
  "get_bits w RATE_MCS_NSS_MSK = take_bit 1 (drop_bit 4 w)"
  "w AND RATE_MCS_CODE_MSK = take_bit 4 w"
  "w AND RATE_LEGACY_RATE_MSK = take_bit 3 w"
  "RATE_HT_MCS_INDEX w = 8 * take_bit 1 (drop_bit 4 w) + take_bit 3 w"
  "get_bits w RATE_MCS_STBC_MSK = (if bit w 17 then 1 else 0)"
  "drop_bit RATE_MCS_ANT_POS (w AND RATE_MCS_ANT_AB_MSK) = take_bit 2 (drop_bit 14 w)"
proof -
  let ?n = "take_bit 1 (drop_bit 4 w)"
  have "8 * ?n + take_bit 3 w = push_bit 3 ?n + take_bit 3 w" by (simp add: push_bit_eq_mult mult.commute)
  also have "\<dots> = push_bit 3 ?n OR take_bit 3 w" by (rule disjunctive_add) (auto simp: bit_simps)
  also have "\<dots> = RATE_HT_MCS_INDEX w" by (auto simp: RATE_HT_MCS_INDEX_def rate_consts u32_blast even_drop_bit_iff_not_bit)
  finally show "RATE_HT_MCS_INDEX w = 8 * ?n + take_bit 3 w" by (rule sym)
qed (auto simp: get_bits_def eht_eval rate_consts u32_blast even_drop_bit_iff_not_bit)

text \<open>The bandwidth and the guard interval.\<close>

lemma small_u32: "x \<le> 4 \<Longrightarrow> x = 0 \<or> x = 1 \<or> x = 2 \<or> x = 3 \<or> x = (4 :: u32)"
  by (auto simp: word_le_nat_alt word_unat_eq_iff)

lemma fill_bw_view:
  assumes "take_bit 3 (drop_bit 11 w) \<le> 4" "ms_bw s = RATE_INFO_BW_20"
  shows "rx_fill_bw w s = s\<lparr>ms_bw := width_bw (take_bit 3 (drop_bit 11 w))\<rparr>"
  using small_u32 [OF assms(1)] assms(2) unfolding rx_fill_bw_def Let_def width_is by (elim disjE) (simp_all add: width_bw_def)

lemma he_rate_status_view:
  assumes "rate_fmt_v2 w = Fmt_HE" "rate_documented (rate_view_v2 w)" "ms_bw s = width_bw (take_bit 3 (drop_bit 11 w))"
  shows "ms_bw (he_rate_status w s) = view_bw (rate_view_v2 w)"
    "\<exists>ltf. (take_bit 2 (drop_bit 23 w), take_bit 3 (drop_bit 20 w), ms_he_gi (he_rate_status w s), ltf) \<in> set he_gi_ltf_table"
proof -
  have "tst w RATE_MCS_HE_106T_MSK \<longleftrightarrow> bit w 26" using tst_push_bit_1 [of 26 w] by (simp add: rate_consts)
  then show "ms_bw (he_rate_status w s) = view_bw (rate_view_v2 w)"
    using assms(1,3) unfolding he_rate_status_def Let_def he_type_field by (simp add: view_bw_def rate_view_v2_def)
  obtain gi ltf where "(take_bit 2 (drop_bit 23 w), take_bit 3 (drop_bit 20 w), gi, ltf) \<in> set he_gi_ltf_table"
    using assms(1,2) by (auto simp: rate_documented_def rate_view_v2_def list_ex_iff split_beta)
  moreover from this have "ms_he_gi (he_rate_status w s) = gi"
    by (simp add: he_rate_status_def Let_def he_gi_ltf_switch_table)
  ultimately show "\<exists>ltf. (take_bit 2 (drop_bit 23 w), take_bit 3 (drop_bit 20 w), ms_he_gi (he_rate_status w s), ltf) \<in> set he_gi_ltf_table"
    by auto
qed

text \<open>Encoding, flags and index.\<close>

lemma enc_flag_bits:
  "blank_status s \<Longrightarrow> \<not> bit (ms_enc_flags s) 2 \<and> \<not> bit (ms_enc_flags s) 6 \<and> \<not> bit (ms_enc_flags s) 4"
proof -
  assume "blank_status s"
  then have "\<not> bit (ms_enc_flags s AND NOT RX_ENC_FLAG_SHORTPRE) n" for n by (simp add: blank_status_def)
  from this [of 2] this [of 6] this [of 4] show ?thesis
    by (simp add: bit_and_iff bit_not_iff RX_ENC_FLAG_SHORTPRE_def)
qed

lemma enc_tests:
  "tst f RX_ENC_FLAG_SHORT_GI \<longleftrightarrow> bit f 2" "tst f RX_ENC_FLAG_LDPC \<longleftrightarrow> bit f 6" "tst f (push_bit RX_ENC_FLAG_STBC_SHIFT 1) \<longleftrightarrow> bit f 4"
  using tst_push_bit_1 [of 2 f] tst_push_bit_1 [of 6 f] tst_push_bit_1 [of 4 f]
  by (simp_all add: RX_ENC_FLAG_SHORT_GI_def RX_ENC_FLAG_LDPC_def RX_ENC_FLAG_STBC_SHIFT_def)

lemmas fill_rate_unfold = rx_fill_rate_def Let_def insert_iff empty_iff format_is field_is

lemmas fill_encoding_unfold = rx_fill_encoding_def Let_def format_is tst_rate_bits iwl_he_is_sgi_never

lemma fill_encoding_others [simp]:
  "ms_bw (rx_fill_encoding w s) = ms_bw s" "ms_he_gi (rx_fill_encoding w s) = ms_he_gi s"
  "ms_band (rx_fill_encoding w s) = ms_band s" "ms_chains (rx_fill_encoding w s) = ms_chains s"
  "ms_flag (rx_fill_encoding w s) = ms_flag s"
  unfolding fill_encoding_unfold by simp_all

lemma fill_encoding_effect:
  "rate_fmt_v2 w \<noteq> Fmt_Unknown \<Longrightarrow> rate_fmt_v2 w \<noteq> Fmt_HT \<Longrightarrow> ms_encoding s = RX_ENC_LEGACY \<Longrightarrow>
   ms_encoding (rx_fill_encoding w s) = view_encoding (rate_fmt_v2 w)"
  "rate_fmt_v2 w = Fmt_HE \<Longrightarrow> ms_he_dcm (rx_fill_encoding w s) = bit w 18"
  "ms_enc_flags (rx_fill_encoding w s) = ms_enc_flags s OR
     (if rate_fmt_v2 w \<noteq> Fmt_CCK \<and> rate_fmt_v2 w \<noteq> Fmt_HE \<and> bit w 20 then RX_ENC_FLAG_SHORT_GI else 0) OR
     (if bit w 16 then RX_ENC_FLAG_LDPC else 0)"
  unfolding fill_encoding_unfold by (cases "rate_fmt_v2 w"; simp add: view_encoding_def or.assoc)+

lemma fill_rate_others [simp]:
  "ms_bw (rx_fill_rate w s) = ms_bw s" "ms_he_gi (rx_fill_rate w s) = ms_he_gi s"
  "ms_he_dcm (rx_fill_rate w s) = ms_he_dcm s" "ms_band (rx_fill_rate w s) = ms_band s"
  "ms_chains (rx_fill_rate w s) = ms_chains s" "ms_flag (rx_fill_rate w s) = ms_flag s"
  unfolding fill_rate_unfold by simp_all

lemma fill_rate_effect:
  "ms_encoding (rx_fill_rate w s) = (if rate_fmt_v2 w = Fmt_HT then RX_ENC_HT else ms_encoding s)"
  "rate_fmt_v2 w \<in> {Fmt_VHT, Fmt_HE, Fmt_EHT} \<Longrightarrow> ms_nss (rx_fill_rate w s) = ucast (take_bit 1 (drop_bit 4 w) + 1)"
  "ms_enc_flags (rx_fill_rate w s) = ms_enc_flags s OR
     (if rate_fmt_v2 w \<in> {Fmt_HT, Fmt_VHT, Fmt_HE, Fmt_EHT} \<and> bit w 17 then push_bit RX_ENC_FLAG_STBC_SHIFT 1 else 0)"
  unfolding fill_rate_unfold by (cases "rate_fmt_v2 w"; simp)+

lemma fill_rate_idx_ht:
  "rate_fmt_v2 w = Fmt_HT \<Longrightarrow> ms_rate_idx (rx_fill_rate w s) = view_rate_idx (ms_band s) (rate_view_v2 w)"
  unfolding fill_rate_unfold by (simp add: view_rate_idx_def rate_view_v2_def Let_def)

lemma fill_rate_idx_vht:
  "rate_fmt_v2 w \<in> {Fmt_VHT, Fmt_HE, Fmt_EHT} \<Longrightarrow>
   ms_rate_idx (rx_fill_rate w s) = view_rate_idx (ms_band s) (rate_view_v2 w)"
  unfolding fill_rate_unfold by (auto simp: view_rate_idx_def rate_view_v2_def Let_def)

lemma fill_rate_idx_legacy:
  assumes "rate_fmt_v2 w = Fmt_CCK \<or> rate_fmt_v2 w = Fmt_OFDM"
  shows "ms_rate_idx (rx_fill_rate w s) = view_rate_idx (ms_band s) (rate_view_v2 w)"
proof -
  let ?m = "take_bit 3 w"
  have b: "unat ?m < 8" using take_bit_nat_less_exp [of 3 "unat w"] by (simp add: unsigned_take_bit_eq)
  have u: "(ucast ?m :: u8) = word_of_int (int (unat ?m))" by simp
  have idx: "iwl_mvm_legacy_hw_idx_to_mac80211_idx w (ms_band s) =
      (if rate_fmt_v2 w = Fmt_OFDM then (if ms_band s = NL80211_BAND_2GHZ then int (unat ?m) + 4 else int (unat ?m))
       else if ms_band s = NL80211_BAND_2GHZ then int (unat ?m) else - 1)"
    unfolding iwl_mvm_legacy_hw_idx_to_mac80211_idx_def Let_def format_is field_is IWL_FIRST_OFDM_RATE_def by simp
  have r: "ms_rate_idx (rx_fill_rate w s) =
      (let rate = iwl_mvm_legacy_hw_idx_to_mac80211_idx w (ms_band s) in if rate < 0 \<or> 0xFF < rate then 0 else word_of_int rate)"
    using assms unfolding fill_rate_unfold by auto
  have v: "view_rate_idx (ms_band s) (rate_view_v2 w) =
      (if rate_fmt_v2 w = Fmt_CCK then (if ms_band s = NL80211_BAND_2GHZ then ucast ?m else 0)
       else ucast ?m + (if ms_band s = NL80211_BAND_2GHZ then 4 else 0))"
    using assms by (auto simp: view_rate_idx_def rate_view_v2_def Let_def)
  define n where "n = unat ?m"
  show ?thesis using b assms unfolding r idx v u Let_def n_def [symmetric] by (auto simp del: of_int_of_nat_eq)
qed

lemmas fill_rate_idx = fill_rate_idx_ht fill_rate_idx_vht fill_rate_idx_legacy

section \<open>The report is the meaning of the rate word\<close>

lemma view_v2_fields:
  "rv_fmt (rate_view_v2 w) = rate_fmt_v2 w" "rv_width (rate_view_v2 w) = take_bit 3 (drop_bit 11 w)"
  "rv_ant (rate_view_v2 w) = take_bit 2 (drop_bit 14 w)" "rv_ldpc (rate_view_v2 w) = bit w 16"
  "rv_stbc (rate_view_v2 w) = bit w 17" "rv_sgi (rate_view_v2 w) = (rate_fmt_v2 w \<noteq> Fmt_HE \<and> bit w 20)"
  "rate_fmt_v2 w \<in> {Fmt_VHT, Fmt_HE, Fmt_EHT} \<Longrightarrow> rv_nss (rate_view_v2 w) = take_bit 1 (drop_bit 4 w)"
  "rv_he (rate_view_v2 w) = (if rate_fmt_v2 w = Fmt_HE
     then Some \<lparr>hv_type = take_bit 2 (drop_bit 23 w), hv_gi_ltf = take_bit 3 (drop_bit 20 w),
                hv_106t = bit w 26, hv_dcm = bit w 18\<rparr> else None)"
  by (auto simp: rate_view_v2_def Let_def)

lemma nss_plus_one: "(ucast (x + 1) :: u8) = ucast x + 1" for x :: u32
proof -
  have c: "y mod 4294967296 mod 256 = y mod 256" for y :: int by (rule mod_mod_cancel) simp
  then have d: "(y mod 4294967296 + 1) mod 256 = (y + 1) mod 256" for y :: int by (metis mod_add_left_eq)
  show ?thesis by transfer (simp add: take_bit_eq_mod mod_simps c d)
qed

lemma report_core:
  assumes d: "rate_documented (rate_view_v2 w)"
    and bw: "ms_bw s = view_bw (rate_view_v2 w)" and enc: "ms_encoding s = RX_ENC_LEGACY"
    and fl: "ms_enc_flags s AND NOT RX_ENC_FLAG_SHORTPRE = 0" and ch: "ms_chains s = ucast (take_bit 2 (drop_bit 14 w))"
    and gi: "rate_fmt_v2 w = Fmt_HE \<Longrightarrow>
      \<exists>ltf. (take_bit 2 (drop_bit 23 w), take_bit 3 (drop_bit 20 w), ms_he_gi s, ltf) \<in> set he_gi_ltf_table"
  shows "reports_rate (rate_view_v2 w) (rx_fill_rate w (rx_fill_encoding w s))"
proof -
  let ?s = "rx_fill_rate w (rx_fill_encoding w s)"
  have f: "rate_fmt_v2 w \<noteq> Fmt_Unknown" using d by (simp add: rate_documented_def view_v2_fields)
  have bits: "\<not> bit (ms_enc_flags s) 2 \<and> \<not> bit (ms_enc_flags s) 6 \<and> \<not> bit (ms_enc_flags s) 4"
    using enc_flag_bits [of "s\<lparr>ms_bw := RATE_INFO_BW_20\<rparr>"] enc fl by (simp add: blank_status_def)
  have idx: "ms_rate_idx ?s = view_rate_idx (ms_band s) (rate_view_v2 w)"
    using f fill_rate_idx [of w "rx_fill_encoding w s"] by (cases "rate_fmt_v2 w") simp_all
  have encoding: "ms_encoding ?s = view_encoding (rate_fmt_v2 w)"
    using f fill_encoding_effect(1) [OF f _ enc] by (simp add: fill_rate_effect(1) view_encoding_def)
  have flags: "bit (ms_enc_flags ?s) 2 = (rate_fmt_v2 w \<noteq> Fmt_CCK \<and> rate_fmt_v2 w \<noteq> Fmt_HE \<and> bit w 20)"
    "bit (ms_enc_flags ?s) 6 = bit w 16" "bit (ms_enc_flags ?s) 4 = (rate_fmt_v2 w \<notin> {Fmt_CCK, Fmt_OFDM} \<and> bit w 17)"
    using bits f by (cases "rate_fmt_v2 w"; simp add: fill_rate_effect(3) fill_encoding_effect(3) bit_or_iff RX_ENC_FLAG_SHORT_GI_def
        RX_ENC_FLAG_LDPC_def RX_ENC_FLAG_STBC_SHIFT_def)+
  show ?thesis
    unfolding reports_rate_def enc_tests view_v2_fields
    using bw idx encoding flags ch gi
    by (auto simp: view_v2_fields fill_rate_effect(2) fill_encoding_effect(2) nss_plus_one)
qed

text \<open>What the parts of the report between bandwidth and encoding leave alone.\<close>

lemma signal_fields [simp]:
  "ms_bw (iwl_mvm_get_signal_strength w ea eb s) = ms_bw s" "ms_encoding (iwl_mvm_get_signal_strength w ea eb s) = ms_encoding s"
  "ms_enc_flags (iwl_mvm_get_signal_strength w ea eb s) = ms_enc_flags s" "ms_he_gi (iwl_mvm_get_signal_strength w ea eb s) = ms_he_gi s"
  "ms_band (iwl_mvm_get_signal_strength w ea eb s) = ms_band s" "ms_flag (iwl_mvm_get_signal_strength w ea eb s) = ms_flag s"
  "ms_chains (iwl_mvm_get_signal_strength w ea eb s) = ucast (take_bit 2 (drop_bit 14 w))"
  unfolding iwl_mvm_get_signal_strength_def Let_def field_is by simp_all

lemma lsig_fields [simp]:
  "ms_bw (snd (iwl_mvm_decode_lsig pd s)) = ms_bw s" "ms_encoding (snd (iwl_mvm_decode_lsig pd s)) = ms_encoding s"
  "ms_enc_flags (snd (iwl_mvm_decode_lsig pd s)) = ms_enc_flags s" "ms_he_gi (snd (iwl_mvm_decode_lsig pd s)) = ms_he_gi s"
  "ms_band (snd (iwl_mvm_decode_lsig pd s)) = ms_band s"
  by (simp_all add: iwl_mvm_decode_lsig_def)

lemma sniffer_fields [simp]:
  "ms_bw (snd (iwl_mvm_add_rtap_sniffer_config a s)) = ms_bw s" "ms_encoding (snd (iwl_mvm_add_rtap_sniffer_config a s)) = ms_encoding s"
  "ms_enc_flags (snd (iwl_mvm_add_rtap_sniffer_config a s)) = ms_enc_flags s" "ms_he_gi (snd (iwl_mvm_add_rtap_sniffer_config a s)) = ms_he_gi s"
  "ms_band (snd (iwl_mvm_add_rtap_sniffer_config a s)) = ms_band s" "ms_chains (snd (iwl_mvm_add_rtap_sniffer_config a s)) = ms_chains s"
  by (simp_all add: iwl_mvm_add_rtap_sniffer_config_def)

lemma eht_rate_status:
  "snd (snd (eht_rate_fields w r)) =
     (case eht_gi_ltf_switch w of None \<Rightarrow> snd (snd r) | Some (gi, ltf) \<Rightarrow> (snd (snd r))\<lparr>ms_eht_gi := gi\<rparr>)"
  by (cases r) (simp add: eht_rate_fields_def split: option.splits)

lemma rx_eht_fields:
  "ms_encoding (snd (snd (iwl_mvm_rx_eht queue p80 pd s))) = ms_encoding s"
  "ms_enc_flags (snd (snd (iwl_mvm_rx_eht queue p80 pd s))) = ms_enc_flags s"
  "ms_band (snd (snd (iwl_mvm_rx_eht queue p80 pd s))) = ms_band s"
  "ms_chains (snd (snd (iwl_mvm_rx_eht queue p80 pd s))) = ms_chains s"
  "\<not> tst (pd_phy_info pd) IWL_RX_MPDU_PHY_TSF_OVERLOAD \<Longrightarrow> ms_bw (snd (snd (iwl_mvm_rx_eht queue p80 pd s))) = ms_bw s"
  by (simp_all add: iwl_mvm_rx_eht_def Let_def eht_rate_status iwl_mvm_decode_eht_phy_data_def iwl_mvm_decode_eht_ru_def
      split: option.splits prod.splits)

text \<open>The report as a composition, with the kind of the PHY report read from its second word.\<close>

definition with_info_type :: "iwl_mvm_rx_phy_data \<Rightarrow> iwl_mvm_rx_phy_data" where
  "with_info_type pd = pd\<lparr>pd_info_type := (if tst (pd_phy_info pd) IWL_RX_MPDU_PHY_TSF_OVERLOAD
     then get_bits (pd_d1 pd) IWL_RX_PHY_DATA1_INFO_TYPE_MASK else IWL_RX_PHY_INFO_TYPE_NONE)\<rparr>"

lemma with_info_type_fields [simp]:
  "pd_rate_n_flags (with_info_type pd) = pd_rate_n_flags pd" "pd_phy_info (with_info_type pd) = pd_phy_info pd"
  "pd_with_data (with_info_type pd) = pd_with_data pd" "pd_channel (with_info_type pd) = pd_channel pd"
  by (simp_all add: with_info_type_def)

lemma he_phy_status_fields [simp]:
  "ms_encoding (he_phy_status queue pd s) = ms_encoding s" "ms_enc_flags (he_phy_status queue pd s) = ms_enc_flags s"
  "ms_band (he_phy_status queue pd s) = ms_band s"
  by (simp_all add: he_phy_status_def he_rate_status_def ru_alloc_status_def Let_def split: option.splits prod.splits)

text \<open>The status after the HE fields, after the signal, after the EHT fields, and before the rate.\<close>

definition status_he :: "nat \<Rightarrow> iwl_mvm_rx_phy_data \<Rightarrow> mvm_rx_status \<Rightarrow> mvm_rx_status" where
  "status_he queue pd s = (if rate_fmt_v2 (pd_rate_n_flags pd) = Fmt_HE
     then he_phy_status queue pd (rx_fill_bw (pd_rate_n_flags pd) s) else rx_fill_bw (pd_rate_n_flags pd) s)"

definition status_signal :: "nat \<Rightarrow> iwl_mvm_rx_phy_data \<Rightarrow> mvm_rx_status \<Rightarrow> mvm_rx_status" where
  "status_signal queue pd s =
     (let s2 = snd (iwl_mvm_decode_lsig pd (status_he queue pd s))
      in iwl_mvm_get_signal_strength (pd_rate_n_flags pd) (pd_energy_a pd) (pd_energy_b pd)
           (s2\<lparr>ms_device_timestamp := pd_gp2_on_air_rise pd,
              ms_freq := ieee80211_channel_to_frequency (uint (pd_channel pd)) (ms_band s2)\<rparr>))"

definition status_eht :: "nat \<Rightarrow> u8 \<Rightarrow> iwl_mvm_rx_phy_data \<Rightarrow> mvm_rx_status \<Rightarrow> mvm_rx_status" where
  "status_eht queue p80 pd s = (if rate_fmt_v2 (pd_rate_n_flags pd) = Fmt_EHT
     then snd (snd (iwl_mvm_rx_eht queue p80 pd (status_signal queue pd s))) else status_signal queue pd s)"

definition status_parts :: "rx_device \<Rightarrow> u16 \<Rightarrow> u8 \<Rightarrow> nat \<Rightarrow> iwl_mvm_rx_phy_data \<Rightarrow> mvm_rx_status \<Rightarrow> mvm_rx_status" where
  "status_parts dev cur_aid p80 queue pd s = (if monitor_on dev
     then snd (iwl_mvm_add_rtap_sniffer_config cur_aid (status_eht queue p80 pd s)) else status_eht queue p80 pd s)"

lemma fill_status_composition:
  assumes "iwl_mvm_rx_fill_status dev cur_aid p80 queue pd s = Some (bytes, pd', s')"
  shows "pd' = with_info_type pd"
    "s' = rx_fill_rate (pd_rate_n_flags pd) (rx_fill_encoding (pd_rate_n_flags pd) (status_parts dev cur_aid p80 queue pd' s))"
    "bytes = (if rate_fmt_v2 (pd_rate_n_flags pd) = Fmt_HE
        then he_part (he_rate_fields (pd_rate_n_flags pd) (he_phy_fields pd')) (he_mu_phy_fields pd') else []) @
      (case fst (iwl_mvm_decode_lsig pd' (status_he queue pd' s)) of None \<Rightarrow> [] | Some l \<Rightarrow> lsig_bytes l) @
      (if rate_fmt_v2 (pd_rate_n_flags pd) = Fmt_EHT
        then eht_part (fst (iwl_mvm_rx_eht queue p80 pd' (status_signal queue pd' s)))
          (fst (snd (iwl_mvm_rx_eht queue p80 pd' (status_signal queue pd' s)))) else []) @
      (if monitor_on dev then fst (iwl_mvm_add_rtap_sniffer_config cur_aid (status_eht queue p80 pd' s)) else [])"
  using assms unfolding status_parts_def status_eht_def status_signal_def status_he_def with_info_type_def
  by (auto simp: iwl_mvm_rx_fill_status_def rx_he_result format_is Let_def split_beta split: if_splits)

lemma fill_status_parts:
  assumes "iwl_mvm_rx_fill_status dev cur_aid p80 queue pd s = Some (bytes, pd', s')"
  obtains s1 s2 s3 s4 where "s' = rx_fill_rate (pd_rate_n_flags pd) (rx_fill_encoding (pd_rate_n_flags pd) s1)"
    "pd' = with_info_type pd" "ms_encoding s1 = ms_encoding (rx_fill_bw (pd_rate_n_flags pd) s)"
    "ms_enc_flags s1 = ms_enc_flags (rx_fill_bw (pd_rate_n_flags pd) s)"
    "ms_band s1 = ms_band (rx_fill_bw (pd_rate_n_flags pd) s)"
    "ms_chains s1 = ucast (take_bit 2 (drop_bit 14 (pd_rate_n_flags pd)))"
    "rate_fmt_v2 (pd_rate_n_flags pd) = Fmt_HE \<Longrightarrow>
       ms_bw s1 = ms_bw (he_phy_status queue pd' (rx_fill_bw (pd_rate_n_flags pd) s)) \<and>
       ms_he_gi s1 = ms_he_gi (he_phy_status queue pd' (rx_fill_bw (pd_rate_n_flags pd) s))"
    "rate_fmt_v2 (pd_rate_n_flags pd) \<noteq> Fmt_HE \<Longrightarrow> \<not> tst (pd_phy_info pd) IWL_RX_MPDU_PHY_TSF_OVERLOAD \<Longrightarrow>
       ms_bw s1 = ms_bw (rx_fill_bw (pd_rate_n_flags pd) s)"
    "bytes = (if rate_fmt_v2 (pd_rate_n_flags pd) = Fmt_HE
        then he_part (he_rate_fields (pd_rate_n_flags pd) (he_phy_fields pd')) (he_mu_phy_fields pd') else []) @
      (case fst (iwl_mvm_decode_lsig pd' s2) of None \<Rightarrow> [] | Some l \<Rightarrow> lsig_bytes l) @
      (if rate_fmt_v2 (pd_rate_n_flags pd) = Fmt_EHT
        then eht_part (fst (iwl_mvm_rx_eht queue p80 pd' s3)) (fst (snd (iwl_mvm_rx_eht queue p80 pd' s3))) else []) @
      (if monitor_on dev then fst (iwl_mvm_add_rtap_sniffer_config cur_aid s4) else [])"
proof -
  note c = fill_status_composition [OF assms]
  let ?w = "pd_rate_n_flags pd" and ?s3 = "status_signal queue pd' s"
  have "ms_encoding ?s3 = ms_encoding (rx_fill_bw ?w s)" "ms_enc_flags ?s3 = ms_enc_flags (rx_fill_bw ?w s)"
    "ms_band ?s3 = ms_band (rx_fill_bw ?w s)" "ms_chains ?s3 = ucast (take_bit 2 (drop_bit 14 ?w))"
    "ms_bw ?s3 = ms_bw (status_he queue pd' s)" "ms_he_gi ?s3 = ms_he_gi (status_he queue pd' s)"
    by (simp_all add: c(1) status_signal_def status_he_def Let_def)
  moreover have "rate_fmt_v2 ?w \<noteq> Fmt_EHT \<Longrightarrow> status_eht queue p80 pd' s = ?s3" by (simp add: c(1) status_eht_def)
  ultimately show thesis
    by (intro that [OF c(2,1) _ _ _ _ _ _ c(3)])
      (auto simp: c(1) status_parts_def status_eht_def status_he_def rx_eht_fields)
qed

lemma fill_status_returns:
  "\<exists>bytes s'. iwl_mvm_rx_fill_status dev cur_aid p80 queue pd s = Some (bytes, with_info_type pd, s')"
  by (simp add: iwl_mvm_rx_fill_status_def rx_he_result with_info_type_def Let_def split_beta)

lemma fill_bw_fields [simp]:
  "ms_encoding (rx_fill_bw w s) = ms_encoding s" "ms_enc_flags (rx_fill_bw w s) = ms_enc_flags s"
  "ms_band (rx_fill_bw w s) = ms_band s"
  by (simp_all add: rx_fill_bw_def Let_def)

lemma rate_view_of_v2: "(ver < 4 \<Longrightarrow> rate_v1_convertible r) \<Longrightarrow> rate_view_of ver r = rate_view_v2 (mpdu_rate ver r)"
  by (simp add: rate_view_of_def mpdu_rate_def new_rate_from_v1_view)

lemma fill_status_report:
  assumes "rate_documented (rate_view_of ver r)" "ver < 4 \<longrightarrow> rate_v1_convertible r" "blank_status s"
    and rate: "pd_rate_n_flags pd = mpdu_rate ver r" and np: "\<not> tst (pd_phy_info pd) IWL_RX_MPDU_PHY_TSF_OVERLOAD"
  shows "\<exists>bytes pd' s'. iwl_mvm_rx_fill_status dev cur_aid p80 queue pd s = Some (bytes, pd', s') \<and>
    ms_band s' = ms_band s \<and> reports_rate (rate_view_of ver r) s'"
proof -
  let ?w = "mpdu_rate ver r"
  have v: "rate_view_of ver r = rate_view_v2 ?w" using assms(2) by (simp add: rate_view_of_v2)
  have d: "rate_documented (rate_view_v2 ?w)" using assms(1) v by simp
  obtain bytes s' where r: "iwl_mvm_rx_fill_status dev cur_aid p80 queue pd s = Some (bytes, with_info_type pd, s')"
    using fill_status_returns by blast
  then obtain s1 where s1: "s' = rx_fill_rate ?w (rx_fill_encoding ?w s1)"
      "ms_encoding s1 = ms_encoding s" "ms_enc_flags s1 = ms_enc_flags s" "ms_band s1 = ms_band s"
      "ms_chains s1 = ucast (take_bit 2 (drop_bit 14 ?w))"
    and he: "rate_fmt_v2 ?w = Fmt_HE \<Longrightarrow>
       ms_bw s1 = ms_bw (he_phy_status queue (with_info_type pd) (rx_fill_bw ?w s)) \<and>
       ms_he_gi s1 = ms_he_gi (he_phy_status queue (with_info_type pd) (rx_fill_bw ?w s))"
    and nhe: "rate_fmt_v2 ?w \<noteq> Fmt_HE \<Longrightarrow> ms_bw s1 = ms_bw (rx_fill_bw ?w s)"
    using np by (elim fill_status_parts) (auto simp: rate)
  have bw: "rx_fill_bw ?w s = s\<lparr>ms_bw := width_bw (take_bit 3 (drop_bit 11 ?w))\<rparr>"
    using d assms(3) by (intro fill_bw_view) (simp_all add: rate_documented_def view_v2_fields blank_status_def)
  have hs: "\<exists>s2. he_phy_status queue (with_info_type pd) (rx_fill_bw ?w s) = he_rate_status ?w s2 \<and> ms_bw s2 = width_bw (take_bit 3 (drop_bit 11 ?w))"
    using np by (auto simp: he_phy_status_def Let_def bw rate)
  have "reports_rate (rate_view_v2 ?w) s'"
    unfolding s1(1)
  proof (rule report_core [OF d])
    show "ms_bw s1 = view_bw (rate_view_v2 ?w)"
      using he nhe bw hs he_rate_status_view(1) [OF _ d]
      by (cases "rate_fmt_v2 ?w = Fmt_HE") (auto simp: view_bw_def view_v2_fields)
    show "\<exists>ltf. (take_bit 2 (drop_bit 23 ?w), take_bit 3 (drop_bit 20 ?w), ms_he_gi s1, ltf) \<in> set he_gi_ltf_table"
      if f: "rate_fmt_v2 ?w = Fmt_HE"
      using he [OF f] hs he_rate_status_view(2) [OF f d] by auto
  qed (use s1 assms(3) in \<open>simp_all add: blank_status_def\<close>)
  then show ?thesis using r s1(1,4) v by auto
qed

section \<open>Properties\<close>



section \<open>The room in the socket buffer\<close>

lemma length_tlv: "length (iwl_mvm_radiotap_put_tlv t c) = 4 + length c + (4 - length c mod 4) mod 4"
  by (simp add: iwl_mvm_radiotap_put_tlv_def)

lemma length_he_bytes [simp]: "length (he_bytes he) = 12"
  by (simp add: he_bytes_def)

lemma length_lsig_bytes [simp]: "length (lsig_bytes l) = 4"
  by (simp add: lsig_bytes_def)

lemma length_usig_bytes [simp]: "length (usig_bytes u) = 12"
  by (simp add: usig_bytes_def)

lemma length_words: "length (concat (map (le_bytes 4) ws)) = 4 * length ws"
  by (induction ws) simp_all

lemma length_eht_bytes: "length (eht_data e) = 9 \<Longrightarrow> length (eht_bytes e) = 44"
  by (simp add: eht_bytes_def length_words)

lemma length_sniffer: "length (fst (iwl_mvm_add_rtap_sniffer_config a s)) = (if a = 0 then 0 else 16)"
  by (simp add: iwl_mvm_add_rtap_sniffer_config_def length_tlv)

lemma length_eht_or [simp]: "length (eht_data (eht_or i x e)) = length (eht_data e)"
  by (simp add: eht_or_def)

lemma length_eht_mu_ru [simp]: "length (eht_data (eht_mu_ru pd e)) = length (eht_data e)"
proof -
  have "length (eht_data (fold (\<lambda>(i, known, field, data, m). eht_ru_alloc i known field data m) rus e)) = length (eht_data e)" for rus
    by (induction rus arbitrary: e) (auto simp: eht_ru_alloc_def)
  then show ?thesis by (simp add: eht_mu_ru_def)
qed

lemma length_rx_eht: "length (eht_data (fst (iwl_mvm_rx_eht queue p80 pd s))) = 9"
proof -
  have r: "length (eht_data (fst (eht_rate_fields w r))) = length (eht_data (fst r))" for w r
    by (cases r) (simp add: eht_rate_fields_def Let_def split: option.splits prod.splits)
  have c: "length (eht_data (eht_common_fields pd p80 e)) = length (eht_data e)" for e
    by (simp add: eht_common_fields_def Let_def)
  have m: "length (eht_data (fst (iwl_mvm_decode_eht_ext_mu pd r))) = length (eht_data (fst r))" for r
    by (cases r) (simp add: iwl_mvm_decode_eht_ext_mu_def Let_def)
  have z: "length (eht_data eht_zero) = 9" by (simp add: eht_zero_def)
  show ?thesis
    by (simp add: iwl_mvm_rx_eht_def Let_def r iwl_mvm_decode_eht_phy_data_def c z split_beta m)
qed

lemma length_he_mu_fields:
  "length (mu_ru_ch1 mu) = 4 \<Longrightarrow> length (mu_ru_ch2 mu) = 4 \<Longrightarrow> length (he_mu_bytes mu) = 12"
  by (simp add: he_mu_bytes_def)

lemma length_he_part: "length (he_part (he_rate_fields w (he_phy_fields pd)) (he_mu_phy_fields pd)) \<le> 24"
proof -
  have k: "length (mu_ru_ch1 he_mu_known) = 4" "length (mu_ru_ch2 he_mu_known) = 4" by (simp_all add: he_mu_known_def)
  have f: "length (he_mu_bytes (ru_alloc_mu pd (he_mu_fields pd mu))) = length (he_mu_bytes mu)" for mu
    by (simp add: he_mu_bytes_def ru_alloc_mu_def he_mu_fields_def Let_def)
  have e: "length (he_mu_bytes (he_mu_ext_fields pd he_mu_known)) = 12"
    by (simp add: he_mu_bytes_def he_mu_ext_fields_def iwl_mvm_decode_he_mu_ext_def Let_def k)
  show ?thesis
    by (simp add: he_part_def he_mu_phy_fields_def f e length_he_mu_fields [OF k])
qed

text \<open>What the report takes in the socket buffer.\<close>

lemma fill_status_length:
  assumes "iwl_mvm_rx_fill_status dev cur_aid p80 queue pd s = Some (bytes, pd', s')"
  shows "length bytes \<le> 68 + (if monitor_on dev then 16 else 0)"
proof -
  have t: "length (eht_part (fst (iwl_mvm_rx_eht queue p80 pd2 s2)) u) = 64" for pd2 s2 u
    by (simp add: eht_part_def length_tlv length_eht_bytes [OF length_rx_eht])
  have l: "length (case x of None \<Rightarrow> [] | Some l \<Rightarrow> lsig_bytes l) \<le> 4" for x
    by (simp split: option.split)
  obtain s2 s3 s4 where b: "bytes = (if rate_fmt_v2 (pd_rate_n_flags pd) = Fmt_HE
        then he_part (he_rate_fields (pd_rate_n_flags pd) (he_phy_fields pd')) (he_mu_phy_fields pd') else []) @
      (case fst (iwl_mvm_decode_lsig pd' s2) of None \<Rightarrow> [] | Some l \<Rightarrow> lsig_bytes l) @
      (if rate_fmt_v2 (pd_rate_n_flags pd) = Fmt_EHT
        then eht_part (fst (iwl_mvm_rx_eht queue p80 pd' s3)) (fst (snd (iwl_mvm_rx_eht queue p80 pd' s3))) else []) @
      (if monitor_on dev then fst (iwl_mvm_add_rtap_sniffer_config cur_aid s4) else [])"
    using assms by (rule fill_status_parts)
  show ?thesis
    using length_he_part [of "pd_rate_n_flags pd" pd'] l [of "fst (iwl_mvm_decode_lsig pd' s2)"]
    by (simp add: b t length_sniffer)
qed

lemma hdrlen_bound: "ieee80211_hdrlen fc \<le> 36"
  by (simp add: ieee80211_hdrlen_def hdr_simps)

lemma report_and_head_bound:
  assumes fill: "iwl_mvm_rx_fill_status dev cur_aid p80 queue pd s = Some (bytes, pd', s')"
    and h: "h = ieee80211_hdrlen (frame_control (hdr_of_bytes frame)) + unat crypt_len"
    and pad: "pad = (if tst (mac_flags2 desc) IWL_RX_MPDU_MFLG2_PAD then 2 else 0)"
    and crypt: "crypt_len \<le> (8 :: u8)" "monitor_on dev \<longrightarrow> crypt_len = 0" and padded: "pad = 2 \<longrightarrow> h mod 4 \<noteq> 0"
  shows "pad + length bytes + h + 8 \<le> 128"
proof -
  have "unat crypt_len \<le> unat (8 :: u8)" using crypt(1) by (simp only: word_le_nat_alt)
  then have c: "unat crypt_len \<le> 8" by simp
  have h36: "h \<le> 36 + unat crypt_len" using hdrlen_bound h by simp
  show ?thesis
  proof (cases "monitor_on dev")
    case True
    then have "h \<le> 36" using crypt(2) h36 by simp
    moreover have "pad + h \<le> 36"
    proof (cases "pad = 2")
      case True
      then have "h \<noteq> 36 \<and> h \<noteq> 35" using padded h crypt(2) \<open>monitor_on dev\<close>
        by (auto simp: ieee80211_hdrlen_def hdr_simps split: if_splits)
      then show ?thesis using \<open>h \<le> 36\<close> True by simp
    next
      case False
      then show ?thesis using pad \<open>h \<le> 36\<close> by (auto split: if_splits)
    qed
    ultimately show ?thesis using fill_status_length [OF fill] True by simp
  next
    case False
    then show ?thesis using fill_status_length [OF fill] h36 c pad by (auto split: if_splits)
  qed
qed

text \<open>C38: The socket buffer of 128 bytes is large enough. Whatever radiotap fields the report puts into it, the header of
  the frame with the cipher header and the eight bytes behind it still fit, so no copy overruns the buffer or leaves the
  receive buffer (given that a monitor interface gets no decrypted frames and that the firmware pads only headers whose
  length is not a multiple of four).\<close>

theorem radiotap_and_head_fit:
  assumes fill: "iwl_mvm_rx_fill_status dev cur_aid p80 queue pd s = Some (bytes, pd', s')"
    and h: "h = ieee80211_hdrlen (frame_control (hdr_of_bytes frame)) + unat crypt_len"
    and pad: "pad = (if tst (mac_flags2 desc) IWL_RX_MPDU_MFLG2_PAD then 2 else 0)"
    and crypt: "crypt_len \<le> (8 :: u8)" "monitor_on dev \<longrightarrow> crypt_len = 0" and padded: "pad = 2 \<longrightarrow> h mod 4 \<noteq> 0"
    and len: "pad \<le> unat flen" "unat flen \<le> length frame"
  shows "pad + length bytes + h + 8 \<le> 128 \<and>
    (case iwl_mvm_create_skb dev csum_push (128 - (pad + length bytes)) frame flen crypt_len desc skb of
       None \<Rightarrow> False | Some None \<Rightarrow> True | Some (Some skb') \<Rightarrow> pad + length bytes + length (skb_head skb') \<le> 128)"
proof -
  have b: "pad + length bytes + h + 8 \<le> 128"
    using report_and_head_bound [OF fill h pad crypt padded] .
  define n where "n = unat (skb_len dev desc flen)"
  have "n + pad \<le> length frame"
    using unat_skb_len [of desc flen dev] len pad by (auto simp: n_def split: if_splits)
  moreover have "h + 8 \<le> 128 - (pad + length bytes)" using b by simp
  ultimately show ?thesis
    using create_skb_bytes [OF n_def h pad, of "128 - (pad + length bytes)" csum_push skb] b
    by (auto split: if_splits)
qed

theorem radiotap_and_head_fit_witness:
  "\<exists>bytes pd' s'. iwl_mvm_rx_fill_status (demo_rx_device\<lparr>monitor_on := True\<rparr>) 7 0 0 (demo_eht_data 11 True 0x00000d00) demo_status
      = Some (bytes, pd', s') \<and> length bytes + 26 + 8 \<le> 128"
proof -
  let ?dev = "demo_rx_device\<lparr>monitor_on := True\<rparr>" and ?f = "demo_rx_frame 0x00 16 1" and ?d = "demo_mpdu_desc 0 0"
  obtain bytes pd' s' where f: "iwl_mvm_rx_fill_status ?dev 7 0 0 (demo_eht_data 11 True 0x00000d00) demo_status = Some (bytes, pd', s')"
    using fill_status_returns by blast
  have h: "26 = ieee80211_hdrlen (frame_control (hdr_of_bytes ?f)) + unat (0 :: u8)"
    and pad: "0 = (if tst (mac_flags2 ?d) IWL_RX_MPDU_MFLG2_PAD then 2 else 0 :: nat)"
    and len: "length ?f = 38" by code_simp+
  show ?thesis
    using radiotap_and_head_fit [OF f h pad, of 38 "\<lambda>c _. c" "\<lparr>skb_head = [], skb_frag = None, skb_ip_summed = CHECKSUM_NONE, skb_csum = 0\<rparr>"] f
    by (auto simp: len)
qed

end
