(* ===== verification/Rx_Mpdu.thy ===== *)
theory Rx_Mpdu
  imports Rx_Status Reorder_Run
begin

text \<open>
  The receive path of a frame from the packet of the firmware to mac80211 (mvm/rxmq.c:
  \<open>iwl_mvm_rx_mpdu_mq\<close>, \<open>iwl_mvm_pass_packet_to_mac80211\<close>), which puts the checks, the report, the socket
  buffer and the reorder buffer together. The properties say what an accepted frame looks like, that
  every accepted frame goes exactly one way, and that no packet number comes twice out of the path.
\<close>

unbundle bit_operations_syntax

section \<open>The packet\<close>

definition IWL_RX_MPDU_STATUS_CRC_OK :: u32 where [hdr_simps]: "IWL_RX_MPDU_STATUS_CRC_OK = 0x1"
definition IWL_RX_MPDU_STATUS_OVERRUN_OK :: u32 where [hdr_simps]: "IWL_RX_MPDU_STATUS_OVERRUN_OK = 0x2"
definition IWL_RX_MPDU_STATUS_SRC_STA_FOUND :: u32 where [hdr_simps]: "IWL_RX_MPDU_STATUS_SRC_STA_FOUND = 0x4"
definition IWL_RX_MPDU_STATUS_STA_ID :: u32 where [hdr_simps]: "IWL_RX_MPDU_STATUS_STA_ID = 0x1f000000"
definition RX_MPDU_BAND_POS :: nat where "RX_MPDU_BAND_POS = 6"
definition RX_MPDU_BAND_MASK :: u8 where "RX_MPDU_BAND_MASK = 0xC0"
definition PHY_BAND_5 :: u8 where "PHY_BAND_5 = 0"
definition PHY_BAND_24 :: u8 where "PHY_BAND_24 = 1"
definition PHY_BAND_6 :: u8 where "PHY_BAND_6 = 2"
definition IEEE80211_QOS_CTL_A_MSDU_PRESENT :: u8 where "IEEE80211_QOS_CTL_A_MSDU_PRESENT = 0x80"

definition le16_at :: "u8 list \<Rightarrow> nat \<Rightarrow> u16" where
  "le16_at d i = of_le_bytes (get_bytes i 2 d)"

definition le32_at :: "u8 list \<Rightarrow> nat \<Rightarrow> u32" where
  "le32_at d i = of_le_bytes (get_bytes i 4 d)"

text \<open>
  The descriptor as it lies in memory; the fields behind the first twenty bytes depend on the device
  (\<open>struct iwl_rx_mpdu_desc_v1\<close> and \<open>struct iwl_rx_mpdu_desc_v3\<close>).
\<close>

definition desc_size :: "bool \<Rightarrow> nat" where
  "desc_size ax = (if ax then 64 else 48)"

definition mpdu_desc_of :: "u8 list \<Rightarrow> iwl_rx_mpdu_desc" where
  "mpdu_desc_of d = \<lparr>mpdu_len = le16_at d 0, mac_flags1 = d ! 2, mac_flags2 = d ! 3, amsdu_info = d ! 4,
     phy_info = le16_at d 5, l3l4_flags = le16_at d 10, rx_status_word = le32_at d 12,
     reorder_data = le32_at d 16, raw_xsum = le16_at d 32\<rparr>"

definition mpdu_tsf :: "bool \<Rightarrow> u8 list \<Rightarrow> u64" where
  "mpdu_tsf ax d = of_le_bytes (get_bytes (if ax then 48 else 40) 8 d)"

definition mpdu_phy_data :: "bool \<Rightarrow> nat \<Rightarrow> u8 list \<Rightarrow> iwl_mvm_rx_phy_data" where
  "mpdu_phy_data ax notif_ver d =
     (if ax then
        \<lparr>pd_info_type = 0, pd_d0 = le32_at d 48, pd_d1 = le32_at d 52, pd_d2 = le32_at d 24, pd_d3 = le32_at d 20,
         pd_eht_d4 = le32_at d 8, pd_d5 = le32_at d 56, pd_d4 = le16_at d 10, pd_with_data = True,
         pd_first_subframe = False, pd_rx_vec = [0, 0, 0, 0], pd_rate_n_flags = mpdu_rate notif_ver (le32_at d 36),
         pd_gp2_on_air_rise = le32_at d 44, pd_phy_info = le16_at d 5, pd_energy_a = d ! 40, pd_energy_b = d ! 41,
         pd_channel = d ! 42\<rparr>
      else
        \<lparr>pd_info_type = 0, pd_d0 = le32_at d 40, pd_d1 = le32_at d 44, pd_d2 = le32_at d 20, pd_d3 = le32_at d 24,
         pd_eht_d4 = 0, pd_d5 = 0, pd_d4 = le16_at d 10, pd_with_data = True,
         pd_first_subframe = False, pd_rx_vec = [0, 0, 0, 0], pd_rate_n_flags = mpdu_rate notif_ver (le32_at d 28),
         pd_gp2_on_air_rise = le32_at d 36, pd_phy_info = le16_at d 5, pd_energy_a = d ! 32, pd_energy_b = d ! 33,
         pd_channel = d ! 34\<rparr>)"

section \<open>The state\<close>

text \<open>
  A frame on its way: the report, the radiotap fields and the rest of the socket buffer, with the bytes of
  the receive buffer from the MAC header on, in which a fragment of the buffer lies.
\<close>

record mpdu_frame =
  mf_status :: mvm_rx_status
  mf_radiotap :: "u8 list"
  mf_frame :: "u8 list"
  mf_skb :: rx_skb

datatype sched_scan_pass_all = SCHED_SCAN_PASS_ALL_DISABLED | SCHED_SCAN_PASS_ALL_ENABLED | SCHED_SCAN_PASS_ALL_FOUND

text \<open>
  The sessions and the table of stations, what is kept for each station, and the counter of aggregates.
\<close>

record mpdu_path =
  mp_mvm :: "mpdu_frame rx_mvm"
  mp_stas :: "rx_station list"
  ampdu_ref :: u32
  ampdu_toggle :: bool
  pass_all :: sched_scan_pass_all

text \<open>
  What the path asks of its environment while a packet is handled: settings of the device and the driver,
  the allocator, the clocks, mac80211's table of addresses and the incremental checksum.
\<close>

record mpdu_env =
  env_dev :: rx_device
  in_hw_restart :: bool
  family_9000 :: bool
  mpdu_notif_ver :: nat
  band_in_rx :: bool
  num_stations :: nat
  cur_aid :: u16
  monitor_p80 :: u8
  time_sync_peer :: "u8 list"
  alloc_ok :: bool
  find_sta_by_ifaddr :: "u8 list \<Rightarrow> nat option"
  csum_push :: "u32 \<Rightarrow> u8 list \<Rightarrow> u32"
  boottime :: u64
  env_clock :: rx_clock
  env_time_before :: "u64 \<Rightarrow> u64 \<Rightarrow> bool"
  tu_to_jiffies :: "u16 \<Rightarrow> u64"

text \<open>
  What happens to a frame: it goes up to mac80211 (on a queue, for a station, with the flags after the check
  of its packet number), is refused by that check, or is put aside for the time synchronisation; the
  events of the reorder buffer other than passing a frame on; and the record taken for the channel reports
  (\<open>flq_mvm_record\<close>). A station is its index in the firmware's table.
\<close>

datatype mpdu_event =
    Up nat "nat option" mpdu_frame u32
  | Refused nat "nat option" mpdu_frame
  | Time_sync mpdu_frame
  | Queue_event "mpdu_frame rx_event"
  | Key_event key_event
  | Csi_record "u8 list"

section \<open>The report before the checks\<close>

text \<open>The zeroed control buffer of a new socket buffer.\<close>

definition zero_rx_status :: mvm_rx_status where
  "zero_rx_status = \<lparr>ms_mactime = 0, ms_boottime_ns = 0, ms_device_timestamp = 0, ms_ampdu_reference = 0, ms_flag = 0,
     ms_freq = 0, ms_enc_flags = 0, ms_encoding = RX_ENC_LEGACY, ms_bw = RATE_INFO_BW_20,
     ms_he_ru = NL80211_RATE_INFO_HE_RU_ALLOC_26, ms_he_gi = NL80211_RATE_INFO_HE_GI_0_8, ms_he_dcm = False,
     ms_eht_ru = NL80211_RATE_INFO_EHT_RU_ALLOC_26, ms_eht_gi = NL80211_RATE_INFO_EHT_GI_0_8, ms_rate_idx = 0,
     ms_nss = 0, ms_band = NL80211_BAND_2GHZ, ms_signal = 0, ms_chains = 0, ms_chain_signal = (0, 0),
     ms_zero_length_psdu_type = 0\<rparr>"

definition iwl_mvm_nl80211_band_from_rx_msdu :: "u8 \<Rightarrow> nl80211_band" where
  "iwl_mvm_nl80211_band_from_rx_msdu phy_band =
     (if phy_band = PHY_BAND_24 then NL80211_BAND_2GHZ
      else if phy_band = PHY_BAND_5 then NL80211_BAND_5GHZ
      else if phy_band = PHY_BAND_6 then NL80211_BAND_6GHZ else NL80211_BAND_5GHZ)"

definition mpdu_band :: "mpdu_env \<Rightarrow> u8 list \<Rightarrow> u8 \<Rightarrow> nl80211_band" where
  "mpdu_band env d channel =
     (if band_in_rx env then iwl_mvm_nl80211_band_from_rx_msdu (drop_bit RX_MPDU_BAND_POS (d ! 7 AND RX_MPDU_BAND_MASK))
      else if 14 < channel then NL80211_BAND_5GHZ else NL80211_BAND_2GHZ)"

text \<open>The flags of a bad checksum, the preamble, the time and the band.\<close>

definition mpdu_status :: "mpdu_env \<Rightarrow> u8 list \<Rightarrow> iwl_mvm_rx_phy_data \<Rightarrow> mvm_rx_status" where
  "mpdu_status env d pd =
     (let status = rx_status_word (mpdu_desc_of d); s = zero_rx_status;
          s = (if \<not> tst status IWL_RX_MPDU_STATUS_CRC_OK \<or> \<not> tst status IWL_RX_MPDU_STATUS_OVERRUN_OK
               then s\<lparr>ms_flag := ms_flag s OR RX_FLAG_FAILED_FCS_CRC\<rparr> else s);
          s = (if pd_rate_n_flags pd AND RATE_MCS_MOD_TYPE_MSK = RATE_MCS_CCK_MSK \<and>
                  tst (pd_phy_info pd) IWL_RX_MPDU_PHY_SHORT_PREAMBLE
               then s\<lparr>ms_enc_flags := ms_enc_flags s OR RX_ENC_FLAG_SHORTPRE\<rparr> else s);
          s = (if \<not> tst (pd_phy_info pd) IWL_RX_MPDU_PHY_TSF_OVERLOAD
               then s\<lparr>ms_mactime := mpdu_tsf (ax210 (env_dev env)) d, ms_flag := ms_flag s OR RX_FLAG_MACTIME_PLCP_START\<rparr>
               else s)
      in s\<lparr>ms_band := mpdu_band env d (pd_channel pd)\<rparr>)"

text \<open>The reference of the aggregate: a new one, never zero, whenever the toggle bit changes.\<close>

definition mpdu_ampdu ::
  "nat \<Rightarrow> iwl_mvm_rx_phy_data \<Rightarrow> mvm_rx_status \<Rightarrow> mpdu_path \<Rightarrow> iwl_mvm_rx_phy_data \<times> mvm_rx_status \<times> mpdu_path"
where
  "mpdu_ampdu queue pd s path =
     (if queue = 0 \<and> tst (pd_phy_info pd) IWL_RX_MPDU_PHY_AMPDU then
        (let toggle_bit = tst (pd_phy_info pd) IWL_RX_MPDU_PHY_AMPDU_TOGGLE;
             s = s\<lparr>ms_flag := ms_flag s OR RX_FLAG_AMPDU_DETAILS\<rparr>;
             (pd, path) = (if toggle_bit \<noteq> ampdu_toggle path
               then (pd\<lparr>pd_first_subframe := True\<rparr>,
                     path\<lparr>ampdu_ref := (if ampdu_ref path + 1 = 0 then 1 else ampdu_ref path + 1),
                          ampdu_toggle := toggle_bit\<rparr>)
               else (pd, path))
         in (pd, s\<lparr>ms_ampdu_reference := ampdu_ref path\<rparr>, path))
      else (pd, s, path))"

section \<open>The checks\<close>

text \<open>
  The station of the frame: by the index the firmware found, or by the address of the sender. The inner
  \<open>None\<close> is no station, the outer one an access outside the table.
\<close>

definition mpdu_station :: "mpdu_env \<Rightarrow> u32 \<Rightarrow> u8 list \<Rightarrow> mpdu_path \<Rightarrow> nat option option" where
  "mpdu_station env status frame path =
     (let hdr = hdr_of_bytes frame in
      if tst status IWL_RX_MPDU_STATUS_SRC_STA_FOUND then
        (let id = unat (get_bits status IWL_RX_MPDU_STATUS_STA_ID) in
         if num_stations env \<le> id then Some None
         else if length (fw_id_to_mac_id (mp_mvm path)) \<le> id then None
         else Some (map_option (\<lambda>_. id) (fw_id_to_mac_id (mp_mvm path) ! id)))
      else if \<not> is_multicast_ether_addr (addr2 hdr) then Some (find_sta_by_ifaddr env (addr2 hdr))
      else Some None)"

text \<open>The hardware takes A-MSDUs apart but copies their header; older devices turn addresses around.\<close>

definition iwl_mvm_flip_address :: "nat \<Rightarrow> u8 list \<Rightarrow> u8 list" where
  "iwl_mvm_flip_address pos frame = put_bytes pos (rev (get_bytes pos 6 frame)) frame"

definition mpdu_amsdu_header :: "mpdu_env \<Rightarrow> iwl_rx_mpdu_desc \<Rightarrow> u8 list \<Rightarrow> u8 list" where
  "mpdu_amsdu_header env desc frame =
     (let fc = frame_control (hdr_of_bytes frame); qc = ieee80211_get_qos_ctl fc in
      if tst (mac_flags2 desc) IWL_RX_MPDU_MFLG2_AMSDU \<and> ieee80211_is_data_qos fc then
        (let frame = frame[qc := frame ! qc AND NOT IEEE80211_QOS_CTL_A_MSDU_PRESENT] in
         if family_9000 env then
           (let frame = iwl_mvm_flip_address 16 frame in
            if ieee80211_has_a4 fc then iwl_mvm_flip_address 24 frame else frame)
         else frame)
      else frame)"

definition mpdu_baid :: "iwl_rx_mpdu_desc \<Rightarrow> nat" where
  "mpdu_baid desc = unat (drop_bit IWL_RX_MPDU_REORDER_BAID_SHIFT (reorder_data desc AND IWL_RX_MPDU_REORDER_BAID_MASK))"

text \<open>
  The part for frames of a station: checksum, duplicate check, header, age of the session. The result
  says whether the frame is a duplicate. The notifications to other parts of the driver (traffic
  statistics, channel switch, signal strength, debug triggers) are left out: they do not touch the frame.
  So is the number of the link, which is set for frames of a station with several links when they go up.
\<close>

definition mpdu_sta_checks ::
  "mpdu_env \<Rightarrow> nat \<Rightarrow> u32 \<Rightarrow> iwl_rx_mpdu_desc \<Rightarrow> nat option \<Rightarrow> u8 list \<Rightarrow> u32 \<Rightarrow> rx_skb \<Rightarrow> mpdu_path
   \<Rightarrow> (bool \<times> u8 list \<times> u32 \<times> rx_skb \<times> mpdu_path) option"
where
  "mpdu_sta_checks env queue pkt_flags desc sta frame flag skb path =
     (case sta of None \<Rightarrow> Some (False, frame, flag, skb, path)
      | Some i \<Rightarrow>
          (let st = mp_stas path ! i; hdr = hdr_of_bytes frame;
               skb = (if ieee80211_is_data (frame_control hdr)
                      then iwl_mvm_rx_csum (env_dev env) st pkt_flags desc skb else skb)
           in case iwl_mvm_is_dup queue (Some st) hdr desc flag of
                None \<Rightarrow> None
              | Some (dup, flag, st') \<Rightarrow>
                  (let path = path\<lparr>mp_stas := (mp_stas path)[i := the st']\<rparr> in
                   if dup then Some (True, frame, flag, skb, path)
                   else
                     (let frame = mpdu_amsdu_header env desc frame; baid = mpdu_baid desc in
                      if baid = IWL_RX_REORDER_DATA_INVALID_BAID then Some (False, frame, flag, skb, path)
                      else map_option (\<lambda>mvm. (False, frame, flag, skb, path\<lparr>mp_mvm := mvm\<rparr>))
                             (iwl_mvm_agg_rx_received (env_time_before env) (tu_to_jiffies env) (jiffies (env_clock env))
                                baid (mp_mvm path))))))"

text \<open>What a scan waits for, and the time of beacons and probe responses.\<close>

definition mpdu_beacon :: "nat \<Rightarrow> u8 list \<Rightarrow> bool" where
  "mpdu_beacon queue frame \<longleftrightarrow> queue = 0 \<and>
     (ieee80211_is_beacon (frame_control (hdr_of_bytes frame)) \<or> ieee80211_is_probe_resp (frame_control (hdr_of_bytes frame)))"

definition mpdu_scan :: "bool \<Rightarrow> mpdu_path \<Rightarrow> mpdu_path" where
  "mpdu_scan beacon path =
     (if beacon \<and> pass_all path = SCHED_SCAN_PASS_ALL_ENABLED
      then path\<lparr>pass_all := SCHED_SCAN_PASS_ALL_FOUND\<rparr> else path)"

text \<open>The parts of a new socket buffer that the path fills.\<close>

definition new_skb :: rx_skb where
  "new_skb = \<lparr>skb_head = [], skb_frag = None, skb_ip_summed = CHECKSUM_NONE, skb_csum = 0\<rparr>"

text \<open>
  The path up to the socket buffer: a frame with its station, or none if the packet is ignored or the frame dropped. The
  packet has \<open>pkt_len\<close> bytes of the buffer \<open>d\<close>. \<open>None\<close> is an access outside a buffer or a table.
\<close>

definition mpdu_accept ::
  "mpdu_env \<Rightarrow> nat \<Rightarrow> u32 \<Rightarrow> u32 \<Rightarrow> u8 list \<Rightarrow> mpdu_path
   \<Rightarrow> (mpdu_path \<times> mpdu_event list \<times> (nat option \<times> mpdu_frame) option) option"
where
  "mpdu_accept env queue pkt_len pkt_flags d path =
     (let ax = ax210 (env_dev env); desc = mpdu_desc_of d in
      if in_hw_restart env \<or> unat pkt_len < desc_size ax \<or> unat pkt_len < unat (mpdu_len desc) + desc_size ax \<or> \<not> alloc_ok env
      then Some (path, [], None)
      else
        (let pd = mpdu_phy_data ax (mpdu_notif_ver env) d; frame = drop (desc_size ax) d;
             (pd, s, path) = mpdu_ampdu queue pd (mpdu_status env d pd) path
         in case mpdu_station env (rx_status_word desc) frame path of None \<Rightarrow> None
         | Some sta \<Rightarrow>
             (case iwl_mvm_rx_crypto (env_dev env) (map_option (\<lambda>i. mp_stas path ! i) sta) frame desc pkt_flags (ms_flag s) of
                None \<Rightarrow> None
              | Some (ok, flag, crypt_len, kevs) \<Rightarrow>
                  if \<not> ok then Some (path, map Key_event kevs, None)
                  else
                    (case iwl_mvm_rx_fill_status (env_dev env) (cur_aid env) (monitor_p80 env) queue pd (s\<lparr>ms_flag := flag\<rparr>) of
                       None \<Rightarrow> None
                     | Some (radiotap, pd, s) \<Rightarrow>
                         (case mpdu_sta_checks env queue pkt_flags desc sta frame (ms_flag s) new_skb path of
                            None \<Rightarrow> None
                          | Some (dup, frame, flag, skb, path) \<Rightarrow>
                              if dup then Some (path, map Key_event kevs, None)
                              else
                                (let beacon = mpdu_beacon queue frame; path = mpdu_scan beacon path;
                                     s = s\<lparr>ms_flag := flag\<rparr>;
                                     s = (if beacon then s\<lparr>ms_boottime_ns := boottime env\<rparr> else s);
                                     pad = (if tst (mac_flags2 desc) IWL_RX_MPDU_MFLG2_PAD then 2 else 0)
                                 in case iwl_mvm_create_skb (env_dev env) (csum_push env) (128 - (pad + length radiotap)) frame
                                           (mpdu_len desc) crypt_len desc skb of
                                      None \<Rightarrow> None
                                    | Some None \<Rightarrow> Some (path, map Key_event kevs, None)
                                    | Some (Some skb) \<Rightarrow>
                                        Some (path, map Key_event kevs, Some (sta, \<lparr>mf_status = s, mf_radiotap = radiotap,
                                          mf_frame = frame, mf_skb = skb\<rparr>))))))))"

section \<open>The way up\<close>

definition update_sta :: "nat option \<Rightarrow> rx_station option \<Rightarrow> rx_station list \<Rightarrow> rx_station list" where
  "update_sta sta st stas = (case sta of None \<Rightarrow> stas | Some i \<Rightarrow> stas[i := the st])"

text \<open>The packet number is checked in the head of the socket buffer, against the keys of the given station.\<close>

definition iwl_mvm_pass_packet_to_mac80211 ::
  "nat \<Rightarrow> nat option \<Rightarrow> mpdu_frame \<Rightarrow> rx_station list \<Rightarrow> (rx_station list \<times> mpdu_event list) option"
where
  "iwl_mvm_pass_packet_to_mac80211 queue sta f stas =
     (case iwl_mvm_check_pn queue (map_option (\<lambda>i. stas ! i) sta) (skb_head (mf_skb f)) (ms_flag (mf_status f)) of
        None \<Rightarrow> None
      | Some (ok, flag, st) \<Rightarrow>
          Some (update_sta sta st stas, if ok then [Up queue sta f flag] else [Refused queue sta f]))"

text \<open>
  What the reorder buffer releases, in its order: all of it for the station that the handler was called
  with, be it that of the frame just received or the first one of the session.
\<close>

fun mpdu_release :: "nat option \<Rightarrow> mpdu_frame rx_event list \<Rightarrow> rx_station list \<Rightarrow> (rx_station list \<times> mpdu_event list) option" where
  "mpdu_release sta [] stas = Some (stas, [])"
| "mpdu_release sta (Pass queue f # evs) stas =
     (case iwl_mvm_pass_packet_to_mac80211 queue sta f stas of None \<Rightarrow> None
      | Some (stas, es) \<Rightarrow> map_option (\<lambda>(stas, es'). (stas, es @ es')) (mpdu_release sta evs stas))"
| "mpdu_release sta (e # evs) stas = map_option (\<lambda>(stas, es). (stas, Queue_event e # es)) (mpdu_release sta evs stas)"

text \<open>Timing measurement frames of the peer are kept; the test reads the data of the whole socket buffer.\<close>

definition ieee80211_is_action :: "u16 \<Rightarrow> bool" where
  "ieee80211_is_action fc \<longleftrightarrow> fc AND (IEEE80211_FCTL_FTYPE OR IEEE80211_FCTL_STYPE) = IEEE80211_FTYPE_MGMT OR 0x00D0"

definition mf_data :: "mpdu_frame \<Rightarrow> u8 list" where
  "mf_data f = mf_radiotap f @ skb_head (mf_skb f)"

definition mf_len :: "mpdu_frame \<Rightarrow> nat" where
  "mf_len f = length (mf_data f) + (case skb_frag (mf_skb f) of None \<Rightarrow> 0 | Some (_, n) \<Rightarrow> n)"

definition ieee80211_is_timing_measurement :: "mpdu_frame \<Rightarrow> bool" where
  "ieee80211_is_timing_measurement f \<longleftrightarrow>
     38 \<le> mf_len f \<and> ieee80211_is_action (frame_control (hdr_of_bytes (mf_data f))) \<and>
     mf_data f ! 24 = 11 \<and> mf_data f ! 25 = 1"

definition ieee80211_is_ftm :: "mpdu_frame \<Rightarrow> bool" where
  "ieee80211_is_ftm f \<longleftrightarrow>
     44 \<le> mf_len f \<and> ieee80211_is_action (frame_control (hdr_of_bytes (mf_data f))) \<and>
     mf_data f ! 24 = 4 \<and> mf_data f ! 25 = 33"

definition iwl_mvm_time_sync_frame :: "mpdu_env \<Rightarrow> mpdu_frame \<Rightarrow> bool" where
  "iwl_mvm_time_sync_frame env f \<longleftrightarrow>
     time_sync_peer env = addr2 (hdr_of_bytes (mf_frame f)) \<and> (ieee80211_is_timing_measurement f \<or> ieee80211_is_ftm f)"

definition iwl_mvm_is_valid_packet_channel :: "mvm_rx_status \<Rightarrow> bool" where
  "iwl_mvm_is_valid_packet_channel s = True"

definition sta_of :: "mpdu_path \<Rightarrow> nat option \<Rightarrow> rx_sta option" where
  "sta_of path sta = (case sta of None \<Rightarrow> None | Some i \<Rightarrow> fw_id_to_mac_id (mp_mvm path) ! i)"

text \<open>The frame goes to the reorder buffer, and up at once if it is not held back there.\<close>

definition mpdu_deliver ::
  "mpdu_env \<Rightarrow> nat \<Rightarrow> iwl_rx_mpdu_desc \<Rightarrow> nat option \<Rightarrow> mpdu_frame \<Rightarrow> mpdu_path \<Rightarrow> (mpdu_path \<times> mpdu_event list) option"
where
  "mpdu_deliver env queue desc sta f path =
     (case iwl_mvm_reorder (env_clock env) queue (sta_of path sta) (hdr_of_bytes (skb_head (mf_skb f)))
             (ms_device_timestamp (mf_status f)) desc f (mp_mvm path) of
        None \<Rightarrow> None
      | Some (held, mvm, revs) \<Rightarrow>
          (case mpdu_release sta revs (mp_stas path) of None \<Rightarrow> None
           | Some (stas, es) \<Rightarrow>
               map_option (\<lambda>(stas, es'). (path\<lparr>mp_mvm := mvm, mp_stas := stas\<rparr>, es @ es'))
                 (if held then Some (stas, [])
                  else if iwl_mvm_time_sync_frame env f then Some (stas, [Time_sync f])
                  else if iwl_mvm_is_valid_packet_channel (mf_status f)
                  then iwl_mvm_pass_packet_to_mac80211 queue sta f stas else Some (stas, []))))"

text \<open>
  The whole handler. The record for the channel reports is taken of the packet as it then lies in the
  receive buffer, with the header that the checks may have changed.
\<close>

definition iwl_mvm_rx_mpdu_mq ::
  "mpdu_env \<Rightarrow> nat \<Rightarrow> u32 \<Rightarrow> u32 \<Rightarrow> u8 list \<Rightarrow> mpdu_path \<Rightarrow> (mpdu_path \<times> mpdu_event list) option"
where
  "iwl_mvm_rx_mpdu_mq env queue pkt_len pkt_flags d path =
     (case mpdu_accept env queue pkt_len pkt_flags d path of None \<Rightarrow> None
      | Some (path, evs, None) \<Rightarrow> Some (path, evs)
      | Some (path, evs, Some (sta, f)) \<Rightarrow>
          map_option (\<lambda>(path, es). (path, evs @ es @ [Csi_record (take (desc_size (ax210 (env_dev env))) d @ mf_frame f)]))
            (mpdu_deliver env queue (mpdu_desc_of d) sta f path))"

section \<open>Frames through the path\<close>

text \<open>The frame that an event takes out of the driver.\<close>

fun event_frames :: "mpdu_event \<Rightarrow> mpdu_frame multiset" where
  "event_frames (Up queue sta f flag) = {#f#}"
| "event_frames (Refused queue sta f) = {#f#}"
| "event_frames (Time_sync f) = {#f#}"
| "event_frames (Queue_event (Free_skb f)) = {#f#}"
| "event_frames _ = {#}"

definition left_path :: "mpdu_event list \<Rightarrow> mpdu_frame multiset" where
  "left_path es = sum_list (map event_frames es)"

lemma left_path_simps [simp]:
  "left_path [] = {#}" "left_path (e # es) = event_frames e + left_path es" "left_path (es @ fs) = left_path es + left_path fs"
  by (simp_all add: left_path_def)

lemma left_path_keys [simp]: "left_path (map Key_event kevs) = {#}"
  by (induction kevs) simp_all

lemma pass_packet_frames:
  "iwl_mvm_pass_packet_to_mac80211 queue sta f stas = Some (stas', es) \<Longrightarrow> left_path es = {#f#}"
  by (auto simp: iwl_mvm_pass_packet_to_mac80211_def split: option.splits)

lemma release_frames:
  "mpdu_release sta revs stas = Some (stas', es) \<Longrightarrow> left_path es = mset (passed revs) + mset (freed revs)"
proof (induction sta revs stas arbitrary: stas' es rule: mpdu_release.induct)
  case (2 sta queue f evs stas)
  then show ?case by (fastforce split: option.splits dest: pass_packet_frames)
qed (auto split: option.splits)

lemma deliver_frames:
  assumes ok: "mvm_ok nq (mp_mvm path)" "queue < nq" and r: "mpdu_deliver env queue desc sta f path = Some (path', es)"
  shows "mvm_ok nq (mp_mvm path') \<and> left_path es + mvm_frames (mp_mvm path') = mvm_frames (mp_mvm path) + {#f#}"
proof -
  let ?r = "iwl_mvm_reorder (env_clock env) queue (sta_of path sta) (hdr_of_bytes (skb_head (mf_skb f)))
      (ms_device_timestamp (mf_status f)) desc f (mp_mvm path)"
  obtain held mvm revs where 1: "?r = Some (held, mvm, revs)"
    using r unfolding mpdu_deliver_def by (cases "?r") auto
  obtain stas es1 where 2: "mpdu_release sta revs (mp_stas path) = Some (stas, es1)"
    using r 1 unfolding mpdu_deliver_def by (cases "mpdu_release sta revs (mp_stas path)") auto
  have "\<exists>es2. left_path es2 = (if held then {#} else {#f#}) \<and> es = es1 @ es2 \<and> mp_mvm path' = mvm"
    using r 1 2 pass_packet_frames [of queue sta f stas] unfolding mpdu_deliver_def iwl_mvm_is_valid_packet_channel_def
    by (cases held; cases "iwl_mvm_time_sync_frame env f") auto
  then obtain es2 where 3: "left_path es2 = (if held then {#} else {#f#})" "es = es1 @ es2" "mp_mvm path' = mvm" by blast
  have "handled nq {#f#} (mp_mvm path) mvm (if held then {#} else {#f#}) revs"
    by (rule reorder_handled [OF ok 1])
  then show ?thesis using release_frames [OF 2] by (simp add: handled_def 3 ac_simps)
qed

text \<open>Up to the socket buffer no frame is taken in or given away, and the keys of the stations stay.\<close>

lemma agg_rx_received_keeps:
  assumes "mvm_ok nq mvm" "iwl_mvm_agg_rx_received time_before tu now baid mvm = Some mvm'"
  shows "mvm_ok nq mvm' \<and> mvm_frames mvm' = mvm_frames mvm"
proof (cases "mvm' = mvm")
  case False
  then obtain bd where b: "baid < IWL_MAX_BAID" "baid_map mvm ! baid = Some bd" "mvm' = update_baid baid (bd\<lparr>last_rx := now\<rparr>) mvm"
    using assms by (auto simp: iwl_mvm_agg_rx_received_def mvm_ok_def split: if_splits option.splits)
  note bd = mvm_okD [OF assms(1) b(1,2)]
  have "baid_ok (bd\<lparr>last_rx := now\<rparr>)" "bd_frames (bd\<lparr>last_rx := now\<rparr>) = bd_frames bd"
    using bd(1) by (auto simp: baid_ok_def bd_frames_def idle_slots_def queue_base_def)
  then show ?thesis
    using mvm_frames_update [OF assms(1) b(1,2), of "bd\<lparr>last_rx := now\<rparr>" "{#}" "{#}"]
      mvm_ok_update [OF assms(1) b(1), of "bd\<lparr>last_rx := now\<rparr>"] bd(2) b(3) by simp
qed (use assms in simp)

definition same_keys :: "rx_station list \<Rightarrow> rx_station list \<Rightarrow> bool" where
  "same_keys stas stas' \<longleftrightarrow> map ptk_pn stas' = map ptk_pn stas"

lemma same_keys_refl [simp]: "same_keys stas stas"
  by (simp add: same_keys_def)

lemma dup_same_keys:
  "iwl_mvm_is_dup queue (Some (stas ! i)) hdr desc flag = Some (dup, flag', st) \<Longrightarrow> same_keys stas (stas[i := the st])"
proof -
  assume d: "iwl_mvm_is_dup queue (Some (stas ! i)) hdr desc flag = Some (dup, flag', st)"
  then obtain s where "st = Some s" by (auto simp: iwl_mvm_is_dup_def Let_def split: if_splits)
  then show ?thesis using dup_keeps_keys d
    by (cases "i < length stas") (simp_all add: same_keys_def map_update list_update_same_conv list_update_beyond)
qed

lemma sta_checks_keep:
  assumes "mvm_ok nq (mp_mvm path)"
    and "mpdu_sta_checks env queue pkt_flags desc sta frame flag skb path = Some (dup, frame', flag', skb', path')"
  shows "mvm_ok nq (mp_mvm path') \<and> mvm_frames (mp_mvm path') = mvm_frames (mp_mvm path) \<and>
    same_keys (mp_stas path) (mp_stas path')"
  using assms agg_rx_received_keeps [OF assms(1)]
  by (cases sta) (auto simp: mpdu_sta_checks_def Let_def dup_same_keys split: option.splits if_splits dest!: agg_rx_received_keeps [OF assms(1)])

lemma ampdu_scan_fields [simp]:
  "mp_mvm (snd (snd (mpdu_ampdu queue pd s path))) = mp_mvm path" "mp_stas (snd (snd (mpdu_ampdu queue pd s path))) = mp_stas path"
  "mp_mvm (mpdu_scan b path) = mp_mvm path" "mp_stas (mpdu_scan b path) = mp_stas path"
  by (simp_all add: mpdu_ampdu_def mpdu_scan_def Let_def)

section \<open>Packet numbers through the path\<close>

text \<open>What goes up for a station \<open>i\<close> on the strength of its packet number.\<close>

fun up_entry :: "nat \<Rightarrow> (nat \<Rightarrow> nat) \<Rightarrow> mpdu_event \<Rightarrow> pn_entry list" where
  "up_entry i ep (Up queue sta f flag) =
     (if sta = Some i \<and> pn_checked queue (skb_head (mf_skb f)) (ms_flag (mf_status f))
      then [\<lparr>e_key = frame_keyidx (skb_head (mf_skb f)), e_epoch = ep (frame_keyidx (skb_head (mf_skb f))), e_queue = queue,
             e_tid = frame_tid (skb_head (mf_skb f)), e_pn = frame_pn (skb_head (mf_skb f)),
             e_same = tst (ms_flag (mf_status f)) RX_FLAG_ALLOW_SAME_PN\<rparr>]
      else [])"
| "up_entry i ep _ = []"

definition up_entries :: "nat \<Rightarrow> (nat \<Rightarrow> nat) \<Rightarrow> mpdu_event list \<Rightarrow> pn_entry list" where
  "up_entries i ep es = concat (map (up_entry i ep) es)"

lemma up_entries_simps [simp]:
  "up_entries i ep [] = []" "up_entries i ep (e # es) = up_entry i ep e @ up_entries i ep es"
  "up_entries i ep (es @ fs) = up_entries i ep es @ up_entries i ep fs"
  by (simp_all add: up_entries_def)

lemma up_entries_keys [simp]: "up_entries i ep (map Key_event kevs) = []"
  by (induction kevs) simp_all

definition stas_ok :: "nat \<Rightarrow> rx_station list \<Rightarrow> (nat \<Rightarrow> nat \<Rightarrow> nat) \<Rightarrow> (nat \<Rightarrow> pn_entry list) \<Rightarrow> bool" where
  "stas_ok nq stas ep lg \<longleftrightarrow>
     (\<forall>i < length stas. pn_inv nq \<lparr>pn_sta = stas ! i, pn_epoch = ep i, pn_log = lg i\<rparr>)"

text \<open>A queue outside the counters passes nothing that has to be checked.\<close>

lemma check_pn_outside:
  assumes "keys_ok nq s" "nq \<le> queue" "iwl_mvm_check_pn queue (Some s) frame flag = Some (ok, flag', st)"
  shows "st = Some s \<and> \<not> (ok \<and> pn_checked queue frame flag)"
proof -
  have "length Q \<le> queue" if "ptk_pn s ! frame_keyidx frame = Some Q" for Q
    using assms(1,2) that frame_keyidx_less [of frame] by (auto simp: keys_ok_def key_pn_ok_def)
  then show ?thesis
    using assms(3) by (auto simp: iwl_mvm_check_pn_def Let_def pn_checked_def frame_keyidx_def frame_extiv_def split: if_splits option.splits)
qed

lemma check_pn_some: "iwl_mvm_check_pn queue (Some s) frame flag = Some (ok, flag', st) \<Longrightarrow> \<exists>s'. st = Some s'"
  by (auto simp: iwl_mvm_check_pn_def Let_def split: if_splits option.splits)

lemma check_pn_keeps_inv:
  assumes "pn_inv nq r" "iwl_mvm_check_pn queue (Some (pn_sta r)) frame flag = Some (ok, flag', Some s)"
  shows "pn_inv nq (r\<lparr>pn_sta := s, pn_log := pn_log r @
      (if ok \<and> pn_checked queue frame flag then [pn_entry_of queue frame flag r] else [])\<rparr>)"
proof (cases "queue < nq")
  case True
  then show ?thesis by (rule pn_check_inv [OF assms(1) _ assms(2)])
next
  case False
  then show ?thesis using check_pn_outside [OF _ _ assms(2), of nq] assms(1) by (auto simp: pn_inv_def)
qed

lemma pass_packet_stas:
  assumes "stas_ok nq stas ep lg" "iwl_mvm_pass_packet_to_mac80211 queue sta f stas = Some (stas', es)"
  shows "length stas' = length stas \<and> stas_ok nq stas' ep (\<lambda>i. lg i @ up_entries i (ep i) es)"
proof (cases sta)
  case None
  then show ?thesis using assms
    by (auto simp: iwl_mvm_pass_packet_to_mac80211_def update_sta_def split: option.splits)
next
  case (Some k)
  let ?frame = "skb_head (mf_skb f)" and ?flag = "ms_flag (mf_status f)"
  obtain ok flag' s where c: "iwl_mvm_check_pn queue (Some (stas ! k)) ?frame ?flag = Some (ok, flag', Some s)"
    and r: "stas' = stas[k := s]" "es = (if ok then [Up queue sta f flag'] else [Refused queue sta f])"
    using assms(2) Some
    by (fastforce simp: iwl_mvm_pass_packet_to_mac80211_def update_sta_def split: option.splits dest: check_pn_some)
  let ?run = "\<lparr>pn_sta = stas ! k, pn_epoch = ep k, pn_log = lg k\<rparr>"
  have "pn_inv nq \<lparr>pn_sta = s, pn_epoch = ep k, pn_log = lg k @ up_entries k (ep k) es\<rparr>" if "k < length stas"
    using check_pn_keeps_inv [of nq ?run queue ?frame ?flag ok flag' s] that assms(1) c
    by (auto simp: stas_ok_def r(2) Some pn_entry_of_def)
  moreover have "up_entries i (ep i) es = []" if "i \<noteq> k" for i using that by (simp add: r(2) Some)
  ultimately show ?thesis using assms(1) unfolding stas_ok_def r(1) nth_update_if by auto
qed

lemma release_stas:
  "stas_ok nq stas ep lg \<Longrightarrow> mpdu_release sta revs stas = Some (stas', es) \<Longrightarrow>
   length stas' = length stas \<and> stas_ok nq stas' ep (\<lambda>i. lg i @ up_entries i (ep i) es)"
proof (induction sta revs stas arbitrary: stas' es lg rule: mpdu_release.induct)
  case (2 sta queue f evs stas)
  obtain stas1 es1 es2 where p: "iwl_mvm_pass_packet_to_mac80211 queue sta f stas = Some (stas1, es1)"
    and t: "mpdu_release sta evs stas1 = Some (stas', es2)" and e: "es = es1 @ es2"
    using 2(3) by (auto split: option.splits)
  note s1 = pass_packet_stas [OF 2(2) p]
  show ?case using "2.IH" [OF p refl conjunct2 [OF s1] t] s1 by (simp add: e)
qed (auto split: option.splits)

lemma deliver_stas:
  assumes "stas_ok nq (mp_stas path) ep lg" "mpdu_deliver env queue desc sta f path = Some (path', es)"
  shows "length (mp_stas path') = length (mp_stas path) \<and> stas_ok nq (mp_stas path') ep (\<lambda>i. lg i @ up_entries i (ep i) es)"
proof -
  let ?r = "iwl_mvm_reorder (env_clock env) queue (sta_of path sta) (hdr_of_bytes (skb_head (mf_skb f)))
      (ms_device_timestamp (mf_status f)) desc f (mp_mvm path)"
  obtain held mvm revs where 1: "?r = Some (held, mvm, revs)"
    using assms(2) unfolding mpdu_deliver_def by (cases "?r") auto
  obtain stas es1 where 2: "mpdu_release sta revs (mp_stas path) = Some (stas, es1)"
    using assms(2) 1 unfolding mpdu_deliver_def by (cases "mpdu_release sta revs (mp_stas path)") auto
  note s = release_stas [OF assms(1) 2]
  show ?thesis
    using assms(2) 1 2 s pass_packet_stas [OF conjunct2 [OF s], of queue sta f]
    unfolding mpdu_deliver_def iwl_mvm_is_valid_packet_channel_def
    by (cases held; cases "iwl_mvm_time_sync_frame env f") auto
qed

text \<open>The invariant depends on the counters of the stations only.\<close>

lemma pn_inv_cong: "ptk_pn s' = ptk_pn s \<Longrightarrow> pn_inv nq \<lparr>pn_sta = s', pn_epoch = ep, pn_log = lg\<rparr> \<longleftrightarrow>
    pn_inv nq \<lparr>pn_sta = s, pn_epoch = ep, pn_log = lg\<rparr>"
  by (simp add: pn_inv_def keys_ok_def entry_covered_def pn_at_def)

lemma same_keys_stas: "same_keys stas stas' \<Longrightarrow> length stas' = length stas \<and> stas_ok nq stas' ep lg = stas_ok nq stas ep lg"
proof -
  assume "same_keys stas stas'"
  then have l: "length stas' = length stas" and k: "\<And>i. i < length stas \<Longrightarrow> ptk_pn (stas' ! i) = ptk_pn (stas ! i)"
    unfolding same_keys_def by (metis length_map, metis length_map nth_map)
  then show ?thesis using pn_inv_cong [OF k] by (simp add: stas_ok_def)
qed

section \<open>The steps of the path\<close>

lemma accept_keeps:
  assumes ok: "mvm_ok nq (mp_mvm path)" and r: "mpdu_accept env queue pkt_len pkt_flags d path = Some (path', evs, res)"
  shows "mvm_ok nq (mp_mvm path') \<and> mvm_frames (mp_mvm path') = mvm_frames (mp_mvm path) \<and>
    same_keys (mp_stas path) (mp_stas path') \<and> left_path evs = {#} \<and> up_entries i ep evs = []"
proof -
  let ?desc = "mpdu_desc_of d" and ?pd = "mpdu_phy_data (ax210 (env_dev env)) (mpdu_notif_ver env) d"
  obtain pd s path1 where a: "mpdu_ampdu queue ?pd (mpdu_status env d ?pd) path = (pd, s, path1)"
    by (metis prod_cases3)
  have p: "mp_mvm path1 = mp_mvm path" "mp_stas path1 = mp_stas path"
    using ampdu_scan_fields(1,2) [of queue ?pd "mpdu_status env d ?pd" path] a by simp_all
  define kept where "kept p \<longleftrightarrow> mvm_ok nq (mp_mvm p) \<and> mvm_frames (mp_mvm p) = mvm_frames (mp_mvm path) \<and>
    same_keys (mp_stas path) (mp_stas p)" for p :: mpdu_path
  have 1: "kept path" "kept path1" "kept (mpdu_scan b p) = kept p" for b p
    using ok by (simp_all add: kept_def p)
  have 2: "kept p" if "mpdu_sta_checks env queue pkt_flags ?desc sta frame flag skb path1 = Some (dup, frame', flag', skb', p)"
    for sta frame flag skb dup frame' flag' skb' p
    using sta_checks_keep [OF _ that, of nq] ok by (simp add: kept_def p)
  have "kept path' \<and> left_path evs = {#} \<and> up_entries i ep evs = []"
    using r 1(1,2) unfolding mpdu_accept_def Let_def a
    by (auto simp: 1(3) split: if_splits option.splits prod.splits dest: 2)
  then show ?thesis by (simp add: kept_def)
qed

lemma rx_mpdu_keeps:
  assumes ok: "mvm_ok nq (mp_mvm path)" "queue < nq" "stas_ok nq (mp_stas path) ep lg"
    and r: "iwl_mvm_rx_mpdu_mq env queue pkt_len pkt_flags d path = Some (path', es)"
    and a: "mpdu_accept env queue pkt_len pkt_flags d path = Some (path1, evs, res)"
  shows "mvm_ok nq (mp_mvm path')"
    and "left_path es + mvm_frames (mp_mvm path') = mvm_frames (mp_mvm path) + (case res of None \<Rightarrow> {#} | Some (sta, f) \<Rightarrow> {#f#})"
    and "length (mp_stas path') = length (mp_stas path)"
    and "stas_ok nq (mp_stas path') ep (\<lambda>i. lg i @ up_entries i (ep i) es)"
proof -
  have e: "up_entries i (ep i) evs = []" for i using accept_keeps [OF ok(1) a] by blast
  have k: "mvm_ok nq (mp_mvm path1)" "mvm_frames (mp_mvm path1) = mvm_frames (mp_mvm path)" "left_path evs = {#}"
    "length (mp_stas path1) = length (mp_stas path)" "stas_ok nq (mp_stas path1) ep lg"
    using accept_keeps [OF ok(1) a] same_keys_stas ok(3) by blast+
  have "mvm_ok nq (mp_mvm path') \<and>
    left_path es + mvm_frames (mp_mvm path') = mvm_frames (mp_mvm path) + (case res of None \<Rightarrow> {#} | Some (sta, f) \<Rightarrow> {#f#}) \<and>
    length (mp_stas path') = length (mp_stas path) \<and> stas_ok nq (mp_stas path') ep (\<lambda>i. lg i @ up_entries i (ep i) es)"
  proof (cases res)
    case None
    then show ?thesis using r a k e by (simp add: iwl_mvm_rx_mpdu_mq_def)
  next
    case (Some sf)
    then obtain sta f es1 where d: "res = Some (sta, f)"
      "mpdu_deliver env queue (mpdu_desc_of d) sta f path1 = Some (path', es1)" "es = evs @ es1 @ [Csi_record (take (desc_size (ax210 (env_dev env))) d @ mf_frame f)]"
      using r a by (cases sf) (auto simp: iwl_mvm_rx_mpdu_mq_def)
    show ?thesis
      using deliver_frames [OF k(1) ok(2) d(2)] deliver_stas [OF k(5) d(2)] k by (simp add: d(1,3) e)
  qed
  then show "mvm_ok nq (mp_mvm path')"
    "left_path es + mvm_frames (mp_mvm path') = mvm_frames (mp_mvm path) + (case res of None \<Rightarrow> {#} | Some (sta, f) \<Rightarrow> {#f#})"
    "length (mp_stas path') = length (mp_stas path)" "stas_ok nq (mp_stas path') ep (\<lambda>i. lg i @ up_entries i (ep i) es)"
    by blast+
qed

text \<open>The handlers that only release frames.\<close>

inductive releases :: "nat \<Rightarrow> 'f rx_mvm \<Rightarrow> 'f rx_mvm \<Rightarrow> 'f rx_event list \<Rightarrow> bool" for nq where
  by_notif: "q < nq \<Longrightarrow> iwl_mvm_rx_queue_notif clk q n mvm = Some (mvm', revs) \<Longrightarrow> releases nq mvm mvm' revs"
| by_firmware: "q < nq \<Longrightarrow> iwl_mvm_rx_frame_release clk q len baid nssn mvm = Some (mvm', revs) \<Longrightarrow> releases nq mvm mvm' revs"
| by_bar: "q < nq \<Longrightarrow> iwl_mvm_rx_bar_frame_release clk q len sta_tid ba_info mvm = Some (mvm', revs) \<Longrightarrow> releases nq mvm mvm' revs"
| by_timer: "q < nq \<Longrightarrow> b < IWL_MAX_BAID \<Longrightarrow> baid_map mvm ! b = Some bd \<Longrightarrow>
    iwl_mvm_reorder_timer_expired clk mvm q bd = Some (bd', revs) \<Longrightarrow> releases nq mvm (update_baid b bd' mvm) revs"

lemma releases_handled: "releases nq mvm mvm' revs \<Longrightarrow> mvm_ok nq mvm \<Longrightarrow> handled nq {#} mvm mvm' {#} revs"
  by (induction rule: releases.induct)
    (auto intro: queue_notif_handled frame_release_handled bar_frame_release_handled timer_handled)

text \<open>
  A run of the path, with what was accepted, what happened, and for each station the epochs of its keys
  (an installation begins a new one) and the packet numbers that went up.
\<close>

record mpdu_run =
  mr_path :: mpdu_path
  mr_accepted :: "mpdu_frame multiset"
  mr_events :: "mpdu_event list"
  mr_epoch :: "nat \<Rightarrow> nat \<Rightarrow> nat"
  mr_pn :: "nat \<Rightarrow> pn_entry list"

definition mpdu_note :: "mpdu_path \<Rightarrow> mpdu_frame multiset \<Rightarrow> mpdu_event list \<Rightarrow> mpdu_run \<Rightarrow> mpdu_run" where
  "mpdu_note path new es r =
     r\<lparr>mr_path := path, mr_accepted := mr_accepted r + new, mr_events := mr_events r @ es,
       mr_pn := (\<lambda>i. mr_pn r i @ up_entries i (mr_epoch r i) es)\<rparr>"

text \<open>
  A step is a packet on one of the queues, a release for a station (whichever the handler takes), or the
  installation or removal of a key of a station.
\<close>

inductive mpdu_step :: "nat \<Rightarrow> mpdu_run \<Rightarrow> mpdu_run \<Rightarrow> bool" for nq where
  packet: "queue < nq \<Longrightarrow> mpdu_accept env queue pkt_len pkt_flags d (mr_path r) = Some (path1, evs, res) \<Longrightarrow>
    iwl_mvm_rx_mpdu_mq env queue pkt_len pkt_flags d (mr_path r) = Some (path', es) \<Longrightarrow>
    mpdu_step nq r (mpdu_note path' (case res of None \<Rightarrow> {#} | Some (sta, f) \<Rightarrow> {#f#}) es r)"
| release: "releases nq (mp_mvm (mr_path r)) mvm revs \<Longrightarrow>
    mpdu_release sta revs (mp_stas (mr_path r)) = Some (stas, es) \<Longrightarrow>
    mpdu_step nq r (mpdu_note ((mr_path r)\<lparr>mp_mvm := mvm, mp_stas := stas\<rparr>) {#} es r)"
| install: "\<forall>t < IWL_MAX_TID_COUNT. length (seq t) = IEEE80211_CCMP_PN_LEN \<Longrightarrow> i < length (mp_stas (mr_path r)) \<Longrightarrow>
    mpdu_step nq r (r\<lparr>mr_path := (mr_path r)\<lparr>mp_stas := (mp_stas (mr_path r))[i := set_key_pn nq k seq (mp_stas (mr_path r) ! i)]\<rparr>,
      mr_epoch := (mr_epoch r)(i := (mr_epoch r i)(k := mr_epoch r i k + 1))\<rparr>)"
| remove: "i < length (mp_stas (mr_path r)) \<Longrightarrow>
    mpdu_step nq r (r\<lparr>mr_path := (mr_path r)\<lparr>mp_stas := (mp_stas (mr_path r))[i := disable_key_pn k (mp_stas (mr_path r) ! i)]\<rparr>\<rparr>)"

definition mpdu_inv :: "nat \<Rightarrow> mpdu_run \<Rightarrow> bool" where
  "mpdu_inv nq r \<longleftrightarrow> mvm_ok nq (mp_mvm (mr_path r)) \<and>
     mr_accepted r = left_path (mr_events r) + mvm_frames (mp_mvm (mr_path r)) \<and>
     stas_ok nq (mp_stas (mr_path r)) (mr_epoch r) (mr_pn r)"

lemma mpdu_note_inv:
  assumes "mpdu_inv nq r" "mvm_ok nq (mp_mvm path)"
    and "left_path es + mvm_frames (mp_mvm path) = mvm_frames (mp_mvm (mr_path r)) + new"
    and "stas_ok nq (mp_stas path) (mr_epoch r) (\<lambda>i. mr_pn r i @ up_entries i (mr_epoch r i) es)"
  shows "mpdu_inv nq (mpdu_note path new es r)"
proof -
  have "mr_accepted r + new = left_path (mr_events r) + (left_path es + mvm_frames (mp_mvm path))"
    using assms(1) unfolding assms(3) by (simp add: mpdu_inv_def)
  then show ?thesis using assms(2,4) by (simp add: mpdu_inv_def mpdu_note_def)
qed

text \<open>A step of one station's counters leaves the other stations alone.\<close>

lemma stas_ok_update:
  assumes "stas_ok nq stas ep lg" "pn_inv nq \<lparr>pn_sta = s, pn_epoch = e, pn_log = lg i\<rparr>"
  shows "stas_ok nq (stas[i := s]) (ep(i := e)) lg"
  using assms by (auto simp: stas_ok_def nth_list_update)

lemma mpdu_step_inv: "mpdu_step nq r r' \<Longrightarrow> mpdu_inv nq r \<Longrightarrow> mpdu_inv nq r'"
proof (induction rule: mpdu_step.induct)
  case (packet queue env pkt_len pkt_flags d r path1 evs res path' es)
  have i: "mvm_ok nq (mp_mvm (mr_path r))" "stas_ok nq (mp_stas (mr_path r)) (mr_epoch r) (mr_pn r)"
    using packet(4) by (simp_all add: mpdu_inv_def)
  note k = rx_mpdu_keeps [OF i(1) packet(1) i(2) packet(3,2)]
  show ?case using k(1,2,4) by (rule mpdu_note_inv [OF packet(4)])
next
  case (release r mvm revs sta stas es)
  have i: "mvm_ok nq (mp_mvm (mr_path r))" "stas_ok nq (mp_stas (mr_path r)) (mr_epoch r) (mr_pn r)"
    using release(3) by (simp_all add: mpdu_inv_def)
  have "handled nq {#} (mp_mvm (mr_path r)) mvm {#} revs" by (rule releases_handled [OF release(1) i(1)])
  then show ?case using release_frames [OF release(2)] release_stas [OF i(2) release(2)]
    by (intro mpdu_note_inv [OF release(3)]) (simp_all add: handled_def ac_simps)
next
  case (install seq i r k)
  let ?run = "\<lparr>pn_sta = mp_stas (mr_path r) ! i, pn_epoch = mr_epoch r i, pn_log = mr_pn r i\<rparr>"
  have "pn_inv nq ?run" using install(2,3) by (simp add: mpdu_inv_def stas_ok_def)
  from pn_step_inv [OF pn_step.install [OF install(1), of nq ?run k] this]
  show ?case using install(3) by (simp add: mpdu_inv_def stas_ok_update)
next
  case (remove i r k)
  let ?run = "\<lparr>pn_sta = mp_stas (mr_path r) ! i, pn_epoch = mr_epoch r i, pn_log = mr_pn r i\<rparr>"
  have "pn_inv nq ?run" using remove by (simp add: mpdu_inv_def stas_ok_def)
  from pn_step_inv [OF pn_step.remove [of nq ?run k] this]
  show ?case using remove(2) stas_ok_update [of nq "mp_stas (mr_path r)" "mr_epoch r" "mr_pn r" _ "mr_epoch r i" i]
    by (simp add: mpdu_inv_def)
qed

interpretation mpdu_runs: invariant_system "mpdu_step nq" "mpdu_inv nq" for nq
  by unfold_locales (rule mpdu_step_inv)

section \<open>An accepted frame\<close>

lemma mpdu_desc_fields [simp]:
  "mpdu_len (mpdu_desc_of d) = le16_at d 0" "phy_info (mpdu_desc_of d) = le16_at d 5"
  by (simp_all add: mpdu_desc_of_def)

lemma acceptE:
  assumes "mpdu_accept env queue pkt_len pkt_flags d path = Some (path', evs, Some (sta, f))"
  obtains pd s path1 flag crypt_len kevs pd2 s2 flag2 skb path2 where
    "unat (le16_at d 0) + desc_size (ax210 (env_dev env)) \<le> unat pkt_len"
    "mpdu_ampdu queue (mpdu_phy_data (ax210 (env_dev env)) (mpdu_notif_ver env) d)
       (mpdu_status env d (mpdu_phy_data (ax210 (env_dev env)) (mpdu_notif_ver env) d)) path = (pd, s, path1)"
    "iwl_mvm_rx_crypto (env_dev env) (map_option (\<lambda>i. mp_stas path1 ! i) sta) (drop (desc_size (ax210 (env_dev env))) d)
       (mpdu_desc_of d) pkt_flags (ms_flag s) = Some (True, flag, crypt_len, kevs)"
    "iwl_mvm_rx_fill_status (env_dev env) (cur_aid env) (monitor_p80 env) queue pd (s\<lparr>ms_flag := flag\<rparr>) = Some (mf_radiotap f, pd2, s2)"
    "mpdu_sta_checks env queue pkt_flags (mpdu_desc_of d) sta (drop (desc_size (ax210 (env_dev env))) d) (ms_flag s2) new_skb path1
       = Some (False, mf_frame f, flag2, skb, path2)"
    "iwl_mvm_create_skb (env_dev env) (csum_push env)
       (128 - ((if tst (mac_flags2 (mpdu_desc_of d)) IWL_RX_MPDU_MFLG2_PAD then 2 else 0) + length (mf_radiotap f)))
       (mf_frame f) (le16_at d 0) crypt_len (mpdu_desc_of d) skb = Some (Some (mf_skb f))"
    "mf_status f = (if mpdu_beacon queue (mf_frame f) then s2\<lparr>ms_flag := flag2, ms_boottime_ns := boottime env\<rparr> else s2\<lparr>ms_flag := flag2\<rparr>)"
proof -
  let ?pd = "mpdu_phy_data (ax210 (env_dev env)) (mpdu_notif_ver env) d"
  obtain pd s path1 where a: "mpdu_ampdu queue ?pd (mpdu_status env d ?pd) path = (pd, s, path1)"
    by (metis prod_cases3)
  note def = mpdu_accept_def Let_def a
  let ?frame = "drop (desc_size (ax210 (env_dev env))) d" and ?desc = "mpdu_desc_of d"
  have len: "unat (le16_at d 0) + desc_size (ax210 (env_dev env)) \<le> unat pkt_len"
    and st: "mpdu_station env (rx_status_word ?desc) ?frame path1 \<noteq> None"
    using assms unfolding def by (auto simp: not_less split: if_splits option.splits)
  obtain sta' where st: "mpdu_station env (rx_status_word ?desc) ?frame path1 = Some sta'" using st by blast
  obtain flag crypt_len kevs where c: "iwl_mvm_rx_crypto (env_dev env) (map_option (\<lambda>i. mp_stas path1 ! i) sta')
      ?frame ?desc pkt_flags (ms_flag s) = Some (True, flag, crypt_len, kevs)"
    using assms st unfolding def by (auto split: if_splits option.splits)
  obtain radiotap pd2 s2 where fl: "iwl_mvm_rx_fill_status (env_dev env) (cur_aid env) (monitor_p80 env) queue pd (s\<lparr>ms_flag := flag\<rparr>)
      = Some (radiotap, pd2, s2)"
    using fill_status_returns by blast
  obtain frame flag2 skb path2 where ch: "mpdu_sta_checks env queue pkt_flags ?desc sta' ?frame (ms_flag s2) new_skb path1
      = Some (False, frame, flag2, skb, path2)"
    using assms st c fl unfolding def by (auto split: if_splits option.splits)
  obtain skb' where cr: "iwl_mvm_create_skb (env_dev env) (csum_push env)
      (128 - ((if tst (mac_flags2 ?desc) IWL_RX_MPDU_MFLG2_PAD then 2 else 0) + length radiotap))
      frame (le16_at d 0) crypt_len ?desc skb = Some (Some skb')"
    using assms st c fl ch unfolding def by (auto split: if_splits option.splits)
  have f: "sta = sta'" "mf_radiotap f = radiotap" "mf_frame f = frame" "mf_skb f = skb'"
    "mf_status f = (if mpdu_beacon queue frame then s2\<lparr>ms_flag := flag2, ms_boottime_ns := boottime env\<rparr> else s2\<lparr>ms_flag := flag2\<rparr>)"
    using assms st c fl ch cr unfolding def by (auto split: if_splits)
  show thesis using that [OF len a] c fl ch cr f by simp
qed

text \<open>The checks between the report and the socket buffer.\<close>

lemma sta_checks_result:
  assumes "mpdu_sta_checks env queue pkt_flags desc sta frame flag skb path = Some (False, frame', flag', skb', path')"
  shows "frame' = (case sta of None \<Rightarrow> frame | Some i \<Rightarrow> mpdu_amsdu_header env desc frame)"
    "tst flag' RX_FLAG_DECRYPTED \<longleftrightarrow> tst flag RX_FLAG_DECRYPTED"
proof -
  show "frame' = (case sta of None \<Rightarrow> frame | Some i \<Rightarrow> mpdu_amsdu_header env desc frame)"
    using assms by (auto simp: mpdu_sta_checks_def Let_def split: option.splits if_splits)
  have "tst flag'' RX_FLAG_DECRYPTED \<longleftrightarrow> tst flag RX_FLAG_DECRYPTED"
    if "iwl_mvm_is_dup queue st (hdr_of_bytes frame) desc flag = Some (d, flag'', st')" for st d flag'' st'
    using that by (auto simp: iwl_mvm_is_dup_def Let_def flag_simps split: option.splits if_splits)
  then show "tst flag' RX_FLAG_DECRYPTED \<longleftrightarrow> tst flag RX_FLAG_DECRYPTED"
    using assms by (auto simp: mpdu_sta_checks_def Let_def split: option.splits if_splits)
qed

lemma length_flip_address [simp]: "length (iwl_mvm_flip_address pos frame) = length frame"
  by (simp add: iwl_mvm_flip_address_def put_bytes_def get_bytes_def)

lemma length_amsdu_header [simp]: "length (mpdu_amsdu_header env desc frame) = length frame"
  by (simp add: mpdu_amsdu_header_def Let_def)

text \<open>What is known before the checks.\<close>

lemma status_before:
  assumes "mpdu_ampdu queue pd0 (mpdu_status env d pd0) path = (pd, s, path1)"
  shows "blank_status (s\<lparr>ms_flag := flag\<rparr>)" "\<not> tst (ms_flag s) RX_FLAG_DECRYPTED"
    "pd_rate_n_flags pd = pd_rate_n_flags pd0" "pd_phy_info pd = pd_phy_info pd0"
proof -
  have m: "ms_encoding s0 = RX_ENC_LEGACY" "ms_bw s0 = RATE_INFO_BW_20" "ms_enc_flags s0 AND NOT RX_ENC_FLAG_SHORTPRE = 0"
    "\<not> tst (ms_flag s0) RX_FLAG_DECRYPTED" if "s0 = mpdu_status env d pd0" for s0
    unfolding that
    by (simp_all add: mpdu_status_def zero_rx_status_def Let_def RX_ENC_FLAG_SHORTPRE_def tst_or, 
        simp_all add: tst_def RX_FLAG_DECRYPTED_def RX_FLAG_FAILED_FCS_CRC_def RX_FLAG_MACTIME_PLCP_START_def)
  have a: "tst RX_FLAG_AMPDU_DETAILS RX_FLAG_DECRYPTED = False"
    by (simp add: tst_def RX_FLAG_DECRYPTED_def RX_FLAG_AMPDU_DETAILS_def)
  show "blank_status (s\<lparr>ms_flag := flag\<rparr>)" "\<not> tst (ms_flag s) RX_FLAG_DECRYPTED"
    "pd_rate_n_flags pd = pd_rate_n_flags pd0" "pd_phy_info pd = pd_phy_info pd0"
    using assms m [OF refl] a by (auto simp: mpdu_ampdu_def blank_status_def Let_def tst_or split: if_splits)
qed

lemma phy_data_rate:
  "pd_rate_n_flags (mpdu_phy_data ax ver d) = mpdu_rate ver (le32_at d (if ax then 36 else 28))"
  "pd_phy_info (mpdu_phy_data ax ver d) = le16_at d 5"
  by (simp_all add: mpdu_phy_data_def)

text \<open>The length of the cipher header of a kept frame.\<close>

lemma crypt_len_kept:
  assumes "iwl_mvm_rx_crypto dev sta frame desc pkt_flags flag = Some (True, flag', n, evs)" "\<not> tst flag RX_FLAG_DECRYPTED"
  shows "n = (if tst flag' RX_FLAG_DECRYPTED then cipher_header_len (rx_status_word desc) else 0)"
proof -
  define sec where "sec = rx_status_word desc AND IWL_RX_MPDU_STATUS_SEC_MASK"
  consider "sec = 0x200 \<or> sec = 0x500" | "sec = 0x300" | "sec = 0x100" | "sec = 0x400" |
    "sec \<noteq> 0x200" "sec \<noteq> 0x500" "sec \<noteq> 0x300" "sec \<noteq> 0x100" "sec \<noteq> 0x400" by blast
  then show ?thesis
    using assms unfolding iwl_mvm_rx_crypto_def cipher_header_len_def Let_def sec_def [symmetric] sec_values
    by cases (auto simp: flag_simps IEEE80211_CCMP_HDR_LEN_def IEEE80211_TKIP_IV_LEN_def IEEE80211_WEP_IV_LEN_def
      split: if_splits)
qed

lemma cipher_header_len_bound: "unat (cipher_header_len status) \<le> 8"
  by (simp add: cipher_header_len_def Let_def)

text \<open>The report keeps every flag that is not one of its own, such as that of a decrypted frame.\<close>

definition report_keeps :: "u32 \<Rightarrow> bool" where
  "report_keeps f \<longleftrightarrow> \<not> tst RX_FLAG_RADIOTAP_HE f \<and> \<not> tst RX_FLAG_RADIOTAP_HE_MU f \<and> \<not> tst RX_FLAG_AMPDU_EOF_BIT f \<and>
     \<not> tst RX_FLAG_AMPDU_EOF_BIT_KNOWN f \<and> \<not> tst RX_FLAG_RADIOTAP_LSIG f \<and> \<not> tst RX_FLAG_RADIOTAP_TLV_AT_END f \<and>
     \<not> tst RX_FLAG_AMPDU_DETAILS f"

lemmas report_flag_values = RX_FLAG_RADIOTAP_HE_def RX_FLAG_RADIOTAP_HE_MU_def RX_FLAG_AMPDU_EOF_BIT_def
  RX_FLAG_AMPDU_EOF_BIT_KNOWN_def RX_FLAG_RADIOTAP_LSIG_def RX_FLAG_RADIOTAP_TLV_AT_END_def RX_FLAG_AMPDU_DETAILS_def

lemma report_keeps_flags:
  "report_keeps RX_FLAG_DECRYPTED" "report_keeps RX_FLAG_NO_PSDU"
  by (simp_all add: report_keeps_def tst_def report_flag_values RX_FLAG_DECRYPTED_def RX_FLAG_NO_PSDU_def)

lemma eof_flags:
  assumes "report_keeps f"
  shows "tst (eof_single queue pd m flag) f = tst flag f" "tst (eof_aggregate queue pd flag) f = tst flag f"
  using assms by (simp_all add: eof_single_def eof_aggregate_def tst_or report_keeps_def)

lemma part_flags:
  assumes "report_keeps f"
  shows "tst (ms_flag (he_phy_status queue pd s)) f = tst (ms_flag s) f"
    "tst (ms_flag (snd (iwl_mvm_decode_lsig pd s))) f = tst (ms_flag s) f"
    "tst (ms_flag (snd (iwl_mvm_add_rtap_sniffer_config a s))) f = tst (ms_flag s) f"
    "tst (ms_flag (snd (snd (iwl_mvm_rx_eht queue p80 pd s)))) f = tst (ms_flag s) f"
    "ms_flag (rx_fill_bw w s) = ms_flag s"
  using assms eof_flags [OF assms]
  by (simp_all add: he_phy_status_def he_rate_status_def ru_alloc_status_def Let_def iwl_mvm_decode_lsig_def
      iwl_mvm_add_rtap_sniffer_config_def iwl_mvm_rx_eht_def eht_rate_status iwl_mvm_decode_eht_phy_data_def
      iwl_mvm_decode_eht_ru_def rx_fill_bw_def tst_or report_keeps_def split: option.splits prod.splits)

lemma fill_status_flag:
  "report_keeps f \<Longrightarrow> iwl_mvm_rx_fill_status dev aid p80 queue pd s = Some (bytes, pd', s') \<Longrightarrow>
   tst (ms_flag s') f = tst (ms_flag s) f"
  by (auto simp: iwl_mvm_rx_fill_status_def rx_he_result Let_def split_beta part_flags split: if_splits)

lemmas fill_status_decrypted = fill_status_flag [OF report_keeps_flags(1)]

text \<open>
  The layout of a frame in the receive buffer: the length of the header with the cipher header, the padding
  behind it, and the length without padding and, unless the device keeps the checksum, without MIC.
\<close>

definition mpdu_pad :: "u8 list \<Rightarrow> nat" where
  "mpdu_pad d = (if tst (mac_flags2 (mpdu_desc_of d)) IWL_RX_MPDU_MFLG2_PAD then 2 else 0)"

lemma mpdu_pad_bound: "mpdu_pad d \<le> 2"
  by (simp add: mpdu_pad_def)

definition mpdu_bytes :: "rx_device \<Rightarrow> u8 list \<Rightarrow> u8 \<Rightarrow> u8 list \<Rightarrow> u8 list" where
  "mpdu_bytes dev d crypt_len frame =
     (let h = ieee80211_hdrlen (frame_control (hdr_of_bytes frame)) + unat crypt_len; n = unat (le16_at d 0) - mpdu_pad d;
          mic = unat (push_bit 1 (drop_bit 4 (mac_flags1 (mpdu_desc_of d) AND IWL_RX_MPDU_MFLG1_MIC_CRC_LEN_MASK)));
          n = (if mic < n \<and> \<not> rx_includes_fcs dev then n - mic else n)
      in get_bytes 0 h frame @ get_bytes (h + mpdu_pad d) (n - h) frame)"

lemma create_mpdu_skb:
  assumes sk: "iwl_mvm_create_skb dev push (128 - (mpdu_pad d + length radiotap)) frame (le16_at d 0) crypt_len
      (mpdu_desc_of d) skb = Some (Some skb')"
    and room: "length radiotap \<le> 68" "unat crypt_len \<le> 8"
    and len: "unat (le16_at d 0) \<le> length frame" "mpdu_pad d \<le> unat (le16_at d 0)"
  shows "skb_bytes frame skb' = mpdu_bytes dev d crypt_len frame"
    "mpdu_pad d + length radiotap + length (skb_head skb') \<le> 128"
proof -
  define h where "h = ieee80211_hdrlen (frame_control (hdr_of_bytes frame)) + unat crypt_len"
  have r: "h + 8 \<le> 128 - (mpdu_pad d + length radiotap)" "mpdu_pad d + length radiotap \<le> 128"
    using room hdrlen_bound [of "frame_control (hdr_of_bytes frame)"] mpdu_pad_bound [of d] unfolding h_def by simp_all
  define n where "n = unat (skb_len dev (mpdu_desc_of d) (le16_at d 0))"
  have n: "n = (let n = unat (le16_at d 0) - mpdu_pad d;
      mic = unat (push_bit 1 (drop_bit 4 (mac_flags1 (mpdu_desc_of d) AND IWL_RX_MPDU_MFLG1_MIC_CRC_LEN_MASK)))
     in if mic < n \<and> \<not> rx_includes_fcs dev then n - mic else n)"
    unfolding n_def Let_def
    using unat_skb_len [of "mpdu_desc_of d" "le16_at d 0" dev] len(2) unfolding mpdu_pad_def by (simp split: if_splits)
  have "n \<le> unat (le16_at d 0) - mpdu_pad d" unfolding n Let_def by auto
  then have np: "n + mpdu_pad d \<le> length frame" using len by linarith
  note bytes = create_skb_bytes [OF n_def h_def mpdu_pad_def r(1) np, of push skb]
  show "skb_bytes frame skb' = mpdu_bytes dev d crypt_len frame"
    using bytes sk by (auto simp: mpdu_bytes_def Let_def n h_def split: if_splits)
  show "mpdu_pad d + length radiotap + length (skb_head skb') \<le> 128"
    using bytes sk r(2) by (auto split: if_splits)
qed

section \<open>Properties\<close>

text \<open>A packet for the examples: a QoS data frame of station 0, protected and verified, in no block-ack session.\<close>

definition demo_packet :: "u8 \<Rightarrow> u8 \<Rightarrow> u8 list" where
  "demo_packet seq pn =
     [38, 0, 0, 0, 0, 0, 0, 0, 0, 0, 0, 0, 0x67, 2, 0, 0, 0, 0, 0, 0x7f, 0, 0, 0, 0, 0, 0, 0, 0, 0, 0, 0, 0,
      0, 0, 0, 0, 0x09, 0x4b, 0, 0, 40, 50, 36, 0, 0, 0, 0, 0, 0, 0, 0, 0, 0, 0, 0, 0, 0, 0, 0, 0, 0, 0, 0, 0] @
     demo_rx_frame 0x40 seq pn"

definition demo_env :: mpdu_env where
  "demo_env = \<lparr>env_dev = demo_rx_device, in_hw_restart = False, family_9000 = False, mpdu_notif_ver = 4, band_in_rx = False,
     num_stations = 1, cur_aid = 0, monitor_p80 = 0, time_sync_peer = [0, 0, 0, 0, 0, 0], alloc_ok = True,
     find_sta_by_ifaddr = (\<lambda>_. None), csum_push = (\<lambda>c _. c), boottime = 0, env_clock = demo_clock,
     env_time_before = (\<lambda>a b. a < b), tu_to_jiffies = (\<lambda>t. ucast t)\<rparr>"

definition demo_path :: mpdu_path where
  "demo_path = \<lparr>mp_mvm = \<lparr>baid_map = replicate 32 None, fw_id_to_mac_id = [Some demo_sta], queue_sync_cookie = 0,
       queue_sync_state = 0, sync_wakeups = 0\<rparr>,
     mp_stas = [demo_rx_station], ampdu_ref = 0, ampdu_toggle = False, pass_all = SCHED_SCAN_PASS_ALL_DISABLED\<rparr>"

text \<open>What becomes of it: the frame, and the path after it.\<close>

definition demo_frame :: "u8 \<Rightarrow> u8 \<Rightarrow> mpdu_frame" where
  "demo_frame seq pn = \<lparr>mf_status = zero_rx_status\<lparr>ms_flag := 0x200806, ms_freq := 5180, ms_encoding := RX_ENC_VHT, ms_bw := RATE_INFO_BW_40,
       ms_rate_idx := 9, ms_nss := 1, ms_band := NL80211_BAND_5GHZ, ms_signal := 216, ms_chains := 1, ms_chain_signal := (216, 206)\<rparr>,
     mf_radiotap = [], mf_frame = demo_rx_frame 0x40 seq pn,
     mf_skb = \<lparr>skb_head = demo_rx_frame 0x40 seq pn, skb_frag = None, skb_ip_summed = CHECKSUM_NONE, skb_csum = 0\<rparr>\<rparr>"

definition demo_path_at :: "u16 \<Rightarrow> u8 \<Rightarrow> mpdu_path" where
  "demo_path_at seq pn = demo_path\<lparr>mp_stas := [(demo_counted pn)\<lparr>dup_data :=
     [new_dup_data, new_dup_data\<lparr>last_seq := seq # replicate 8 0xffff\<rparr>]\<rparr>]\<rparr>"

lemma demo_rx:
  "iwl_mvm_rx_mpdu_mq demo_env 1 102 0 (demo_packet 16 1) demo_path =
     Some (demo_path_at 16 1, [Up 1 (Some 0) (demo_frame 16 1) 0x200c06, Csi_record (demo_packet 16 1)])"
  by code_simp

lemma demo_rx2:
  "iwl_mvm_rx_mpdu_mq demo_env 1 102 0 (demo_packet 32 2) (demo_path_at 16 1) =
     Some (demo_path_at 32 2, [Up 1 (Some 0) (demo_frame 32 2) 0x200c06, Csi_record (demo_packet 32 2)])"
  by code_simp

lemma demo_accept:
  "map_option snd (mpdu_accept demo_env 1 102 0 (demo_packet 16 1) demo_path) = Some ([], Some (Some 0, demo_frame 16 1))"
  "map_option snd (mpdu_accept demo_env 1 102 0 (demo_packet 32 2) (demo_path_at 16 1)) = Some ([], Some (Some 0, demo_frame 32 2))"
  by code_simp+

lemma demo_accepts:
  obtains p where "mpdu_accept demo_env 1 102 0 (demo_packet 16 1) demo_path = Some (p, [], Some (Some 0, demo_frame 16 1))"
  using demo_accept(1) by (auto simp: map_option_case split: option.splits)

lemma demo_accepts2:
  obtains p where "mpdu_accept demo_env 1 102 0 (demo_packet 32 2) (demo_path_at 16 1) = Some (p, [], Some (Some 0, demo_frame 32 2))"
  using demo_accept(2) by (auto simp: map_option_case split: option.splits)



text \<open>The start of a run: consistent sessions that hold no frames, stations whose counters are complete, empty logs.\<close>

definition mpdu_start :: "nat \<Rightarrow> mpdu_run \<Rightarrow> bool" where
  "mpdu_start nq r \<longleftrightarrow> mvm_ok nq (mp_mvm (mr_path r)) \<and> mvm_frames (mp_mvm (mr_path r)) = {#} \<and>
     list_all (keys_ok nq) (mp_stas (mr_path r)) \<and> mr_accepted r = {#} \<and> mr_events r = [] \<and> (\<forall>i. mr_pn r i = [])"

lemma mpdu_start_inv: "mpdu_start nq r \<Longrightarrow> mpdu_inv nq r"
  by (simp add: mpdu_start_def mpdu_inv_def stas_ok_def pn_inv_def list_all_length)

text \<open>C1: Every frame the path accepts is accounted for. Over any run of packets, releases and key changes on the receive
  queues, the accepted frames are exactly those that went up to mac80211, were refused for their packet number, were
  put aside for the time synchronisation or freed by the reorder buffer, each once, and those that still wait in a
  reorder buffer; and the sessions stay consistent.\<close>

theorem accepted_frames_accounted:
  assumes "(mpdu_step nq)\<^sup>*\<^sup>* r r'" "mpdu_start nq r"
  shows "mvm_ok nq (mp_mvm (mr_path r')) \<and>
    mr_accepted r' = left_path (mr_events r') + mvm_frames (mp_mvm (mr_path r'))"
  using mpdu_runs.inv_run [OF assms(1) mpdu_start_inv [OF assms(2)]] by (simp add: mpdu_inv_def)


text \<open>A run of two packets.\<close>

definition demo_mpdu_run :: mpdu_run where
  "demo_mpdu_run = \<lparr>mr_path = demo_path, mr_accepted = {#}, mr_events = [], mr_epoch = \<lambda>i k. 0, mr_pn = \<lambda>i. []\<rparr>"

definition demo_mpdu_run1 :: mpdu_run where
  "demo_mpdu_run1 = mpdu_note (demo_path_at 16 1) {#demo_frame 16 1#}
     [Up 1 (Some 0) (demo_frame 16 1) 0x200c06, Csi_record (demo_packet 16 1)] demo_mpdu_run"

definition demo_mpdu_run2 :: mpdu_run where
  "demo_mpdu_run2 = mpdu_note (demo_path_at 32 2) {#demo_frame 32 2#}
     [Up 1 (Some 0) (demo_frame 32 2) 0x200c06, Csi_record (demo_packet 32 2)] demo_mpdu_run1"

lemma demo_mpdu_start: "mpdu_start 2 demo_mpdu_run"
proof -
  have m: "baid_map (mp_mvm demo_path) = replicate 32 None" by (simp add: demo_path_def)
  have "sum_list (map option_frames (replicate n None)) = {#}" for n by (induction n) (simp_all add: option_frames_def)
  then have "mvm_ok 2 (mp_mvm demo_path)" "mvm_frames (mp_mvm demo_path) = {#}"
    unfolding mvm_ok_def mvm_frames_def IWL_MAX_BAID_def m by auto
  then show ?thesis using demo_rx_station_ok(1) by (simp add: mpdu_start_def demo_mpdu_run_def) (simp add: demo_path_def)
qed

lemma demo_mpdu_steps: "(mpdu_step 2)\<^sup>*\<^sup>* demo_mpdu_run demo_mpdu_run2"
proof -
  obtain p1 where a1: "mpdu_accept demo_env 1 102 0 (demo_packet 16 1) (mr_path demo_mpdu_run) = Some (p1, [], Some (Some 0, demo_frame 16 1))"
    using demo_accepts by (auto simp: demo_mpdu_run_def)
  have "mpdu_step 2 demo_mpdu_run demo_mpdu_run1"
    using mpdu_step.packet [OF _ a1, of 2 "demo_path_at 16 1"] demo_rx by (simp add: demo_mpdu_run1_def demo_mpdu_run_def)
  moreover obtain p2 where a2: "mpdu_accept demo_env 1 102 0 (demo_packet 32 2) (mr_path demo_mpdu_run1) = Some (p2, [], Some (Some 0, demo_frame 32 2))"
    using demo_accepts2 by (auto simp: demo_mpdu_run1_def mpdu_note_def)
  have "mpdu_step 2 demo_mpdu_run1 demo_mpdu_run2"
    using mpdu_step.packet [OF _ a2, of 2 "demo_path_at 32 2"] demo_rx2 by (simp add: demo_mpdu_run2_def demo_mpdu_run1_def mpdu_note_def)
  ultimately show ?thesis by (meson converse_rtranclp_into_rtranclp r_into_rtranclp)
qed

lemma demo_up:
  "up_entry i ep (Up 1 (Some 0) (demo_frame 16 1) fl) =
     (if i = 0 then [\<lparr>e_key = 0, e_epoch = ep 0, e_queue = 1, e_tid = 0, e_pn = 1, e_same = False\<rparr>] else [])"
  "up_entry i ep (Up 1 (Some 0) (demo_frame 32 2) fl) =
     (if i = 0 then [\<lparr>e_key = 0, e_epoch = ep 0, e_queue = 1, e_tid = 0, e_pn = 2, e_same = False\<rparr>] else [])"
proof -
  have "extiv_pn (frame_extiv (demo_rx_frame 0x40 16 1)) = [0, 0, 0, 0, 0, 1]"
    "extiv_pn (frame_extiv (demo_rx_frame 0x40 32 2)) = [0, 0, 0, 0, 0, 2]" by code_simp+
  then have pn: "frame_pn (demo_rx_frame 0x40 16 1) = 1" "frame_pn (demo_rx_frame 0x40 32 2) = 2" by (simp_all add: frame_pn_def)
  have c: "pn_checked 1 (demo_rx_frame 0x40 16 1) 0x200806" "pn_checked 1 (demo_rx_frame 0x40 32 2) 0x200806"
    "\<not> tst 0x200806 RX_FLAG_ALLOW_SAME_PN" by code_simp+
  have f: "skb_head (mf_skb (demo_frame a b)) = demo_rx_frame 0x40 a b" "ms_flag (mf_status (demo_frame a b)) = 0x200806" for a b
    by (simp_all add: demo_frame_def)
  show "up_entry i ep (Up 1 (Some 0) (demo_frame 16 1) fl) =
     (if i = 0 then [\<lparr>e_key = 0, e_epoch = ep 0, e_queue = 1, e_tid = 0, e_pn = 1, e_same = False\<rparr>] else [])"
    "up_entry i ep (Up 1 (Some 0) (demo_frame 32 2) fl) =
     (if i = 0 then [\<lparr>e_key = 0, e_epoch = ep 0, e_queue = 1, e_tid = 0, e_pn = 2, e_same = False\<rparr>] else [])"
    unfolding up_entry.simps f using c pn demo_frame_facts(1-4) by simp_all
qed

lemma demo_mpdu_log:
  "mr_pn demo_mpdu_run2 0 = map (\<lambda>n. \<lparr>e_key = 0, e_epoch = 0, e_queue = 1, e_tid = 0, e_pn = n, e_same = False\<rparr>) [1, 2]"
  by (simp add: demo_mpdu_run2_def demo_mpdu_run1_def demo_mpdu_run_def mpdu_note_def demo_up [unfolded One_nat_def] del: up_entry.simps(1))

theorem accepted_frames_accounted_witness:
  "{#demo_frame 16 1, demo_frame 32 2#} = left_path (mr_events demo_mpdu_run2) + mvm_frames (mp_mvm (mr_path demo_mpdu_run2))"
  using accepted_frames_accounted [OF demo_mpdu_steps demo_mpdu_start]
  by (simp add: demo_mpdu_run2_def demo_mpdu_run1_def demo_mpdu_run_def mpdu_note_def)


end
