(* ===== verification/Rx_No_Data.thy ===== *)
theory Rx_No_Data
  imports Rx_Mpdu
begin

text \<open>
  Frames without data that a monitor interface reports (mvm/rxmq.c: \<open>iwl_mvm_rx_monitor_no_data\<close>): sounding
  frames and frames that the device did not capture. The PHY data is a variable on the stack that the function
  fills only in part; what it held before is an argument of the model. The property says what is reported,
  and where the old contents of the stack show in it.
\<close>

unbundle bit_operations_syntax

section \<open>The notification\<close>

definition RX_NO_DATA_CHAIN_A_MSK :: u32 where "RX_NO_DATA_CHAIN_A_MSK = 0xff"
definition RX_NO_DATA_CHAIN_B_MSK :: u32 where "RX_NO_DATA_CHAIN_B_MSK = 0xff00"
definition RX_NO_DATA_CHANNEL_MSK :: u32 where "RX_NO_DATA_CHANNEL_MSK = 0xff0000"
definition RX_NO_DATA_INFO_TYPE_MSK :: u32 where "RX_NO_DATA_INFO_TYPE_MSK = 0xff"
definition RX_NO_DATA_INFO_TYPE_NDP :: u32 where "RX_NO_DATA_INFO_TYPE_NDP = 2"
definition RX_NO_DATA_INFO_TYPE_MU_UNMATCHED :: u32 where "RX_NO_DATA_INFO_TYPE_MU_UNMATCHED = 3"
definition RX_NO_DATA_INFO_TYPE_TB_UNMATCHED :: u32 where "RX_NO_DATA_INFO_TYPE_TB_UNMATCHED = 4"
definition RX_NO_DATA_RX_VEC0_HE_NSTS_MSK :: u32 where "RX_NO_DATA_RX_VEC0_HE_NSTS_MSK = 0x03800000"
definition RX_NO_DATA_RX_VEC0_VHT_NSTS_MSK :: u32 where "RX_NO_DATA_RX_VEC0_VHT_NSTS_MSK = 0x38000000"
definition RX_NO_DATA_RX_VEC2_EHT_NSTS_MSK :: u32 where "RX_NO_DATA_RX_VEC2_EHT_NSTS_MSK = 0x00f00000"
definition IEEE80211_RADIOTAP_ZERO_LEN_PSDU_SOUNDING :: u8 where "IEEE80211_RADIOTAP_ZERO_LEN_PSDU_SOUNDING = 0"
definition IEEE80211_RADIOTAP_ZERO_LEN_PSDU_NOT_CAPTURED :: u8 where "IEEE80211_RADIOTAP_ZERO_LEN_PSDU_NOT_CAPTURED = 1"
definition IEEE80211_RADIOTAP_ZERO_LEN_PSDU_VENDOR :: u8 where "IEEE80211_RADIOTAP_ZERO_LEN_PSDU_VENDOR = 0xff"

text \<open>The sizes of the notification up to its second version and from the third on.\<close>

definition SIZEOF_RX_NO_DATA :: u32 where "SIZEOF_RX_NO_DATA = 36"
definition SIZEOF_RX_NO_DATA_VER_3 :: u32 where "SIZEOF_RX_NO_DATA_VER_3 = 44"

definition no_data_rx_vec :: "u8 list \<Rightarrow> nat \<Rightarrow> u32" where
  "no_data_rx_vec d i = le32_at d (28 + 4 * i)"

text \<open>The PHY data: the fields that the function sets, over what the variable held before.\<close>

definition no_data_rate :: "nat \<Rightarrow> u8 list \<Rightarrow> u32" where
  "no_data_rate ver d = (if ver < 2 then iwl_new_rate_from_v1 (le32_at d 16) else le32_at d 16)"

definition no_data_phy :: "nat \<Rightarrow> u8 list \<Rightarrow> iwl_mvm_rx_phy_data \<Rightarrow> iwl_mvm_rx_phy_data" where
  "no_data_phy ver d stack =
     (let rssi = le32_at d 4;
          pd = stack\<lparr>pd_d0 := le32_at d 20, pd_d1 := le32_at d 24, pd_phy_info := IWL_RX_MPDU_PHY_TSF_OVERLOAD,
                 pd_gp2_on_air_rise := le32_at d 8, pd_rate_n_flags := no_data_rate ver d,
                 pd_energy_a := ucast (get_bits rssi RX_NO_DATA_CHAIN_A_MSK),
                 pd_energy_b := ucast (get_bits rssi RX_NO_DATA_CHAIN_B_MSK),
                 pd_channel := ucast (get_bits rssi RX_NO_DATA_CHANNEL_MSK), pd_with_data := False\<rparr>
      in if 3 \<le> ver then pd\<lparr>pd_rx_vec := map (no_data_rx_vec d) [0..<4]\<rparr> else pd)"

definition no_data_psdu :: "u32 \<Rightarrow> u8" where
  "no_data_psdu info_type =
     (if info_type = RX_NO_DATA_INFO_TYPE_NDP then IEEE80211_RADIOTAP_ZERO_LEN_PSDU_SOUNDING
      else if info_type = RX_NO_DATA_INFO_TYPE_MU_UNMATCHED \<or> info_type = RX_NO_DATA_INFO_TYPE_TB_UNMATCHED
      then IEEE80211_RADIOTAP_ZERO_LEN_PSDU_NOT_CAPTURED
      else IEEE80211_RADIOTAP_ZERO_LEN_PSDU_VENDOR)"

text \<open>The number of streams, which the rate word is too narrow for.\<close>

definition no_data_nss :: "u32 \<Rightarrow> u8 list \<Rightarrow> mvm_rx_status \<Rightarrow> mvm_rx_status" where
  "no_data_nss format d s =
     (if format = RATE_MCS_VHT_MSK
      then s\<lparr>ms_nss := ucast (get_bits (no_data_rx_vec d 0) RX_NO_DATA_RX_VEC0_VHT_NSTS_MSK + 1)\<rparr>
      else if format = RATE_MCS_HE_MSK
      then s\<lparr>ms_nss := ucast (get_bits (no_data_rx_vec d 0) RX_NO_DATA_RX_VEC0_HE_NSTS_MSK + 1)\<rparr>
      else if format = RATE_MCS_EHT_MSK
      then s\<lparr>ms_nss := ucast (get_bits (no_data_rx_vec d 2) RX_NO_DATA_RX_VEC2_EHT_NSTS_MSK + 1)\<rparr>
      else s)"

text \<open>
  The handler: the bytes of the socket buffer, which are radiotap fields only, and the report, or nothing if
  the notification is ignored. \<open>ver\<close> is the version of the notification.
\<close>

definition iwl_mvm_rx_monitor_no_data ::
  "mpdu_env \<Rightarrow> nat \<Rightarrow> nat \<Rightarrow> u32 \<Rightarrow> u8 list \<Rightarrow> iwl_mvm_rx_phy_data \<Rightarrow> (u8 list \<times> mvm_rx_status) option"
where
  "iwl_mvm_rx_monitor_no_data env ver queue pkt_len d stack =
     (let pd = no_data_phy ver d stack; format = pd_rate_n_flags pd AND RATE_MCS_MOD_TYPE_MSK in
      if in_hw_restart env \<or> pkt_len < SIZEOF_RX_NO_DATA then None
      else if 3 \<le> ver \<and> pkt_len < SIZEOF_RX_NO_DATA_VER_3 then None
      else if ver < 3 \<and> format = RATE_MCS_EHT_MSK then None
      else if \<not> alloc_ok env then None
      else
        (let s = zero_rx_status\<lparr>ms_flag := RX_FLAG_NO_PSDU,
               ms_zero_length_psdu_type := no_data_psdu (le32_at d 0 AND RX_NO_DATA_INFO_TYPE_MSK),
               ms_band := (if 14 < pd_channel pd then NL80211_BAND_5GHZ else NL80211_BAND_2GHZ)\<rparr>
         in map_option (\<lambda>(radiotap, pd, s). (radiotap, no_data_nss format d s))
              (iwl_mvm_rx_fill_status (env_dev env) (cur_aid env) (monitor_p80 env) queue pd s)))"

section \<open>What the report depends on\<close>

lemma no_data_phy_fields [simp]:
  "pd_rate_n_flags (no_data_phy ver d stack) = no_data_rate ver d" "pd_d1 (no_data_phy ver d stack) = le32_at d 24"
  "pd_phy_info (no_data_phy ver d stack) = IWL_RX_MPDU_PHY_TSF_OVERLOAD" "pd_d2 (no_data_phy ver d stack) = pd_d2 stack"
  "pd_gp2_on_air_rise (no_data_phy ver d stack) = le32_at d 8"
  "pd_energy_a (no_data_phy ver d stack) = ucast (get_bits (le32_at d 4) RX_NO_DATA_CHAIN_A_MSK)"
  "pd_energy_b (no_data_phy ver d stack) = ucast (get_bits (le32_at d 4) RX_NO_DATA_CHAIN_B_MSK)"
  "pd_channel (no_data_phy ver d stack) = ucast (get_bits (le32_at d 4) RX_NO_DATA_CHANNEL_MSK)"
  by (simp_all add: no_data_phy_def Let_def)

lemma overload [simp]: "tst IWL_RX_MPDU_PHY_TSF_OVERLOAD IWL_RX_MPDU_PHY_TSF_OVERLOAD"
  by (simp add: tst_def IWL_RX_MPDU_PHY_TSF_OVERLOAD_def)

text \<open>Without HE and EHT fields the PHY data enters by the words that the function sets.\<close>

lemma fill_status_legacy:
  assumes "rate_fmt_v2 (no_data_rate ver d) \<noteq> Fmt_HE" "rate_fmt_v2 (no_data_rate ver d) \<noteq> Fmt_EHT"
  shows "map_option (\<lambda>(b, pd, s). (b, f s)) (iwl_mvm_rx_fill_status dev aid p80 queue (no_data_phy ver d stack) s) =
    map_option (\<lambda>(b, pd, s). (b, f s)) (iwl_mvm_rx_fill_status dev aid p80 queue (no_data_phy ver d stack') s)"
  using assms by (simp add: iwl_mvm_rx_fill_status_def Let_def format_is iwl_mvm_decode_lsig_def split_beta)

text \<open>The spatial reuse fields of a trigger-based frame with an extended report, in their place.\<close>

lemma dec_enc_in_place:
  fixes w :: u32 and m' :: u16
  assumes "field_shift m = s" "field_shift m' = s" "m = push_bit s 0xF" "m' = push_bit s 0xF" "s \<le> 12"
  shows "dec_enc w m m' = ucast w AND m'"
proof (rule bit_word_eqI)
  fix n assume n: "n < LENGTH(16)"
  have "bit (ucast (drop_bit s (w AND m)) :: u16) (n - s) = (bit w n \<and> bit m n)" if "s \<le> n"
    using that n by (auto simp: bit_simps)
  moreover have "bit m n = bit m' n"
    using n assms(5) unfolding assms(3,4) by (auto simp: bit_simps bit_numeral_rec)
  moreover have "s \<le> n" if "bit m' n"
    using that unfolding assms(4) by (simp add: bit_simps)
  ultimately show "bit (dec_enc w m m') n = bit (ucast w AND m') n"
    using n by (auto simp: dec_enc_def encode_bits_def get_bits_def assms(1,2) bit_simps)
qed

lemma tb_ext_reuse:
  "dec_enc w IWL_RX_PHY_DATA2_HE_TB_EXT_SPTL_REUSE1 IEEE80211_RADIOTAP_HE_DATA4_TB_SPTL_REUSE1 OR
   dec_enc w IWL_RX_PHY_DATA2_HE_TB_EXT_SPTL_REUSE2 IEEE80211_RADIOTAP_HE_DATA4_TB_SPTL_REUSE2 OR
   dec_enc w IWL_RX_PHY_DATA2_HE_TB_EXT_SPTL_REUSE3 IEEE80211_RADIOTAP_HE_DATA4_TB_SPTL_REUSE3 OR
   dec_enc w IWL_RX_PHY_DATA2_HE_TB_EXT_SPTL_REUSE4 IEEE80211_RADIOTAP_HE_DATA4_TB_SPTL_REUSE4 = (ucast w :: u16)"
proof -
  have "dec_enc w IWL_RX_PHY_DATA2_HE_TB_EXT_SPTL_REUSE1 IEEE80211_RADIOTAP_HE_DATA4_TB_SPTL_REUSE1 = ucast w AND 0xF"
    by (subst dec_enc_in_place [where s = 0]) (simp_all add: eht_eval)
  moreover have "dec_enc w IWL_RX_PHY_DATA2_HE_TB_EXT_SPTL_REUSE2 IEEE80211_RADIOTAP_HE_DATA4_TB_SPTL_REUSE2 = ucast w AND 0xF0"
    by (subst dec_enc_in_place [where s = 4]) (simp_all add: eht_eval)
  moreover have "dec_enc w IWL_RX_PHY_DATA2_HE_TB_EXT_SPTL_REUSE3 IEEE80211_RADIOTAP_HE_DATA4_TB_SPTL_REUSE3 = ucast w AND 0xF00"
    by (subst dec_enc_in_place [where s = 8]) (simp_all add: eht_eval)
  moreover have "dec_enc w IWL_RX_PHY_DATA2_HE_TB_EXT_SPTL_REUSE4 IEEE80211_RADIOTAP_HE_DATA4_TB_SPTL_REUSE4 = ucast w AND 0xF000"
    by (subst dec_enc_in_place [where s = 12]) (simp_all add: eht_eval)
  moreover have "x AND 0xF OR x AND 0xF0 OR x AND 0xF00 OR x AND 0xF000 = x" for x :: u16
  proof -
    have "x AND 0xF OR x AND 0xF0 OR x AND 0xF00 OR x AND 0xF000 = x AND (0xF OR (0xF0 OR (0xF00 OR 0xF000)))"
      by (simp only: bit.conj_disj_distrib or.assoc)
    also have "(0xF OR (0xF0 OR (0xF00 OR 0xF000)) :: u16) = - 1" by simp
    finally show ?thesis by simp
  qed
  ultimately show ?thesis
    by simp
qed

lemma tb_ext_data4:
  assumes "pd_info_type pd = IWL_RX_PHY_INFO_TYPE_HE_TB_EXT" "tst (pd_phy_info pd) IWL_RX_MPDU_PHY_TSF_OVERLOAD"
  shows "he_data4 (he_rate_fields w (he_phy_fields pd)) = ucast (pd_d2 pd)"
  using assms tb_ext_reuse [of "pd_d2 pd"]
  by (simp add: he_parts he_all_types_def he_mu_type_def)

lemma he_bytes_data4: "take 2 (drop 6 (he_bytes he)) = le_bytes 2 (he_data4 he)"
  by (simp add: he_bytes_def)

text \<open>The fields of a report that its parts leave alone, and those that the report sets.\<close>

definition report_basics where
  "report_basics s = (ms_zero_length_psdu_type s, ms_band s, ms_nss s, ms_encoding s)"

definition report_signal where
  "report_signal s = (ms_device_timestamp s, ms_freq s, ms_signal s, ms_chain_signal s)"

lemma report_parts [simp]:
  "report_basics (he_phy_status queue pd s) = report_basics s"
  "report_basics (snd (iwl_mvm_decode_lsig pd s)) = report_basics s"
  "report_basics (iwl_mvm_get_signal_strength w ea eb s) = report_basics s"
  "report_basics (snd (iwl_mvm_add_rtap_sniffer_config a s)) = report_basics s"
  "report_basics (snd (snd (iwl_mvm_rx_eht queue p80 pd s))) = report_basics s"
  "report_basics (rx_fill_bw w s) = report_basics s"
  "report_signal (snd (iwl_mvm_add_rtap_sniffer_config a s)) = report_signal s"
  "report_signal (snd (snd (iwl_mvm_rx_eht queue p80 pd s))) = report_signal s"
  by (simp_all add: report_basics_def report_signal_def he_phy_status_def he_rate_status_def ru_alloc_status_def Let_def
      iwl_mvm_decode_lsig_def iwl_mvm_get_signal_strength_def iwl_mvm_add_rtap_sniffer_config_def iwl_mvm_rx_eht_def
      eht_rate_status iwl_mvm_decode_eht_phy_data_def iwl_mvm_decode_eht_ru_def rx_fill_bw_def
      split: option.splits prod.splits)

lemma fill_status_last:
  assumes "iwl_mvm_rx_fill_status dev aid p80 queue pd s = Some (bytes, pd', s')"
  obtains s1 s2 where "s' = rx_fill_rate (pd_rate_n_flags pd) (rx_fill_encoding (pd_rate_n_flags pd) s1)"
    "report_basics s1 = report_basics s" "report_signal s1 = report_signal (iwl_mvm_get_signal_strength (pd_rate_n_flags pd)
       (pd_energy_a pd) (pd_energy_b pd) (s2\<lparr>ms_device_timestamp := pd_gp2_on_air_rise pd,
          ms_freq := ieee80211_channel_to_frequency (uint (pd_channel pd)) (ms_band s)\<rparr>))"
proof -
  note c = fill_status_composition [OF assms]
  have clear: "report_basics (s2\<lparr>ms_device_timestamp := t, ms_freq := f\<rparr>) = report_basics s2" for s2 t f
    by (simp add: report_basics_def)
  have "report_basics (snd (iwl_mvm_decode_lsig pd' (status_he queue pd' s))) = report_basics s"
    by (simp add: status_he_def)
  then have "ms_band (snd (iwl_mvm_decode_lsig pd' (status_he queue pd' s))) = ms_band s"
    by (simp add: report_basics_def)
  then show thesis
    by (intro that [OF c(2), of "snd (iwl_mvm_decode_lsig pd' (status_he queue pd' s))"])
      (simp_all add: status_parts_def status_eht_def status_signal_def status_he_def Let_def clear c(1) with_info_type_def)
qed

lemma fill_rate_basics:
  "ms_zero_length_psdu_type (rx_fill_rate w (rx_fill_encoding w s)) = ms_zero_length_psdu_type s"
  "rate_fmt_v2 w \<notin> {Fmt_VHT, Fmt_HE, Fmt_EHT} \<Longrightarrow> ms_nss (rx_fill_rate w (rx_fill_encoding w s)) = ms_nss s"
  "report_signal (rx_fill_rate w (rx_fill_encoding w s)) = report_signal s"
  "ms_band (rx_fill_rate w (rx_fill_encoding w s)) = ms_band s"
  unfolding fill_rate_unfold fill_encoding_unfold by (auto simp: report_signal_def)

lemma fill_status_values:
  assumes "iwl_mvm_rx_fill_status dev aid p80 queue pd s = Some (bytes, pd', s')"
  shows "ms_zero_length_psdu_type s' = ms_zero_length_psdu_type s" "ms_band s' = ms_band s"
    "ms_device_timestamp s' = pd_gp2_on_air_rise pd"
    "ms_freq s' = ieee80211_channel_to_frequency (uint (pd_channel pd)) (ms_band s)"
    "ms_chain_signal s' = (word_of_int (if pd_energy_a pd \<noteq> 0 then - uint (pd_energy_a pd) else - 128),
       word_of_int (if pd_energy_b pd \<noteq> 0 then - uint (pd_energy_b pd) else - 128))"
    "rate_fmt_v2 (pd_rate_n_flags pd) \<notin> {Fmt_VHT, Fmt_HE, Fmt_EHT} \<Longrightarrow> ms_nss s' = ms_nss s"
proof -
  obtain s1 s2 where c: "s' = rx_fill_rate (pd_rate_n_flags pd) (rx_fill_encoding (pd_rate_n_flags pd) s1)"
    "report_basics s1 = report_basics s" "report_signal s1 = report_signal (iwl_mvm_get_signal_strength (pd_rate_n_flags pd)
       (pd_energy_a pd) (pd_energy_b pd) (s2\<lparr>ms_device_timestamp := pd_gp2_on_air_rise pd,
          ms_freq := ieee80211_channel_to_frequency (uint (pd_channel pd)) (ms_band s)\<rparr>))"
    using fill_status_last [OF assms] .
  have sig: "report_signal s' = report_signal s1" unfolding c(1) by (rule fill_rate_basics)
  have b: "ms_zero_length_psdu_type s1 = ms_zero_length_psdu_type s" "ms_band s1 = ms_band s" "ms_nss s1 = ms_nss s"
    using c(2) by (simp_all add: report_basics_def)
  show "ms_zero_length_psdu_type s' = ms_zero_length_psdu_type s" "ms_band s' = ms_band s"
    unfolding c(1) fill_rate_basics by (fact b)+
  show "ms_nss s' = ms_nss s" if "rate_fmt_v2 (pd_rate_n_flags pd) \<notin> {Fmt_VHT, Fmt_HE, Fmt_EHT}"
    unfolding c(1) fill_rate_basics(2) [OF that] by (fact b)
  show "ms_device_timestamp s' = pd_gp2_on_air_rise pd"
    "ms_freq s' = ieee80211_channel_to_frequency (uint (pd_channel pd)) (ms_band s)"
    "ms_chain_signal s' = (word_of_int (if pd_energy_a pd \<noteq> 0 then - uint (pd_energy_a pd) else - 128),
       word_of_int (if pd_energy_b pd \<noteq> 0 then - uint (pd_energy_b pd) else - 128))"
    using sig unfolding c(3) by (simp_all add: report_signal_def iwl_mvm_get_signal_strength_def Let_def S8_MIN_def)
qed

section \<open>What is reported\<close>

text \<open>The bit fields of the notification.\<close>

lemma no_data_fields:
  "get_bits w RX_NO_DATA_CHAIN_A_MSK = take_bit 8 w" "get_bits w RX_NO_DATA_CHAIN_B_MSK = take_bit 8 (drop_bit 8 w)"
  "get_bits w RX_NO_DATA_CHANNEL_MSK = take_bit 8 (drop_bit 16 w)"
  "get_bits w RX_NO_DATA_RX_VEC0_VHT_NSTS_MSK = take_bit 3 (drop_bit 27 w)"
  "get_bits w RX_NO_DATA_RX_VEC0_HE_NSTS_MSK = take_bit 3 (drop_bit 23 w)"
  "get_bits w RX_NO_DATA_RX_VEC2_EHT_NSTS_MSK = take_bit 4 (drop_bit 20 w)"
  "w AND RX_NO_DATA_INFO_TYPE_MSK = take_bit 8 w"
  by (simp_all add: get_bits_max mask_eval RX_NO_DATA_CHAIN_A_MSK_def RX_NO_DATA_CHAIN_B_MSK_def RX_NO_DATA_CHANNEL_MSK_def
      RX_NO_DATA_RX_VEC0_VHT_NSTS_MSK_def RX_NO_DATA_RX_VEC0_HE_NSTS_MSK_def RX_NO_DATA_RX_VEC2_EHT_NSTS_MSK_def
      RX_NO_DATA_INFO_TYPE_MSK_def take_bit_eq_mask mask_eq_exp_minus_1)

lemma no_data_byte: "uint (ucast (take_bit 8 w :: u32) :: u8) = uint (take_bit 8 w)"
  by (simp add: unsigned_ucast_eq take_bit_word_eq_self unsigned_take_bit_eq)

lemma no_data_byte_0: "(ucast (take_bit 8 w :: u32) :: u8) = 0 \<longleftrightarrow> take_bit 8 w = 0"
  by (metis no_data_byte unsigned_0 unsigned_word_eqI)

lemma unat_no_data_nss:
  "n \<le> 4 \<Longrightarrow> unat (ucast (take_bit n w + 1 :: u32) :: u8) = 1 + unat (take_bit n w)"
proof -
  assume n: "n \<le> 4"
  have "unat (take_bit n w) < 2 ^ n" by (simp add: unsigned_take_bit_eq)
  also have "(2 :: nat) ^ n \<le> 2 ^ 4" using n by (intro power_increasing) simp_all
  finally have "unat (take_bit n w) < 16" by simp
  then show ?thesis
    by (simp add: unsigned_ucast_eq unat_word_ariths take_bit_nat_eq_self)
qed

text \<open>When the notification is ignored.\<close>

definition no_data_ignored :: "mpdu_env \<Rightarrow> nat \<Rightarrow> u32 \<Rightarrow> u8 list \<Rightarrow> bool" where
  "no_data_ignored env ver pkt_len d \<longleftrightarrow> in_hw_restart env \<or> \<not> alloc_ok env \<or>
     unat pkt_len < (if ver < 3 then 36 else 44) \<or> ver < 3 \<and> rate_fmt_v2 (no_data_rate ver d) = Fmt_EHT"

text \<open>What an accepted notification says: kind, energy of a chain in dBm, channel, and number of streams.\<close>

definition no_data_kind :: "u8 list \<Rightarrow> u8" where
  "no_data_kind d = (let t = take_bit 8 (le32_at d 0) in if t = 2 then 0 else if t = 3 \<or> t = 4 then 1 else 255)"

definition no_data_energy :: "u8 list \<Rightarrow> nat \<Rightarrow> u8" where
  "no_data_energy d chain =
     (let b = take_bit 8 (drop_bit (8 * chain) (le32_at d 4)) in word_of_int (if b = 0 then - 128 else - uint b))"

definition no_data_channel :: "u8 list \<Rightarrow> int" where
  "no_data_channel d = uint (take_bit 8 (drop_bit 16 (le32_at d 4)))"

definition no_data_streams :: "rate_fmt \<Rightarrow> u8 list \<Rightarrow> nat" where
  "no_data_streams f d =
     (case f of Fmt_VHT \<Rightarrow> 1 + unat (take_bit 3 (drop_bit 27 (le32_at d 28)))
      | Fmt_HE \<Rightarrow> 1 + unat (take_bit 3 (drop_bit 23 (le32_at d 28)))
      | Fmt_EHT \<Rightarrow> 1 + unat (take_bit 4 (drop_bit 20 (le32_at d 36)))
      | _ \<Rightarrow> 0)"

definition no_data_band :: "u8 list \<Rightarrow> nl80211_band" where
  "no_data_band d = (if 14 < no_data_channel d then NL80211_BAND_5GHZ else NL80211_BAND_2GHZ)"

definition no_data_status :: "u8 list \<Rightarrow> mvm_rx_status" where
  "no_data_status d = zero_rx_status\<lparr>ms_flag := RX_FLAG_NO_PSDU, ms_zero_length_psdu_type := no_data_kind d,
     ms_band := no_data_band d\<rparr>"

lemma no_data_phy_read:
  "no_data_psdu (le32_at d 0 AND RX_NO_DATA_INFO_TYPE_MSK) = no_data_kind d"
  "uint (pd_channel (no_data_phy ver d stack)) = no_data_channel d"
  "(14 < pd_channel (no_data_phy ver d stack)) = (14 < no_data_channel d)"
  "word_of_int (if pd_energy_a (no_data_phy ver d stack) \<noteq> 0 then - uint (pd_energy_a (no_data_phy ver d stack)) else - 128)
     = no_data_energy d 0"
  "word_of_int (if pd_energy_b (no_data_phy ver d stack) \<noteq> 0 then - uint (pd_energy_b (no_data_phy ver d stack)) else - 128)
     = no_data_energy d 1"
  by (simp_all add: no_data_fields no_data_byte no_data_byte_0 no_data_psdu_def no_data_kind_def no_data_energy_def
      no_data_channel_def word_less_def Let_def RX_NO_DATA_INFO_TYPE_NDP_def RX_NO_DATA_INFO_TYPE_MU_UNMATCHED_def
      RX_NO_DATA_INFO_TYPE_TB_UNMATCHED_def IEEE80211_RADIOTAP_ZERO_LEN_PSDU_SOUNDING_def
      IEEE80211_RADIOTAP_ZERO_LEN_PSDU_NOT_CAPTURED_def IEEE80211_RADIOTAP_ZERO_LEN_PSDU_VENDOR_def)

lemma no_data_result:
  "iwl_mvm_rx_monitor_no_data env ver queue pkt_len d stack =
     (if no_data_ignored env ver pkt_len d then None
      else map_option (\<lambda>(radiotap, pd, s). (radiotap, no_data_nss (no_data_rate ver d AND RATE_MCS_MOD_TYPE_MSK) d s))
        (iwl_mvm_rx_fill_status (env_dev env) (cur_aid env) (monitor_p80 env) queue (no_data_phy ver d stack) (no_data_status d)))"
proof -
  have "zero_rx_status\<lparr>ms_flag := RX_FLAG_NO_PSDU, ms_zero_length_psdu_type := no_data_psdu (le32_at d 0 AND RX_NO_DATA_INFO_TYPE_MSK),
      ms_band := (if 14 < pd_channel (no_data_phy ver d stack) then NL80211_BAND_5GHZ else NL80211_BAND_2GHZ)\<rparr> = no_data_status d"
    unfolding no_data_status_def no_data_band_def no_data_phy_read by (rule refl)
  then show ?thesis
    unfolding iwl_mvm_rx_monitor_no_data_def Let_def no_data_ignored_def
    by (auto simp: format_is word_less_nat_alt SIZEOF_RX_NO_DATA_def SIZEOF_RX_NO_DATA_VER_3_def)
qed

lemma no_data_nss_effect:
  "report_signal (no_data_nss f d s) = report_signal s" "ms_zero_length_psdu_type (no_data_nss f d s) = ms_zero_length_psdu_type s"
  "ms_band (no_data_nss f d s) = ms_band s" "ms_flag (no_data_nss f d s) = ms_flag s"
  "(rate_fmt_v2 r \<notin> {Fmt_VHT, Fmt_HE, Fmt_EHT} \<Longrightarrow> ms_nss s = 0) \<Longrightarrow>
   unat (ms_nss (no_data_nss (r AND RATE_MCS_MOD_TYPE_MSK) d s)) = no_data_streams (rate_fmt_v2 r) d"
  by (auto simp: no_data_nss_def report_signal_def format_is no_data_fields no_data_rx_vec_def no_data_streams_def
      unat_no_data_nss split: rate_fmt.split)

text \<open>C39: A notification about a frame without data is ignored during a hardware restart, when it is too short for its
  version, when it reports an EHT frame before the third version, and when no buffer is to be had. Otherwise it is
  reported with at most 84 bytes of radiotap fields, as a frame without content, with the kind, the time, the channel and band,
  the energy of the chains and the number of streams that it says.
\<close>

theorem no_data_report_right:
  "case iwl_mvm_rx_monitor_no_data env ver queue pkt_len d stack of
     None \<Rightarrow> no_data_ignored env ver pkt_len d
   | Some (bytes, s) \<Rightarrow> \<not> no_data_ignored env ver pkt_len d \<and> length bytes \<le> 84 \<and> tst (ms_flag s) RX_FLAG_NO_PSDU \<and>
       ms_zero_length_psdu_type s = no_data_kind d \<and> ms_device_timestamp s = le32_at d 8 \<and> ms_band s = no_data_band d \<and>
       ms_freq s = ieee80211_channel_to_frequency (no_data_channel d) (no_data_band d) \<and>
       ms_chain_signal s = (no_data_energy d 0, no_data_energy d 1) \<and>
       unat (ms_nss s) = no_data_streams (rate_fmt_v2 (no_data_rate ver d)) d"
proof -
  let ?pd = "no_data_phy ver d stack" and ?dev = "env_dev env"
  obtain bytes s where f: "iwl_mvm_rx_fill_status ?dev (cur_aid env) (monitor_p80 env) queue ?pd (no_data_status d)
      = Some (bytes, with_info_type ?pd, s)"
    using fill_status_returns by blast
  have len: "length bytes \<le> 84" using fill_status_length [OF f] by (simp split: if_splits)
  have flag: "tst (ms_flag s) RX_FLAG_NO_PSDU"
    using fill_status_flag [OF report_keeps_flags(2) f] by (simp add: no_data_status_def tst_def RX_FLAG_NO_PSDU_def)
  note v = fill_status_values [OF f, unfolded no_data_phy_read]
  have n: "unat (ms_nss (no_data_nss (no_data_rate ver d AND RATE_MCS_MOD_TYPE_MSK) d s)) = no_data_streams (rate_fmt_v2 (no_data_rate ver d)) d"
    by (rule no_data_nss_effect(5)) (use v(6) in \<open>simp add: no_data_status_def zero_rx_status_def\<close>)
  have "iwl_mvm_rx_monitor_no_data env ver queue pkt_len d stack = (if no_data_ignored env ver pkt_len d then None
      else Some (bytes, no_data_nss (no_data_rate ver d AND RATE_MCS_MOD_TYPE_MSK) d s))"
    by (simp add: no_data_result f)
  then show ?thesis
    using len flag v(1-5) no_data_nss_effect(1) [of "no_data_rate ver d AND RATE_MCS_MOD_TYPE_MSK" d s]
    by (simp add: no_data_nss_effect(2-4) n no_data_status_def report_signal_def)
qed

section \<open>The contents of the stack\<close>

text \<open>Without HE and EHT fields the words that the function does not set play no part.\<close>

lemma no_data_legacy:
  assumes "rate_fmt_v2 (no_data_rate ver d) \<noteq> Fmt_HE" "rate_fmt_v2 (no_data_rate ver d) \<noteq> Fmt_EHT"
  shows "iwl_mvm_rx_monitor_no_data env ver queue pkt_len d stack = iwl_mvm_rx_monitor_no_data env ver queue pkt_len d stack'"
  unfolding no_data_result by (intro if_cong refl fill_status_legacy assms)

text \<open>C40: The report of a frame without data can show what the stack of the kernel held before: with an extended
  report of a trigger-based HE frame, the spatial reuse fields of the radiotap header are the low half of a word of
  the PHY data that the function never sets. The report of a frame that is neither HE nor EHT does not depend on it.
\<close>

theorem no_data_shows_stack:
  assumes r: "iwl_mvm_rx_monitor_no_data env ver queue pkt_len d stack = Some (bytes, s)"
  shows "(rate_fmt_v2 (no_data_rate ver d) = Fmt_HE \<and>
      get_bits (le32_at d 24) IWL_RX_PHY_DATA1_INFO_TYPE_MASK = IWL_RX_PHY_INFO_TYPE_HE_TB_EXT
      \<longrightarrow> take 2 (drop 6 bytes) = le_bytes 2 (ucast (pd_d2 stack) :: u16)) \<and>
    (rate_fmt_v2 (no_data_rate ver d) \<notin> {Fmt_HE, Fmt_EHT}
      \<longrightarrow> iwl_mvm_rx_monitor_no_data env ver queue pkt_len d stack' = Some (bytes, s))"
proof (intro conjI impI; (elim conjE)?)
  let ?pd = "no_data_phy ver d stack"
  assume he: "rate_fmt_v2 (no_data_rate ver d) = Fmt_HE"
    "get_bits (le32_at d 24) IWL_RX_PHY_DATA1_INFO_TYPE_MASK = IWL_RX_PHY_INFO_TYPE_HE_TB_EXT"
  obtain s' pd' where f: "iwl_mvm_rx_fill_status (env_dev env) (cur_aid env) (monitor_p80 env) queue ?pd (no_data_status d)
      = Some (bytes, pd', s')"
    using r by (auto simp: no_data_result split: if_splits)
  note c = fill_status_composition [OF f]
  have "pd_info_type pd' = IWL_RX_PHY_INFO_TYPE_HE_TB_EXT" "tst (pd_phy_info pd') IWL_RX_MPDU_PHY_TSF_OVERLOAD"
    "pd_d2 pd' = pd_d2 stack"
    using he(2) by (simp_all add: c(1) with_info_type_def)
  then have "he_data4 (he_rate_fields (no_data_rate ver d) (he_phy_fields pd')) = ucast (pd_d2 stack)"
    by (simp add: tb_ext_data4)
  then show "take 2 (drop 6 bytes) = le_bytes 2 (ucast (pd_d2 stack) :: u16)"
    by (simp add: c(3) he(1) he_part_def he_bytes_data4)
next
  assume "rate_fmt_v2 (no_data_rate ver d) \<notin> {Fmt_HE, Fmt_EHT}"
  then show "iwl_mvm_rx_monitor_no_data env ver queue pkt_len d stack' = Some (bytes, s)"
    using r no_data_legacy [of ver d env queue pkt_len stack' stack] by simp
qed

text \<open>A trigger-based HE frame that was not captured, on channel 36, over a stack of known contents.\<close>

definition demo_no_data :: "u8 list" where
  "demo_no_data = [4, 0, 0, 0] @ [40, 50, 36, 0] @ replicate 8 0 @ [0, 4, 128, 1] @ replicate 4 0 @ [0, 0, 0, 160] @ replicate 16 0"

definition demo_stack :: iwl_mvm_rx_phy_data where
  "demo_stack = (demo_phy_data 0 0)\<lparr>pd_d2 := 0xDEADBEEF\<rparr>"

theorem no_data_shows_stack_witness:
  "\<exists>bytes s. iwl_mvm_rx_monitor_no_data demo_env 3 0 44 demo_no_data demo_stack = Some (bytes, s) \<and>
     take 2 (drop 6 bytes) = [0xEF, 0xBE]"
proof -
  have a: "\<not> no_data_ignored demo_env 3 44 demo_no_data" "rate_fmt_v2 (no_data_rate 3 demo_no_data) = Fmt_HE"
    "get_bits (le32_at demo_no_data 24) IWL_RX_PHY_DATA1_INFO_TYPE_MASK = IWL_RX_PHY_INFO_TYPE_HE_TB_EXT"
    "le_bytes 2 (ucast (pd_d2 demo_stack) :: u16) = [0xEF, 0xBE]"
    by code_simp+
  obtain bytes s where "iwl_mvm_rx_monitor_no_data demo_env 3 0 44 demo_no_data demo_stack = Some (bytes, s)"
    using fill_status_returns [of "env_dev demo_env" "cur_aid demo_env" "monitor_p80 demo_env" 0
        "no_data_phy 3 demo_no_data demo_stack" "no_data_status demo_no_data"] a(1)
    by (auto simp: no_data_result)
  then show ?thesis
    using no_data_shows_stack [where stack' = demo_stack] a by (metis (no_types, lifting))
qed

end
